(* ===== verification/Prelude.thy ===== *)
theory Prelude
  imports Main "HOL-Library.Finite_Map" "HOL-Library.List_Lexorder" "HOL-Library.Char_ord"
    "HOL-Library.Sublist" "HOL-Library.Multiset"
begin

text \<open>
  Shared vocabulary of the development: Go's errors as values, results and state-passing
  operations with their early return, and the parts of Go's standard library that the program
  uses on strings, decimal numbers and slices (\<^verbatim>\<open>strings\<close>, \<^verbatim>\<open>strconv\<close>, \<^verbatim>\<open>fmt\<close> with
  \<^verbatim>\<open>%d\<close>, \<^verbatim>\<open>sort\<close>, \<^verbatim>\<open>errors\<close>), with the generic lemmas the component theories share.
  A Go string is the list of its bytes; Go orders strings bytewise and lexicographically, which
  is the order of \<^verbatim>\<open>HOL-Library.List_Lexorder\<close> over \<^verbatim>\<open>HOL-Library.Char_ord\<close>.
\<close>

named_theorems result_simps \<open>evaluation of results and state-passing operations\<close>
named_theorems string_simps \<open>evaluation and round trips of the string library\<close>

section \<open>Errors\<close>

text \<open>
  An \<open>error\<close> of the program: the sentinels of the etcd package, an HTTP error of the API
  client, a cancelled context, a fresh message (\<^verbatim>\<open>errors.New\<close>, \<^verbatim>\<open>fmt.Errorf\<close> without
  \<^verbatim>\<open>%w\<close>), a message that wraps another error (\<^verbatim>\<open>fmt.Errorf("...: %w", err)\<close>), and
  one that adds a detail behind it (\<^verbatim>\<open>fmt.Errorf("...: %w: %s", err, detail)\<close>).
\<close>

datatype goerror =
    ErrNotFound
  | ErrAlreadyExists
  | ErrConflict
  | ContextCanceled
  | HTTPError int string
  | NewError string
  | WrapError string goerror
  | WrapErrorDetail string goerror string

fun errors_Is :: "goerror \<Rightarrow> goerror \<Rightarrow> bool" where
  "errors_Is (WrapError m e) target = (WrapError m e = target \<or> errors_Is e target)"
| "errors_Is (WrapErrorDetail m e d) target = (WrapErrorDetail m e d = target \<or> errors_Is e target)"
| "errors_Is e target = (e = target)"

fun errors_As_HTTPError :: "goerror \<Rightarrow> int option" where
  "errors_As_HTTPError (HTTPError code m) = Some code"
| "errors_As_HTTPError (WrapError m e) = errors_As_HTTPError e"
| "errors_As_HTTPError (WrapErrorDetail m e d) = errors_As_HTTPError e"
| "errors_As_HTTPError _ = None"

type_synonym 'a result = "goerror + 'a"

text \<open>
  An operation with effects takes the state of the world and returns its result and the new
  state. \<open>andThen\<close> is the pattern \<^verbatim>\<open>x, err := op(); if err != nil { return err }\<close>: the first
  error ends the sequence and the state reached so far is kept.
\<close>

type_synonym ('w, 'a) operation = "'w \<Rightarrow> 'a result \<times> 'w"

definition returning :: "'a \<Rightarrow> ('w, 'a) operation" where
  "returning a w = (Inr a, w)"

definition failing :: "goerror \<Rightarrow> ('w, 'a) operation" where
  "failing e w = (Inl e, w)"

definition andThen :: "('w, 'a) operation \<Rightarrow> ('a \<Rightarrow> ('w, 'b) operation) \<Rightarrow> ('w, 'b) operation" where
  "andThen m f w = (case m w of (Inl e, w') \<Rightarrow> (Inl e, w') | (Inr a, w') \<Rightarrow> f a w')"

lemma andThen_simps [result_simps]:
  "m w = (Inl e, w') \<Longrightarrow> andThen m f w = (Inl e, w')"
  "m w = (Inr a, w') \<Longrightarrow> andThen m f w = f a w'"
  by (simp_all add: andThen_def)

lemma returning_simp [result_simps]: "returning a w = (Inr a, w)"
  by (simp add: returning_def)

lemma failing_simp [result_simps]: "failing e w = (Inl e, w)"
  by (simp add: failing_def)

lemma andThen_InrE:
  assumes "andThen m f w = (Inr b, w')"
  obtains a w1 where "m w = (Inr a, w1)" and "f a w1 = (Inr b, w')"
  using assms by (auto simp: andThen_def split: prod.splits sum.splits)

lemma andThen_InlE:
  assumes "andThen m f w = (Inl e, w')"
  obtains (first) "m w = (Inl e, w')"
    | (second) a w1 where "m w = (Inr a, w1)" and "f a w1 = (Inl e, w')"
  using assms by (auto simp: andThen_def split: prod.splits sum.splits)

text \<open>\<^verbatim>\<open>if err := op(); err != nil { return fmt.Errorf("what: %w", err) }\<close>\<close>

definition wrapping :: "string \<Rightarrow> ('w, 'a) operation \<Rightarrow> ('w, 'a) operation" where
  "wrapping what m w = (case m w of (Inl e, w') \<Rightarrow> (Inl (WrapError what e), w') | r \<Rightarrow> r)"

text \<open>
  A component with memory of its own runs on pairs of that memory and the world outside.
\<close>

definition on_world :: "('w, 'a) operation \<Rightarrow> ('s \<times> 'w, 'a) operation" where
  "on_world m sw = (case m (snd sw) of (r, w') \<Rightarrow> (r, (fst sw, w')))"

definition get_memory :: "('s \<times> 'w, 's) operation" where
  "get_memory sw = (Inr (fst sw), sw)"

definition put_memory :: "'s \<Rightarrow> ('s \<times> 'w, unit) operation" where
  "put_memory s sw = (Inr (), (s, snd sw))"

lemma memory_simps [result_simps]:
  "on_world m (s, w) = (fst (m w), (s, snd (m w)))"
  "get_memory (s, w) = (Inr s, (s, w))"
  "put_memory s' (s, w) = (Inr (), (s', w))"
  by (simp_all add: on_world_def get_memory_def put_memory_def split: prod.splits)

text \<open>An operation that leaves a view of the state alone, whatever its result.\<close>

definition keeps :: "('w \<Rightarrow> bool) \<Rightarrow> ('w \<Rightarrow> 'v) \<Rightarrow> ('w, 'a) operation \<Rightarrow> bool" where
  "keeps ok view m \<longleftrightarrow> (\<forall>w res w'. ok w \<longrightarrow> m w = (res, w') \<longrightarrow> ok w' \<and> view w' = view w)"

lemma keepsD: "keeps ok view m \<Longrightarrow> ok w \<Longrightarrow> m w = (res, w') \<Longrightarrow> ok w' \<and> view w' = view w"
  by (auto simp: keeps_def)

lemma keeps_returning [simp]: "keeps ok view (returning a)"
  by (simp add: keeps_def returning_def)

lemma keeps_failing [simp]: "keeps ok view (failing e)"
  by (simp add: keeps_def failing_def)

lemma keeps_andThen [intro]:
  assumes m: "keeps ok view m" and f: "\<And>a. keeps ok view (f a)"
  shows "keeps ok view (andThen m f)"
  unfolding keeps_def
proof (intro allI impI)
  fix w res w' assume w: "ok w" and res: "andThen m f w = (res, w')"
  obtain r w1 where r: "m w = (r, w1)" by fastforce
  from keepsD [OF m w r] have w1: "ok w1" "view w1 = view w" by auto
  show "ok w' \<and> view w' = view w"
  proof (cases r)
    case (Inl e)
    with r res w1 show ?thesis by (simp add: andThen_def)
  next
    case (Inr a)
    with r res have "f a w1 = (res, w')" by (simp add: andThen_def)
    from keepsD [OF f w1(1) this] w1 show ?thesis by simp
  qed
qed

lemma keeps_wrapping [intro]: "keeps ok view m \<Longrightarrow> keeps ok view (wrapping what m)"
  by (auto simp: keeps_def wrapping_def split: prod.splits sum.splits)

section \<open>Integers of fixed width\<close>

text \<open>Go's \<^verbatim>\<open>int\<close> and \<^verbatim>\<open>int64\<close> have 64 bits; arithmetic on them wraps around.\<close>

definition int64_min :: int where "int64_min = - 9223372036854775808"
definition int64_max :: int where "int64_max = 9223372036854775807"

definition int64_wrap :: "int \<Rightarrow> int" where
  "int64_wrap x = (x + 9223372036854775808) mod 18446744073709551616 - 9223372036854775808"

definition in_int64 :: "int \<Rightarrow> bool" where
  "in_int64 x \<longleftrightarrow> int64_min \<le> x \<and> x \<le> int64_max"

lemma int64_wrap_id [simp]: "in_int64 x \<Longrightarrow> int64_wrap x = x"
  by (simp add: in_int64_def int64_wrap_def int64_min_def int64_max_def)

lemma in_int64_wrap: "in_int64 (int64_wrap x)"
proof -
  have "0 \<le> (x + 9223372036854775808) mod 18446744073709551616"
    by simp
  moreover have "(x + 9223372036854775808) mod 18446744073709551616 < 18446744073709551616"
    by simp
  ultimately show ?thesis
    unfolding in_int64_def int64_wrap_def int64_min_def int64_max_def by arith
qed

section \<open>Strings\<close>

fun strings_Split :: "string \<Rightarrow> char \<Rightarrow> string list" where
  "strings_Split [] c = [[]]"
| "strings_Split (x # xs) c =
     (if x = c then [] # strings_Split xs c
      else (case strings_Split xs c of y # ys \<Rightarrow> (x # y) # ys | [] \<Rightarrow> [[x]]))"

definition strings_TrimLeft :: "string \<Rightarrow> char \<Rightarrow> string" where
  "strings_TrimLeft s c = dropWhile (\<lambda>x. x = c) s"

definition strings_TrimRight :: "string \<Rightarrow> char \<Rightarrow> string" where
  "strings_TrimRight s c = rev (dropWhile (\<lambda>x. x = c) (rev s))"

definition strings_Trim :: "string \<Rightarrow> char \<Rightarrow> string" where
  "strings_Trim s c = strings_TrimRight (strings_TrimLeft s c) c"

definition strings_HasPrefix :: "string \<Rightarrow> string \<Rightarrow> bool" where
  "strings_HasPrefix s p \<longleftrightarrow> take (length p) s = p"

definition strings_HasSuffix :: "string \<Rightarrow> string \<Rightarrow> bool" where
  "strings_HasSuffix s p \<longleftrightarrow> strings_HasPrefix (rev s) (rev p)"

definition strings_TrimSuffix :: "string \<Rightarrow> string \<Rightarrow> string" where
  "strings_TrimSuffix s p = (if strings_HasSuffix s p then take (length s - length p) s else s)"

text \<open>The concatenation of the elements with a separator between them.\<close>

fun strings_Join :: "string list \<Rightarrow> string \<Rightarrow> string" where
  "strings_Join [] sep = []"
| "strings_Join [x] sep = x"
| "strings_Join (x # y # ys) sep = x @ sep @ strings_Join (y # ys) sep"

definition strings_Contains :: "string \<Rightarrow> string \<Rightarrow> bool" where
  "strings_Contains s p = list_ex (\<lambda>t. strings_HasPrefix t p) (suffixes s)"

text \<open>White space is that of ASCII (tab, newline, vertical tab, form feed, return, blank).\<close>

definition is_space :: "char \<Rightarrow> bool" where
  "is_space c = (let n = of_char c :: nat in (9 \<le> n \<and> n \<le> 13) \<or> n = 32)"

definition strings_TrimSpace :: "string \<Rightarrow> string" where
  "strings_TrimSpace s = rev (dropWhile is_space (rev (dropWhile is_space s)))"

text \<open>
  \<open>strings_ToLower\<close> is Go's function on ASCII letters, the only letters of the names it is
  applied to (resource names and field names of the struct tags).
\<close>

definition to_lower_char :: "char \<Rightarrow> char" where
  "to_lower_char c =
     (let n = of_char c :: nat in if 65 \<le> n \<and> n \<le> 90 then char_of (n + 32) else c)"

definition strings_ToLower :: "string \<Rightarrow> string" where
  "strings_ToLower s = map to_lower_char s"

lemma strings_Split_nonempty [simp]: "strings_Split s c \<noteq> []"
  by (induction s c rule: strings_Split.induct) (auto split: list.splits)

lemma strings_Split_no_sep [string_simps]: "c \<notin> set s \<Longrightarrow> strings_Split s c = [s]"
  by (induction s c rule: strings_Split.induct) auto

lemma strings_Split_append [string_simps]:
  "c \<notin> set s \<Longrightarrow> strings_Split (s @ c # t) c = s # strings_Split t c"
  by (induction s c rule: strings_Split.induct) (auto split: list.splits)

lemma strings_Split_parts: "p \<in> set (strings_Split s c) \<Longrightarrow> c \<notin> set p"
proof (induction s c arbitrary: p rule: strings_Split.induct)
  case (1 c)
  then show ?case by simp
next
  case (2 x xs c)
  then show ?case by (fastforce split: if_splits list.splits)
qed

lemma strings_Split_Join: "strings_Join (strings_Split s c) [c] = s"
proof (induction s c rule: strings_Split.induct)
  case (1 c)
  then show ?case by simp
next
  case (2 x xs c)
  obtain y ys where s: "strings_Split xs c = y # ys"
    by (cases "strings_Split xs c") auto
  from 2 s show ?case by (cases ys) auto
qed

lemma strings_HasPrefix_append [simp]: "strings_HasPrefix (p @ s) p"
  by (simp add: strings_HasPrefix_def)

lemma strings_HasPrefix_iff: "strings_HasPrefix s p \<longleftrightarrow> (\<exists>t. s = p @ t)"
  by (metis append_take_drop_id strings_HasPrefix_append strings_HasPrefix_def)

lemma strings_Trim_id:
  "s = [] \<or> (hd s \<noteq> c \<and> last s \<noteq> c) \<Longrightarrow> strings_Trim s c = s"
proof (cases s)
  case Nil
  then show ?thesis
    by (simp add: strings_Trim_def strings_TrimRight_def strings_TrimLeft_def)
next
  case (Cons x xs)
  moreover assume "s = [] \<or> (hd s \<noteq> c \<and> last s \<noteq> c)"
  ultimately have "x \<noteq> c" and "last s \<noteq> c" and "s \<noteq> []"
    by auto
  moreover have "rev s = last s # rev (butlast s)"
    using \<open>s \<noteq> []\<close> by (metis append_butlast_last_id rev_eq_Cons_iff rev_rev_ident)
  ultimately show ?thesis
    using Cons
    by (simp add: strings_Trim_def strings_TrimRight_def strings_TrimLeft_def)
qed

lemma strings_Trim_Cons [string_simps]:
  "s \<noteq> [] \<Longrightarrow> hd s \<noteq> c \<Longrightarrow> last s \<noteq> c \<Longrightarrow> strings_Trim (c # s) c = s"
  using strings_Trim_id [of s c]
  by (simp add: strings_Trim_def strings_TrimLeft_def)


lemma find_SomeD: "find P xs = Some x \<Longrightarrow> x \<in> set xs \<and> P x"
  by (induction xs) (auto split: if_splits)

section \<open>Decimal numbers\<close>

definition digit_char :: "nat \<Rightarrow> char" where
  "digit_char d = char_of (48 + d)"

definition is_digit :: "char \<Rightarrow> bool" where
  "is_digit c = (let n = of_char c :: nat in 48 \<le> n \<and> n \<le> 57)"

definition digit_value :: "char \<Rightarrow> nat" where
  "digit_value c = (of_char c :: nat) - 48"

definition hex_value :: "char \<Rightarrow> nat option" where
  "hex_value c =
     (let n = of_char c :: nat in
      if is_digit c then Some (n - 48)
      else if 97 \<le> n \<and> n \<le> 102 then Some (n - 87)
      else if 65 \<le> n \<and> n \<le> 70 then Some (n - 55)
      else None)"

fun show_nat :: "nat \<Rightarrow> string" where
  "show_nat n = (if n < 10 then [digit_char n] else show_nat (n div 10) @ [digit_char (n mod 10)])"

declare show_nat.simps [simp del]

text \<open>\<open>strconv_Itoa\<close> is \<^verbatim>\<open>strconv.Itoa\<close> and the verb \<^verbatim>\<open>%d\<close>.\<close>

definition strconv_Itoa :: "int \<Rightarrow> string" where
  "strconv_Itoa i = (if i < 0 then CHR ''-'' # show_nat (nat (- i)) else show_nat (nat i))"

fun parse_digits :: "nat \<Rightarrow> string \<Rightarrow> nat option" where
  "parse_digits acc [] = Some acc"
| "parse_digits acc (c # cs) =
     (if is_digit c then parse_digits (10 * acc + digit_value c) cs else None)"

definition parse_nat :: "string \<Rightarrow> nat option" where
  "parse_nat s = (if s = [] then None else parse_digits 0 s)"

text \<open>
  \<^verbatim>\<open>strconv.ParseInt(s, 10, 64)\<close>: an optional sign, at least one digit, and a value that
  fits an \<^verbatim>\<open>int64\<close>; \<open>None\<close> is its error.
\<close>

definition strconv_ParseInt :: "string \<Rightarrow> int option" where
  "strconv_ParseInt s =
     (let (neg, digits) =
        (case s of c # cs \<Rightarrow>
           if c = CHR ''-'' then (True, cs) else if c = CHR ''+'' then (False, cs) else (False, s)
         | [] \<Rightarrow> (False, s))
      in case parse_nat digits of
           None \<Rightarrow> None
         | Some n \<Rightarrow>
             let i = (if neg then - int n else int n)
             in if in_int64 i then Some i else None)"

lemma is_digit_digit_char [simp]: "d < 10 \<Longrightarrow> is_digit (digit_char d)"
  by (simp add: is_digit_def digit_char_def)

lemma digit_value_digit_char [simp]: "d < 10 \<Longrightarrow> digit_value (digit_char d) = d"
  by (simp add: digit_value_def digit_char_def)

lemma show_nat_nonempty [simp]: "show_nat n \<noteq> []"
  by (subst show_nat.simps) simp

lemma show_nat_digits: "c \<in> set (show_nat n) \<Longrightarrow> is_digit c"
proof (induction n rule: show_nat.induct)
  case (1 n)
  then show ?case
    by (cases "n < 10") (auto simp: show_nat.simps [of n])
qed

lemma not_digit_not_in_show_nat: "\<not> is_digit c \<Longrightarrow> c \<notin> set (show_nat n)"
  using show_nat_digits by blast

lemma parse_digits_append:
  "parse_digits acc (s @ t) = Option.bind (parse_digits acc s) (\<lambda>n. parse_digits n t)"
  by (induction acc s rule: parse_digits.induct) auto

lemma parse_digits_show_nat: "parse_digits 0 (show_nat n) = Some n"
proof (induction n rule: show_nat.induct)
  case (1 n)
  show ?case
  proof (cases "n < 10")
    case True
    then show ?thesis by (simp add: show_nat.simps [of n])
  next
    case False
    with 1 show ?thesis
      by (simp add: show_nat.simps [of n] parse_digits_append)
  qed
qed

lemma parse_nat_show_nat [string_simps]: "parse_nat (show_nat n) = Some n"
  by (simp add: parse_nat_def parse_digits_show_nat)

lemma show_nat_inject [simp]: "show_nat m = show_nat n \<longleftrightarrow> m = n"
  by (metis option.inject parse_nat_show_nat)

lemma strconv_Itoa_inject [simp]: "0 \<le> i \<Longrightarrow> 0 \<le> j \<Longrightarrow> strconv_Itoa i = strconv_Itoa j \<longleftrightarrow> i = j"
  by (simp add: strconv_Itoa_def eq_nat_nat_iff)

lemma show_nat_hd: "is_digit (hd (show_nat n))"
  by (meson show_nat_digits hd_in_set show_nat_nonempty)

lemma show_nat_last: "is_digit (last (show_nat n))"
  by (meson show_nat_digits last_in_set show_nat_nonempty)

lemma ParseInt_Itoa [string_simps]:
  assumes "0 \<le> i" and "in_int64 i"
  shows "strconv_ParseInt (strconv_Itoa i) = Some i"
proof -
  obtain c cs where s: "show_nat (nat i) = c # cs"
    by (cases "show_nat (nat i)") auto
  then have "is_digit c"
    using show_nat_hd [of "nat i"] by simp
  then have "c \<noteq> CHR ''-''" and "c \<noteq> CHR ''+''"
    by (auto simp: is_digit_def)
  with assms s show ?thesis
    using parse_nat_show_nat [of "nat i"]
    by (simp add: strconv_ParseInt_def strconv_Itoa_def)
qed

lemma ParseInt_bounds: "strconv_ParseInt s = Some i \<Longrightarrow> in_int64 i"
  by (auto simp: strconv_ParseInt_def Let_def split: option.splits if_splits prod.splits)

section \<open>Error messages\<close>

text \<open>
  \<open>err_Error\<close> is the method \<^verbatim>\<open>Error()\<close>, the text that reaches a client or the log.
  \<open>quoted\<close> is the verb \<^verbatim>\<open>%q\<close> on strings that need no escapes.
\<close>

definition HTTPError_Error :: "int \<Rightarrow> string \<Rightarrow> string" where
  "HTTPError_Error code message =
     (if message = [] then ''API request failed with status '' @ strconv_Itoa code
      else ''API request failed with status '' @ strconv_Itoa code @ '': '' @ message)"

fun err_Error :: "goerror \<Rightarrow> string" where
  "err_Error ErrNotFound = ''object not found''"
| "err_Error ErrAlreadyExists = ''object already exists''"
| "err_Error ErrConflict = ''resource version conflict''"
| "err_Error ContextCanceled = ''context canceled''"
| "err_Error (HTTPError code message) = HTTPError_Error code message"
| "err_Error (NewError message) = message"
| "err_Error (WrapError message e) = message @ '': '' @ err_Error e"
| "err_Error (WrapErrorDetail message e detail) = message @ '': '' @ err_Error e @ '': '' @ detail"

definition quoted :: "string \<Rightarrow> string" where
  "quoted s = CHR 0x22 # s @ [CHR 0x22]"

section \<open>Maps entry by entry\<close>

lemma fmap_of_rev_sorted: "fmap_of_list (rev (sorted_list_of_fmap f)) = f"
proof -
  have "distinct (map fst (sorted_list_of_fmap f))"
    by (simp add: sorted_list_of_fmap_def comp_def sorted_list_of_fset.rep_eq)
  then have "map_of (rev (sorted_list_of_fmap f)) = fmlookup f"
    using map_of_inject_set [of "rev (sorted_list_of_fmap f)" "sorted_list_of_fmap f"]
    by (simp add: rev_map [symmetric])
  then show ?thesis by (metis fmap_ext fmlookup_of_list)
qed

lemma fmupd_add_rev:
  "fmupd k v f ++\<^sub>f fmap_of_list (rev xs) = f ++\<^sub>f fmap_of_list (rev xs @ [(k, v)])"
  by (rule fmap_ext) (auto simp: fmlookup_of_list map_add_def split: option.splits)

lemma fold_fmupd: "fold (\<lambda>(k, v) m. fmupd k v m) xs m = m ++\<^sub>f fmap_of_list (rev xs)"
proof (induction xs arbitrary: m)
  case (Cons x xs)
  obtain k v where x: "x = (k, v)" by (cases x)
  show ?case
    unfolding x rev.simps fmupd_add_rev [symmetric]
    by (simp only: fold_simps prod.case Cons.IH)
qed simp

section \<open>Sorting a slice\<close>

text \<open>
  \<open>sort_Slice lt xs\<close> is \<^verbatim>\<open>sort.Slice\<close>: a permutation of the slice in the order of
  \<open>lt\<close>. The library leaves the order of elements that \<open>lt\<close> does not separate
  unspecified; the model is insertion sort, which keeps their order, as the library's own
  routine does on slices of at most twelve elements. \<open>sort_Slice_unique\<close> says when the
  result does not depend on that choice.
\<close>

fun insert_sorted :: "('a \<Rightarrow> 'a \<Rightarrow> bool) \<Rightarrow> 'a \<Rightarrow> 'a list \<Rightarrow> 'a list" where
  "insert_sorted lt x [] = [x]"
| "insert_sorted lt x (y # ys) =
     (if lt y x then y # insert_sorted lt x ys else x # y # ys)"

fun sort_Slice :: "('a \<Rightarrow> 'a \<Rightarrow> bool) \<Rightarrow> 'a list \<Rightarrow> 'a list" where
  "sort_Slice lt [] = []"
| "sort_Slice lt (x # xs) = insert_sorted lt x (sort_Slice lt xs)"

text \<open>What \<^verbatim>\<open>sort.Slice\<close> asks of \<open>lt\<close>: a strict weak order.\<close>

definition strict_weak_order :: "('a \<Rightarrow> 'a \<Rightarrow> bool) \<Rightarrow> bool" where
  "strict_weak_order lt \<longleftrightarrow>
     (\<forall>x. \<not> lt x x) \<and>
     (\<forall>x y z. lt x y \<longrightarrow> lt y z \<longrightarrow> lt x z) \<and>
     (\<forall>x y z. lt x y \<longrightarrow> lt x z \<or> lt z y)"

lemma strict_weak_order_key: "strict_weak_order (\<lambda>a b. f a < (f b :: 'k :: linorder))"
  by (auto simp: strict_weak_order_def)

lemma mset_insert_sorted [simp]: "mset (insert_sorted lt x xs) = add_mset x (mset xs)"
  by (induction xs) auto

lemma mset_sort_Slice [simp]: "mset (sort_Slice lt xs) = mset xs"
  by (induction xs) auto

lemma set_sort_Slice [simp]: "set (sort_Slice lt xs) = set xs"
  by (metis mset_sort_Slice set_mset_mset)

lemma length_sort_Slice [simp]: "length (sort_Slice lt xs) = length xs"
  by (metis mset_sort_Slice size_mset)

lemma distinct_map_sort_Slice [simp]: "distinct (map f (sort_Slice lt xs)) = distinct (map f xs)"
  by (metis mset_map mset_sort_Slice mset_eq_imp_distinct_iff)

lemma set_insert_sorted [simp]: "set (insert_sorted lt x xs) = insert x (set xs)"
  by (metis mset_insert_sorted set_mset_add_mset_insert set_mset_mset)

lemma sorted_insert_sorted:
  assumes "strict_weak_order lt" and "sorted_wrt (\<lambda>a b. \<not> lt b a) xs"
  shows "sorted_wrt (\<lambda>a b. \<not> lt b a) (insert_sorted lt x xs)"
  using assms(2)
proof (induction xs)
  case Nil
  then show ?case by simp
next
  case (Cons y ys)
  have irr: "\<And>a. \<not> lt a a" and tr: "\<And>a b c. lt a b \<Longrightarrow> lt b c \<Longrightarrow> lt a c"
    and neg: "\<And>a b c. lt a b \<Longrightarrow> lt a c \<or> lt c b"
    using assms(1) unfolding strict_weak_order_def by blast+
  from Cons have IH: "sorted_wrt (\<lambda>a b. \<not> lt b a) (insert_sorted lt x ys)"
    and y: "\<forall>z\<in>set ys. \<not> lt z y" and ys: "sorted_wrt (\<lambda>a b. \<not> lt b a) ys"
    by auto
  show ?case
  proof (cases "lt y x")
    case True
    have "\<not> lt x y" using True irr tr by blast
    with True IH y show ?thesis by simp
  next
    case False
    have "\<not> lt z x" if "z \<in> set ys" for z using that False y neg [of z x y] by blast
    with False y ys show ?thesis by simp
  qed
qed

lemma sorted_sort_Slice:
  "strict_weak_order lt \<Longrightarrow> sorted_wrt (\<lambda>a b. \<not> lt b a) (sort_Slice lt xs)"
  by (induction xs) (auto intro: sorted_insert_sorted)

lemma sorted_perm_unique:
  assumes tot: "\<And>x y. x \<in> set xs \<Longrightarrow> y \<in> set xs \<Longrightarrow> \<not> lt x y \<Longrightarrow> \<not> lt y x \<Longrightarrow> x = y"
    and "mset xs = mset ys"
    and "sorted_wrt (\<lambda>a b. \<not> lt b a) xs" and "sorted_wrt (\<lambda>a b. \<not> lt b a) ys"
  shows "xs = ys"
  using assms
proof (induction xs arbitrary: ys)
  case Nil
  then show ?case by simp
next
  case (Cons x xs)
  from Cons.prems(2) obtain y ys' where ys: "ys = y # ys'"
    by (cases ys) auto
  have "y \<in> set (x # xs)" and "x \<in> set (y # ys')"
    using Cons.prems(2) ys by (metis list.set_intros(1) set_mset_mset)+
  then have "x = y"
    using Cons.prems(1,3,4) ys by auto
  with Cons.prems ys have "mset xs = mset ys'"
    by simp
  moreover have "xs = ys'"
    by (rule Cons.IH) (use Cons.prems ys calculation in auto)
  ultimately show ?case using \<open>x = y\<close> ys by simp
qed

lemma sort_Slice_unique:
  assumes "strict_weak_order lt"
    and "\<And>x y. x \<in> set xs \<Longrightarrow> y \<in> set xs \<Longrightarrow> \<not> lt x y \<Longrightarrow> \<not> lt y x \<Longrightarrow> x = y"
    and "mset ys = mset xs" and "sorted_wrt (\<lambda>a b. \<not> lt b a) ys"
  shows "ys = sort_Slice lt xs"
proof (rule sorted_perm_unique [where lt = lt])
  show "mset ys = mset (sort_Slice lt xs)" using assms(3) by simp
  show "sorted_wrt (\<lambda>a b. \<not> lt b a) (sort_Slice lt xs)"
    by (rule sorted_sort_Slice [OF assms(1)])
  show "x = y" if "x \<in> set ys" "y \<in> set ys" "\<not> lt x y" "\<not> lt y x" for x y
    using that assms(2,3) by (metis set_mset_mset)
qed (rule assms(4))

end
