(* ===== verification/ApiTypes.thy ===== *)
theory ApiTypes
  imports Prelude
begin

text \<open>
  The resource model of \<^verbatim>\<open>api/types.go\<close> and the helpers of \<^verbatim>\<open>api/common.go\<close>.
  Every struct is a record whose fields are in the source's order (a prefix is added where two
  structs share a field name); a named string type is a string with its constants; the interface
  \<open>Resource\<close> is a datatype with one constructor per implementing pointer type.

  A Go slice or map is nil or holds elements, and \<^verbatim>\<open>reflect.DeepEqual\<close> tells nil from
  empty: \<open>None\<close> is nil, \<open>Some\<close> the contents, and HOL equality on the records is
  \<^verbatim>\<open>reflect.DeepEqual\<close>. A map holds finitely many keys, each once
  (\<^verbatim>\<open>HOL-Library.Finite_Map\<close>).
\<close>

section \<open>Slices and maps\<close>

type_synonym 'a slice = "'a list option"
type_synonym string_map = "(string, string) fmap option"

definition elems :: "'a slice \<Rightarrow> 'a list" where
  "elems s = (case s of None \<Rightarrow> [] | Some xs \<Rightarrow> xs)"

text \<open>Reading a key of a map: a missing key, or a nil map, gives the zero value.\<close>

definition map_index :: "string_map \<Rightarrow> string \<Rightarrow> string" where
  "map_index m k =
     (case m of None \<Rightarrow> [] | Some f \<Rightarrow> (case fmlookup f k of None \<Rightarrow> [] | Some v \<Rightarrow> v))"

definition map_has_key :: "string_map \<Rightarrow> string \<Rightarrow> bool" where
  "map_has_key m k = (case m of None \<Rightarrow> False | Some f \<Rightarrow> fmlookup f k \<noteq> None)"

lemma elems_simps [simp]: "elems None = []" "elems (Some xs) = xs"
  by (simp_all add: elems_def)

lemma map_index_simps [simp]:
  "map_index None k = []"
  "fmlookup f k = None \<Longrightarrow> map_index (Some f) k = []"
  "fmlookup f k = Some v \<Longrightarrow> map_index (Some f) k = v"
  by (simp_all add: map_index_def)

section \<open>Metadata\<close>

definition APIVersionV1 :: string where "APIVersionV1 = ''v1''"

record TypeMeta =
  APIVersion :: string
  Kind :: string

record OwnerReference =
  ownerKind :: string
  ownerName :: string
  ownerUID :: string

record ObjectMeta =
  Name :: string
  UID :: string
  ResourceVersion :: int
  Labels :: string_map
  Annotations :: string_map
  OwnerReferences :: "OwnerReference slice"

section \<open>Nodes\<close>

type_synonym NodePhase = string

definition NodeReady :: NodePhase where "NodeReady = ''Ready''"
definition NodeNotReady :: NodePhase where "NodeNotReady = ''NotReady''"

record NodeSpec =
  PodCIDR :: string

record NodeStatus =
  nodePhase :: NodePhase

record Node =
  nodeTypeMeta :: TypeMeta
  nodeMeta :: ObjectMeta
  nodeSpec :: NodeSpec
  nodeStatus :: NodeStatus

section \<open>Pods\<close>

type_synonym PodPhase = string

definition PodPending :: PodPhase where "PodPending = ''Pending''"
definition PodRunning :: PodPhase where "PodRunning = ''Running''"
definition PodSucceeded :: PodPhase where "PodSucceeded = ''Succeeded''"
definition PodFailed :: PodPhase where "PodFailed = ''Failed''"

record ContainerPort =
  portName :: string
  containerPort :: int

record Container =
  containerName :: string
  containerImage :: string
  containerCommand :: "string slice"
  containerPorts :: "ContainerPort slice"

record PodSpec =
  NodeName :: string
  HostNetwork :: bool
  Containers :: "Container slice"

record PodStatus =
  podPhase :: PodPhase
  PodIP :: string

record Pod =
  podTypeMeta :: TypeMeta
  podMeta :: ObjectMeta
  podSpec :: PodSpec
  podStatus :: PodStatus

record PodTemplateSpec =
  templateMeta :: ObjectMeta
  templateSpec :: PodSpec

section \<open>Deployments and ReplicaSets\<close>

record DeploymentSpec =
  deploymentReplicas :: int
  deploymentSelector :: string_map
  deploymentTemplate :: PodTemplateSpec

record DeploymentStatus =
  deploymentStatusReplicas :: int

record Deployment =
  deploymentTypeMeta :: TypeMeta
  deploymentMeta :: ObjectMeta
  deploymentSpec :: DeploymentSpec
  deploymentStatus :: DeploymentStatus

record ReplicaSetSpec =
  rsReplicas :: int
  rsSelector :: string_map
  rsTemplate :: PodTemplateSpec

record ReplicaSetStatus =
  rsStatusReplicas :: int

record ReplicaSet =
  rsTypeMeta :: TypeMeta
  rsMeta :: ObjectMeta
  rsSpec :: ReplicaSetSpec
  rsStatus :: ReplicaSetStatus

section \<open>Services\<close>

type_synonym ServiceType = string

definition ServiceClusterIP :: ServiceType where "ServiceClusterIP = ''ClusterIP''"
definition ServiceNodePort :: ServiceType where "ServiceNodePort = ''NodePort''"

record ServiceSpec =
  svcSelector :: string_map
  svcType :: ServiceType
  ClusterIP :: string
  svcPort :: int
  TargetPort :: int
  svcNodePort :: int

record Service =
  svcTypeMeta :: TypeMeta
  svcMeta :: ObjectMeta
  svcSpec :: ServiceSpec

section \<open>Zero values\<close>

definition zero_TypeMeta :: TypeMeta where
  "zero_TypeMeta = \<lparr>APIVersion = [], Kind = []\<rparr>"

definition zero_ObjectMeta :: ObjectMeta where
  "zero_ObjectMeta = \<lparr>Name = [], UID = [], ResourceVersion = 0, Labels = None,
     Annotations = None, OwnerReferences = None\<rparr>"

definition zero_OwnerReference :: OwnerReference where
  "zero_OwnerReference = \<lparr>ownerKind = [], ownerName = [], ownerUID = []\<rparr>"

definition zero_NodeSpec :: NodeSpec where "zero_NodeSpec = \<lparr>PodCIDR = []\<rparr>"
definition zero_NodeStatus :: NodeStatus where "zero_NodeStatus = \<lparr>nodePhase = []\<rparr>"

definition zero_Node :: Node where
  "zero_Node = \<lparr>nodeTypeMeta = zero_TypeMeta, nodeMeta = zero_ObjectMeta,
     nodeSpec = zero_NodeSpec, nodeStatus = zero_NodeStatus\<rparr>"

definition zero_ContainerPort :: ContainerPort where
  "zero_ContainerPort = \<lparr>portName = [], containerPort = 0\<rparr>"

definition zero_Container :: Container where
  "zero_Container = \<lparr>containerName = [], containerImage = [], containerCommand = None,
     containerPorts = None\<rparr>"

definition zero_PodSpec :: PodSpec where
  "zero_PodSpec = \<lparr>NodeName = [], HostNetwork = False, Containers = None\<rparr>"

definition zero_PodStatus :: PodStatus where "zero_PodStatus = \<lparr>podPhase = [], PodIP = []\<rparr>"

definition zero_Pod :: Pod where
  "zero_Pod = \<lparr>podTypeMeta = zero_TypeMeta, podMeta = zero_ObjectMeta,
     podSpec = zero_PodSpec, podStatus = zero_PodStatus\<rparr>"

definition zero_PodTemplateSpec :: PodTemplateSpec where
  "zero_PodTemplateSpec = \<lparr>templateMeta = zero_ObjectMeta, templateSpec = zero_PodSpec\<rparr>"

definition zero_DeploymentSpec :: DeploymentSpec where
  "zero_DeploymentSpec = \<lparr>deploymentReplicas = 0, deploymentSelector = None,
     deploymentTemplate = zero_PodTemplateSpec\<rparr>"

definition zero_DeploymentStatus :: DeploymentStatus where
  "zero_DeploymentStatus = \<lparr>deploymentStatusReplicas = 0\<rparr>"

definition zero_Deployment :: Deployment where
  "zero_Deployment = \<lparr>deploymentTypeMeta = zero_TypeMeta, deploymentMeta = zero_ObjectMeta,
     deploymentSpec = zero_DeploymentSpec, deploymentStatus = zero_DeploymentStatus\<rparr>"

definition zero_ReplicaSetSpec :: ReplicaSetSpec where
  "zero_ReplicaSetSpec = \<lparr>rsReplicas = 0, rsSelector = None, rsTemplate = zero_PodTemplateSpec\<rparr>"

definition zero_ReplicaSetStatus :: ReplicaSetStatus where
  "zero_ReplicaSetStatus = \<lparr>rsStatusReplicas = 0\<rparr>"

definition zero_ReplicaSet :: ReplicaSet where
  "zero_ReplicaSet = \<lparr>rsTypeMeta = zero_TypeMeta, rsMeta = zero_ObjectMeta,
     rsSpec = zero_ReplicaSetSpec, rsStatus = zero_ReplicaSetStatus\<rparr>"

definition zero_ServiceSpec :: ServiceSpec where
  "zero_ServiceSpec = \<lparr>svcSelector = None, svcType = [], ClusterIP = [], svcPort = 0,
     TargetPort = 0, svcNodePort = 0\<rparr>"

definition zero_Service :: Service where
  "zero_Service = \<lparr>svcTypeMeta = zero_TypeMeta, svcMeta = zero_ObjectMeta,
     svcSpec = zero_ServiceSpec\<rparr>"

lemmas zero_defs =
  zero_TypeMeta_def zero_ObjectMeta_def zero_OwnerReference_def zero_NodeSpec_def
  zero_NodeStatus_def zero_Node_def zero_ContainerPort_def zero_Container_def zero_PodSpec_def
  zero_PodStatus_def zero_Pod_def zero_PodTemplateSpec_def zero_DeploymentSpec_def
  zero_DeploymentStatus_def zero_Deployment_def zero_ReplicaSetSpec_def
  zero_ReplicaSetStatus_def zero_ReplicaSet_def zero_ServiceSpec_def zero_Service_def

section \<open>The Resource interface\<close>

definition Node_GetName :: "Node \<Rightarrow> string" where
  "Node_GetName object = Name (nodeMeta object)"
definition Node_GetResourceVersion :: "Node \<Rightarrow> int" where
  "Node_GetResourceVersion object = ResourceVersion (nodeMeta object)"
definition Node_SetResourceVersion :: "int \<Rightarrow> Node \<Rightarrow> Node" where
  "Node_SetResourceVersion version object =
     object\<lparr>nodeMeta := (nodeMeta object)\<lparr>ResourceVersion := version\<rparr>\<rparr>"

definition Pod_GetName :: "Pod \<Rightarrow> string" where
  "Pod_GetName object = Name (podMeta object)"
definition Pod_GetResourceVersion :: "Pod \<Rightarrow> int" where
  "Pod_GetResourceVersion object = ResourceVersion (podMeta object)"
definition Pod_SetResourceVersion :: "int \<Rightarrow> Pod \<Rightarrow> Pod" where
  "Pod_SetResourceVersion version object =
     object\<lparr>podMeta := (podMeta object)\<lparr>ResourceVersion := version\<rparr>\<rparr>"

definition Deployment_GetName :: "Deployment \<Rightarrow> string" where
  "Deployment_GetName object = Name (deploymentMeta object)"
definition Deployment_GetResourceVersion :: "Deployment \<Rightarrow> int" where
  "Deployment_GetResourceVersion object = ResourceVersion (deploymentMeta object)"
definition Deployment_SetResourceVersion :: "int \<Rightarrow> Deployment \<Rightarrow> Deployment" where
  "Deployment_SetResourceVersion version object =
     object\<lparr>deploymentMeta := (deploymentMeta object)\<lparr>ResourceVersion := version\<rparr>\<rparr>"

definition ReplicaSet_GetName :: "ReplicaSet \<Rightarrow> string" where
  "ReplicaSet_GetName object = Name (rsMeta object)"
definition ReplicaSet_GetResourceVersion :: "ReplicaSet \<Rightarrow> int" where
  "ReplicaSet_GetResourceVersion object = ResourceVersion (rsMeta object)"
definition ReplicaSet_SetResourceVersion :: "int \<Rightarrow> ReplicaSet \<Rightarrow> ReplicaSet" where
  "ReplicaSet_SetResourceVersion version object =
     object\<lparr>rsMeta := (rsMeta object)\<lparr>ResourceVersion := version\<rparr>\<rparr>"

definition Service_GetName :: "Service \<Rightarrow> string" where
  "Service_GetName object = Name (svcMeta object)"
definition Service_GetResourceVersion :: "Service \<Rightarrow> int" where
  "Service_GetResourceVersion object = ResourceVersion (svcMeta object)"
definition Service_SetResourceVersion :: "int \<Rightarrow> Service \<Rightarrow> Service" where
  "Service_SetResourceVersion version object =
     object\<lparr>svcMeta := (svcMeta object)\<lparr>ResourceVersion := version\<rparr>\<rparr>"

lemmas version_defs [simp] =
  Node_GetName_def Node_GetResourceVersion_def Node_SetResourceVersion_def
  Pod_GetName_def Pod_GetResourceVersion_def Pod_SetResourceVersion_def
  Deployment_GetName_def Deployment_GetResourceVersion_def Deployment_SetResourceVersion_def
  ReplicaSet_GetName_def ReplicaSet_GetResourceVersion_def ReplicaSet_SetResourceVersion_def
  Service_GetName_def Service_GetResourceVersion_def Service_SetResourceVersion_def

datatype Resource =
    RNode Node
  | RPod Pod
  | RDeployment Deployment
  | RReplicaSet ReplicaSet
  | RService Service

fun GetName :: "Resource \<Rightarrow> string" where
  "GetName (RNode object) = Node_GetName object"
| "GetName (RPod object) = Pod_GetName object"
| "GetName (RDeployment object) = Deployment_GetName object"
| "GetName (RReplicaSet object) = ReplicaSet_GetName object"
| "GetName (RService object) = Service_GetName object"

fun GetResourceVersion :: "Resource \<Rightarrow> int" where
  "GetResourceVersion (RNode object) = Node_GetResourceVersion object"
| "GetResourceVersion (RPod object) = Pod_GetResourceVersion object"
| "GetResourceVersion (RDeployment object) = Deployment_GetResourceVersion object"
| "GetResourceVersion (RReplicaSet object) = ReplicaSet_GetResourceVersion object"
| "GetResourceVersion (RService object) = Service_GetResourceVersion object"

fun SetResourceVersion :: "int \<Rightarrow> Resource \<Rightarrow> Resource" where
  "SetResourceVersion version (RNode object) = RNode (Node_SetResourceVersion version object)"
| "SetResourceVersion version (RPod object) = RPod (Pod_SetResourceVersion version object)"
| "SetResourceVersion version (RDeployment object) =
     RDeployment (Deployment_SetResourceVersion version object)"
| "SetResourceVersion version (RReplicaSet object) =
     RReplicaSet (ReplicaSet_SetResourceVersion version object)"
| "SetResourceVersion version (RService object) =
     RService (Service_SetResourceVersion version object)"

lemma GetName_SetResourceVersion [simp]: "GetName (SetResourceVersion v r) = GetName r"
  by (cases r) simp_all

lemma GetResourceVersion_Set [simp]: "GetResourceVersion (SetResourceVersion v r) = v"
  by (cases r) simp_all

lemma SetResourceVersion_twice [simp]:
  "SetResourceVersion v (SetResourceVersion w r) = SetResourceVersion v r"
  by (cases r) simp_all

section \<open>Labels, names and identifiers\<close>

text \<open>
  \<^verbatim>\<open>LabelsMatch\<close> ranges over the selector; a label the object does not carry reads as
  the empty string.
\<close>

definition LabelsMatch :: "string_map \<Rightarrow> string_map \<Rightarrow> bool" where
  "LabelsMatch selector labels =
     (case selector of
        None \<Rightarrow> True
      | Some f \<Rightarrow> fmpred (\<lambda>key expected. map_index labels key = expected) f)"

lemma LabelsMatch_iff:
  "LabelsMatch selector labels \<longleftrightarrow>
     (\<forall>key. map_has_key selector key \<longrightarrow> map_index labels key = map_index selector key)"
  by (auto simp: LabelsMatch_def map_has_key_def map_index_def fmpred_iff split: option.splits)

lemma LabelsMatch_empty [simp]: "LabelsMatch None labels" "LabelsMatch (Some fmempty) labels"
  by (simp_all add: LabelsMatch_def)

lemma LabelsMatch_refl: "LabelsMatch labels labels"
  by (simp add: LabelsMatch_iff)

text \<open>
  \<^verbatim>\<open>randomHex\<close> reads bytes from \<^verbatim>\<open>crypto/rand\<close>, an argument of the model, and
  writes each as two hexadecimal digits.
\<close>

definition hex_digit :: "nat \<Rightarrow> char" where
  "hex_digit n = (if n < 10 then digit_char n else char_of (87 + n))"

definition hex_EncodeToString :: "nat list \<Rightarrow> string" where
  "hex_EncodeToString bytes = concat (map (\<lambda>b. [hex_digit (b div 16), hex_digit (b mod 16)]) bytes)"

definition randomHex :: "(nat \<Rightarrow> nat list result) \<Rightarrow> nat \<Rightarrow> string result" where
  "randomHex rand_Read nbytes =
     (case rand_Read nbytes of Inl e \<Rightarrow> Inl e | Inr bytes \<Rightarrow> Inr (hex_EncodeToString bytes))"

definition GenerateName :: "(nat \<Rightarrow> nat list result) \<Rightarrow> string \<Rightarrow> string result" where
  "GenerateName rand_Read namePrefix =
     (case randomHex rand_Read 4 of
        Inl e \<Rightarrow> Inl (WrapError ''generate name suffix'' e)
      | Inr nameSuffix \<Rightarrow> Inr (namePrefix @ nameSuffix))"

definition NewUID :: "(nat \<Rightarrow> nat list result) \<Rightarrow> string result" where
  "NewUID rand_Read = randomHex rand_Read 16"

lemma length_hex_EncodeToString [simp]: "length (hex_EncodeToString bytes) = 2 * length bytes"
  by (induction bytes) (simp_all add: hex_EncodeToString_def)

end
