(* ===== verification/JsonCodec.thy ===== *)
theory JsonCodec
  imports ApiTypes
begin

text \<open>
  The JSON form of the resources, as \<^verbatim>\<open>encoding/json\<close> derives it from the struct tags
  of \<^verbatim>\<open>api/types.go\<close>. A document is the tree of its values; the text of a document is
  not modelled. \<open>enc_T\<close> is \<^verbatim>\<open>json.Marshal\<close> on a value of type \<open>T\<close> and
  \<open>dec_T\<close> is \<^verbatim>\<open>json.Unmarshal\<close> into a value of type \<open>T\<close>: it starts from the
  value it is given, takes the members in their order, matches a member to a field by the exact
  name or else without regard to case, skips members of no field, leaves a field alone on null
  (a slice or map becomes nil) and fails on a value of the wrong type. The round-trip lemmas say
  what survives: everything but empty maps and slices under \<^verbatim>\<open>omitempty\<close>, which come back
  as nil.
\<close>

datatype json =
    JNull
  | JBool bool
  | JInt int
  | JDecimal string
  | JString string
  | JArray "json list"
  | JObject "(string \<times> json) list"

section \<open>Decoding into a struct\<close>

type_synonym 'r decoder = "json \<Rightarrow> 'r \<Rightarrow> 'r option"
type_synonym 'r fields = "(string \<times> 'r decoder) list"

definition find_field :: "'r fields \<Rightarrow> string \<Rightarrow> 'r decoder option" where
  "find_field fs k =
     (case find (\<lambda>f. fst f = k) fs of
        Some f \<Rightarrow> Some (snd f)
      | None \<Rightarrow>
          map_option snd (find (\<lambda>f. strings_ToLower (fst f) = strings_ToLower k) fs))"

fun dec_members :: "'r fields \<Rightarrow> (string \<times> json) list \<Rightarrow> 'r \<Rightarrow> 'r option" where
  "dec_members fs [] r = Some r"
| "dec_members fs ((k, v) # ms) r =
     (case find_field fs k of
        None \<Rightarrow> dec_members fs ms r
      | Some dec \<Rightarrow> (case dec v r of None \<Rightarrow> None | Some r' \<Rightarrow> dec_members fs ms r'))"

definition dec_struct :: "'r fields \<Rightarrow> 'r decoder" where
  "dec_struct fs j r =
     (case j of JNull \<Rightarrow> Some r | JObject ms \<Rightarrow> dec_members fs ms r | _ \<Rightarrow> None)"

text \<open>A field of a struct, from its getter, its setter and the decoder of its type.\<close>

definition field ::
    "string \<Rightarrow> ('r \<Rightarrow> 'a) \<Rightarrow> ('a \<Rightarrow> 'r \<Rightarrow> 'r) \<Rightarrow> 'a decoder \<Rightarrow> string \<times> 'r decoder" where
  "field name get put dec = (name, \<lambda>j r. map_option (\<lambda>x. put x r) (dec j (get r)))"

section \<open>Decoding basic values, slices and maps\<close>

definition dec_string :: "string decoder" where
  "dec_string j s = (case j of JNull \<Rightarrow> Some s | JString t \<Rightarrow> Some t | _ \<Rightarrow> None)"

definition dec_bool :: "bool decoder" where
  "dec_bool j b = (case j of JNull \<Rightarrow> Some b | JBool c \<Rightarrow> Some c | _ \<Rightarrow> None)"

definition dec_int :: "int decoder" where
  "dec_int j i =
     (case j of JNull \<Rightarrow> Some i | JInt n \<Rightarrow> if in_int64 n then Some n else None | _ \<Rightarrow> None)"

fun dec_list :: "'a decoder \<Rightarrow> 'a \<Rightarrow> json list \<Rightarrow> 'a list option" where
  "dec_list dec z [] = Some []"
| "dec_list dec z (j # js) =
     (case dec j z of
        None \<Rightarrow> None
      | Some x \<Rightarrow> (case dec_list dec z js of None \<Rightarrow> None | Some xs \<Rightarrow> Some (x # xs)))"

definition dec_slice :: "'a decoder \<Rightarrow> 'a \<Rightarrow> 'a slice decoder" where
  "dec_slice dec z j s =
     (case j of
        JNull \<Rightarrow> Some None
      | JArray js \<Rightarrow> (case dec_list dec z js of None \<Rightarrow> None | Some xs \<Rightarrow> Some (Some xs))
      | _ \<Rightarrow> None)"

fun dec_entries :: "(string \<times> json) list \<Rightarrow> (string, string) fmap \<Rightarrow> (string, string) fmap option" where
  "dec_entries [] f = Some f"
| "dec_entries ((k, v) # ms) f =
     (case dec_string v [] of None \<Rightarrow> None | Some s \<Rightarrow> dec_entries ms (fmupd k s f))"

definition dec_map :: "string_map decoder" where
  "dec_map j m =
     (case j of
        JNull \<Rightarrow> Some None
      | JObject ms \<Rightarrow>
          map_option Some (dec_entries ms (case m of None \<Rightarrow> fmempty | Some f \<Rightarrow> f))
      | _ \<Rightarrow> None)"

section \<open>Encoding basic values, slices and maps\<close>

definition enc_slice :: "('a \<Rightarrow> json) \<Rightarrow> 'a slice \<Rightarrow> json" where
  "enc_slice enc s = (case s of None \<Rightarrow> JNull | Some xs \<Rightarrow> JArray (map enc xs))"

text \<open>A map's members are written in the order of their keys.\<close>

definition enc_map :: "string_map \<Rightarrow> json" where
  "enc_map m =
     (case m of
        None \<Rightarrow> JNull
      | Some f \<Rightarrow> JObject (map (\<lambda>(k, v). (k, JString v)) (sorted_list_of_fmap f)))"

definition omitempty :: "bool \<Rightarrow> string \<Rightarrow> json \<Rightarrow> (string \<times> json) list" where
  "omitempty is_empty name j = (if is_empty then [] else [(name, j)])"

definition empty_map :: "string_map \<Rightarrow> bool" where
  "empty_map m = (case m of None \<Rightarrow> True | Some f \<Rightarrow> fmdom f = {||})"

definition empty_slice :: "'a slice \<Rightarrow> bool" where
  "empty_slice s = (elems s = [])"

section \<open>The structs of api/types.go\<close>

definition enc_TypeMeta :: "TypeMeta \<Rightarrow> (string \<times> json) list" where
  "enc_TypeMeta m =
     [(''apiVersion'', JString (APIVersion m)), (''kind'', JString (Kind m))]"

definition fields_TypeMeta :: "('r \<Rightarrow> TypeMeta) \<Rightarrow> (TypeMeta \<Rightarrow> 'r \<Rightarrow> 'r) \<Rightarrow> 'r fields" where
  "fields_TypeMeta get put =
     [field ''apiVersion'' (\<lambda>r. APIVersion (get r)) (\<lambda>x r. put ((get r)\<lparr>APIVersion := x\<rparr>) r) dec_string,
      field ''kind'' (\<lambda>r. Kind (get r)) (\<lambda>x r. put ((get r)\<lparr>Kind := x\<rparr>) r) dec_string]"

definition enc_OwnerReference :: "OwnerReference \<Rightarrow> json" where
  "enc_OwnerReference r =
     JObject [(''kind'', JString (ownerKind r)), (''name'', JString (ownerName r)),
       (''uid'', JString (ownerUID r))]"

definition dec_OwnerReference :: "OwnerReference decoder" where
  "dec_OwnerReference = dec_struct
     [field ''kind'' ownerKind (\<lambda>x r. r\<lparr>ownerKind := x\<rparr>) dec_string,
      field ''name'' ownerName (\<lambda>x r. r\<lparr>ownerName := x\<rparr>) dec_string,
      field ''uid'' ownerUID (\<lambda>x r. r\<lparr>ownerUID := x\<rparr>) dec_string]"

definition enc_ObjectMeta :: "ObjectMeta \<Rightarrow> json" where
  "enc_ObjectMeta m = JObject
     ([(''name'', JString (Name m))]
      @ omitempty (UID m = []) ''uid'' (JString (UID m))
      @ omitempty (ResourceVersion m = 0) ''resourceVersion'' (JInt (ResourceVersion m))
      @ omitempty (empty_map (Labels m)) ''labels'' (enc_map (Labels m))
      @ omitempty (empty_map (Annotations m)) ''annotations'' (enc_map (Annotations m))
      @ omitempty (empty_slice (OwnerReferences m)) ''ownerReferences''
          (enc_slice enc_OwnerReference (OwnerReferences m)))"

definition dec_ObjectMeta :: "ObjectMeta decoder" where
  "dec_ObjectMeta = dec_struct
     [field ''name'' Name (\<lambda>x r. r\<lparr>Name := x\<rparr>) dec_string,
      field ''uid'' UID (\<lambda>x r. r\<lparr>UID := x\<rparr>) dec_string,
      field ''resourceVersion'' ResourceVersion (\<lambda>x r. r\<lparr>ResourceVersion := x\<rparr>) dec_int,
      field ''labels'' Labels (\<lambda>x r. r\<lparr>Labels := x\<rparr>) dec_map,
      field ''annotations'' Annotations (\<lambda>x r. r\<lparr>Annotations := x\<rparr>) dec_map,
      field ''ownerReferences'' OwnerReferences (\<lambda>x r. r\<lparr>OwnerReferences := x\<rparr>)
        (dec_slice dec_OwnerReference zero_OwnerReference)]"

definition enc_NodeSpec :: "NodeSpec \<Rightarrow> json" where
  "enc_NodeSpec s = JObject [(''podCIDR'', JString (PodCIDR s))]"

definition dec_NodeSpec :: "NodeSpec decoder" where
  "dec_NodeSpec = dec_struct [field ''podCIDR'' PodCIDR (\<lambda>x r. r\<lparr>PodCIDR := x\<rparr>) dec_string]"

definition enc_NodeStatus :: "NodeStatus \<Rightarrow> json" where
  "enc_NodeStatus s = JObject (omitempty (nodePhase s = []) ''phase'' (JString (nodePhase s)))"

definition dec_NodeStatus :: "NodeStatus decoder" where
  "dec_NodeStatus = dec_struct [field ''phase'' nodePhase (\<lambda>x r. r\<lparr>nodePhase := x\<rparr>) dec_string]"

definition enc_Node :: "Node \<Rightarrow> json" where
  "enc_Node n = JObject
     (enc_TypeMeta (nodeTypeMeta n)
      @ [(''metadata'', enc_ObjectMeta (nodeMeta n)), (''spec'', enc_NodeSpec (nodeSpec n)),
         (''status'', enc_NodeStatus (nodeStatus n))])"

definition dec_Node :: "Node decoder" where
  "dec_Node = dec_struct
     (fields_TypeMeta nodeTypeMeta (\<lambda>x r. r\<lparr>nodeTypeMeta := x\<rparr>)
      @ [field ''metadata'' nodeMeta (\<lambda>x r. r\<lparr>nodeMeta := x\<rparr>) dec_ObjectMeta,
         field ''spec'' nodeSpec (\<lambda>x r. r\<lparr>nodeSpec := x\<rparr>) dec_NodeSpec,
         field ''status'' nodeStatus (\<lambda>x r. r\<lparr>nodeStatus := x\<rparr>) dec_NodeStatus])"

definition enc_ContainerPort :: "ContainerPort \<Rightarrow> json" where
  "enc_ContainerPort p = JObject
     (omitempty (portName p = []) ''name'' (JString (portName p))
      @ [(''containerPort'', JInt (containerPort p))])"

definition dec_ContainerPort :: "ContainerPort decoder" where
  "dec_ContainerPort = dec_struct
     [field ''name'' portName (\<lambda>x r. r\<lparr>portName := x\<rparr>) dec_string,
      field ''containerPort'' containerPort (\<lambda>x r. r\<lparr>containerPort := x\<rparr>) dec_int]"

definition enc_Container :: "Container \<Rightarrow> json" where
  "enc_Container c = JObject
     ([(''name'', JString (containerName c)), (''image'', JString (containerImage c))]
      @ omitempty (empty_slice (containerCommand c)) ''command'' (enc_slice JString (containerCommand c))
      @ omitempty (empty_slice (containerPorts c)) ''ports''
          (enc_slice enc_ContainerPort (containerPorts c)))"

definition dec_Container :: "Container decoder" where
  "dec_Container = dec_struct
     [field ''name'' containerName (\<lambda>x r. r\<lparr>containerName := x\<rparr>) dec_string,
      field ''image'' containerImage (\<lambda>x r. r\<lparr>containerImage := x\<rparr>) dec_string,
      field ''command'' containerCommand (\<lambda>x r. r\<lparr>containerCommand := x\<rparr>) (dec_slice dec_string []),
      field ''ports'' containerPorts (\<lambda>x r. r\<lparr>containerPorts := x\<rparr>)
        (dec_slice dec_ContainerPort zero_ContainerPort)]"

definition enc_PodSpec :: "PodSpec \<Rightarrow> json" where
  "enc_PodSpec s = JObject
     (omitempty (NodeName s = []) ''nodeName'' (JString (NodeName s))
      @ omitempty (\<not> HostNetwork s) ''hostNetwork'' (JBool (HostNetwork s))
      @ [(''containers'', enc_slice enc_Container (Containers s))])"

definition dec_PodSpec :: "PodSpec decoder" where
  "dec_PodSpec = dec_struct
     [field ''nodeName'' NodeName (\<lambda>x r. r\<lparr>NodeName := x\<rparr>) dec_string,
      field ''hostNetwork'' HostNetwork (\<lambda>x r. r\<lparr>HostNetwork := x\<rparr>) dec_bool,
      field ''containers'' Containers (\<lambda>x r. r\<lparr>Containers := x\<rparr>)
        (dec_slice dec_Container zero_Container)]"

definition enc_PodStatus :: "PodStatus \<Rightarrow> json" where
  "enc_PodStatus s = JObject
     (omitempty (podPhase s = []) ''phase'' (JString (podPhase s))
      @ omitempty (PodIP s = []) ''podIP'' (JString (PodIP s)))"

definition dec_PodStatus :: "PodStatus decoder" where
  "dec_PodStatus = dec_struct
     [field ''phase'' podPhase (\<lambda>x r. r\<lparr>podPhase := x\<rparr>) dec_string,
      field ''podIP'' PodIP (\<lambda>x r. r\<lparr>PodIP := x\<rparr>) dec_string]"

definition enc_Pod :: "Pod \<Rightarrow> json" where
  "enc_Pod p = JObject
     (enc_TypeMeta (podTypeMeta p)
      @ [(''metadata'', enc_ObjectMeta (podMeta p)), (''spec'', enc_PodSpec (podSpec p)),
         (''status'', enc_PodStatus (podStatus p))])"

definition dec_Pod :: "Pod decoder" where
  "dec_Pod = dec_struct
     (fields_TypeMeta podTypeMeta (\<lambda>x r. r\<lparr>podTypeMeta := x\<rparr>)
      @ [field ''metadata'' podMeta (\<lambda>x r. r\<lparr>podMeta := x\<rparr>) dec_ObjectMeta,
         field ''spec'' podSpec (\<lambda>x r. r\<lparr>podSpec := x\<rparr>) dec_PodSpec,
         field ''status'' podStatus (\<lambda>x r. r\<lparr>podStatus := x\<rparr>) dec_PodStatus])"

definition enc_PodTemplateSpec :: "PodTemplateSpec \<Rightarrow> json" where
  "enc_PodTemplateSpec t = JObject
     [(''metadata'', enc_ObjectMeta (templateMeta t)), (''spec'', enc_PodSpec (templateSpec t))]"

definition dec_PodTemplateSpec :: "PodTemplateSpec decoder" where
  "dec_PodTemplateSpec = dec_struct
     [field ''metadata'' templateMeta (\<lambda>x r. r\<lparr>templateMeta := x\<rparr>) dec_ObjectMeta,
      field ''spec'' templateSpec (\<lambda>x r. r\<lparr>templateSpec := x\<rparr>) dec_PodSpec]"

definition enc_DeploymentSpec :: "DeploymentSpec \<Rightarrow> json" where
  "enc_DeploymentSpec s = JObject
     [(''replicas'', JInt (deploymentReplicas s)), (''selector'', enc_map (deploymentSelector s)),
      (''template'', enc_PodTemplateSpec (deploymentTemplate s))]"

definition dec_DeploymentSpec :: "DeploymentSpec decoder" where
  "dec_DeploymentSpec = dec_struct
     [field ''replicas'' deploymentReplicas (\<lambda>x r. r\<lparr>deploymentReplicas := x\<rparr>) dec_int,
      field ''selector'' deploymentSelector (\<lambda>x r. r\<lparr>deploymentSelector := x\<rparr>) dec_map,
      field ''template'' deploymentTemplate (\<lambda>x r. r\<lparr>deploymentTemplate := x\<rparr>) dec_PodTemplateSpec]"

definition enc_DeploymentStatus :: "DeploymentStatus \<Rightarrow> json" where
  "enc_DeploymentStatus s = JObject
     (omitempty (deploymentStatusReplicas s = 0) ''replicas'' (JInt (deploymentStatusReplicas s)))"

definition dec_DeploymentStatus :: "DeploymentStatus decoder" where
  "dec_DeploymentStatus = dec_struct
     [field ''replicas'' deploymentStatusReplicas (\<lambda>x r. r\<lparr>deploymentStatusReplicas := x\<rparr>) dec_int]"

definition enc_Deployment :: "Deployment \<Rightarrow> json" where
  "enc_Deployment d = JObject
     (enc_TypeMeta (deploymentTypeMeta d)
      @ [(''metadata'', enc_ObjectMeta (deploymentMeta d)),
         (''spec'', enc_DeploymentSpec (deploymentSpec d)),
         (''status'', enc_DeploymentStatus (deploymentStatus d))])"

definition dec_Deployment :: "Deployment decoder" where
  "dec_Deployment = dec_struct
     (fields_TypeMeta deploymentTypeMeta (\<lambda>x r. r\<lparr>deploymentTypeMeta := x\<rparr>)
      @ [field ''metadata'' deploymentMeta (\<lambda>x r. r\<lparr>deploymentMeta := x\<rparr>) dec_ObjectMeta,
         field ''spec'' deploymentSpec (\<lambda>x r. r\<lparr>deploymentSpec := x\<rparr>) dec_DeploymentSpec,
         field ''status'' deploymentStatus (\<lambda>x r. r\<lparr>deploymentStatus := x\<rparr>) dec_DeploymentStatus])"

definition enc_ReplicaSetSpec :: "ReplicaSetSpec \<Rightarrow> json" where
  "enc_ReplicaSetSpec s = JObject
     [(''replicas'', JInt (rsReplicas s)), (''selector'', enc_map (rsSelector s)),
      (''template'', enc_PodTemplateSpec (rsTemplate s))]"

definition dec_ReplicaSetSpec :: "ReplicaSetSpec decoder" where
  "dec_ReplicaSetSpec = dec_struct
     [field ''replicas'' rsReplicas (\<lambda>x r. r\<lparr>rsReplicas := x\<rparr>) dec_int,
      field ''selector'' rsSelector (\<lambda>x r. r\<lparr>rsSelector := x\<rparr>) dec_map,
      field ''template'' rsTemplate (\<lambda>x r. r\<lparr>rsTemplate := x\<rparr>) dec_PodTemplateSpec]"

definition enc_ReplicaSetStatus :: "ReplicaSetStatus \<Rightarrow> json" where
  "enc_ReplicaSetStatus s = JObject
     (omitempty (rsStatusReplicas s = 0) ''replicas'' (JInt (rsStatusReplicas s)))"

definition dec_ReplicaSetStatus :: "ReplicaSetStatus decoder" where
  "dec_ReplicaSetStatus = dec_struct
     [field ''replicas'' rsStatusReplicas (\<lambda>x r. r\<lparr>rsStatusReplicas := x\<rparr>) dec_int]"

definition enc_ReplicaSet :: "ReplicaSet \<Rightarrow> json" where
  "enc_ReplicaSet s = JObject
     (enc_TypeMeta (rsTypeMeta s)
      @ [(''metadata'', enc_ObjectMeta (rsMeta s)), (''spec'', enc_ReplicaSetSpec (rsSpec s)),
         (''status'', enc_ReplicaSetStatus (rsStatus s))])"

definition dec_ReplicaSet :: "ReplicaSet decoder" where
  "dec_ReplicaSet = dec_struct
     (fields_TypeMeta rsTypeMeta (\<lambda>x r. r\<lparr>rsTypeMeta := x\<rparr>)
      @ [field ''metadata'' rsMeta (\<lambda>x r. r\<lparr>rsMeta := x\<rparr>) dec_ObjectMeta,
         field ''spec'' rsSpec (\<lambda>x r. r\<lparr>rsSpec := x\<rparr>) dec_ReplicaSetSpec,
         field ''status'' rsStatus (\<lambda>x r. r\<lparr>rsStatus := x\<rparr>) dec_ReplicaSetStatus])"

definition enc_ServiceSpec :: "ServiceSpec \<Rightarrow> json" where
  "enc_ServiceSpec s = JObject
     ([(''selector'', enc_map (svcSelector s))]
      @ omitempty (svcType s = []) ''type'' (JString (svcType s))
      @ omitempty (ClusterIP s = []) ''clusterIP'' (JString (ClusterIP s))
      @ [(''port'', JInt (svcPort s)), (''targetPort'', JInt (TargetPort s))]
      @ omitempty (svcNodePort s = 0) ''nodePort'' (JInt (svcNodePort s)))"

definition dec_ServiceSpec :: "ServiceSpec decoder" where
  "dec_ServiceSpec = dec_struct
     [field ''selector'' svcSelector (\<lambda>x r. r\<lparr>svcSelector := x\<rparr>) dec_map,
      field ''type'' svcType (\<lambda>x r. r\<lparr>svcType := x\<rparr>) dec_string,
      field ''clusterIP'' ClusterIP (\<lambda>x r. r\<lparr>ClusterIP := x\<rparr>) dec_string,
      field ''port'' svcPort (\<lambda>x r. r\<lparr>svcPort := x\<rparr>) dec_int,
      field ''targetPort'' TargetPort (\<lambda>x r. r\<lparr>TargetPort := x\<rparr>) dec_int,
      field ''nodePort'' svcNodePort (\<lambda>x r. r\<lparr>svcNodePort := x\<rparr>) dec_int]"

definition enc_Service :: "Service \<Rightarrow> json" where
  "enc_Service s = JObject
     (enc_TypeMeta (svcTypeMeta s)
      @ [(''metadata'', enc_ObjectMeta (svcMeta s)), (''spec'', enc_ServiceSpec (svcSpec s))])"

definition dec_Service :: "Service decoder" where
  "dec_Service = dec_struct
     (fields_TypeMeta svcTypeMeta (\<lambda>x r. r\<lparr>svcTypeMeta := x\<rparr>)
      @ [field ''metadata'' svcMeta (\<lambda>x r. r\<lparr>svcMeta := x\<rparr>) dec_ObjectMeta,
         field ''spec'' svcSpec (\<lambda>x r. r\<lparr>svcSpec := x\<rparr>) dec_ServiceSpec])"

text \<open>
  Behind the interface, the codec is that of the dynamic type. Marshalling these types cannot
  fail: they hold strings, integers, booleans and maps of strings.
\<close>

fun json_Marshal :: "Resource \<Rightarrow> json result" where
  "json_Marshal (RNode object) = Inr (enc_Node object)"
| "json_Marshal (RPod object) = Inr (enc_Pod object)"
| "json_Marshal (RDeployment object) = Inr (enc_Deployment object)"
| "json_Marshal (RReplicaSet object) = Inr (enc_ReplicaSet object)"
| "json_Marshal (RService object) = Inr (enc_Service object)"

fun json_Unmarshal :: "json \<Rightarrow> Resource \<Rightarrow> Resource option" where
  "json_Unmarshal j (RNode object) = map_option RNode (dec_Node j object)"
| "json_Unmarshal j (RPod object) = map_option RPod (dec_Pod j object)"
| "json_Unmarshal j (RDeployment object) = map_option RDeployment (dec_Deployment j object)"
| "json_Unmarshal j (RReplicaSet object) = map_option RReplicaSet (dec_ReplicaSet j object)"
| "json_Unmarshal j (RService object) = map_option RService (dec_Service j object)"


section \<open>What a round trip through JSON preserves\<close>

text \<open>
  \<open>norm_T\<close> is a value as it comes back from its own JSON form: an empty map or slice of a
  field with \<^verbatim>\<open>omitempty\<close> is nil. \<open>valid_T\<close> says that the integers of a value fit
  their Go type, which every Go value satisfies.
\<close>

definition norm_map :: "string_map \<Rightarrow> string_map" where
  "norm_map m = (if empty_map m then None else m)"

definition norm_slice :: "'a slice \<Rightarrow> 'a slice" where
  "norm_slice s = (if empty_slice s then None else s)"

definition norm_ObjectMeta :: "ObjectMeta \<Rightarrow> ObjectMeta" where
  "norm_ObjectMeta m = m\<lparr>Labels := norm_map (Labels m), Annotations := norm_map (Annotations m),
     OwnerReferences := norm_slice (OwnerReferences m)\<rparr>"

definition norm_Container :: "Container \<Rightarrow> Container" where
  "norm_Container c = c\<lparr>containerCommand := norm_slice (containerCommand c),
     containerPorts := norm_slice (containerPorts c)\<rparr>"

definition norm_PodSpec :: "PodSpec \<Rightarrow> PodSpec" where
  "norm_PodSpec s = s\<lparr>Containers := map_option (map norm_Container) (Containers s)\<rparr>"

definition norm_Node :: "Node \<Rightarrow> Node" where
  "norm_Node n = n\<lparr>nodeMeta := norm_ObjectMeta (nodeMeta n)\<rparr>"

definition norm_Pod :: "Pod \<Rightarrow> Pod" where
  "norm_Pod p = p\<lparr>podMeta := norm_ObjectMeta (podMeta p), podSpec := norm_PodSpec (podSpec p)\<rparr>"

definition norm_PodTemplateSpec :: "PodTemplateSpec \<Rightarrow> PodTemplateSpec" where
  "norm_PodTemplateSpec t = \<lparr>templateMeta = norm_ObjectMeta (templateMeta t),
     templateSpec = norm_PodSpec (templateSpec t)\<rparr>"

definition norm_Deployment :: "Deployment \<Rightarrow> Deployment" where
  "norm_Deployment d = d\<lparr>deploymentMeta := norm_ObjectMeta (deploymentMeta d),
     deploymentSpec := (deploymentSpec d)\<lparr>deploymentTemplate :=
       norm_PodTemplateSpec (deploymentTemplate (deploymentSpec d))\<rparr>\<rparr>"

definition norm_ReplicaSet :: "ReplicaSet \<Rightarrow> ReplicaSet" where
  "norm_ReplicaSet s = s\<lparr>rsMeta := norm_ObjectMeta (rsMeta s),
     rsSpec := (rsSpec s)\<lparr>rsTemplate := norm_PodTemplateSpec (rsTemplate (rsSpec s))\<rparr>\<rparr>"

definition norm_Service :: "Service \<Rightarrow> Service" where
  "norm_Service s = s\<lparr>svcMeta := norm_ObjectMeta (svcMeta s)\<rparr>"

fun norm_Resource :: "Resource \<Rightarrow> Resource" where
  "norm_Resource (RNode x) = RNode (norm_Node x)"
| "norm_Resource (RPod x) = RPod (norm_Pod x)"
| "norm_Resource (RDeployment x) = RDeployment (norm_Deployment x)"
| "norm_Resource (RReplicaSet x) = RReplicaSet (norm_ReplicaSet x)"
| "norm_Resource (RService x) = RService (norm_Service x)"

definition valid_ObjectMeta :: "ObjectMeta \<Rightarrow> bool" where
  "valid_ObjectMeta m \<longleftrightarrow> in_int64 (ResourceVersion m)"

definition valid_Container :: "Container \<Rightarrow> bool" where
  "valid_Container c \<longleftrightarrow> list_all (\<lambda>p. in_int64 (containerPort p)) (elems (containerPorts c))"

definition valid_PodSpec :: "PodSpec \<Rightarrow> bool" where
  "valid_PodSpec s \<longleftrightarrow> list_all valid_Container (elems (Containers s))"

definition valid_PodTemplateSpec :: "PodTemplateSpec \<Rightarrow> bool" where
  "valid_PodTemplateSpec t \<longleftrightarrow> valid_ObjectMeta (templateMeta t) \<and> valid_PodSpec (templateSpec t)"

fun valid_Resource :: "Resource \<Rightarrow> bool" where
  "valid_Resource (RNode x) = valid_ObjectMeta (nodeMeta x)"
| "valid_Resource (RPod x) = (valid_ObjectMeta (podMeta x) \<and> valid_PodSpec (podSpec x))"
| "valid_Resource (RDeployment x) =
     (valid_ObjectMeta (deploymentMeta x) \<and> in_int64 (deploymentReplicas (deploymentSpec x))
      \<and> valid_PodTemplateSpec (deploymentTemplate (deploymentSpec x))
      \<and> in_int64 (deploymentStatusReplicas (deploymentStatus x)))"
| "valid_Resource (RReplicaSet x) =
     (valid_ObjectMeta (rsMeta x) \<and> in_int64 (rsReplicas (rsSpec x))
      \<and> valid_PodTemplateSpec (rsTemplate (rsSpec x)) \<and> in_int64 (rsStatusReplicas (rsStatus x)))"
| "valid_Resource (RService x) =
     (valid_ObjectMeta (svcMeta x) \<and> in_int64 (svcPort (svcSpec x))
      \<and> in_int64 (TargetPort (svcSpec x)) \<and> in_int64 (svcNodePort (svcSpec x)))"

text \<open>The zero value of the same dynamic type, which is where decoding starts.\<close>

fun zero_like :: "Resource \<Rightarrow> Resource" where
  "zero_like (RNode x) = RNode zero_Node"
| "zero_like (RPod x) = RPod zero_Pod"
| "zero_like (RDeployment x) = RDeployment zero_Deployment"
| "zero_like (RReplicaSet x) = RReplicaSet zero_ReplicaSet"
| "zero_like (RService x) = RService zero_Service"

lemma dec_members_append:
  "dec_members fs (xs @ ys) r = Option.bind (dec_members fs xs r) (dec_members fs ys)"
  by (induction fs xs r rule: dec_members.induct) (auto split: option.splits)

lemma dec_members_omitempty:
  "dec_members fs (omitempty b n j) r = (if b then Some r else dec_members fs [(n, j)] r)"
  by (simp add: omitempty_def)

lemma if_Some: "(if b then Some x else Some y) = Some (if b then x else y)"
  by simp

lemma dec_basic [simp]:
  "dec_string (JString t) s = Some t"
  "dec_bool (JBool c) b = Some c"
  "in_int64 n \<Longrightarrow> dec_int (JInt n) i = Some n"
  by (simp_all add: dec_string_def dec_bool_def dec_int_def)

lemma dec_list_map:
  "(\<And>x. x \<in> set xs \<Longrightarrow> dec (enc x) z = Some (f x)) \<Longrightarrow>
    dec_list dec z (map enc xs) = Some (map f xs)"
  by (induction xs) auto

lemma dec_slice_enc:
  assumes "\<And>x. x \<in> set (elems s) \<Longrightarrow> dec (enc x) z = Some (f x)"
  shows "dec_slice dec z (enc_slice enc s) r = Some (map_option (map f) s)"
  using assms by (cases s) (simp_all add: dec_slice_def enc_slice_def dec_list_map)

lemma dec_entries_map:
  "dec_entries (map (\<lambda>(k, v). (k, JString v)) xs) f = Some (f ++\<^sub>f fmap_of_list (rev xs))"
proof (induction xs arbitrary: f)
  case (Cons x xs)
  obtain k v where x: "x = (k, v)" by (cases x)
  show ?case
    unfolding x rev.simps fmupd_add_rev [symmetric]
    by (simp only: list.map prod.case dec_entries.simps dec_basic option.case Cons.IH)
qed simp

lemma dec_map_enc: "dec_map (enc_map m) None = Some m"
  by (cases m) (simp_all add: dec_map_def enc_map_def dec_entries_map fmap_of_rev_sorted)

lemmas codec_simps =
  dec_struct_def dec_members_append dec_members_omitempty find_field_def field_def if_Some
  dec_map_enc


lemma OwnerReference_roundtrip: "dec_OwnerReference (enc_OwnerReference x) zero_OwnerReference = Some x"
  by (simp add: dec_OwnerReference_def enc_OwnerReference_def codec_simps)

lemma OwnerReferences_roundtrip:
  "dec_slice dec_OwnerReference zero_OwnerReference (enc_slice enc_OwnerReference s) r = Some s"
  using dec_slice_enc [of s dec_OwnerReference enc_OwnerReference zero_OwnerReference id r]
  by (simp add: OwnerReference_roundtrip option.map_id)

lemma strings_roundtrip: "dec_slice dec_string [] (enc_slice JString s) r = Some s"
  using dec_slice_enc [of s dec_string JString "[]" id r] by (simp add: option.map_id)

lemma ObjectMeta_roundtrip:
  "valid_ObjectMeta x \<Longrightarrow> dec_ObjectMeta (enc_ObjectMeta x) zero_ObjectMeta = Some (norm_ObjectMeta x)"
  by (cases x)
    (simp add: dec_ObjectMeta_def enc_ObjectMeta_def codec_simps OwnerReferences_roundtrip
      zero_ObjectMeta_def norm_ObjectMeta_def norm_map_def norm_slice_def valid_ObjectMeta_def)


lemma ContainerPort_roundtrip:
  "in_int64 (containerPort x) \<Longrightarrow> dec_ContainerPort (enc_ContainerPort x) zero_ContainerPort = Some x"
  by (cases x)
    (simp add: dec_ContainerPort_def enc_ContainerPort_def codec_simps zero_ContainerPort_def)

lemma ContainerPorts_roundtrip:
  assumes "list_all (\<lambda>p. in_int64 (containerPort p)) (elems s)"
  shows "dec_slice dec_ContainerPort zero_ContainerPort (enc_slice enc_ContainerPort s) r = Some s"
  using dec_slice_enc [of s dec_ContainerPort enc_ContainerPort zero_ContainerPort id r] assms
  by (simp add: ContainerPort_roundtrip option.map_id list_all_iff)

lemma Container_roundtrip:
  "valid_Container x \<Longrightarrow> dec_Container (enc_Container x) zero_Container = Some (norm_Container x)"
  by (cases x)
    (simp add: dec_Container_def enc_Container_def codec_simps zero_Container_def
      strings_roundtrip ContainerPorts_roundtrip valid_Container_def norm_Container_def norm_slice_def)

lemma PodSpec_roundtrip:
  assumes "valid_PodSpec x"
  shows "dec_PodSpec (enc_PodSpec x) zero_PodSpec = Some (norm_PodSpec x)"
proof -
  have "dec_slice dec_Container zero_Container (enc_slice enc_Container (Containers x)) None =
      Some (map_option (map norm_Container) (Containers x))"
    using assms by (intro dec_slice_enc) (simp add: Container_roundtrip valid_PodSpec_def list_all_iff)
  then show ?thesis
    by (cases x) (simp add: dec_PodSpec_def enc_PodSpec_def codec_simps zero_PodSpec_def norm_PodSpec_def)
qed

lemma PodTemplateSpec_roundtrip:
  "valid_PodTemplateSpec x \<Longrightarrow>
    dec_PodTemplateSpec (enc_PodTemplateSpec x) zero_PodTemplateSpec = Some (norm_PodTemplateSpec x)"
  by (simp add: dec_PodTemplateSpec_def enc_PodTemplateSpec_def codec_simps
      zero_PodTemplateSpec_def ObjectMeta_roundtrip PodSpec_roundtrip norm_PodTemplateSpec_def
      valid_PodTemplateSpec_def)

lemma PodStatus_roundtrip: "dec_PodStatus (enc_PodStatus x) zero_PodStatus = Some x"
  by (cases x) (simp add: dec_PodStatus_def enc_PodStatus_def codec_simps zero_PodStatus_def)

lemma NodeSpec_roundtrip: "dec_NodeSpec (enc_NodeSpec x) zero_NodeSpec = Some x"
  by (cases x) (simp add: dec_NodeSpec_def enc_NodeSpec_def codec_simps zero_NodeSpec_def)

lemma NodeStatus_roundtrip: "dec_NodeStatus (enc_NodeStatus x) zero_NodeStatus = Some x"
  by (cases x) (simp add: dec_NodeStatus_def enc_NodeStatus_def codec_simps zero_NodeStatus_def)

lemma DeploymentStatus_roundtrip:
  "in_int64 (deploymentStatusReplicas x) \<Longrightarrow>
    dec_DeploymentStatus (enc_DeploymentStatus x) zero_DeploymentStatus = Some x"
  by (cases x)
    (simp add: dec_DeploymentStatus_def enc_DeploymentStatus_def codec_simps zero_DeploymentStatus_def)

lemma ReplicaSetStatus_roundtrip:
  "in_int64 (rsStatusReplicas x) \<Longrightarrow>
    dec_ReplicaSetStatus (enc_ReplicaSetStatus x) zero_ReplicaSetStatus = Some x"
  by (cases x)
    (simp add: dec_ReplicaSetStatus_def enc_ReplicaSetStatus_def codec_simps zero_ReplicaSetStatus_def)

lemma DeploymentSpec_roundtrip:
  "in_int64 (deploymentReplicas x) \<Longrightarrow> valid_PodTemplateSpec (deploymentTemplate x) \<Longrightarrow>
    dec_DeploymentSpec (enc_DeploymentSpec x) zero_DeploymentSpec =
      Some (x\<lparr>deploymentTemplate := norm_PodTemplateSpec (deploymentTemplate x)\<rparr>)"
  by (cases x)
    (simp add: dec_DeploymentSpec_def enc_DeploymentSpec_def codec_simps zero_DeploymentSpec_def
      PodTemplateSpec_roundtrip)

lemma ReplicaSetSpec_roundtrip:
  "in_int64 (rsReplicas x) \<Longrightarrow> valid_PodTemplateSpec (rsTemplate x) \<Longrightarrow>
    dec_ReplicaSetSpec (enc_ReplicaSetSpec x) zero_ReplicaSetSpec =
      Some (x\<lparr>rsTemplate := norm_PodTemplateSpec (rsTemplate x)\<rparr>)"
  by (cases x)
    (simp add: dec_ReplicaSetSpec_def enc_ReplicaSetSpec_def codec_simps zero_ReplicaSetSpec_def
      PodTemplateSpec_roundtrip)

lemma ServiceSpec_roundtrip:
  "in_int64 (svcPort x) \<Longrightarrow> in_int64 (TargetPort x) \<Longrightarrow> in_int64 (svcNodePort x) \<Longrightarrow>
    dec_ServiceSpec (enc_ServiceSpec x) zero_ServiceSpec = Some x"
  by (cases x) (simp add: dec_ServiceSpec_def enc_ServiceSpec_def codec_simps zero_ServiceSpec_def)

lemmas part_roundtrips =
  ObjectMeta_roundtrip PodSpec_roundtrip PodStatus_roundtrip NodeSpec_roundtrip
  NodeStatus_roundtrip DeploymentSpec_roundtrip DeploymentStatus_roundtrip
  ReplicaSetSpec_roundtrip ReplicaSetStatus_roundtrip ServiceSpec_roundtrip

lemma Node_roundtrip:
  "valid_Resource (RNode x) \<Longrightarrow> dec_Node (enc_Node x) zero_Node = Some (norm_Node x)"
  by (cases x; cases "nodeTypeMeta x")
    (simp add: dec_Node_def enc_Node_def codec_simps fields_TypeMeta_def enc_TypeMeta_def
      zero_Node_def part_roundtrips norm_Node_def)

lemma Pod_roundtrip:
  "valid_Resource (RPod x) \<Longrightarrow> dec_Pod (enc_Pod x) zero_Pod = Some (norm_Pod x)"
  by (cases x; cases "podTypeMeta x")
    (simp add: dec_Pod_def enc_Pod_def codec_simps fields_TypeMeta_def enc_TypeMeta_def
      zero_Pod_def part_roundtrips norm_Pod_def)

lemma Deployment_roundtrip:
  "valid_Resource (RDeployment x) \<Longrightarrow>
    dec_Deployment (enc_Deployment x) zero_Deployment = Some (norm_Deployment x)"
  by (cases x; cases "deploymentTypeMeta x")
    (simp add: dec_Deployment_def enc_Deployment_def codec_simps fields_TypeMeta_def
      enc_TypeMeta_def zero_Deployment_def part_roundtrips norm_Deployment_def)

lemma ReplicaSet_roundtrip:
  "valid_Resource (RReplicaSet x) \<Longrightarrow>
    dec_ReplicaSet (enc_ReplicaSet x) zero_ReplicaSet = Some (norm_ReplicaSet x)"
  by (cases x; cases "rsTypeMeta x")
    (simp add: dec_ReplicaSet_def enc_ReplicaSet_def codec_simps fields_TypeMeta_def
      enc_TypeMeta_def zero_ReplicaSet_def part_roundtrips norm_ReplicaSet_def)

lemma Service_roundtrip:
  "valid_Resource (RService x) \<Longrightarrow> dec_Service (enc_Service x) zero_Service = Some (norm_Service x)"
  by (cases x; cases "svcTypeMeta x")
    (simp add: dec_Service_def enc_Service_def codec_simps fields_TypeMeta_def
      enc_TypeMeta_def zero_Service_def part_roundtrips norm_Service_def)

lemmas typed_roundtrips =
  Node_roundtrip Pod_roundtrip Deployment_roundtrip ReplicaSet_roundtrip Service_roundtrip

lemma Resource_roundtrip:
  "valid_Resource r \<Longrightarrow> json_Marshal r = Inr j \<Longrightarrow> json_Unmarshal j (zero_like r) = Some (norm_Resource r)"
  by (cases r) (auto simp: typed_roundtrips simp del: valid_Resource.simps)

lemma norm_map_idem [simp]: "norm_map (norm_map m) = norm_map m"
  by (simp add: norm_map_def empty_map_def)

lemma norm_slice_idem [simp]: "norm_slice (norm_slice s) = norm_slice s"
  by (simp add: norm_slice_def empty_slice_def)

lemma norm_Container_idem [simp]: "norm_Container (norm_Container c) = norm_Container c"
  by (simp add: norm_Container_def)

lemma norm_ObjectMeta_idem [simp]: "norm_ObjectMeta (norm_ObjectMeta m) = norm_ObjectMeta m"
  by (simp add: norm_ObjectMeta_def)

lemma norm_PodSpec_idem [simp]: "norm_PodSpec (norm_PodSpec s) = norm_PodSpec s"
  by (cases "Containers s") (simp_all add: norm_PodSpec_def)

lemma norm_PodTemplateSpec_idem [simp]:
  "norm_PodTemplateSpec (norm_PodTemplateSpec t) = norm_PodTemplateSpec t"
  by (simp add: norm_PodTemplateSpec_def)

lemma norm_Resource_idem [simp]: "norm_Resource (norm_Resource r) = norm_Resource r"
  by (cases r)
    (simp_all add: norm_Node_def norm_Pod_def norm_Deployment_def norm_ReplicaSet_def norm_Service_def)

lemma GetName_norm [simp]: "GetName (norm_Resource r) = GetName r"
  by (cases r)
    (simp_all add: norm_Node_def norm_Pod_def norm_Deployment_def norm_ReplicaSet_def
      norm_Service_def norm_ObjectMeta_def)

lemma SetResourceVersion_norm [simp]:
  "SetResourceVersion v (norm_Resource r) = norm_Resource (SetResourceVersion v r)"
  by (cases r)
    (simp_all add: norm_Node_def norm_Pod_def norm_Deployment_def norm_ReplicaSet_def
      norm_Service_def norm_ObjectMeta_def)

section \<open>Decoded integers fit their type\<close>

lemma find_field_in: "find_field fs k = Some d \<Longrightarrow> \<exists>n. (n, d) \<in> set fs"
  by (auto simp: find_field_def dest!: find_SomeD split: option.splits)

lemma dec_members_invariant:
  assumes step: "\<And>n d j r r'. (n, d) \<in> set fs \<Longrightarrow> d j r = Some r' \<Longrightarrow> P r \<Longrightarrow> P r'"
  shows "dec_members fs ms r = Some r' \<Longrightarrow> P r \<Longrightarrow> P r'"
proof (induction ms arbitrary: r)
  case Nil
  then show ?case by simp
next
  case (Cons m ms)
  obtain k v where m: "m = (k, v)" by (cases m)
  show ?case
  proof (cases "find_field fs k")
    case None
    with Cons m show ?thesis by simp
  next
    case (Some d)
    from Cons.prems(1) m Some obtain r1 where r1: "d v r = Some r1" "dec_members fs ms r1 = Some r'"
      by (auto split: option.splits)
    from find_field_in [OF Some] obtain n where "(n, d) \<in> set fs" ..
    from step [OF this r1(1) Cons.prems(2)] Cons.IH [OF r1(2)] show ?thesis by simp
  qed
qed

lemma dec_struct_invariant:
  assumes "dec_struct fs j r = Some r'" and "P r"
    and "\<And>n d j r r'. (n, d) \<in> set fs \<Longrightarrow> d j r = Some r' \<Longrightarrow> P r \<Longrightarrow> P r'"
  shows "P r'"
  using assms dec_members_invariant [of fs P]
  by (auto simp: dec_struct_def split: json.splits)

lemma dec_int_valid: "dec_int j i = Some n \<Longrightarrow> in_int64 i \<Longrightarrow> in_int64 n"
  by (auto simp: dec_int_def split: json.splits if_splits)

lemma dec_list_valid:
  "dec_list dec z js = Some xs \<Longrightarrow> (\<And>j x. dec j z = Some x \<Longrightarrow> Q x) \<Longrightarrow> list_all Q xs"
  by (induction js arbitrary: xs) (auto split: option.splits)

lemma dec_slice_valid:
  assumes "dec_slice dec z j s = Some s'" and "\<And>j x. dec j z = Some x \<Longrightarrow> Q x"
  shows "list_all Q (elems s')"
proof (cases j)
  case (JArray js)
  with assms(1) obtain xs where "dec_list dec z js = Some xs" "s' = Some xs"
    by (auto simp: dec_slice_def split: option.splits)
  with dec_list_valid [OF this(1), of Q] assms(2) show ?thesis by simp
qed (use assms(1) in \<open>auto simp: dec_slice_def\<close>)

lemma in_int64_zero [simp]: "in_int64 0"
  by (simp add: in_int64_def int64_min_def int64_max_def)

lemma dec_ObjectMeta_valid:
  "dec_ObjectMeta j m = Some m' \<Longrightarrow> valid_ObjectMeta m \<Longrightarrow> valid_ObjectMeta m'"
  unfolding dec_ObjectMeta_def
  by (erule dec_struct_invariant) (auto simp: field_def valid_ObjectMeta_def dest: dec_int_valid)

lemma dec_ContainerPort_valid:
  "dec_ContainerPort j p = Some p' \<Longrightarrow> in_int64 (containerPort p) \<Longrightarrow> in_int64 (containerPort p')"
  unfolding dec_ContainerPort_def
  by (erule dec_struct_invariant) (auto simp: field_def dest: dec_int_valid)

lemma dec_Container_valid:
  assumes "dec_Container j c = Some c'" and "valid_Container c"
  shows "valid_Container c'"
proof -
  have port: "in_int64 (containerPort x)" if "dec_ContainerPort j zero_ContainerPort = Some x" for j x
    using dec_ContainerPort_valid [OF that] by (simp add: zero_ContainerPort_def)
  show ?thesis
    using assms unfolding dec_Container_def
    by (rule dec_struct_invariant)
      (auto simp: field_def valid_Container_def dest!: dec_slice_valid [OF _ port])
qed

lemma dec_PodSpec_valid:
  assumes "dec_PodSpec j s = Some s'" and "valid_PodSpec s"
  shows "valid_PodSpec s'"
proof -
  have "valid_Container zero_Container"
    by (simp add: valid_Container_def zero_Container_def)
  then have container: "valid_Container x" if "dec_Container j zero_Container = Some x" for j x
    using dec_Container_valid [OF that] by simp
  show ?thesis
    using assms unfolding dec_PodSpec_def
    by (rule dec_struct_invariant)
      (auto simp: field_def valid_PodSpec_def dest!: dec_slice_valid [OF _ container])
qed

lemma dec_PodTemplateSpec_valid:
  "dec_PodTemplateSpec j t = Some t' \<Longrightarrow> valid_PodTemplateSpec t \<Longrightarrow> valid_PodTemplateSpec t'"
  unfolding dec_PodTemplateSpec_def
  by (erule dec_struct_invariant)
    (auto simp: field_def valid_PodTemplateSpec_def dest: dec_ObjectMeta_valid dec_PodSpec_valid)

lemma dec_DeploymentSpec_valid:
  "dec_DeploymentSpec j s = Some s' \<Longrightarrow>
    in_int64 (deploymentReplicas s) \<and> valid_PodTemplateSpec (deploymentTemplate s) \<Longrightarrow>
    in_int64 (deploymentReplicas s') \<and> valid_PodTemplateSpec (deploymentTemplate s')"
  unfolding dec_DeploymentSpec_def
  by (erule dec_struct_invariant) (auto simp: field_def dest: dec_int_valid dec_PodTemplateSpec_valid)

lemma dec_ReplicaSetSpec_valid:
  "dec_ReplicaSetSpec j s = Some s' \<Longrightarrow>
    in_int64 (rsReplicas s) \<and> valid_PodTemplateSpec (rsTemplate s) \<Longrightarrow>
    in_int64 (rsReplicas s') \<and> valid_PodTemplateSpec (rsTemplate s')"
  unfolding dec_ReplicaSetSpec_def
  by (erule dec_struct_invariant) (auto simp: field_def dest: dec_int_valid dec_PodTemplateSpec_valid)

lemma dec_DeploymentStatus_valid:
  "dec_DeploymentStatus j s = Some s' \<Longrightarrow> in_int64 (deploymentStatusReplicas s) \<Longrightarrow>
    in_int64 (deploymentStatusReplicas s')"
  unfolding dec_DeploymentStatus_def
  by (erule dec_struct_invariant) (auto simp: field_def dest: dec_int_valid)

lemma dec_ReplicaSetStatus_valid:
  "dec_ReplicaSetStatus j s = Some s' \<Longrightarrow> in_int64 (rsStatusReplicas s) \<Longrightarrow>
    in_int64 (rsStatusReplicas s')"
  unfolding dec_ReplicaSetStatus_def
  by (erule dec_struct_invariant) (auto simp: field_def dest: dec_int_valid)

lemma dec_ServiceSpec_valid:
  "dec_ServiceSpec j s = Some s' \<Longrightarrow>
    in_int64 (svcPort s) \<and> in_int64 (TargetPort s) \<and> in_int64 (svcNodePort s) \<Longrightarrow>
    in_int64 (svcPort s') \<and> in_int64 (TargetPort s') \<and> in_int64 (svcNodePort s')"
  unfolding dec_ServiceSpec_def
  by (erule dec_struct_invariant) (auto simp: field_def dest: dec_int_valid)

lemma dec_Node_valid:
  "dec_Node j x = Some x' \<Longrightarrow> valid_Resource (RNode x) \<Longrightarrow> valid_Resource (RNode x')"
  unfolding dec_Node_def
  by (erule dec_struct_invariant)
    (auto simp: field_def fields_TypeMeta_def dest: dec_ObjectMeta_valid)

lemma dec_Pod_valid:
  "dec_Pod j x = Some x' \<Longrightarrow> valid_Resource (RPod x) \<Longrightarrow> valid_Resource (RPod x')"
  unfolding dec_Pod_def
  by (erule dec_struct_invariant)
    (auto simp: field_def fields_TypeMeta_def dest: dec_ObjectMeta_valid dec_PodSpec_valid)

lemma dec_Deployment_valid:
  "dec_Deployment j x = Some x' \<Longrightarrow> valid_Resource (RDeployment x) \<Longrightarrow>
    valid_Resource (RDeployment x')"
  unfolding dec_Deployment_def
  by (erule dec_struct_invariant)
    (auto simp: field_def fields_TypeMeta_def
      dest: dec_ObjectMeta_valid dec_DeploymentSpec_valid dec_DeploymentStatus_valid)

lemma dec_ReplicaSet_valid:
  "dec_ReplicaSet j x = Some x' \<Longrightarrow> valid_Resource (RReplicaSet x) \<Longrightarrow>
    valid_Resource (RReplicaSet x')"
  unfolding dec_ReplicaSet_def
  by (erule dec_struct_invariant)
    (auto simp: field_def fields_TypeMeta_def
      dest: dec_ObjectMeta_valid dec_ReplicaSetSpec_valid dec_ReplicaSetStatus_valid)

lemma dec_Service_valid:
  "dec_Service j x = Some x' \<Longrightarrow> valid_Resource (RService x) \<Longrightarrow> valid_Resource (RService x')"
  unfolding dec_Service_def
  by (erule dec_struct_invariant)
    (auto simp: field_def fields_TypeMeta_def dest: dec_ObjectMeta_valid dec_ServiceSpec_valid)

lemma json_Unmarshal_valid:
  "json_Unmarshal j r = Some r' \<Longrightarrow> valid_Resource r \<Longrightarrow> valid_Resource r'"
  by (cases r)
    (auto simp del: valid_Resource.simps dest: dec_Node_valid dec_Pod_valid dec_Deployment_valid
      dec_ReplicaSet_valid dec_Service_valid)

lemma valid_zero_like [simp]: "valid_Resource (zero_like r)"
  by (cases r) (simp_all add: zero_defs valid_ObjectMeta_def valid_PodSpec_def valid_PodTemplateSpec_def)

lemma zero_like_Unmarshal: "json_Unmarshal j r = Some r' \<Longrightarrow> zero_like r' = zero_like r"
  by (cases r) auto

lemma zero_like_simps [simp]:
  "zero_like (zero_like r) = zero_like r"
  "zero_like (norm_Resource r) = zero_like r"
  "zero_like (SetResourceVersion v r) = zero_like r"
  by (cases r; simp)+

end
