(* ===== verification/Etcd.thy ===== *)
theory Etcd
  imports JsonCodec
begin

text \<open>
  The store of \<^verbatim>\<open>etcd/etcd.go\<close>. The client library \<^verbatim>\<open>clientv3\<close> is not part of the
  repository: it is the record \<open>Clientv3\<close> of the calls the code makes, an argument of every
  operation, over a world of any type. What the code relies on is the locale
  \<open>etcd_server\<close>, the documented behaviour of an etcd server: a revision counter, a map from
  keys to values with their modification revision and version, reads that change nothing, and
  transactions that apply their operation exactly when their comparison holds. A call may fail
  at any time; a transaction that fails may or may not have been applied.

  The section on keys shows that keys of different objects differ and that the prefix of a kind
  holds the objects of that kind only. \<open>EtcdClient_*\<close> are the six methods of the
  \<open>Etcd\<close> interface; the locale \<open>etcd_interface\<close> states what they promise to the API server,
  and a \<^theory_text>\<open>sublocale\<close> shows that they keep the promise over any etcd server.
\<close>

section \<open>The client library, a parameter\<close>

datatype CmpResult = CmpEqual | CmpGreater

datatype Cmp = CmpVersion string CmpResult int | CmpModRevision string CmpResult int

datatype Op = OpPut string json | OpDelete string

record KeyValue =
  kvKey :: string
  kvValue :: json
  kvModRevision :: int
  kvVersion :: int

record GetResponse =
  Kvs :: "KeyValue list"
  getRevision :: int

record TxnResponse =
  Succeeded :: bool
  txnRevision :: int

datatype MvccEventType = EventTypePut | EventTypeDelete

record MvccEvent =
  mvccType :: MvccEventType
  mvccKv :: "KeyValue option"
  mvccPrevKv :: "KeyValue option"

record WatchResponse =
  watchErr :: "goerror option"
  watchEvents :: "MvccEvent list"

text \<open>
  A watch is the list of the responses its channel delivers until it is closed; its start
  revision is given by \<^verbatim>\<open>WithRev\<close>, if at all.
\<close>

record 'w Clientv3 =
  clientGet :: "string \<Rightarrow> ('w, GetResponse) operation"
  clientGetPrefix :: "string \<Rightarrow> ('w, GetResponse) operation"
  clientTxn :: "Cmp \<Rightarrow> Op \<Rightarrow> ('w, TxnResponse) operation"
  clientWatch :: "string \<Rightarrow> int option \<Rightarrow> 'w \<Rightarrow> WatchResponse list"

section \<open>Events, entries and the interface\<close>

type_synonym EventType = string

definition Added :: EventType where "Added = ''ADDED''"
definition Modified :: EventType where "Modified = ''MODIFIED''"
definition Deleted :: EventType where "Deleted = ''DELETED''"

record Event =
  eventType :: EventType
  eventKind :: string
  eventName :: string
  eventResourceVersion :: int
  eventObject :: "json option"
  eventErr :: "goerror option"

record Entry =
  entryResourceVersion :: int
  entryObject :: json

record 'w Etcd =
  etcdGet :: "string \<Rightarrow> string \<Rightarrow> Resource \<Rightarrow> ('w, Resource \<times> int) operation"
  etcdList :: "string \<Rightarrow> ('w, Entry list \<times> int) operation"
  etcdCreate :: "string \<Rightarrow> string \<Rightarrow> Resource \<Rightarrow> ('w, int) operation"
  etcdUpdate :: "string \<Rightarrow> string \<Rightarrow> Resource \<Rightarrow> int \<Rightarrow> ('w, int) operation"
  etcdDelete :: "string \<Rightarrow> string \<Rightarrow> int \<Rightarrow> ('w, unit) operation"
  etcdWatch :: "string \<Rightarrow> int \<Rightarrow> ('w, Event list) operation"

section \<open>Keys\<close>

definition objectPrefix :: "string \<Rightarrow> string" where
  "objectPrefix kind = ''/toy-kubernetes/'' @ kind @ ''/''"

definition objectKey :: "string \<Rightarrow> string \<Rightarrow> string" where
  "objectKey kind name = objectPrefix kind @ name"

definition nameFromKey :: "string \<Rightarrow> string" where
  "nameFromKey storedKey =
     (let parts = strings_Split (strings_TrimSuffix storedKey ''/'') (CHR ''/'')
      in parts ! (length parts - 1))"

lemma append_slash_inject:
  "c \<notin> set k \<Longrightarrow> c \<notin> set k' \<Longrightarrow> k @ c # n = k' @ c # n' \<longleftrightarrow> k = k' \<and> n = n'"
proof (induction k arbitrary: k')
  case Nil
  then show ?case by (cases k') auto
next
  case (Cons x k)
  then show ?case by (cases k') auto
qed

lemma objectKey_inject:
  "CHR ''/'' \<notin> set kind \<Longrightarrow> CHR ''/'' \<notin> set kind' \<Longrightarrow>
    objectKey kind name = objectKey kind' name' \<longleftrightarrow> kind = kind' \<and> name = name'"
  using append_slash_inject [of "CHR ''/''" kind kind' name name']
  by (simp add: objectKey_def objectPrefix_def)

lemma objectKey_prefix:
  assumes "CHR ''/'' \<notin> set kind" and "CHR ''/'' \<notin> set kind'"
  shows "strings_HasPrefix (objectKey kind' name) (objectPrefix kind) \<longleftrightarrow> kind' = kind"
proof -
  have "strings_HasPrefix (objectKey kind' name) (objectPrefix kind) \<longleftrightarrow>
      (\<exists>t. objectKey kind' name = objectKey kind t)"
    by (simp add: strings_HasPrefix_iff objectKey_def)
  then show ?thesis using objectKey_inject [OF assms(2,1)] by auto
qed

lemma HasSuffix_single: "strings_HasSuffix s [c] \<longleftrightarrow> s \<noteq> [] \<and> last s = c"
  by (cases s rule: rev_cases) (auto simp: strings_HasSuffix_def strings_HasPrefix_def)

lemma nameFromKey_objectKey:
  assumes "CHR ''/'' \<notin> set kind" and "name \<noteq> []" and "CHR ''/'' \<notin> set name"
  shows "nameFromKey (objectKey kind name) = name"
proof -
  have "last (objectKey kind name) = last name"
    using assms(2) by (simp add: objectKey_def)
  moreover have "last name \<noteq> CHR ''/''"
    using assms(2,3) last_in_set by metis
  ultimately have "strings_TrimSuffix (objectKey kind name) ''/'' = objectKey kind name"
    by (simp add: strings_TrimSuffix_def HasSuffix_single)
  moreover have "strings_Split (objectKey kind name) (CHR ''/'') =
      [[], ''toy-kubernetes'', kind, name]"
    using assms(1,3)
    by (simp add: objectKey_def objectPrefix_def strings_Split_append strings_Split_no_sep)
  ultimately show ?thesis by (simp add: nameFromKey_def)
qed

section \<open>The methods of EtcdClient\<close>

definition decodeStoredError :: goerror where
  "decodeStoredError = WrapError ''decode stored object'' (NewError ''json'')"

definition EtcdClient_Get ::
    "'w Clientv3 \<Rightarrow> string \<Rightarrow> string \<Rightarrow> Resource \<Rightarrow> ('w, Resource \<times> int) operation" where
  "EtcdClient_Get client kind name target =
     andThen (clientGet client (objectKey kind name)) (\<lambda>response.
       case Kvs response of
         [] \<Rightarrow> failing ErrNotFound
       | kv # _ \<Rightarrow>
           (case json_Unmarshal (kvValue kv) target of
              None \<Rightarrow> failing decodeStoredError
            | Some object \<Rightarrow> returning (object, kvModRevision kv)))"

definition EtcdClient_List ::
    "'w Clientv3 \<Rightarrow> string \<Rightarrow> ('w, Entry list \<times> int) operation" where
  "EtcdClient_List client kind =
     andThen (clientGetPrefix client (objectPrefix kind)) (\<lambda>response.
       returning
         (map (\<lambda>pair. \<lparr>entryResourceVersion = kvModRevision pair, entryObject = kvValue pair\<rparr>)
            (Kvs response),
          getRevision response))"

definition EtcdClient_Create ::
    "'w Clientv3 \<Rightarrow> string \<Rightarrow> string \<Rightarrow> Resource \<Rightarrow> ('w, int) operation" where
  "EtcdClient_Create client kind name object =
     (case json_Marshal object of
        Inl e \<Rightarrow> failing (WrapError ''encode object'' e)
      | Inr value \<Rightarrow>
          andThen
            (clientTxn client (CmpVersion (objectKey kind name) CmpEqual 0)
              (OpPut (objectKey kind name) value))
            (\<lambda>response.
              if \<not> Succeeded response then failing ErrAlreadyExists
              else returning (txnRevision response)))"

definition EtcdClient_Update ::
    "'w Clientv3 \<Rightarrow> string \<Rightarrow> string \<Rightarrow> Resource \<Rightarrow> int \<Rightarrow> ('w, int) operation" where
  "EtcdClient_Update client kind name object resourceVersion =
     (case json_Marshal object of
        Inl e \<Rightarrow> failing (WrapError ''encode object'' e)
      | Inr value \<Rightarrow>
          andThen
            (clientTxn client (CmpModRevision (objectKey kind name) CmpEqual resourceVersion)
              (OpPut (objectKey kind name) value))
            (\<lambda>response.
              if \<not> Succeeded response then failing ErrConflict
              else returning (txnRevision response)))"

definition EtcdClient_Delete ::
    "'w Clientv3 \<Rightarrow> string \<Rightarrow> string \<Rightarrow> int \<Rightarrow> ('w, unit) operation" where
  "EtcdClient_Delete client kind name resourceVersion =
     (let compare =
        (if resourceVersion \<noteq> 0
         then CmpModRevision (objectKey kind name) CmpEqual resourceVersion
         else CmpVersion (objectKey kind name) CmpGreater 0)
      in andThen (clientTxn client compare (OpDelete (objectKey kind name))) (\<lambda>response.
           if \<not> Succeeded response then failing ErrNotFound else returning ()))"

text \<open>
  One event of a watch response: the previous value of a key decides between ADDED and MODIFIED,
  a deletion carries the value that was deleted, and an event without its key-value pair, or a
  deletion without its previous one, is skipped.
\<close>

definition watch_event :: "string \<Rightarrow> MvccEvent \<Rightarrow> Event list" where
  "watch_event kind event =
     (case mvccKv event of
        None \<Rightarrow> []
      | Some kv \<Rightarrow>
          let emit = (\<lambda>eventT object.
                [\<lparr>eventType = eventT, eventKind = kind, eventName = nameFromKey (kvKey kv),
                  eventResourceVersion = kvModRevision kv, eventObject = Some object,
                  eventErr = None\<rparr>])
          in if mvccType event = EventTypeDelete
             then (case mvccPrevKv event of
                     None \<Rightarrow> []
                   | Some prev \<Rightarrow> emit Deleted (kvValue prev))
             else (case mvccPrevKv event of
                     None \<Rightarrow> emit Added (kvValue kv)
                   | Some prev \<Rightarrow> emit Modified (kvValue kv)))"

fun watch_responses :: "string \<Rightarrow> WatchResponse list \<Rightarrow> Event list" where
  "watch_responses kind [] = []"
| "watch_responses kind (response # responses) =
     (case watchErr response of
        Some e \<Rightarrow>
          [\<lparr>eventType = [], eventKind = kind, eventName = [], eventResourceVersion = 0,
            eventObject = None, eventErr = Some e\<rparr>]
      | None \<Rightarrow>
          concat (map (watch_event kind) (watchEvents response)) @ watch_responses kind responses)"

definition EtcdClient_Watch ::
    "'w Clientv3 \<Rightarrow> string \<Rightarrow> int \<Rightarrow> ('w, Event list) operation" where
  "EtcdClient_Watch client kind resourceVersion w =
     (let rev = (if resourceVersion > 0 then Some (int64_wrap (resourceVersion + 1)) else None)
      in (Inr (watch_responses kind (clientWatch client (objectPrefix kind) rev w)), w))"

definition NewEtcdClient :: "'w Clientv3 \<Rightarrow> 'w Etcd" where
  "NewEtcdClient client = \<lparr>
     etcdGet = EtcdClient_Get client,
     etcdList = EtcdClient_List client,
     etcdCreate = EtcdClient_Create client,
     etcdUpdate = EtcdClient_Update client,
     etcdDelete = EtcdClient_Delete client,
     etcdWatch = EtcdClient_Watch client\<rparr>"


section \<open>What an etcd server promises\<close>

definition kv_version :: "(string \<rightharpoonup> KeyValue) \<Rightarrow> string \<Rightarrow> int" where
  "kv_version m k = (case m k of None \<Rightarrow> 0 | Some kv \<Rightarrow> kvVersion kv)"

definition kv_mod_revision :: "(string \<rightharpoonup> KeyValue) \<Rightarrow> string \<Rightarrow> int" where
  "kv_mod_revision m k = (case m k of None \<Rightarrow> 0 | Some kv \<Rightarrow> kvModRevision kv)"

fun cmp_result :: "CmpResult \<Rightarrow> int \<Rightarrow> int \<Rightarrow> bool" where
  "cmp_result CmpEqual a b = (a = b)"
| "cmp_result CmpGreater a b = (a > b)"

fun cmp_holds :: "(string \<rightharpoonup> KeyValue) \<Rightarrow> Cmp \<Rightarrow> bool" where
  "cmp_holds m (CmpVersion k r v) = cmp_result r (kv_version m k) v"
| "cmp_holds m (CmpModRevision k r v) = cmp_result r (kv_mod_revision m k) v"

fun op_apply :: "Op \<Rightarrow> (string \<rightharpoonup> KeyValue) \<times> int \<Rightarrow> (string \<rightharpoonup> KeyValue) \<times> int" where
  "op_apply (OpPut k v) (m, n) =
     (m(k \<mapsto> \<lparr>kvKey = k, kvValue = v, kvModRevision = n + 1, kvVersion = kv_version m k + 1\<rparr>),
      n + 1)"
| "op_apply (OpDelete k) (m, n) = (if m k = None then (m, n) else (m(k := None), n + 1))"

text \<open>The error values of the etcd package are its own: the client library does not return them.\<close>

definition sentinel :: "goerror \<Rightarrow> bool" where
  "sentinel e \<longleftrightarrow>
     errors_Is e ErrNotFound \<or> errors_Is e ErrAlreadyExists \<or> errors_Is e ErrConflict"

locale etcd_server =
  fixes client :: "'w Clientv3"
    and kvs :: "'w \<Rightarrow> string \<rightharpoonup> KeyValue"
    and revision :: "'w \<Rightarrow> int"
    and invar :: "'w \<Rightarrow> bool"
  assumes kv_ok: "invar w \<Longrightarrow> kvs w k = Some kv \<Longrightarrow>
      kvKey kv = k \<and> 0 < kvModRevision kv \<and> kvModRevision kv \<le> revision w \<and> 0 < kvVersion kv"
    and revision_ok: "invar w \<Longrightarrow> in_int64 (revision w)"
    and get_frame: "invar w \<Longrightarrow> clientGet client k w = (res, w') \<Longrightarrow>
      invar w' \<and> kvs w' = kvs w \<and> revision w' = revision w"
    and get_ok: "invar w \<Longrightarrow> clientGet client k w = (Inr r, w') \<Longrightarrow>
      Kvs r = (case kvs w k of None \<Rightarrow> [] | Some kv \<Rightarrow> [kv])"
    and get_error: "clientGet client k w = (Inl e, w') \<Longrightarrow> \<not> sentinel e"
    and range_frame: "invar w \<Longrightarrow> clientGetPrefix client p w = (res, w') \<Longrightarrow>
      invar w' \<and> kvs w' = kvs w \<and> revision w' = revision w"
    and range_ok: "invar w \<Longrightarrow> clientGetPrefix client p w = (Inr r, w') \<Longrightarrow>
      sorted_wrt (\<lambda>a b. kvKey a < kvKey b) (Kvs r) \<and>
      set (Kvs r) = {kv. \<exists>k. kvs w k = Some kv \<and> strings_HasPrefix k p} \<and>
      getRevision r = revision w"
    and range_error: "clientGetPrefix client p w = (Inl e, w') \<Longrightarrow> \<not> sentinel e"
    and txn_ok: "invar w \<Longrightarrow> clientTxn client c op w = (Inr t, w') \<Longrightarrow>
      invar w' \<and> Succeeded t = cmp_holds (kvs w) c \<and>
      (kvs w', revision w') =
        (if Succeeded t then op_apply op (kvs w, revision w) else (kvs w, revision w)) \<and>
      txnRevision t = revision w'"
    and txn_error: "invar w \<Longrightarrow> clientTxn client c op w = (Inl e, w') \<Longrightarrow>
      invar w' \<and> \<not> sentinel e \<and>
      ((kvs w', revision w') = (kvs w, revision w) \<or>
       cmp_holds (kvs w) c \<and> (kvs w', revision w') = op_apply op (kvs w, revision w))"

text \<open>
  A server that answers every call, and refuses a transaction only when its revisions, which
  are 64-bit integers, are used up.
\<close>

locale etcd_server_up = etcd_server +
  assumes get_up: "invar w \<Longrightarrow> clientGet client k w = (res, w') \<Longrightarrow> \<not> isl res"
    and range_up: "invar w \<Longrightarrow> clientGetPrefix client p w = (res, w') \<Longrightarrow> \<not> isl res"
    and txn_up: "invar w \<Longrightarrow> revision w < int64_max \<Longrightarrow> clientTxn client c op w = (tres, w') \<Longrightarrow>
      \<not> isl tres"

section \<open>What the Etcd interface promises\<close>

text \<open>
  The state behind the interface is, for every kind, a map from names to a JSON value and its
  resource version. A reading operation changes nothing; a writing operation that succeeds made
  exactly its change, at a new revision, under its precondition; one that fails with an error
  of the package made none; one that fails otherwise made it or not.
\<close>

definition plain :: "string \<Rightarrow> bool" where
  "plain s \<longleftrightarrow> CHR ''/'' \<notin> set s"

type_synonym objects = "string \<Rightarrow> string \<rightharpoonup> (json \<times> int)"

definition agree_on_plain :: "objects \<Rightarrow> objects \<Rightarrow> bool" where
  "agree_on_plain a b \<longleftrightarrow> (\<forall>kind. plain kind \<longrightarrow> a kind = b kind)"

definition put_object :: "string \<Rightarrow> string \<Rightarrow> (json \<times> int) option \<Rightarrow> objects \<Rightarrow> objects" where
  "put_object kind name v a = a(kind := (a kind)(name := v))"

text \<open>The entries of a kind in a listing: one per name, in the order of the names.\<close>

definition listing :: "(string \<rightharpoonup> json \<times> int) \<Rightarrow> string list \<Rightarrow> Entry list" where
  "listing m names =
     map (\<lambda>n. \<lparr>entryResourceVersion = snd (the (m n)), entryObject = fst (the (m n))\<rparr>) names"

definition lists :: "(string \<rightharpoonup> json \<times> int) \<Rightarrow> string list \<Rightarrow> bool" where
  "lists m names \<longleftrightarrow> sorted_wrt (<) names \<and> set names = dom m"

locale etcd_interface =
  fixes etcd :: "'w Etcd"
    and objs :: "'w \<Rightarrow> objects"
    and revision :: "'w \<Rightarrow> int"
    and invar :: "'w \<Rightarrow> bool"
  assumes version_ok: "invar w \<Longrightarrow> plain kind \<Longrightarrow> objs w kind name = Some (j, v) \<Longrightarrow>
      0 < v \<and> v \<le> revision w"
    and revision_ok: "invar w \<Longrightarrow> in_int64 (revision w)"
    and get_frame: "invar w \<Longrightarrow> plain kind \<Longrightarrow> etcdGet etcd kind name r w = (res, w') \<Longrightarrow>
      invar w' \<and> objs w' = objs w \<and> revision w' = revision w"
    and get_ok: "invar w \<Longrightarrow> plain kind \<Longrightarrow> etcdGet etcd kind name r w = (Inr (r', v), w') \<Longrightarrow>
      \<exists>j. objs w kind name = Some (j, v) \<and> json_Unmarshal j r = Some r'"
    and get_not_found: "invar w \<Longrightarrow> plain kind \<Longrightarrow>
      etcdGet etcd kind name r w = (Inl e, w') \<Longrightarrow> sentinel e \<Longrightarrow>
      e = ErrNotFound \<and> objs w kind name = None"
    and list_frame: "invar w \<Longrightarrow> plain kind \<Longrightarrow> etcdList etcd kind w = (listed, w') \<Longrightarrow>
      invar w' \<and> objs w' = objs w \<and> revision w' = revision w"
    and list_ok: "invar w \<Longrightarrow> plain kind \<Longrightarrow> etcdList etcd kind w = (Inr (entries, v), w') \<Longrightarrow>
      v = revision w \<and> (\<exists>names. lists (objs w kind) names \<and> entries = listing (objs w kind) names)"
    and list_error: "invar w \<Longrightarrow> plain kind \<Longrightarrow> etcdList etcd kind w = (Inl e, w') \<Longrightarrow> \<not> sentinel e"
    and create_ok: "invar w \<Longrightarrow> plain kind \<Longrightarrow> etcdCreate etcd kind name r w = (Inr v, w') \<Longrightarrow>
      invar w' \<and> objs w kind name = None \<and> v = revision w + 1 \<and> revision w' = revision w + 1 \<and>
      (\<exists>j. json_Marshal r = Inr j \<and>
        agree_on_plain (objs w') (put_object kind name (Some (j, v)) (objs w)))"
    and create_exists: "invar w \<Longrightarrow> plain kind \<Longrightarrow>
      etcdCreate etcd kind name r w = (Inl e, w') \<Longrightarrow> sentinel e \<Longrightarrow>
      e = ErrAlreadyExists \<and> objs w kind name \<noteq> None \<and>
      invar w' \<and> objs w' = objs w \<and> revision w' = revision w"
    and create_error: "invar w \<Longrightarrow> plain kind \<Longrightarrow> etcdCreate etcd kind name r w = (Inl e, w') \<Longrightarrow>
      invar w' \<and> (objs w' = objs w \<and> revision w' = revision w \<or>
        objs w kind name = None \<and> revision w' = revision w + 1 \<and>
        (\<exists>j. json_Marshal r = Inr j \<and>
          agree_on_plain (objs w') (put_object kind name (Some (j, revision w')) (objs w))))"
    and update_ok: "invar w \<Longrightarrow> plain kind \<Longrightarrow> rv \<noteq> 0 \<Longrightarrow>
      etcdUpdate etcd kind name r rv w = (Inr v, w') \<Longrightarrow>
      invar w' \<and> (\<exists>j. objs w kind name = Some (j, rv)) \<and>
      v = revision w + 1 \<and> revision w' = revision w + 1 \<and>
      (\<exists>j. json_Marshal r = Inr j \<and>
        agree_on_plain (objs w') (put_object kind name (Some (j, v)) (objs w)))"
    and update_conflict: "invar w \<Longrightarrow> plain kind \<Longrightarrow> rv \<noteq> 0 \<Longrightarrow>
      etcdUpdate etcd kind name r rv w = (Inl e, w') \<Longrightarrow> sentinel e \<Longrightarrow>
      e = ErrConflict \<and> (\<forall>j. objs w kind name \<noteq> Some (j, rv)) \<and>
      invar w' \<and> objs w' = objs w \<and> revision w' = revision w"
    and update_error: "invar w \<Longrightarrow> plain kind \<Longrightarrow> rv \<noteq> 0 \<Longrightarrow>
      etcdUpdate etcd kind name r rv w = (Inl e, w') \<Longrightarrow>
      invar w' \<and> (objs w' = objs w \<and> revision w' = revision w \<or>
        (\<exists>j. objs w kind name = Some (j, rv)) \<and> revision w' = revision w + 1 \<and>
        (\<exists>j. json_Marshal r = Inr j \<and>
          agree_on_plain (objs w') (put_object kind name (Some (j, revision w')) (objs w))))"
    and delete_ok: "invar w \<Longrightarrow> plain kind \<Longrightarrow> etcdDelete etcd kind name rv w = (Inr u, w') \<Longrightarrow>
      invar w' \<and> (\<exists>j v. objs w kind name = Some (j, v) \<and> (rv \<noteq> 0 \<longrightarrow> v = rv)) \<and>
      revision w' = revision w + 1 \<and>
      agree_on_plain (objs w') (put_object kind name None (objs w))"
    and delete_not_found: "invar w \<Longrightarrow> plain kind \<Longrightarrow>
      etcdDelete etcd kind name rv w = (Inl e, w') \<Longrightarrow> sentinel e \<Longrightarrow>
      e = ErrNotFound \<and> (\<forall>j v. objs w kind name = Some (j, v) \<longrightarrow> rv \<noteq> 0 \<and> v \<noteq> rv) \<and>
      invar w' \<and> objs w' = objs w \<and> revision w' = revision w"
    and delete_error: "invar w \<Longrightarrow> plain kind \<Longrightarrow> etcdDelete etcd kind name rv w = (Inl e, w') \<Longrightarrow>
      invar w' \<and> (objs w' = objs w \<and> revision w' = revision w \<or>
        revision w' = revision w + 1 \<and>
        (\<exists>j v. objs w kind name = Some (j, v) \<and> (rv \<noteq> 0 \<longrightarrow> v = rv)) \<and>
        agree_on_plain (objs w') (put_object kind name None (objs w)))"
    and watch_frame: "invar w \<Longrightarrow> plain kind \<Longrightarrow> etcdWatch etcd kind v w = (watched, w') \<Longrightarrow>
      invar w' \<and> objs w' = objs w \<and> revision w' = revision w"

text \<open>
  An interface that never fails for reasons of its own. The only errors left are the package's
  and that of a stored value that does not decode into the target.
\<close>

locale etcd_interface_up = etcd_interface +
  assumes get_up: "invar w \<Longrightarrow> plain kind \<Longrightarrow> objs w kind name = Some (j, v) \<Longrightarrow>
      json_Unmarshal j r = Some r' \<Longrightarrow> \<exists>w'. etcdGet etcd kind name r w = (Inr (r', v), w')"
    and get_missing: "invar w \<Longrightarrow> plain kind \<Longrightarrow> objs w kind name = None \<Longrightarrow>
      \<exists>w'. etcdGet etcd kind name r w = (Inl ErrNotFound, w')"
    and list_up: "invar w \<Longrightarrow> plain kind \<Longrightarrow>
      \<exists>entries v w'. etcdList etcd kind w = (Inr (entries, v), w')"
    and create_up: "invar w \<Longrightarrow> revision w < int64_max \<Longrightarrow> plain kind \<Longrightarrow> objs w kind name = None \<Longrightarrow>
      \<exists>v w'. etcdCreate etcd kind name r w = (Inr v, w')"
    and create_taken: "invar w \<Longrightarrow> revision w < int64_max \<Longrightarrow> plain kind \<Longrightarrow> objs w kind name \<noteq> None \<Longrightarrow>
      \<exists>w'. etcdCreate etcd kind name r w = (Inl ErrAlreadyExists, w')"
    and update_up: "invar w \<Longrightarrow> revision w < int64_max \<Longrightarrow> plain kind \<Longrightarrow> objs w kind name = Some (j, rv) \<Longrightarrow>
      \<exists>v w'. etcdUpdate etcd kind name r rv w = (Inr v, w')"
    and update_stale: "invar w \<Longrightarrow> revision w < int64_max \<Longrightarrow> plain kind \<Longrightarrow> rv \<noteq> 0 \<Longrightarrow>
      (\<forall>j. objs w kind name \<noteq> Some (j, rv)) \<Longrightarrow>
      \<exists>w'. etcdUpdate etcd kind name r rv w = (Inl ErrConflict, w')"
    and delete_up: "invar w \<Longrightarrow> revision w < int64_max \<Longrightarrow> plain kind \<Longrightarrow> objs w kind name = Some (j, v) \<Longrightarrow>
      rv = 0 \<or> rv = v \<Longrightarrow> \<exists>w'. etcdDelete etcd kind name rv w = (Inr (), w')"
    and delete_stale: "invar w \<Longrightarrow> revision w < int64_max \<Longrightarrow> plain kind \<Longrightarrow> rv \<noteq> 0 \<Longrightarrow>
      (\<forall>j. objs w kind name \<noteq> Some (j, rv)) \<Longrightarrow>
      \<exists>w'. etcdDelete etcd kind name rv w = (Inl ErrNotFound, w')"


section \<open>The store keeps the promise over any etcd server\<close>

definition objects_of :: "(string \<rightharpoonup> KeyValue) \<Rightarrow> objects" where
  "objects_of m kind name =
     map_option (\<lambda>kv. (kvValue kv, kvModRevision kv)) (m (objectKey kind name))"

lemma objectKey_plain:
  "plain kind \<Longrightarrow> plain kind' \<Longrightarrow>
    objectKey kind name = objectKey kind' name' \<longleftrightarrow> kind = kind' \<and> name = name'"
  by (simp add: plain_def objectKey_inject)

lemma objects_of_upd:
  assumes "plain kind"
  shows "agree_on_plain (objects_of (m(objectKey kind name := v)))
    (put_object kind name (map_option (\<lambda>kv. (kvValue kv, kvModRevision kv)) v) (objects_of m))"
proof -
  have "objects_of (m(objectKey kind name := v)) k =
      put_object kind name (map_option (\<lambda>kv. (kvValue kv, kvModRevision kv)) v) (objects_of m) k"
    if "plain k" for k
    using assms that by (intro ext) (auto simp: objects_of_def put_object_def objectKey_plain)
  then show ?thesis by (simp add: agree_on_plain_def)
qed

lemma objects_of_put:
  assumes "plain kind" and "op_apply (OpPut (objectKey kind name) j) (m, n) = (m', n')"
  shows "agree_on_plain (objects_of m') (put_object kind name (Some (j, n')) (objects_of m))"
    and "n' = n + 1"
proof -
  from assms(2) have m': "m' = m(objectKey kind name := Some \<lparr>kvKey = objectKey kind name,
      kvValue = j, kvModRevision = n', kvVersion = kv_version m (objectKey kind name) + 1\<rparr>)"
    and "n' = n + 1"
    by auto
  then show "n' = n + 1" by simp
  show "agree_on_plain (objects_of m') (put_object kind name (Some (j, n')) (objects_of m))"
    unfolding m' using objects_of_upd [OF assms(1), of m name] by (metis (no_types, lifting)
      KeyValue.select_convs(2,3) option.simps(9))
qed

lemma objects_of_delete:
  assumes "plain kind" and "op_apply (OpDelete (objectKey kind name)) (m, n) = (m', n')"
    and "objects_of m kind name \<noteq> None"
  shows "agree_on_plain (objects_of m') (put_object kind name None (objects_of m))"
    and "n' = n + 1"
proof -
  from assms(2,3) have m': "m' = m(objectKey kind name := None)" and "n' = n + 1"
    by (auto simp: objects_of_def split: if_splits)
  then show "n' = n + 1" by simp
  show "agree_on_plain (objects_of m') (put_object kind name None (objects_of m))"
    unfolding m' using objects_of_upd [OF assms(1), of m name None] by simp
qed

lemma objects_of_Some:
  "objects_of m kind name = Some (j, v) \<longleftrightarrow>
    (\<exists>kv. m (objectKey kind name) = Some kv \<and> kvValue kv = j \<and> kvModRevision kv = v)"
  by (auto simp: objects_of_def)

lemma objects_of_None: "objects_of m kind name = None \<longleftrightarrow> m (objectKey kind name) = None"
  by (simp add: objects_of_def)

lemma sentinel_simps [simp]:
  "sentinel ErrNotFound" "sentinel ErrAlreadyExists" "sentinel ErrConflict"
  "\<not> sentinel ContextCanceled" "\<not> sentinel (NewError m)" "\<not> sentinel (HTTPError c m)"
  "sentinel (WrapError m e) = sentinel e" "\<not> sentinel decodeStoredError"
  by (auto simp: sentinel_def decodeStoredError_def)

lemma json_Marshal_Inr [simp]: "json_Marshal r = Inl e \<longleftrightarrow> False"
  by (cases r) auto

lemma json_Marshal_total: "\<exists>j. json_Marshal r = Inr j"
  by (cases r) auto

text \<open>A listing of key-value pairs in key order is a listing of the objects in name order.\<close>

lemma string_less_append [simp]: "(p @ a < p @ b) = (a < (b :: string))"
  by (induction p) auto

lemma kvs_listing:
  assumes "sorted_wrt (\<lambda>a b. kvKey a < kvKey b) kvl"
    and "set kvl = {kv. \<exists>k. m k = Some kv \<and> strings_HasPrefix k (objectPrefix kind)}"
    and "\<And>k kv. m k = Some kv \<Longrightarrow> kvKey kv = k"
  obtains names where "lists (objects_of m kind) names"
    and "map (\<lambda>pair. \<lparr>entryResourceVersion = kvModRevision pair, entryObject = kvValue pair\<rparr>) kvl
      = listing (objects_of m kind) names"
proof
  define name_of where "name_of kv = drop (length (objectPrefix kind)) (kvKey kv)" for kv :: KeyValue
  have key: "kvKey kv = objectKey kind (name_of kv)" "m (objectKey kind (name_of kv)) = Some kv"
    if "kv \<in> set kvl" for kv
    using that assms(2,3)
    by (auto simp: objectKey_def name_of_def strings_HasPrefix_def) (metis append_take_drop_id)+
  show "lists (objects_of m kind) (map name_of kvl)"
    unfolding lists_def
  proof
    have "sorted_wrt (\<lambda>a b. name_of a < name_of b) kvl"
      using assms(1) by (rule sorted_wrt_mono_rel [rotated]) (simp add: key objectKey_def)
    then show "sorted_wrt (<) (map name_of kvl)"
      by (simp add: sorted_wrt_map)
    show "set (map name_of kvl) = dom (objects_of m kind)"
    proof
      show "set (map name_of kvl) \<subseteq> dom (objects_of m kind)"
        using key(2) by (auto simp: objects_of_def)
      show "dom (objects_of m kind) \<subseteq> set (map name_of kvl)"
      proof
        fix n assume "n \<in> dom (objects_of m kind)"
        then obtain kv where kv: "m (objectKey kind n) = Some kv"
          by (auto simp: objects_of_def)
        then have "kv \<in> set kvl" and "name_of kv = n"
          using assms(2,3) by (auto simp: objectKey_def name_of_def)
        then show "n \<in> set (map name_of kvl)" by force
      qed
    qed
  qed
  show "map (\<lambda>pair. \<lparr>entryResourceVersion = kvModRevision pair, entryObject = kvValue pair\<rparr>) kvl
      = listing (objects_of m kind) (map name_of kvl)"
    unfolding listing_def using key(2) by (auto simp: objects_of_def)
qed


lemmas EtcdClient_defs =
  EtcdClient_Get_def EtcdClient_List_def EtcdClient_Create_def EtcdClient_Update_def
  EtcdClient_Delete_def

lemma NewEtcdClient_simps [simp]:
  "etcdGet (NewEtcdClient client) = EtcdClient_Get client"
  "etcdList (NewEtcdClient client) = EtcdClient_List client"
  "etcdCreate (NewEtcdClient client) = EtcdClient_Create client"
  "etcdUpdate (NewEtcdClient client) = EtcdClient_Update client"
  "etcdDelete (NewEtcdClient client) = EtcdClient_Delete client"
  "etcdWatch (NewEtcdClient client) = EtcdClient_Watch client"
  by (simp_all add: NewEtcdClient_def)

text \<open>A transaction of one comparison and one operation, as the three writing methods run it.\<close>

definition txn_then ::
    "'w Clientv3 \<Rightarrow> Cmp \<Rightarrow> Op \<Rightarrow> goerror \<Rightarrow> (TxnResponse \<Rightarrow> 'b) \<Rightarrow> ('w, 'b) operation" where
  "txn_then client c op e f =
     andThen (clientTxn client c op) (\<lambda>response.
       if \<not> Succeeded response then failing e else returning (f response))"

lemma EtcdClient_Create_txn:
  "json_Marshal r = Inr j \<Longrightarrow> EtcdClient_Create client kind name r =
    txn_then client (CmpVersion (objectKey kind name) CmpEqual 0) (OpPut (objectKey kind name) j)
      ErrAlreadyExists txnRevision"
  by (simp add: EtcdClient_Create_def txn_then_def)

lemma EtcdClient_Update_txn:
  "json_Marshal r = Inr j \<Longrightarrow> EtcdClient_Update client kind name r rv =
    txn_then client (CmpModRevision (objectKey kind name) CmpEqual rv)
      (OpPut (objectKey kind name) j) ErrConflict txnRevision"
  by (simp add: EtcdClient_Update_def txn_then_def)

lemma EtcdClient_Delete_txn:
  "EtcdClient_Delete client kind name rv =
    txn_then client
      (if rv \<noteq> 0 then CmpModRevision (objectKey kind name) CmpEqual rv
       else CmpVersion (objectKey kind name) CmpGreater 0)
      (OpDelete (objectKey kind name)) ErrNotFound (\<lambda>_. ())"
  by (simp add: EtcdClient_Delete_def txn_then_def Let_def)

context etcd_server begin

lemma txn_then_ok:
  assumes "invar w" and "txn_then client c op e f w = (Inr b, w')"
  shows "invar w'" and "cmp_holds (kvs w) c"
    and "op_apply op (kvs w, revision w) = (kvs w', revision w')"
    and "\<exists>t. b = f t \<and> txnRevision t = revision w'"
proof -
  from assms(2) obtain t where t: "clientTxn client c op w = (Inr t, w')" "Succeeded t" "b = f t"
    by (auto simp: txn_then_def andThen_def failing_def returning_def split: prod.splits sum.splits
        if_splits)
  from txn_ok [OF assms(1) t(1)] t
  show "invar w'" "cmp_holds (kvs w) c" "op_apply op (kvs w, revision w) = (kvs w', revision w')"
    "\<exists>t. b = f t \<and> txnRevision t = revision w'"
    by auto
qed

lemma txn_then_refused:
  assumes "invar w" and "txn_then client c op e f w = (Inl e', w')" and "sentinel e'"
  shows "invar w'" and "e' = e" and "\<not> cmp_holds (kvs w) c"
    and "kvs w' = kvs w" and "revision w' = revision w"
proof -
  from assms(2) consider "clientTxn client c op w = (Inl e', w')"
    | t where "clientTxn client c op w = (Inr t, w')" "\<not> Succeeded t" "e' = e"
    by (auto simp: txn_then_def andThen_def failing_def returning_def split: prod.splits sum.splits
        if_splits)
  then have "\<exists>t. clientTxn client c op w = (Inr t, w') \<and> \<not> Succeeded t \<and> e' = e"
  proof cases
    case 1
    with txn_error [OF assms(1) 1] assms(3) show ?thesis by simp
  qed auto
  then obtain t where t: "clientTxn client c op w = (Inr t, w')" "\<not> Succeeded t" "e' = e"
    by auto
  with txn_ok [OF assms(1) t(1)]
  show "invar w'" "e' = e" "\<not> cmp_holds (kvs w) c" "kvs w' = kvs w" "revision w' = revision w"
    by auto
qed

lemma txn_then_failed:
  assumes "invar w" and "txn_then client c op e f w = (Inl e', w')"
  shows "invar w' \<and> (kvs w' = kvs w \<and> revision w' = revision w \<or>
    cmp_holds (kvs w) c \<and> op_apply op (kvs w, revision w) = (kvs w', revision w'))"
proof -
  from assms(2) consider "clientTxn client c op w = (Inl e', w')"
    | t where "clientTxn client c op w = (Inr t, w')" "\<not> Succeeded t" "e' = e"
    by (auto simp: txn_then_def andThen_def failing_def returning_def split: prod.splits sum.splits
        if_splits)
  then show ?thesis
  proof cases
    case 1
    from txn_error [OF assms(1) 1] show ?thesis by auto
  next
    case (2 t)
    from txn_ok [OF assms(1) 2(1)] 2(2) show ?thesis by simp
  qed
qed

lemma cmp_version_zero:
  "invar w \<Longrightarrow> cmp_holds (kvs w) (CmpVersion (objectKey kind name) CmpEqual 0) \<longleftrightarrow>
    objects_of (kvs w) kind name = None"
  using kv_ok [of w "objectKey kind name"]
  by (auto simp: kv_version_def objects_of_None split: option.splits)

lemma cmp_version_positive:
  "invar w \<Longrightarrow> cmp_holds (kvs w) (CmpVersion (objectKey kind name) CmpGreater 0) \<longleftrightarrow>
    objects_of (kvs w) kind name \<noteq> None"
  using kv_ok [of w "objectKey kind name"]
  by (auto simp: kv_version_def objects_of_None split: option.splits)

lemma cmp_mod_revision:
  "invar w \<Longrightarrow> rv \<noteq> 0 \<Longrightarrow>
    cmp_holds (kvs w) (CmpModRevision (objectKey kind name) CmpEqual rv) \<longleftrightarrow>
    (\<exists>j. objects_of (kvs w) kind name = Some (j, rv))"
  by (auto simp: kv_mod_revision_def objects_of_Some split: option.splits)

lemma cmp_delete:
  "invar w \<Longrightarrow>
    cmp_holds (kvs w)
      (if rv \<noteq> 0 then CmpModRevision (objectKey kind name) CmpEqual rv
       else CmpVersion (objectKey kind name) CmpGreater 0) \<longleftrightarrow>
    (\<exists>j v. objects_of (kvs w) kind name = Some (j, v) \<and> (rv \<noteq> 0 \<longrightarrow> v = rv))"
  using cmp_mod_revision [of w rv kind name] cmp_version_positive [of w kind name] by auto

lemma Get_split:
  assumes "EtcdClient_Get client kind name r w = (res, w')"
  obtains (error) e where "clientGet client (objectKey kind name) w = (Inl e, w')" "res = Inl e"
    | (response) g where "clientGet client (objectKey kind name) w = (Inr g, w')"
        "res = (case Kvs g of [] \<Rightarrow> Inl ErrNotFound
          | kv # _ \<Rightarrow> (case json_Unmarshal (kvValue kv) r of None \<Rightarrow> Inl decodeStoredError
              | Some x \<Rightarrow> Inr (x, kvModRevision kv)))"
  using assms
  by (auto simp: EtcdClient_Get_def andThen_def failing_def returning_def
      split: prod.splits sum.splits list.splits option.splits)

lemma Get_frame:
  assumes "invar w" and "EtcdClient_Get client kind name r w = (res, w')"
  shows "invar w' \<and> kvs w' = kvs w \<and> revision w' = revision w"
  using assms(2) by (rule Get_split) (use get_frame [OF assms(1)] in blast)+

lemma Get_ok:
  assumes "invar w" and "EtcdClient_Get client kind name r w = (Inr (r', v), w')"
  shows "\<exists>j. objects_of (kvs w) kind name = Some (j, v) \<and> json_Unmarshal j r = Some r'"
  using assms(2)
proof (rule Get_split)
  fix g assume g: "clientGet client (objectKey kind name) w = (Inr g, w')"
    and r: "Inr (r', v) = (case Kvs g of [] \<Rightarrow> Inl ErrNotFound
          | kv # _ \<Rightarrow> (case json_Unmarshal (kvValue kv) r of None \<Rightarrow> Inl decodeStoredError
              | Some x \<Rightarrow> Inr (x, kvModRevision kv)))"
  from get_ok [OF assms(1) g] r show ?thesis
    by (auto simp: objects_of_Some split: option.splits)
qed simp

lemma Get_not_found:
  assumes "invar w" and "EtcdClient_Get client kind name r w = (Inl e, w')" and "sentinel e"
  shows "e = ErrNotFound \<and> objects_of (kvs w) kind name = None"
  using assms(2)
proof (rule Get_split)
  fix e' assume "clientGet client (objectKey kind name) w = (Inl e', w')" "Inl e = Inl e'"
  with get_error assms(3) show ?thesis by blast
next
  fix g assume g: "clientGet client (objectKey kind name) w = (Inr g, w')"
    and r: "Inl e = (case Kvs g of [] \<Rightarrow> Inl ErrNotFound
          | kv # _ \<Rightarrow> (case json_Unmarshal (kvValue kv) r of None \<Rightarrow> Inl decodeStoredError
              | Some x \<Rightarrow> Inr (x, kvModRevision kv)))"
  from get_ok [OF assms(1) g] r assms(3) show ?thesis
    by (auto simp: objects_of_None split: option.splits)
qed

lemma List_frame:
  "invar w \<Longrightarrow> EtcdClient_List client kind w = (listed, w') \<Longrightarrow>
    invar w' \<and> kvs w' = kvs w \<and> revision w' = revision w"
  using range_frame [of w "objectPrefix kind"]
  by (fastforce simp: EtcdClient_List_def andThen_def returning_def split: prod.splits sum.splits)

lemma List_ok:
  assumes "invar w" and "EtcdClient_List client kind w = (Inr (entries, v), w')"
  shows "v = revision w \<and> (\<exists>names. lists (objects_of (kvs w) kind) names \<and>
    entries = listing (objects_of (kvs w) kind) names)"
proof -
  from assms(2) obtain g where g: "clientGetPrefix client (objectPrefix kind) w = (Inr g, w')"
    and e: "entries = map (\<lambda>pair. \<lparr>entryResourceVersion = kvModRevision pair,
        entryObject = kvValue pair\<rparr>) (Kvs g)" "v = getRevision g"
    by (auto simp: EtcdClient_List_def andThen_def returning_def split: prod.splits sum.splits)
  note range = range_ok [OF assms(1) g]
  obtain names where "lists (objects_of (kvs w) kind) names"
    and "entries = listing (objects_of (kvs w) kind) names"
    unfolding e(1)
    by (rule kvs_listing [of "Kvs g" "kvs w" kind]) (use range kv_ok [OF assms(1)] in blast)+
  with e(2) range show ?thesis by blast
qed

lemma List_error: "EtcdClient_List client kind w = (Inl e, w') \<Longrightarrow> \<not> sentinel e"
  using range_error
  by (fastforce simp: EtcdClient_List_def andThen_def returning_def split: prod.splits sum.splits)

lemma Create_ok:
  assumes "invar w" and "plain kind" and "EtcdClient_Create client kind name r w = (Inr v, w')"
  shows "invar w' \<and> objects_of (kvs w) kind name = None \<and> v = revision w + 1 \<and>
    revision w' = revision w + 1 \<and> (\<exists>j. json_Marshal r = Inr j \<and>
      agree_on_plain (objects_of (kvs w')) (put_object kind name (Some (j, v)) (objects_of (kvs w))))"
proof -
  obtain j where j: "json_Marshal r = Inr j" using json_Marshal_total by blast
  note txn = txn_then_ok [OF assms(1) assms(3) [unfolded EtcdClient_Create_txn [OF j]]]
  note put = objects_of_put [OF assms(2) txn(3)]
  have "v = revision w'" using txn(4) by auto
  moreover have "objects_of (kvs w) kind name = None"
    using txn(2) cmp_version_zero [OF assms(1)] by blast
  ultimately show ?thesis using txn(1) put j by blast
qed

lemma Create_exists:
  assumes "invar w" and "EtcdClient_Create client kind name r w = (Inl e, w')" and "sentinel e"
  shows "e = ErrAlreadyExists \<and> objects_of (kvs w) kind name \<noteq> None \<and>
    invar w' \<and> objects_of (kvs w') = objects_of (kvs w) \<and> revision w' = revision w"
proof -
  obtain j where j: "json_Marshal r = Inr j" using json_Marshal_total by blast
  note txn = txn_then_refused [OF assms(1) assms(2) [unfolded EtcdClient_Create_txn [OF j]] assms(3)]
  have "objects_of (kvs w) kind name \<noteq> None"
    using txn(3) cmp_version_zero [OF assms(1)] by blast
  then show ?thesis using txn by simp
qed

lemma Create_error:
  assumes "invar w" and "plain kind" and "EtcdClient_Create client kind name r w = (Inl e, w')"
  shows "invar w' \<and> (objects_of (kvs w') = objects_of (kvs w) \<and> revision w' = revision w \<or>
    objects_of (kvs w) kind name = None \<and> revision w' = revision w + 1 \<and>
    (\<exists>j. json_Marshal r = Inr j \<and> agree_on_plain (objects_of (kvs w'))
      (put_object kind name (Some (j, revision w')) (objects_of (kvs w)))))"
proof -
  obtain j where j: "json_Marshal r = Inr j" using json_Marshal_total by blast
  note txn = txn_then_failed [OF assms(1) assms(3) [unfolded EtcdClient_Create_txn [OF j]]]
  from txn have "kvs w' = kvs w \<and> revision w' = revision w \<or>
    objects_of (kvs w) kind name = None \<and>
    op_apply (OpPut (objectKey kind name) j) (kvs w, revision w) = (kvs w', revision w')"
    using cmp_version_zero [OF assms(1)] by blast
  then show ?thesis
  proof
    assume a: "objects_of (kvs w) kind name = None \<and>
      op_apply (OpPut (objectKey kind name) j) (kvs w, revision w) = (kvs w', revision w')"
    note put = objects_of_put [OF assms(2) conjunct2 [OF a]]
    show ?thesis using a put txn j by blast
  qed (use txn in simp)
qed

lemma Update_ok:
  assumes "invar w" and "plain kind" and "rv \<noteq> 0"
    and "EtcdClient_Update client kind name r rv w = (Inr v, w')"
  shows "invar w' \<and> (\<exists>j. objects_of (kvs w) kind name = Some (j, rv)) \<and>
    v = revision w + 1 \<and> revision w' = revision w + 1 \<and> (\<exists>j. json_Marshal r = Inr j \<and>
      agree_on_plain (objects_of (kvs w')) (put_object kind name (Some (j, v)) (objects_of (kvs w))))"
proof -
  obtain j where j: "json_Marshal r = Inr j" using json_Marshal_total by blast
  note txn = txn_then_ok [OF assms(1) assms(4) [unfolded EtcdClient_Update_txn [OF j]]]
  note put = objects_of_put [OF assms(2) txn(3)]
  have "v = revision w'" using txn(4) by auto
  moreover have "\<exists>j. objects_of (kvs w) kind name = Some (j, rv)"
    using txn(2) cmp_mod_revision [OF assms(1,3)] by blast
  ultimately show ?thesis using txn(1) put j by blast
qed

lemma Update_conflict:
  assumes "invar w" and "rv \<noteq> 0"
    and "EtcdClient_Update client kind name r rv w = (Inl e, w')" and "sentinel e"
  shows "e = ErrConflict \<and> (\<forall>j. objects_of (kvs w) kind name \<noteq> Some (j, rv)) \<and>
    invar w' \<and> objects_of (kvs w') = objects_of (kvs w) \<and> revision w' = revision w"
proof -
  obtain j where j: "json_Marshal r = Inr j" using json_Marshal_total by blast
  note txn = txn_then_refused [OF assms(1) assms(3) [unfolded EtcdClient_Update_txn [OF j]] assms(4)]
  have "\<forall>j. objects_of (kvs w) kind name \<noteq> Some (j, rv)"
    using txn(3) cmp_mod_revision [OF assms(1,2)] by blast
  then show ?thesis using txn by simp
qed

lemma Update_error:
  assumes "invar w" and "plain kind" and "rv \<noteq> 0"
    and "EtcdClient_Update client kind name r rv w = (Inl e, w')"
  shows "invar w' \<and> (objects_of (kvs w') = objects_of (kvs w) \<and> revision w' = revision w \<or>
    (\<exists>j. objects_of (kvs w) kind name = Some (j, rv)) \<and> revision w' = revision w + 1 \<and>
    (\<exists>j. json_Marshal r = Inr j \<and> agree_on_plain (objects_of (kvs w'))
      (put_object kind name (Some (j, revision w')) (objects_of (kvs w)))))"
proof -
  obtain j where j: "json_Marshal r = Inr j" using json_Marshal_total by blast
  note txn = txn_then_failed [OF assms(1) assms(4) [unfolded EtcdClient_Update_txn [OF j]]]
  from txn have "kvs w' = kvs w \<and> revision w' = revision w \<or>
    (\<exists>j. objects_of (kvs w) kind name = Some (j, rv)) \<and>
    op_apply (OpPut (objectKey kind name) j) (kvs w, revision w) = (kvs w', revision w')"
    using cmp_mod_revision [OF assms(1,3)] by blast
  then show ?thesis
  proof
    assume a: "(\<exists>j. objects_of (kvs w) kind name = Some (j, rv)) \<and>
      op_apply (OpPut (objectKey kind name) j) (kvs w, revision w) = (kvs w', revision w')"
    note put = objects_of_put [OF assms(2) conjunct2 [OF a]]
    show ?thesis using a put txn j by blast
  qed (use txn in simp)
qed

lemma Delete_ok:
  assumes "invar w" and "plain kind" and "EtcdClient_Delete client kind name rv w = (Inr u, w')"
  shows "invar w' \<and> (\<exists>j v. objects_of (kvs w) kind name = Some (j, v) \<and> (rv \<noteq> 0 \<longrightarrow> v = rv)) \<and>
    revision w' = revision w + 1 \<and>
    agree_on_plain (objects_of (kvs w')) (put_object kind name None (objects_of (kvs w)))"
proof -
  note txn = txn_then_ok [OF assms(1) assms(3) [unfolded EtcdClient_Delete_txn]]
  have ex: "\<exists>j v. objects_of (kvs w) kind name = Some (j, v) \<and> (rv \<noteq> 0 \<longrightarrow> v = rv)"
    using txn(2) cmp_delete [OF assms(1)] by blast
  then have "objects_of (kvs w) kind name \<noteq> None" by auto
  note del = objects_of_delete [OF assms(2) txn(3) this]
  show ?thesis using ex del txn(1) by blast
qed

lemma Delete_not_found:
  assumes "invar w" and "EtcdClient_Delete client kind name rv w = (Inl e, w')" and "sentinel e"
  shows "e = ErrNotFound \<and>
    (\<forall>j v. objects_of (kvs w) kind name = Some (j, v) \<longrightarrow> rv \<noteq> 0 \<and> v \<noteq> rv) \<and>
    invar w' \<and> objects_of (kvs w') = objects_of (kvs w) \<and> revision w' = revision w"
proof -
  note txn = txn_then_refused [OF assms(1) assms(2) [unfolded EtcdClient_Delete_txn] assms(3)]
  have "\<not> (\<exists>j v. objects_of (kvs w) kind name = Some (j, v) \<and> (rv \<noteq> 0 \<longrightarrow> v = rv))"
    using txn(3) cmp_delete [OF assms(1)] by blast
  then have "\<forall>j v. objects_of (kvs w) kind name = Some (j, v) \<longrightarrow> rv \<noteq> 0 \<and> v \<noteq> rv" by blast
  then show ?thesis using txn by simp
qed

lemma Delete_error:
  assumes "invar w" and "plain kind" and "EtcdClient_Delete client kind name rv w = (Inl e, w')"
  shows "invar w' \<and> (objects_of (kvs w') = objects_of (kvs w) \<and> revision w' = revision w \<or>
    revision w' = revision w + 1 \<and>
    (\<exists>j v. objects_of (kvs w) kind name = Some (j, v) \<and> (rv \<noteq> 0 \<longrightarrow> v = rv)) \<and>
    agree_on_plain (objects_of (kvs w')) (put_object kind name None (objects_of (kvs w))))"
proof -
  note txn = txn_then_failed [OF assms(1) assms(3) [unfolded EtcdClient_Delete_txn]]
  from txn have "kvs w' = kvs w \<and> revision w' = revision w \<or>
    (\<exists>j v. objects_of (kvs w) kind name = Some (j, v) \<and> (rv \<noteq> 0 \<longrightarrow> v = rv)) \<and>
    op_apply (OpDelete (objectKey kind name)) (kvs w, revision w) = (kvs w', revision w')"
    using cmp_delete [OF assms(1)] by blast
  then show ?thesis
  proof
    assume a: "(\<exists>j v. objects_of (kvs w) kind name = Some (j, v) \<and> (rv \<noteq> 0 \<longrightarrow> v = rv)) \<and>
      op_apply (OpDelete (objectKey kind name)) (kvs w, revision w) = (kvs w', revision w')"
    then have "objects_of (kvs w) kind name \<noteq> None" by auto
    note del = objects_of_delete [OF assms(2) conjunct2 [OF a] this]
    show ?thesis using a del txn by blast
  qed (use txn in simp)
qed

lemma plain_version:
  "invar w \<Longrightarrow> objects_of (kvs w) kind name = Some (j, v) \<Longrightarrow> 0 < v \<and> v \<le> revision w"
  using kv_ok by (auto simp: objects_of_Some)

end

sublocale etcd_server \<subseteq> iface: etcd_interface "NewEtcdClient client"
  "\<lambda>w. objects_of (kvs w)" revision invar
proof (unfold_locales, unfold NewEtcdClient_simps, goal_cases)
  case 1 then show ?case by (blast dest: plain_version)
next
  case 2 then show ?case by (rule revision_ok)
next
  case 3 then show ?case using Get_frame by metis
next
  case 4 then show ?case using Get_ok by blast
next
  case 5 then show ?case using Get_not_found by blast
next
  case 6 then show ?case using List_frame by metis
next
  case 7 then show ?case using List_ok by blast
next
  case 8 then show ?case using List_error by blast
next
  case 9 then show ?case by (rule Create_ok)
next
  case 10 then show ?case using Create_exists by blast
next
  case 11 then show ?case by (rule Create_error)
next
  case 12 then show ?case by (rule Update_ok)
next
  case 13 then show ?case using Update_conflict by blast
next
  case 14 then show ?case by (rule Update_error)
next
  case 15 then show ?case by (rule Delete_ok)
next
  case 16 then show ?case using Delete_not_found by blast
next
  case 17 then show ?case by (rule Delete_error)
next
  case 18 then show ?case by (auto simp: EtcdClient_Watch_def Let_def)
qed


context etcd_server_up begin

lemma txn_then_up:
  assumes "invar w" and "revision w < int64_max" and "cmp_holds (kvs w) c"
  shows "\<exists>t w'. txn_then client c op e f w = (Inr (f t), w')"
proof -
  obtain res w' where res: "clientTxn client c op w = (res, w')" by fastforce
  with txn_up [OF assms(1,2) res] obtain t where t: "clientTxn client c op w = (Inr t, w')"
    by (cases res) auto
  with txn_ok [OF assms(1) t] assms(3) show ?thesis
    by (auto simp: txn_then_def andThen_def returning_def)
qed

lemma txn_then_not_up:
  assumes "invar w" and "revision w < int64_max" and "\<not> cmp_holds (kvs w) c"
  shows "\<exists>w'. txn_then client c op e f w = (Inl e, w')"
proof -
  obtain res w' where res: "clientTxn client c op w = (res, w')" by fastforce
  with txn_up [OF assms(1,2) res] obtain t where t: "clientTxn client c op w = (Inr t, w')"
    by (cases res) auto
  with txn_ok [OF assms(1) t] assms(3) show ?thesis
    by (auto simp: txn_then_def andThen_def failing_def)
qed

lemma Get_up:
  assumes "invar w"
  shows "\<exists>w'. EtcdClient_Get client kind name r w =
    (case objects_of (kvs w) kind name of
       None \<Rightarrow> Inl ErrNotFound
     | Some (j, v) \<Rightarrow> (case json_Unmarshal j r of None \<Rightarrow> Inl decodeStoredError
         | Some r' \<Rightarrow> Inr (r', v)), w')"
proof -
  obtain res w' where res: "clientGet client (objectKey kind name) w = (res, w')" by fastforce
  with get_up [OF assms res] obtain g where g: "clientGet client (objectKey kind name) w = (Inr g, w')"
    by (cases res) auto
  from get_ok [OF assms g] g show ?thesis
    by (auto simp: EtcdClient_Get_def andThen_def returning_def failing_def objects_of_def
        split: option.splits)
qed

lemma List_up:
  assumes "invar w"
  shows "\<exists>entries v w'. EtcdClient_List client kind w = (Inr (entries, v), w')"
proof -
  obtain res w' where res: "clientGetPrefix client (objectPrefix kind) w = (res, w')" by fastforce
  with range_up [OF assms res] obtain g
    where "clientGetPrefix client (objectPrefix kind) w = (Inr g, w')"
    by (cases res) auto
  then show ?thesis by (simp add: EtcdClient_List_def andThen_def returning_def)
qed

end

sublocale etcd_server_up \<subseteq> iface: etcd_interface_up "NewEtcdClient client"
  "\<lambda>w. objects_of (kvs w)" revision invar
proof (unfold_locales, unfold NewEtcdClient_simps, goal_cases)
  case (1 w kind name j v r r') then show ?case using Get_up [of w kind name r] by auto
next
  case (2 w kind name r) then show ?case using Get_up [of w kind name r] by auto
next
  case 3 then show ?case using List_up by blast
next
  case (4 w kind name r)
  obtain x where x: "json_Marshal r = Inr x" using json_Marshal_total by blast
  show ?case unfolding EtcdClient_Create_txn [OF x]
    using txn_then_up cmp_version_zero 4 by blast
next
  case (5 w kind name r)
  obtain x where x: "json_Marshal r = Inr x" using json_Marshal_total by blast
  show ?case unfolding EtcdClient_Create_txn [OF x]
    using cmp_version_zero [OF 5(1), of kind name] 5(4) by (intro txn_then_not_up [OF 5(1,2)]) simp
next
  case (6 w kind name j rv r)
  obtain x where x: "json_Marshal r = Inr x" using json_Marshal_total by blast
  have "rv \<noteq> 0" using plain_version 6(1,4) by force
  then show ?case unfolding EtcdClient_Update_txn [OF x]
    using txn_then_up cmp_mod_revision 6 by blast
next
  case (7 w kind rv name r)
  obtain x where x: "json_Marshal r = Inr x" using json_Marshal_total by blast
  show ?case unfolding EtcdClient_Update_txn [OF x]
    using txn_then_not_up cmp_mod_revision 7 by blast
next
  case (8 w kind name j v rv)
  then have "\<exists>j v. objects_of (kvs w) kind name = Some (j, v) \<and> (rv \<noteq> 0 \<longrightarrow> v = rv)" by blast
  then show ?case unfolding EtcdClient_Delete_txn
    using txn_then_up [OF 8(1,2)] cmp_delete [OF 8(1)] by blast
next
  case (9 w kind rv name)
  then have "\<not> (\<exists>j v. objects_of (kvs w) kind name = Some (j, v) \<and> (rv \<noteq> 0 \<longrightarrow> v = rv))" by blast
  then show ?case unfolding EtcdClient_Delete_txn
    using txn_then_not_up [OF 9(1,2)] cmp_delete [OF 9(1)] by blast
qed

section \<open>A server in memory\<close>

text \<open>
  A concrete etcd server, on which the theorems that assume one are instantiated: a finite map
  and a revision counter. It models no code of the repository.
\<close>

record mem_etcd =
  memKvs :: "(string, KeyValue) fmap"
  memRevision :: int

fun mem_op :: "Op \<Rightarrow> mem_etcd \<Rightarrow> mem_etcd" where
  "mem_op (OpPut k v) m =
     \<lparr>memKvs = fmupd k \<lparr>kvKey = k, kvValue = v, kvModRevision = memRevision m + 1,
        kvVersion = kv_version (fmlookup (memKvs m)) k + 1\<rparr> (memKvs m),
      memRevision = memRevision m + 1\<rparr>"
| "mem_op (OpDelete k) m =
     (if fmlookup (memKvs m) k = None then m
      else \<lparr>memKvs = fmdrop k (memKvs m), memRevision = memRevision m + 1\<rparr>)"

definition mem_get :: "string \<Rightarrow> (mem_etcd, GetResponse) operation" where
  "mem_get k m =
     (Inr \<lparr>Kvs = (case fmlookup (memKvs m) k of None \<Rightarrow> [] | Some kv \<Rightarrow> [kv]),
        getRevision = memRevision m\<rparr>, m)"

definition mem_get_prefix :: "string \<Rightarrow> (mem_etcd, GetResponse) operation" where
  "mem_get_prefix p m =
     (Inr \<lparr>Kvs = map snd (filter (\<lambda>(k, _). strings_HasPrefix k p) (sorted_list_of_fmap (memKvs m))),
        getRevision = memRevision m\<rparr>, m)"

definition mem_txn :: "Cmp \<Rightarrow> Op \<Rightarrow> (mem_etcd, TxnResponse) operation" where
  "mem_txn c op m =
     (if memRevision m \<ge> int64_max then (Inl (NewError ''revisions are used up''), m)
      else
        let holds = cmp_holds (fmlookup (memKvs m)) c; m' = (if holds then mem_op op m else m)
        in (Inr \<lparr>Succeeded = holds, txnRevision = memRevision m'\<rparr>, m'))"

definition mem_client :: "mem_etcd Clientv3" where
  "mem_client = \<lparr>clientGet = mem_get, clientGetPrefix = mem_get_prefix, clientTxn = mem_txn,
     clientWatch = (\<lambda>p rv m. [])\<rparr>"

definition mem_empty :: mem_etcd where
  "mem_empty = \<lparr>memKvs = fmempty, memRevision = 1\<rparr>"

abbreviation mem_kvs :: "mem_etcd \<Rightarrow> string \<rightharpoonup> KeyValue" where
  "mem_kvs m \<equiv> fmlookup (memKvs m)"

definition mem_invar :: "mem_etcd \<Rightarrow> bool" where
  "mem_invar m \<longleftrightarrow> 0 < memRevision m \<and> memRevision m \<le> int64_max \<and> fmpred (\<lambda>k kv. kvKey kv = k \<and> 0 < kvModRevision kv \<and>
     kvModRevision kv \<le> memRevision m \<and> 0 < kvVersion kv) (memKvs m)"

lemma mem_op_apply: "(mem_kvs (mem_op op m), memRevision (mem_op op m)) =
    op_apply op (mem_kvs m, memRevision m)"
  by (cases op) (auto simp: fun_eq_iff)

lemma mem_op_invar: "mem_invar m \<Longrightarrow> memRevision m < int64_max \<Longrightarrow> mem_invar (mem_op op m)"
  by (cases op) (force simp: mem_invar_def fmpred_iff kv_version_def split: if_splits option.splits)+

lemma mem_prefix_set:
  "set (map snd (filter (\<lambda>(k, _). strings_HasPrefix k p) (sorted_list_of_fmap f))) =
    {kv. \<exists>k. fmlookup f k = Some kv \<and> strings_HasPrefix k p}"
proof -
  have "(k, kv) \<in> set (sorted_list_of_fmap f) \<longleftrightarrow> fmlookup f k = Some kv" for k kv
    by (auto simp: sorted_list_of_fmap_def fmlookup_dom_iff)
  then show ?thesis by force
qed

lemma mem_prefix_sorted:
  assumes "\<And>k kv. fmlookup f k = Some kv \<Longrightarrow> kvKey kv = k"
  shows "sorted_wrt (\<lambda>a b. kvKey a < kvKey b)
    (map snd (filter (\<lambda>(k, _). strings_HasPrefix k p) (sorted_list_of_fmap f)))"
proof -
  have keys: "kvKey (the (fmlookup f k)) = k" if "k \<in> set (sorted_list_of_fset (fmdom f))" for k
    using that assms by (auto simp: fmlookup_dom_iff)
  have "sorted_wrt (<) (sorted_list_of_fset (fmdom f))"
    by (simp add: sorted_list_of_fset.rep_eq)
  then have "sorted_wrt (\<lambda>a b. kvKey (snd a) < kvKey (snd b)) (sorted_list_of_fmap f)"
    unfolding sorted_list_of_fmap_def sorted_wrt_map
    by (rule sorted_wrt_mono_rel [rotated]) (simp add: keys)
  then show ?thesis
    unfolding sorted_wrt_map by (rule sorted_wrt_filter)
qed

interpretation mem: etcd_server_up mem_client mem_kvs memRevision mem_invar
proof (unfold_locales, goal_cases)
  case 1 then show ?case by (auto simp: mem_invar_def fmpred_iff)
next
  case 2 then show ?case by (auto simp: mem_invar_def in_int64_def int64_min_def)
next
  case (6 w p res w') then show ?case by (simp add: mem_client_def mem_get_prefix_def)
next
  case (7 w p r w')
  then have "kvKey kv = k" if "mem_kvs w k = Some kv" for k kv
    using that by (auto simp: mem_invar_def fmpred_iff)
  from mem_prefix_sorted [OF this] 7 mem_prefix_set [of p "memKvs w"] show ?case
    by (auto simp: mem_client_def mem_get_prefix_def)
next
  case (9 w c op t w')
  then show ?case
    using mem_op_apply [of op w] mem_op_invar
    by (auto simp: mem_client_def mem_txn_def Let_def split: if_splits)
qed (auto simp: mem_client_def mem_get_def mem_get_prefix_def mem_txn_def Let_def split: if_splits)


context etcd_server begin

lemma NewEtcdClient_interface:
  "etcd_interface (NewEtcdClient client) (\<lambda>w. objects_of (kvs w)) revision invar"
  by (rule iface.etcd_interface_axioms)

end

context etcd_server_up begin

lemma NewEtcdClient_interface_up:
  "etcd_interface_up (NewEtcdClient client) (\<lambda>w. objects_of (kvs w)) revision invar"
  by (rule iface.etcd_interface_up_axioms)

end

lemmas etcd_server_interface = etcd_server.NewEtcdClient_interface
lemmas etcd_server_up_interface = etcd_server_up.NewEtcdClient_interface_up

lemma mem_etcd_server: "etcd_server mem_client mem_kvs memRevision mem_invar"
  by (rule mem.etcd_server_axioms)

lemma mem_etcd_server_up: "etcd_server_up mem_client mem_kvs memRevision mem_invar"
  by (rule mem.etcd_server_up_axioms)

end
