(* ===== verification/NetAddr.thy ===== *)
theory NetAddr
  imports Prelude "HOL-Library.Word"
begin

unbundle bit_operations_syntax

text \<open>
  The part of \<^verbatim>\<open>net/netip\<close> the program uses: addresses, prefixes, their parsers and
  printers, and the conversions between the four bytes of an IPv4 address and the 32-bit number
  on which the code does its arithmetic (\<^verbatim>\<open>apiserver/server.go\<close>,
  \<^verbatim>\<open>bootstrap/bootstrap.go\<close>). An IPv6 address is kept as its text: the program only asks
  whether an address is IPv4. The lemmas give the round trips (bytes and number, printing and
  parsing) and the membership of an address in a prefix.
\<close>

type_synonym byte = "8 word"
type_synonym uint32 = "32 word"

datatype netip_Addr = Addr4 byte byte byte byte | Addr6 string

record netip_Prefix =
  prefixAddr :: netip_Addr
  prefixBits :: int

definition Is4 :: "netip_Addr \<Rightarrow> bool" where
  "Is4 a = (case a of Addr4 b0 b1 b2 b3 \<Rightarrow> True | Addr6 s \<Rightarrow> False)"

section \<open>Bytes and numbers\<close>

text \<open>\<open>As4\<close> panics on an IPv6 address; the program calls it after \<open>Is4\<close> only.\<close>

fun As4 :: "netip_Addr \<Rightarrow> (byte \<times> byte \<times> byte \<times> byte) option" where
  "As4 (Addr4 b0 b1 b2 b3) = Some (b0, b1, b2, b3)"
| "As4 (Addr6 s) = None"

fun uint32_of_bytes :: "byte \<times> byte \<times> byte \<times> byte \<Rightarrow> uint32" where
  "uint32_of_bytes (b0, b1, b2, b3) =
     push_bit 24 (ucast b0) OR push_bit 16 (ucast b1) OR push_bit 8 (ucast b2) OR ucast b3"

definition bytes_of_uint32 :: "uint32 \<Rightarrow> byte \<times> byte \<times> byte \<times> byte" where
  "bytes_of_uint32 v =
     (ucast (drop_bit 24 v), ucast (drop_bit 16 v), ucast (drop_bit 8 v), ucast v)"

definition AddrFrom4 :: "byte \<times> byte \<times> byte \<times> byte \<Rightarrow> netip_Addr" where
  "AddrFrom4 b = (case b of (b0, b1, b2, b3) \<Rightarrow> Addr4 b0 b1 b2 b3)"

lemma bytes_of_uint32_of_bytes [simp]: "bytes_of_uint32 (uint32_of_bytes b) = b"
proof -
  obtain b0 b1 b2 b3 where b: "b = (b0, b1, b2, b3)" by (cases b) auto
  show ?thesis
    unfolding b bytes_of_uint32_def uint32_of_bytes.simps prod.inject
    by (intro conjI bit_word_eqI)
      (auto simp: bit_simps not_less dest: bit_imp_le_length)
qed

lemma uint32_of_bytes_of_uint32 [simp]: "uint32_of_bytes (bytes_of_uint32 v) = v"
proof (rule bit_word_eqI)
  fix n assume "n < LENGTH(32)"
  then have "n < 32" by simp
  then consider "n < 8" | "8 \<le> n" "n < 16" | "16 \<le> n" "n < 24" | "24 \<le> n" "n < 32"
    by linarith
  then show "bit (uint32_of_bytes (bytes_of_uint32 v)) n = bit v n"
    by cases (auto simp add: bytes_of_uint32_def bit_simps less_diff_conv2)
qed

lemma bytes_of_uint32_inject [simp]: "bytes_of_uint32 v = bytes_of_uint32 w \<longleftrightarrow> v = w"
  by (metis uint32_of_bytes_of_uint32)

lemma AddrFrom4_inject [simp]: "AddrFrom4 b = AddrFrom4 c \<longleftrightarrow> b = c"
  by (cases b; cases c) (auto simp: AddrFrom4_def)

lemma Is4_AddrFrom4 [simp]: "Is4 (AddrFrom4 b)"
  by (cases b) (auto simp: AddrFrom4_def Is4_def)

lemma As4_AddrFrom4 [simp]: "As4 (AddrFrom4 b) = Some b"
  by (cases b) (auto simp: AddrFrom4_def)

section \<open>Text\<close>

definition octet_string :: "byte \<Rightarrow> string" where
  "octet_string b = show_nat (unat b)"

fun addr_String :: "netip_Addr \<Rightarrow> string" where
  "addr_String (Addr4 b0 b1 b2 b3) =
     octet_string b0 @ ''.'' @ octet_string b1 @ ''.'' @ octet_string b2 @ ''.'' @ octet_string b3"
| "addr_String (Addr6 s) = s"

definition prefix_String :: "netip_Prefix \<Rightarrow> string" where
  "prefix_String p = addr_String (prefixAddr p) @ ''/'' @ strconv_Itoa (prefixBits p)"

text \<open>An octet is a decimal number up to 255 without a leading zero.\<close>

definition parse_octet :: "string \<Rightarrow> byte option" where
  "parse_octet s =
     (if length s > 1 \<and> hd s = CHR ''0'' then None
      else case parse_nat s of
             None \<Rightarrow> None
           | Some n \<Rightarrow> if n \<le> 255 then Some (word_of_nat n) else None)"

definition parseIPv4 :: "string \<Rightarrow> netip_Addr option" where
  "parseIPv4 s =
     (case map parse_octet (strings_Split s (CHR ''.'')) of
        [Some b0, Some b1, Some b2, Some b3] \<Rightarrow> Some (Addr4 b0 b1 b2 b3)
      | _ \<Rightarrow> None)"

definition is_hex :: "char \<Rightarrow> bool" where
  "is_hex c = (is_digit c \<or> (let n = of_char c :: nat in (97 \<le> n \<and> n \<le> 102) \<or> (65 \<le> n \<and> n \<le> 70)))"

text \<open>
  \<open>ipv6_groups i ellipsis s\<close> accepts the rest \<open>s\<close> of an IPv6 address after \<open>i\<close> of its 16
  bytes: groups of one to four hexadecimal digits separated by colons, one \<^verbatim>\<open>::\<close> at most,
  an IPv4 tail in place of the last two groups.
\<close>

function ipv6_groups :: "nat \<Rightarrow> bool \<Rightarrow> string \<Rightarrow> bool" where
  "ipv6_groups i ellipsis s =
     (if 16 \<le> i then False
      else
        let digits = takeWhile is_hex s; rest = dropWhile is_hex s in
        if digits = [] \<or> length digits > 4 then False
        else case rest of
            [] \<Rightarrow> (if i + 2 < 16 then ellipsis else \<not> ellipsis)
          | c # cs \<Rightarrow>
              if c = CHR ''.'' then
                (ellipsis \<or> i = 12) \<and> i + 4 \<le> 16 \<and> parseIPv4 s \<noteq> None
                \<and> (if i + 4 < 16 then ellipsis else \<not> ellipsis)
              else if c \<noteq> CHR '':'' \<or> cs = [] then False
              else if hd cs = CHR '':'' then
                \<not> ellipsis \<and> (if tl cs = [] then i + 2 < 16 else ipv6_groups (i + 2) True (tl cs))
              else ipv6_groups (i + 2) ellipsis cs)"
  by pat_completeness auto
termination
  by (relation "measure (\<lambda>(i, ellipsis, s). 16 - i)") auto

declare ipv6_groups.simps [simp del]

definition parseIPv6 :: "string \<Rightarrow> netip_Addr option" where
  "parseIPv6 s =
     (let addr = takeWhile (\<lambda>c. c \<noteq> CHR ''%'') s; zone = dropWhile (\<lambda>c. c \<noteq> CHR ''%'') s in
      if zone = ''%'' then None
      else if (if take 2 addr = ''::'' then drop 2 addr = [] \<or> ipv6_groups 0 True (drop 2 addr)
               else ipv6_groups 0 False addr)
      then Some (Addr6 s) else None)"

text \<open>\<open>ParseAddr\<close> decides the family by the first dot, colon or percent sign.\<close>

definition ParseAddr :: "string \<Rightarrow> netip_Addr option" where
  "ParseAddr s =
     (case find (\<lambda>c. c = CHR ''.'' \<or> c = CHR '':'' \<or> c = CHR ''%'') s of
        None \<Rightarrow> None
      | Some c \<Rightarrow>
          if c = CHR ''.'' then parseIPv4 s else if c = CHR '':'' then parseIPv6 s else None)"

definition ParsePrefix :: "string \<Rightarrow> netip_Prefix option" where
  "ParsePrefix s =
     (if CHR ''/'' \<notin> set s then None
      else
        let bitsStr = last (strings_Split s (CHR ''/''));
            addrStr = take (length s - length bitsStr - 1) s
        in case ParseAddr addrStr of
             None \<Rightarrow> None
           | Some a \<Rightarrow>
               if CHR ''%'' \<in> set addrStr
                  \<or> (length bitsStr > 1 \<and> (\<not> is_digit (hd bitsStr) \<or> hd bitsStr = CHR ''0''))
               then None
               else case parse_nat bitsStr of
                      None \<Rightarrow> None
                    | Some n \<Rightarrow>
                        if n \<le> (if Is4 a then 32 else 128)
                        then Some \<lparr>prefixAddr = a, prefixBits = int n\<rparr> else None)"

lemma octet_not_dot: "CHR ''.'' \<notin> set (octet_string b)"
  unfolding octet_string_def by (rule not_digit_not_in_show_nat) (simp add: is_digit_def)

lemma show_nat_no_leading_zero: "n \<noteq> 0 \<Longrightarrow> hd (show_nat n) \<noteq> CHR ''0''"
proof (induction n rule: show_nat.induct)
  case (1 n)
  show ?case
  proof (cases "n < 10")
    case True
    have "digit_char n \<noteq> digit_char 0"
      using True 1(2) digit_value_digit_char by (metis zero_less_numeral)
    moreover have "CHR ''0'' = digit_char 0" by code_simp
    ultimately show ?thesis using True by (simp add: show_nat.simps [of n])
  next
    case False
    with 1 show ?thesis by (simp add: show_nat.simps [of n])
  qed
qed

lemma parse_octet_string [simp]: "parse_octet (octet_string b) = Some b"
proof -
  have "unat b < 2 ^ LENGTH(8)" by (rule unsigned_less)
  then have b: "unat b \<le> 255" by simp
  have "\<not> (length (octet_string b) > 1 \<and> hd (octet_string b) = CHR ''0'')"
    using show_nat_no_leading_zero [of "unat b"]
    by (cases "unat b = 0") (auto simp: octet_string_def show_nat.simps)
  with b show ?thesis
    by (simp add: parse_octet_def octet_string_def parse_nat_show_nat)
qed

lemma parseIPv4_String: "parseIPv4 (addr_String (Addr4 b0 b1 b2 b3)) = Some (Addr4 b0 b1 b2 b3)"
  by (simp add: parseIPv4_def strings_Split_append octet_not_dot strings_Split_no_sep)

lemma find_append_None: "(\<And>x. x \<in> set xs \<Longrightarrow> \<not> P x) \<Longrightarrow> find P (xs @ ys) = find P ys"
  by (induction xs) auto

lemma ParseAddr_String:
  assumes "Is4 a"
  shows "ParseAddr (addr_String a) = Some a"
proof -
  from assms obtain b0 b1 b2 b3 where a: "a = Addr4 b0 b1 b2 b3"
    by (cases a) (auto simp: Is4_def)
  have "\<not> (c = CHR ''.'' \<or> c = CHR '':'' \<or> c = CHR ''%'')" if "c \<in> set (octet_string b0)" for c
    using that show_nat_digits [of c "unat b0"] by (auto simp: octet_string_def is_digit_def)
  then have "find (\<lambda>c. c = CHR ''.'' \<or> c = CHR '':'' \<or> c = CHR ''%'') (octet_string b0 @ CHR ''.'' # t)
      = Some (CHR ''.'')" for t
    by (subst find_append_None) auto
  then show ?thesis
    using parseIPv4_String [of b0 b1 b2 b3] by (simp add: a ParseAddr_def)
qed

lemma addr_String_inject: "Is4 a \<Longrightarrow> Is4 b \<Longrightarrow> addr_String a = addr_String b \<Longrightarrow> a = b"
  by (metis ParseAddr_String option.inject)

lemma addr_String_nonempty: "Is4 a \<Longrightarrow> addr_String a \<noteq> []"
  by (cases a) (auto simp: Is4_def)

section \<open>Membership in a prefix\<close>

definition in_prefix :: "uint32 \<Rightarrow> nat \<Rightarrow> uint32 \<Rightarrow> bool" where
  "in_prefix base bits v \<longleftrightarrow> drop_bit (32 - bits) v = drop_bit (32 - bits) base"

text \<open>\<open>Masked\<close> clears the host bits of an IPv4 prefix.\<close>

definition mask_uint32 :: "nat \<Rightarrow> uint32 \<Rightarrow> uint32" where
  "mask_uint32 bits v = push_bit (32 - bits) (drop_bit (32 - bits) v)"

definition prefix_Masked :: "netip_Prefix \<Rightarrow> netip_Prefix" where
  "prefix_Masked p =
     (case As4 (prefixAddr p) of
        None \<Rightarrow> p
      | Some b \<Rightarrow> p\<lparr>prefixAddr := AddrFrom4 (bytes_of_uint32
          (mask_uint32 (nat (prefixBits p)) (uint32_of_bytes b)))\<rparr>)"

end
