(* ===== verification/Config.thy ===== *)
theory Config
  imports Prelude
begin

text \<open>The constants of \<^verbatim>\<open>config/const.go\<close>.\<close>

definition APIServerURL :: string where "APIServerURL = ''http://10.200.0.2:8080''"

definition ControlPlaneName :: string where "ControlPlaneName = ''control-plane''"
definition WorkerNamePrefix :: string where "WorkerNamePrefix = ''worker-''"

definition DefaultWorkerCount :: int where "DefaultWorkerCount = 2"
definition config_PodCIDR :: string where "config_PodCIDR = ''10.244.0.0/16''"
definition NodePrefix :: int where "NodePrefix = 24"
definition BridgeName :: string where "BridgeName = ''cni0''"
definition GatewayHost :: int where "GatewayHost = 1"
definition ServiceCIDR :: string where "ServiceCIDR = ''10.96.0.0/24''"
definition KubeProxyTable :: string where "KubeProxyTable = ''toy_kube_proxy''"
definition UnderlayBridge :: string where "UnderlayBridge = ''toy-underlay0''"
definition UnderlayInterface :: string where "UnderlayInterface = ''underlay0''"
definition UnderlayCIDR :: string where "UnderlayCIDR = ''10.200.0.0/24''"
definition FirstNodeHost :: int where "FirstNodeHost = 2"
definition UnderlayGatewayHost :: int where "UnderlayGatewayHost = 1"

definition BinaryDir :: string where "BinaryDir = ''.toy/bin''"
definition NodeDataDir :: string where "NodeDataDir = ''.toy/nodes''"
definition BundleDir :: string where "BundleDir = ''bundles''"
definition ControlPlaneManifestDir :: string where
  "ControlPlaneManifestDir = ''node/manifests/control-plane''"

definition RuntimeBinary :: string where "RuntimeBinary = BinaryDir @ ''/runtime''"
definition KubeletBinary :: string where "KubeletBinary = BinaryDir @ ''/kubelet''"
definition KubeProxyBinary :: string where "KubeProxyBinary = BinaryDir @ ''/kube-proxy''"
definition NodeSupervisorBinary :: string where "NodeSupervisorBinary = BinaryDir @ ''/node-supervisor''"

end
