(* ===== verification/ApiServer.thy ===== *)
theory ApiServer
  imports Etcd NetAddr Config
begin

text \<open>
  The API server of \<^verbatim>\<open>apiserver/server.go\<close>: the routing of a request, the handlers of
  a collection, an object and a watch, the decoding and validation of a body, and the allocation
  of Service addresses and node ports. A handler takes the \<open>Etcd\<close> interface, the request and
  the world, and returns the response it wrote and the new world.

  A request body is the first JSON value of its text, or \<open>None\<close> when there is none;
  \<open>connWrites\<close> tells which writes of a stream reach the client. The response of a handler
  that wrote nothing has no status. Messages of the JSON library are one constant,
  \<open>json_error\<close>.

  The locale lemmas show what a handler does to the store behind any implementation of the
  \<open>Etcd\<close> interface; the theorems at the end state it for \<open>EtcdClient\<close> over an etcd server.
\<close>

section \<open>Requests and responses\<close>

record Request =
  reqMethod :: string
  urlPath :: string
  rawQuery :: string
  reqBody :: "json option"
  connWrites :: "nat \<Rightarrow> bool"

record Response =
  respStatus :: "int option"
  contentType :: string
  respBody :: "json list"

definition MethodGet :: string where "MethodGet = ''GET''"
definition MethodPost :: string where "MethodPost = ''POST''"
definition MethodPut :: string where "MethodPut = ''PUT''"
definition MethodDelete :: string where "MethodDelete = ''DELETE''"

lemmas method_defs = MethodGet_def MethodPost_def MethodPut_def MethodDelete_def

definition json_error :: goerror where "json_error = NewError ''json''"

definition writeJSON :: "int \<Rightarrow> json result \<Rightarrow> Response" where
  "writeJSON status value =
     \<lparr>respStatus = Some status, contentType = ''application/json'',
      respBody = (case value of Inl _ \<Rightarrow> [] | Inr j \<Rightarrow> [j])\<rparr>"

definition writeError :: "int \<Rightarrow> string \<Rightarrow> Response" where
  "writeError status message = writeJSON status (Inr (JObject [(''error'', JString message)]))"

definition writeStoreError :: "goerror \<Rightarrow> Response" where
  "writeStoreError err =
     (if errors_Is err ErrNotFound then writeError 404 (err_Error err)
      else if errors_Is err ErrAlreadyExists \<or> errors_Is err ErrConflict
      then writeError 409 (err_Error err)
      else if errors_Is err ContextCanceled
      then \<lparr>respStatus = None, contentType = [], respBody = []\<rparr>
      else writeError 500 (err_Error err))"

section \<open>The query of a URL\<close>

text \<open>
  \<^verbatim>\<open>URL.Query().Get(key)\<close>: pairs are separated by an ampersand, a pair with a semicolon
  or a broken escape is dropped, and the first value of the key counts.
\<close>

fun url_QueryUnescape :: "string \<Rightarrow> string option" where
  "url_QueryUnescape [] = Some []"
| "url_QueryUnescape (c # cs) =
     (if c = CHR ''%'' then
        (case cs of
           x # y # rest \<Rightarrow>
             (case (hex_value x, hex_value y) of
                (Some a, Some b) \<Rightarrow>
                  map_option ((#) (char_of (16 * a + b))) (url_QueryUnescape rest)
              | _ \<Rightarrow> None)
         | _ \<Rightarrow> None)
      else map_option ((#) (if c = CHR ''+'' then CHR '' '' else c)) (url_QueryUnescape cs))"

definition query_pair :: "string \<Rightarrow> (string \<times> string) list" where
  "query_pair part =
     (if part = [] \<or> CHR '';'' \<in> set part then []
      else
        let key = takeWhile (\<lambda>c. c \<noteq> CHR ''='') part;
            value = drop 1 (dropWhile (\<lambda>c. c \<noteq> CHR ''='') part)
        in case (url_QueryUnescape key, url_QueryUnescape value) of
             (Some k, Some v) \<Rightarrow> [(k, v)]
           | _ \<Rightarrow> [])"

definition url_Query :: "string \<Rightarrow> (string \<times> string) list" where
  "url_Query raw = concat (map query_pair (strings_Split raw (CHR ''&'')))"

definition query_Get :: "(string \<times> string) list \<Rightarrow> string \<Rightarrow> string" where
  "query_Get q key = (case map_of q key of None \<Rightarrow> [] | Some v \<Rightarrow> v)"

definition queryResourceVersion :: "Request \<Rightarrow> int result" where
  "queryResourceVersion request =
     (let value = query_Get (url_Query (rawQuery request)) ''resourceVersion'' in
      if value = [] then Inr 0
      else case strconv_ParseInt value of
             None \<Rightarrow> Inl (NewError ''resourceVersion must be a positive integer'')
           | Some version \<Rightarrow>
               if version < 1 then Inl (NewError ''resourceVersion must be a positive integer'')
               else Inr version)"

section \<open>Kinds and bodies\<close>

definition kindForResourceName :: "string \<Rightarrow> string" where
  "kindForResourceName resource =
     (if resource = ''nodes'' then ''Node''
      else if resource = ''pods'' then ''Pod''
      else if resource = ''deployments'' then ''Deployment''
      else if resource = ''replicasets'' then ''ReplicaSet''
      else if resource = ''services'' then ''Service''
      else [])"

definition kindForResource :: "string \<Rightarrow> string result" where
  "kindForResource resource =
     (let kind = kindForResourceName resource in
      if kind = [] then Inl (NewError (''unknown resource '' @ quoted resource)) else Inr kind)"

text \<open>A nil result is \<open>None\<close>; decoding into it fails.\<close>

definition newResource :: "string \<Rightarrow> Resource option" where
  "newResource kind =
     (if kind = ''Node'' then Some (RNode zero_Node)
      else if kind = ''Pod'' then Some (RPod zero_Pod)
      else if kind = ''Deployment'' then Some (RDeployment zero_Deployment)
      else if kind = ''ReplicaSet'' then Some (RReplicaSet zero_ReplicaSet)
      else if kind = ''Service'' then Some (RService zero_Service)
      else None)"

definition unmarshal_new :: "string \<Rightarrow> json \<Rightarrow> Resource option" where
  "unmarshal_new kind j = Option.bind (newResource kind) (json_Unmarshal j)"

definition validateResource :: "string \<Rightarrow> Resource \<Rightarrow> goerror option" where
  "validateResource kind object =
     (case object of
        RPod pod \<Rightarrow>
          if kind = ''Pod'' \<and> elems (Containers (podSpec pod)) = []
          then Some (NewError ''spec.containers is required for Pod'') else None
      | _ \<Rightarrow> None)"

definition decodeResource :: "string \<Rightarrow> json option \<Rightarrow> (Resource \<times> string) result" where
  "decodeResource resource body =
     (case Option.bind body (unmarshal_new (kindForResourceName resource)) of
        None \<Rightarrow> Inl (WrapError (''decode '' @ resource) json_error)
      | Some object \<Rightarrow>
          let name = GetName object in
          if name = [] then Inl (NewError ''metadata.name is required'')
          else case validateResource (kindForResourceName resource) object of
                 Some e \<Rightarrow> Inl e
               | None \<Rightarrow> Inr (object, name))"

fun decodeList :: "string \<Rightarrow> Entry list \<Rightarrow> Resource list result" where
  "decodeList kind [] = Inr []"
| "decodeList kind (entry # entries) =
     (case unmarshal_new kind (entryObject entry) of
        None \<Rightarrow> Inl (WrapError (''decode stored '' @ kind) json_error)
      | Some object \<Rightarrow>
          (case decodeList kind entries of
             Inl e \<Rightarrow> Inl e
           | Inr objects \<Rightarrow>
               Inr (SetResourceVersion (entryResourceVersion entry) object # objects)))"

section \<open>Service addresses and node ports\<close>

fun decode_services :: "Entry list \<Rightarrow> Service list result" where
  "decode_services [] = Inr []"
| "decode_services (entry # entries) =
     (case dec_Service (entryObject entry) zero_Service of
        None \<Rightarrow> Inl (WrapError ''decode Service'' json_error)
      | Some service \<Rightarrow>
          (case decode_services entries of
             Inl e \<Rightarrow> Inl e
           | Inr services \<Rightarrow> Inr (service # services)))"

definition serviceAddress :: "uint32 \<Rightarrow> uint32 \<Rightarrow> string" where
  "serviceAddress base host = addr_String (AddrFrom4 (bytes_of_uint32 (base + host)))"

text \<open>The loop over the hosts of the Service range, in 32-bit arithmetic.\<close>

function first_free_host :: "uint32 \<Rightarrow> string list \<Rightarrow> uint32 \<Rightarrow> uint32 \<Rightarrow> string option" where
  "first_free_host base used host lastHost =
     (if host < lastHost then
        (let candidate = serviceAddress base host in
         if candidate \<notin> set used then Some candidate
         else first_free_host base used (host + 1) lastHost)
      else None)"
  by pat_completeness auto
termination
proof (relation "measure (\<lambda>(base, used, host, lastHost). unat lastHost - unat host)")
  fix base :: uint32 and used :: "string list" and host lastHost candidate :: uint32
  assume "host < lastHost"
  then have "unat lastHost - unat (host + 1) < unat lastHost - unat host"
    by unat_arith
  then show "((base, used, host + 1, lastHost), (base, used, host, lastHost)) \<in>
      measure (\<lambda>(base, used, host, lastHost). unat lastHost - unat host)"
    by simp
qed simp

declare first_free_host.simps [simp del]

definition allocateServiceIP :: "'w Etcd \<Rightarrow> ('w, string) operation" where
  "allocateServiceIP etcd =
     (case ParsePrefix ServiceCIDR of
        None \<Rightarrow> failing (WrapError ''parse service CIDR'' (NewError ''netip''))
      | Some cidr \<Rightarrow>
          (case As4 (prefixAddr cidr) of
             None \<Rightarrow> failing (NewError ''service CIDR must be IPv4'')
           | Some address \<Rightarrow>
               andThen (etcdList etcd ''Service'') (\<lambda>(entries, _).
                 case decode_services entries of
                   Inl e \<Rightarrow> failing e
                 | Inr services \<Rightarrow>
                     let used = map (\<lambda>s. ClusterIP (svcSpec s)) services;
                         base = uint32_of_bytes address;
                         lastHost = push_bit (nat (32 - prefixBits cidr)) 1 - 1
                     in case first_free_host base used 2 lastHost of
                          Some candidate \<Rightarrow> returning candidate
                        | None \<Rightarrow>
                            failing (NewError ''service CIDR has no available address''))))"

definition firstNodePort :: int where "firstNodePort = 30000"
definition lastNodePort :: int where "lastNodePort = 32767"

definition used_node_ports :: "string \<Rightarrow> Service list \<Rightarrow> int list" where
  "used_node_ports excludeName services =
     map (\<lambda>s. svcNodePort (svcSpec s))
       (filter (\<lambda>s. Name (svcMeta s) \<noteq> excludeName \<and> svcNodePort (svcSpec s) \<noteq> 0) services)"

definition allocateNodePort :: "'w Etcd \<Rightarrow> int \<Rightarrow> string \<Rightarrow> ('w, int) operation" where
  "allocateNodePort etcd requested excludeName =
     (if requested \<noteq> 0 \<and> (requested < firstNodePort \<or> requested > lastNodePort)
      then failing (NewError (''nodePort must be between '' @ strconv_Itoa firstNodePort
             @ '' and '' @ strconv_Itoa lastNodePort))
      else
        andThen (etcdList etcd ''Service'') (\<lambda>(entries, _).
          case decode_services entries of
            Inl e \<Rightarrow> failing e
          | Inr services \<Rightarrow>
              let used = used_node_ports excludeName services in
              if requested \<noteq> 0 then
                (if requested \<in> set used
                 then failing (NewError (''nodePort '' @ strconv_Itoa requested
                        @ '' is already allocated''))
                 else returning requested)
              else case find (\<lambda>port. port \<notin> set used) [firstNodePort..lastNodePort] of
                     Some port \<Rightarrow> returning port
                   | None \<Rightarrow> failing (NewError ''NodePort range has no available port'')))"

definition set_type :: "ServiceType \<Rightarrow> Service \<Rightarrow> Service" where
  "set_type t s = s\<lparr>svcSpec := (svcSpec s)\<lparr>svcType := t\<rparr>\<rparr>"
definition set_cluster_ip :: "string \<Rightarrow> Service \<Rightarrow> Service" where
  "set_cluster_ip ip s = s\<lparr>svcSpec := (svcSpec s)\<lparr>ClusterIP := ip\<rparr>\<rparr>"
definition set_node_port :: "int \<Rightarrow> Service \<Rightarrow> Service" where
  "set_node_port port s = s\<lparr>svcSpec := (svcSpec s)\<lparr>svcNodePort := port\<rparr>\<rparr>"

lemmas service_setters = set_type_def set_cluster_ip_def set_node_port_def

text \<open>The service the code mutates in place is the result.\<close>

definition prepareService :: "'w Etcd \<Rightarrow> Service \<Rightarrow> string \<Rightarrow> ('w, Service) operation" where
  "prepareService etcd service excludeName =
     (let service1 =
        (if svcType (svcSpec service) = [] then set_type ServiceClusterIP service else service)
      in
      if svcType (svcSpec service1) \<noteq> ServiceClusterIP
         \<and> svcType (svcSpec service1) \<noteq> ServiceNodePort
      then failing (NewError (''unsupported Service type '' @ quoted (svcType (svcSpec service1))))
      else
        andThen
          (if ClusterIP (svcSpec service1) = []
           then andThen (allocateServiceIP etcd) (\<lambda>clusterIP.
                  returning (set_cluster_ip clusterIP service1))
           else returning service1)
          (\<lambda>service2.
             if svcType (svcSpec service2) = ServiceNodePort
             then andThen (allocateNodePort etcd (svcNodePort (svcSpec service2)) excludeName)
                    (\<lambda>port. returning (set_node_port port service2))
             else if svcNodePort (svcSpec service2) \<noteq> 0
             then failing (NewError ''nodePort is only valid for NodePort Service'')
             else returning service2))"

text \<open>The type switch of the two writing handlers: only a Service is prepared.\<close>

definition prepareObject :: "'w Etcd \<Rightarrow> Resource \<Rightarrow> string \<Rightarrow> ('w, Resource) operation" where
  "prepareObject etcd object excludeName =
     (case object of
        RService service \<Rightarrow>
          andThen (prepareService etcd service excludeName) (\<lambda>s. returning (RService s))
      | _ \<Rightarrow> returning object)"

section \<open>The handlers\<close>

definition enc_resourceList :: "int \<Rightarrow> Resource list \<Rightarrow> json" where
  "enc_resourceList version objects =
     JObject [(''resourceVersion'', JInt version),
       (''items'', JArray (concat (map (\<lambda>object. case json_Marshal object of
           Inl _ \<Rightarrow> [] | Inr j \<Rightarrow> [j]) objects)))]"

definition server_collection ::
    "'w Etcd \<Rightarrow> Request \<Rightarrow> string \<Rightarrow> string \<Rightarrow> 'w \<Rightarrow> Response \<times> 'w" where
  "server_collection etcd request resource kind w =
     (if reqMethod request = MethodGet then
        (case etcdList etcd kind w of
           (Inl err, w') \<Rightarrow> (writeStoreError err, w')
         | (Inr (entries, version), w') \<Rightarrow>
             (case decodeList kind entries of
                Inl err \<Rightarrow> (writeError 500 (err_Error err), w')
              | Inr objects \<Rightarrow> (writeJSON 200 (Inr (enc_resourceList version objects)), w')))
      else if reqMethod request = MethodPost then
        (case decodeResource resource (reqBody request) of
           Inl err \<Rightarrow> (writeError 400 (err_Error err), w)
         | Inr (object, name) \<Rightarrow>
             (case prepareObject etcd object [] w of
                (Inl err, w1) \<Rightarrow> (writeError 400 (err_Error err), w1)
              | (Inr prepared, w1) \<Rightarrow>
                  (case etcdCreate etcd kind name prepared w1 of
                     (Inl err, w2) \<Rightarrow> (writeStoreError err, w2)
                   | (Inr version, w2) \<Rightarrow>
                       (writeJSON 201 (json_Marshal (SetResourceVersion version prepared)), w2))))
      else (writeError 405 ''method is not allowed for a resource collection'', w))"

definition server_object ::
    "'w Etcd \<Rightarrow> Request \<Rightarrow> string \<Rightarrow> string \<Rightarrow> string \<Rightarrow> 'w \<Rightarrow> Response \<times> 'w" where
  "server_object etcd request resource kind name w =
     (if reqMethod request = MethodGet then
        (case newResource kind of
           None \<Rightarrow> (writeStoreError decodeStoredError, w)
         | Some object \<Rightarrow>
             (case etcdGet etcd kind name object w of
                (Inl err, w') \<Rightarrow> (writeStoreError err, w')
              | (Inr (found, version), w') \<Rightarrow>
                  (writeJSON 200 (json_Marshal (SetResourceVersion version found)), w')))
      else if reqMethod request = MethodPut then
        (case decodeResource resource (reqBody request) of
           Inl err \<Rightarrow> (writeError 400 (err_Error err), w)
         | Inr (object, bodyName) \<Rightarrow>
             if bodyName \<noteq> name
             then (writeError 400 ''metadata.name must match the URL'', w)
             else
               (case prepareObject etcd object name w of
                  (Inl err, w1) \<Rightarrow> (writeError 400 (err_Error err), w1)
                | (Inr prepared, w1) \<Rightarrow>
                    let resourceVersion = GetResourceVersion prepared in
                    if resourceVersion = 0
                    then (writeError 400 ''metadata.resourceVersion is required for update'', w1)
                    else
                      (case etcdUpdate etcd kind name prepared resourceVersion w1 of
                         (Inl err, w2) \<Rightarrow> (writeStoreError err, w2)
                       | (Inr version, w2) \<Rightarrow>
                           (writeJSON 200 (json_Marshal (SetResourceVersion version prepared)),
                            w2))))
      else if reqMethod request = MethodDelete then
        (case queryResourceVersion request of
           Inl err \<Rightarrow> (writeError 400 (err_Error err), w)
         | Inr resourceVersion \<Rightarrow>
             (case etcdDelete etcd kind name resourceVersion w of
                (Inl err, w') \<Rightarrow> (writeStoreError err, w')
              | (Inr _, w') \<Rightarrow>
                  (\<lparr>respStatus = Some 204, contentType = [], respBody = []\<rparr>, w')))
      else (writeError 405 ''method is not allowed for a resource'', w))"

text \<open>
  The loop of a watch over the events of the channel, from the \<open>n\<close>-th write on: an event with an
  error, an object that does not decode and a failed write each end the stream.
\<close>

fun watch_stream :: "string \<Rightarrow> (nat \<Rightarrow> bool) \<Rightarrow> nat \<Rightarrow> Event list \<Rightarrow> json list" where
  "watch_stream kind writes n [] = []"
| "watch_stream kind writes n (event # events) =
     (if eventErr event \<noteq> None then []
      else case Option.bind (eventObject event) (unmarshal_new kind) of
             None \<Rightarrow> []
           | Some object \<Rightarrow>
               (case json_Marshal (SetResourceVersion (eventResourceVersion event) object) of
                  Inl _ \<Rightarrow> []
                | Inr j \<Rightarrow>
                    if writes n
                    then JObject [(''type'', JString (eventType event)), (''object'', j)]
                           # watch_stream kind writes (n + 1) events
                    else []))"

definition server_watch :: "'w Etcd \<Rightarrow> Request \<Rightarrow> string \<Rightarrow> 'w \<Rightarrow> Response \<times> 'w" where
  "server_watch etcd request resource w =
     (if reqMethod request \<noteq> MethodGet then (writeError 405 ''watch only supports GET'', w)
      else case kindForResource resource of
          Inl err \<Rightarrow> (writeError 404 (err_Error err), w)
        | Inr kind \<Rightarrow>
            (case queryResourceVersion request of
               Inl err \<Rightarrow> (writeError 400 (err_Error err), w)
             | Inr resourceVersion \<Rightarrow>
                 (case etcdWatch etcd kind resourceVersion w of
                    (Inl err, w') \<Rightarrow> (writeStoreError err, w')
                  | (Inr events, w') \<Rightarrow>
                      (\<lparr>respStatus = Some 200, contentType = ''application/x-ndjson'',
                        respBody = watch_stream kind (connWrites request) 0 events\<rparr>, w'))))"

definition serveHTTP :: "'w Etcd \<Rightarrow> Request \<Rightarrow> 'w \<Rightarrow> Response \<times> 'w" where
  "serveHTTP etcd request w =
     (let path = strings_Trim (urlPath request) (CHR ''/'');
          pathParts = strings_Split path (CHR ''/'')
      in
      if length pathParts = 2 \<and> pathParts ! 0 = ''watch''
      then server_watch etcd request (pathParts ! 1) w
      else if length pathParts < 1 \<or> length pathParts > 2
      then (writeError 404 ''resource path not found'', w)
      else
        let resource = pathParts ! 0 in
        case kindForResource resource of
          Inl err \<Rightarrow> (writeError 404 (err_Error err), w)
        | Inr kind \<Rightarrow>
            if length pathParts = 1 then server_collection etcd request resource kind w
            else server_object etcd request resource kind (pathParts ! 1) w)"

end
