(* ===== verification/ServiceAllocation.thy ===== *)
theory ServiceAllocation
  imports ApiServer
begin

text \<open>
  What \<open>allocateServiceIP\<close>, \<open>allocateNodePort\<close> and \<open>prepareService\<close> of
  \<^verbatim>\<open>apiserver/server.go\<close> deliver, over any implementation of the \<open>Etcd\<close> interface:
  the searches find the first free address or port and fail exactly when none is left; a
  prepared Service has a known type, an address, and a node port of its own if and only if its
  type is NodePort; none of them changes the store.
\<close>

section \<open>The two searches\<close>

lemma first_free_host_Some:
  "first_free_host base used host lastHost = Some c \<Longrightarrow>
    \<exists>h. host \<le> h \<and> h < lastHost \<and> c = serviceAddress base h \<and> c \<notin> set used \<and>
      (\<forall>h'. host \<le> h' \<longrightarrow> h' < h \<longrightarrow> serviceAddress base h' \<in> set used)"
proof (induction base used host lastHost rule: first_free_host.induct)
  case (1 base used host lastHost)
  show ?case
  proof (cases "host < lastHost \<and> serviceAddress base host \<in> set used")
    case True
    then have step: "first_free_host base used (host + 1) lastHost = Some c"
      using "1.prems" by (subst (asm) first_free_host.simps) (simp add: Let_def)
    from "1.IH" [OF _ refl _ step] True obtain h where h: "host + 1 \<le> h" "h < lastHost"
      "c = serviceAddress base h" "c \<notin> set used"
      "\<And>h'. host + 1 \<le> h' \<Longrightarrow> h' < h \<Longrightarrow> serviceAddress base h' \<in> set used"
      by blast
    have "host + 1 \<noteq> 0" using True by unat_arith
    then have "host \<le> h' \<Longrightarrow> h' = host \<or> host + 1 \<le> h'" for h' by unat_arith
    moreover have "host \<le> h" using h(1) \<open>host + 1 \<noteq> 0\<close> by unat_arith
    ultimately show ?thesis using h True by blast
  next
    case False
    with "1.prems" have "host < lastHost" "c = serviceAddress base host" "c \<notin> set used"
      by (subst (asm) first_free_host.simps; simp add: Let_def split: if_splits)+
    then show ?thesis by (intro exI [of _ host]) auto
  qed
qed

lemma first_free_host_None:
  "first_free_host base used host lastHost = None \<longleftrightarrow>
    (\<forall>h. host \<le> h \<longrightarrow> h < lastHost \<longrightarrow> serviceAddress base h \<in> set used)"
proof (induction base used host lastHost rule: first_free_host.induct)
  case (1 base used host lastHost)
  show ?case
  proof (cases "host < lastHost")
    case False
    then show ?thesis by (subst first_free_host.simps) auto
  next
    case True
    show ?thesis
    proof (cases "serviceAddress base host \<in> set used")
      case used: True
      have "host + 1 \<noteq> 0" using True by unat_arith
      then have "host \<le> h \<longleftrightarrow> h = host \<or> host + 1 \<le> h" for h by unat_arith
      with "1.IH" [OF True refl] True used show ?thesis
        by (subst first_free_host.simps) (auto simp: Let_def)
    next
      case False
      with True show ?thesis by (subst first_free_host.simps) (auto simp: Let_def)
    qed
  qed
qed

lemma find_upto_Some:
  "find P [a..b] = Some x \<Longrightarrow> a \<le> x \<and> x \<le> b \<and> P x"
  by (auto dest!: find_SomeD)

lemma find_upto_None: "find P [a..b] = None \<longleftrightarrow> (\<forall>x. a \<le> x \<longrightarrow> x \<le> b \<longrightarrow> \<not> P x)"
  by (auto simp: find_None_iff)

section \<open>The stored Services\<close>

definition stored_service :: "objects \<Rightarrow> string \<Rightarrow> Service \<Rightarrow> bool" where
  "stored_service a name s \<longleftrightarrow>
     (\<exists>j v. a ''Service'' name = Some (j, v) \<and> dec_Service j zero_Service = Some s)"

lemma decode_services_set:
  "decode_services entries = Inr ss \<Longrightarrow>
    set ss = {s. \<exists>e\<in>set entries. dec_Service (entryObject e) zero_Service = Some s}"
  by (induction entries arbitrary: ss) (force split: option.splits sum.splits)+

lemma decode_services_stored:
  assumes "decode_services (listing (a ''Service'') names) = Inr ss"
    and "lists (a ''Service'') names"
  shows "set ss = {s. \<exists>name. stored_service a name s}"
proof -
  have dom: "set names = dom (a ''Service'')"
    using assms(2) by (simp add: lists_def)
  have "set (listing (a ''Service'') names) =
      {\<lparr>entryResourceVersion = v, entryObject = j\<rparr> | n j v. a ''Service'' n = Some (j, v)}"
    unfolding listing_def set_map dom by force
  then show ?thesis
    unfolding decode_services_set [OF assms(1)] stored_service_def by fastforce
qed

text \<open>The Service range as a number: the addresses 10.96.0.2 to 10.96.0.254.\<close>

definition service_base :: uint32 where "service_base = 0x0A600000"

lemma parse_ServiceCIDR:
  "ParsePrefix ServiceCIDR = Some \<lparr>prefixAddr = Addr4 10 96 0 0, prefixBits = 24\<rparr>"
  by code_simp

lemma service_range:
  "uint32_of_bytes (10, 96, 0, 0) = service_base"
  "push_bit (nat (32 - 24)) 1 - 1 = (255 :: uint32)"
  by (code_simp, simp)

lemma allocateServiceIP_eq:
  "allocateServiceIP etcd = andThen (etcdList etcd ''Service'') (\<lambda>(entries, _).
     case decode_services entries of
       Inl e \<Rightarrow> failing e
     | Inr services \<Rightarrow>
         (case first_free_host service_base (map (\<lambda>s. ClusterIP (svcSpec s)) services) 2 255 of
            Some candidate \<Rightarrow> returning candidate
          | None \<Rightarrow> failing (NewError ''service CIDR has no available address'')))"
  unfolding allocateServiceIP_def parse_ServiceCIDR
  by (simp add: Let_def service_base_def cong: sum.case_cong)

lemma serviceAddress_parse: "ParseAddr (serviceAddress base h) = Some (AddrFrom4 (bytes_of_uint32 (base + h)))"
  by (simp add: serviceAddress_def ParseAddr_String)

lemma serviceAddress_inject [simp]: "serviceAddress base h = serviceAddress base h' \<longleftrightarrow> h = h'"
  by (metis serviceAddress_parse option.inject AddrFrom4_inject bytes_of_uint32_inject
      add_left_imp_eq)

text \<open>
  \<open>service_prepared a excludeName before after\<close>: what \<open>prepareService\<close> makes of a Service
  when the store holds \<open>a\<close>.
\<close>

definition port_free :: "objects \<Rightarrow> string \<Rightarrow> int \<Rightarrow> bool" where
  "port_free a excludeName port \<longleftrightarrow>
     (\<forall>name s. stored_service a name s \<longrightarrow> Name (svcMeta s) \<noteq> excludeName \<longrightarrow>
       svcNodePort (svcSpec s) \<noteq> port)"

definition address_free :: "objects \<Rightarrow> string \<Rightarrow> bool" where
  "address_free a ip \<longleftrightarrow> (\<forall>name s. stored_service a name s \<longrightarrow> ClusterIP (svcSpec s) \<noteq> ip)"

definition in_service_range :: "string \<Rightarrow> bool" where
  "in_service_range ip \<longleftrightarrow> (\<exists>h. 2 \<le> h \<and> h < 255 \<and> ip = serviceAddress service_base h)"

definition service_prepared :: "objects \<Rightarrow> string \<Rightarrow> Service \<Rightarrow> Service \<Rightarrow> bool" where
  "service_prepared a excludeName before after \<longleftrightarrow>
     svcMeta after = svcMeta before \<and> svcTypeMeta after = svcTypeMeta before \<and>
     svcSelector (svcSpec after) = svcSelector (svcSpec before) \<and>
     svcPort (svcSpec after) = svcPort (svcSpec before) \<and>
     TargetPort (svcSpec after) = TargetPort (svcSpec before) \<and>
     svcType (svcSpec after) =
       (if svcType (svcSpec before) = [] then ServiceClusterIP else svcType (svcSpec before)) \<and>
     (if ClusterIP (svcSpec before) = []
      then in_service_range (ClusterIP (svcSpec after)) \<and> address_free a (ClusterIP (svcSpec after))
      else ClusterIP (svcSpec after) = ClusterIP (svcSpec before)) \<and>
     (if svcType (svcSpec after) = ServiceNodePort
      then firstNodePort \<le> svcNodePort (svcSpec after) \<and>
        svcNodePort (svcSpec after) \<le> lastNodePort \<and>
        (svcNodePort (svcSpec before) \<noteq> 0 \<longrightarrow>
          svcNodePort (svcSpec after) = svcNodePort (svcSpec before)) \<and>
        port_free a excludeName (svcNodePort (svcSpec after))
      else svcType (svcSpec after) = ServiceClusterIP \<and> svcNodePort (svcSpec after) = 0 \<and>
        svcNodePort (svcSpec before) = 0)"

lemma in_service_range_nonempty: "in_service_range ip \<Longrightarrow> ip \<noteq> []"
  by (auto simp: in_service_range_def serviceAddress_def addr_String_nonempty)

section \<open>Over the Etcd interface\<close>

context etcd_interface begin

lemma service_kind_plain: "plain ''Service''"
  by (simp add: plain_def)

abbreviation view :: "'w \<Rightarrow> objects \<times> int" where
  "view w \<equiv> (objs w, revision w)"

lemma keeps_list: "plain kind \<Longrightarrow> keeps invar view (etcdList etcd kind)"
  using list_frame by (auto simp: keeps_def)

lemma keeps_allocateServiceIP: "keeps invar view (allocateServiceIP etcd)"
  unfolding allocateServiceIP_eq
  by (intro keeps_andThen keeps_list service_kind_plain)
    (auto split: sum.splits option.splits)

lemma keeps_allocateNodePort: "keeps invar view (allocateNodePort etcd requested excludeName)"
  by (auto simp: allocateNodePort_def Let_def
      intro!: keeps_andThen keeps_list service_kind_plain split: sum.splits option.splits)

lemma keeps_prepareService: "keeps invar view (prepareService etcd service excludeName)"
  by (auto simp: prepareService_def Let_def
      intro!: keeps_andThen keeps_allocateServiceIP keeps_allocateNodePort)

lemma keeps_prepareObject: "keeps invar view (prepareObject etcd object excludeName)"
  by (auto simp: prepareObject_def intro!: keeps_andThen keeps_prepareService split: Resource.splits)

lemma list_services:
  assumes "invar w" and "etcdList etcd ''Service'' w = (Inr (entries, v), w')"
    and "decode_services entries = Inr ss"
  shows "set ss = {s. \<exists>name. stored_service (objs w) name s}"
proof -
  from list_ok [OF assms(1) service_kind_plain assms(2)] obtain names
    where "lists (objs w ''Service'') names" "entries = listing (objs w ''Service'') names"
    by blast
  with decode_services_stored assms(3) show ?thesis by blast
qed

lemma allocateServiceIP_first:
  assumes "invar w" and "allocateServiceIP etcd w = (Inr ip, w')"
  shows "\<exists>h. 2 \<le> h \<and> h < 255 \<and> ip = serviceAddress service_base h \<and> address_free (objs w) ip \<and>
    (\<forall>h'. 2 \<le> h' \<longrightarrow> h' < h \<longrightarrow> \<not> address_free (objs w) (serviceAddress service_base h'))"
proof -
  from assms(2) obtain entries v w1 ss
    where l: "etcdList etcd ''Service'' w = (Inr (entries, v), w1)"
      and d: "decode_services entries = Inr ss"
      and f: "first_free_host service_base (map (\<lambda>s. ClusterIP (svcSpec s)) ss) 2 255 = Some ip"
    unfolding allocateServiceIP_eq
    by (auto elim!: andThen_InrE simp: failing_def returning_def split: sum.splits option.splits)
  have used: "x \<in> set (map (\<lambda>s. ClusterIP (svcSpec s)) ss) \<longleftrightarrow> \<not> address_free (objs w) x" for x
    using list_services [OF assms(1) l d] by (auto simp: address_free_def)
  from first_free_host_Some [OF f] show ?thesis
    unfolding used by blast
qed

lemma allocateServiceIP_exhausted:
  assumes "invar w" 
    and "allocateServiceIP etcd w = (Inl (NewError ''service CIDR has no available address''), w')"
    and "\<And>e w'. etcdList etcd ''Service'' w = (Inl e, w') \<Longrightarrow>
      e \<noteq> NewError ''service CIDR has no available address''"
    and "2 \<le> h" and "h < 255"
  shows "\<not> address_free (objs w) (serviceAddress service_base h)"
proof -
  have err: "decode_services entries \<noteq> Inl (NewError m)" for entries m
    by (induction entries) (auto split: option.splits sum.splits)
  from assms(2) obtain entries v w1 ss
    where l: "etcdList etcd ''Service'' w = (Inr (entries, v), w1)"
      and d: "decode_services entries = Inr ss"
      and f: "first_free_host service_base (map (\<lambda>s. ClusterIP (svcSpec s)) ss) 2 255 = None"
    unfolding allocateServiceIP_eq using assms(3) err
    by (auto elim!: andThen_InlE simp: failing_def returning_def split: sum.splits option.splits)
  from f [unfolded first_free_host_None] assms(4,5) list_services [OF assms(1) l d]
  show ?thesis by (fastforce simp: address_free_def)
qed

lemma allocateNodePort_ok:
  assumes "invar w" and "allocateNodePort etcd requested excludeName w = (Inr port, w')"
  shows "firstNodePort \<le> port \<and> port \<le> lastNodePort \<and> (requested \<noteq> 0 \<longrightarrow> port = requested) \<and>
    port_free (objs w) excludeName port"
proof -
  from assms(2) obtain entries v w1 ss
    where l: "etcdList etcd ''Service'' w = (Inr (entries, v), w1)"
      and d: "decode_services entries = Inr ss"
      and range: "requested = 0 \<or> firstNodePort \<le> requested \<and> requested \<le> lastNodePort"
      and p: "if requested \<noteq> 0
        then requested \<notin> set (used_node_ports excludeName ss) \<and> port = requested
        else find (\<lambda>p. p \<notin> set (used_node_ports excludeName ss)) [firstNodePort..lastNodePort]
          = Some port"
    unfolding allocateNodePort_def
    by (auto elim!: andThen_InrE simp: failing_def returning_def Let_def not_less
        split: sum.splits option.splits if_splits)
  from p range have "firstNodePort \<le> port \<and> port \<le> lastNodePort \<and>
      (requested \<noteq> 0 \<longrightarrow> port = requested) \<and> port \<notin> set (used_node_ports excludeName ss)"
    by (auto split: if_splits dest!: find_upto_Some)
  then show ?thesis
    using list_services [OF assms(1) l d]
    by (auto simp: used_node_ports_def firstNodePort_def port_free_def)
qed

lemma prepareService_ok:
  assumes "invar w" and "prepareService etcd service excludeName w = (Inr prepared, w')"
  shows "service_prepared (objs w) excludeName service prepared"
proof -
  define s1 where "s1 =
    (if svcType (svcSpec service) = [] then set_type ServiceClusterIP service else service)"
  define addressed where "addressed = (if ClusterIP (svcSpec s1) = []
    then andThen (allocateServiceIP etcd) (\<lambda>ip. returning (set_cluster_ip ip s1)) else returning s1)"
  define ported where "ported s2 = (if svcType (svcSpec s2) = ServiceNodePort
      then andThen (allocateNodePort etcd (svcNodePort (svcSpec s2)) excludeName)
             (\<lambda>port. returning (set_node_port port s2))
      else if svcNodePort (svcSpec s2) \<noteq> 0
      then failing (NewError ''nodePort is only valid for NodePort Service'')
      else returning s2)" for s2
  have t: "svcType (svcSpec s1) = ServiceClusterIP \<or> svcType (svcSpec s1) = ServiceNodePort"
    and "andThen addressed ported w = (Inr prepared, w')"
    using assms(2)
    by (auto simp: prepareService_def Let_def s1_def addressed_def ported_def [abs_def] failing_def
        split: if_splits)
  then obtain s2 w2 where a: "addressed w = (Inr s2, w2)" and p: "ported s2 w2 = (Inr prepared, w')"
    by (auto elim: andThen_InrE)
  have "keeps invar view addressed"
    by (auto simp: addressed_def intro!: keeps_andThen keeps_allocateServiceIP)
  from keepsD [OF this assms(1) a] have w2: "invar w2" "objs w2 = objs w" by auto
  have s2: "if ClusterIP (svcSpec s1) = []
    then \<exists>ip. s2 = set_cluster_ip ip s1 \<and> in_service_range ip \<and> address_free (objs w) ip
    else s2 = s1"
    using a allocateServiceIP_first [OF assms(1)]
    by (fastforce simp: addressed_def returning_def in_service_range_def split: if_splits elim!: andThen_InrE)
  have "if svcType (svcSpec s2) = ServiceNodePort
    then \<exists>port. prepared = set_node_port port s2 \<and> firstNodePort \<le> port \<and> port \<le> lastNodePort \<and>
      (svcNodePort (svcSpec s2) \<noteq> 0 \<longrightarrow> port = svcNodePort (svcSpec s2)) \<and>
      port_free (objs w) excludeName port
    else svcNodePort (svcSpec s2) = 0 \<and> prepared = s2"
    using p allocateNodePort_ok [OF w2(1)] w2(2)
    by (fastforce simp: ported_def returning_def failing_def split: if_splits elim!: andThen_InrE)
  with s2 t show ?thesis
    by (auto simp: s1_def service_prepared_def service_setters split: if_splits)
qed

end

end
