(* ===== verification/StoreInvariant.thy ===== *)
theory StoreInvariant
  imports ServiceAllocation
begin

text \<open>
  The abstract specification of the API server as a step relation on the stored objects and
  the revision, \<open>api_step\<close>: a request leaves the store alone, creates a missing object, replaces
  an object whose version the request names, or removes one. \<open>serveHTTP_step\<close> shows that every
  request the server handles is such a step, also when the store fails. The invariant of the
  specification, \<open>api_store_ok\<close>, then holds in every reachable store: each stored object decodes
  to a resource of its kind under its own name, and no two Services share a node port.
\<close>

section \<open>What the server admits to the store\<close>

definition admitted :: "string \<Rightarrow> string \<Rightarrow> Resource \<Rightarrow> bool" where
  "admitted kind name r \<longleftrightarrow>
     newResource kind = Some (zero_like r) \<and> valid_Resource r \<and> GetName r = name \<and> name \<noteq> [] \<and>
     validateResource kind r = None"

definition prepared_for :: "objects \<Rightarrow> string \<Rightarrow> Resource \<Rightarrow> bool" where
  "prepared_for a excludeName r \<longleftrightarrow>
     (\<forall>s. r = RService s \<longrightarrow> (\<exists>before. service_prepared a excludeName before s))"

inductive api_step :: "objects \<times> int \<Rightarrow> objects \<times> int \<Rightarrow> bool" where
  unchanged: "api_step (a, n) (a, n)"
| create: "admitted kind name r \<Longrightarrow> prepared_for a [] r \<Longrightarrow> a kind name = None \<Longrightarrow>
    json_Marshal r = Inr j \<Longrightarrow> agree_on_plain a' (put_object kind name (Some (j, n + 1)) a) \<Longrightarrow>
    api_step (a, n) (a', n + 1)"
| replace: "admitted kind name r \<Longrightarrow> prepared_for a name r \<Longrightarrow>
    a kind name = Some (old, GetResourceVersion r) \<Longrightarrow>
    json_Marshal r = Inr j \<Longrightarrow> agree_on_plain a' (put_object kind name (Some (j, n + 1)) a) \<Longrightarrow>
    api_step (a, n) (a', n + 1)"
| remove: "newResource kind \<noteq> None \<Longrightarrow> a kind name \<noteq> None \<Longrightarrow>
    agree_on_plain a' (put_object kind name None a) \<Longrightarrow> api_step (a, n) (a', n + 1)"

inductive_cases api_stepE: "api_step s s'"

section \<open>The invariant of the specification\<close>

definition service_ok :: "Service \<Rightarrow> bool" where
  "service_ok s \<longleftrightarrow>
     ClusterIP (svcSpec s) \<noteq> [] \<and>
     (svcType (svcSpec s) = ServiceNodePort \<and>
        firstNodePort \<le> svcNodePort (svcSpec s) \<and> svcNodePort (svcSpec s) \<le> lastNodePort \<or>
      svcType (svcSpec s) = ServiceClusterIP \<and> svcNodePort (svcSpec s) = 0)"

definition objects_ok :: "objects \<Rightarrow> bool" where
  "objects_ok a \<longleftrightarrow>
     (\<forall>kind name j v. newResource kind \<noteq> None \<longrightarrow> a kind name = Some (j, v) \<longrightarrow>
       (\<exists>r. unmarshal_new kind j = Some r \<and> admitted kind name r))"

definition services_ok :: "objects \<Rightarrow> bool" where
  "services_ok a \<longleftrightarrow> (\<forall>name s. stored_service a name s \<longrightarrow> service_ok s)"

definition node_ports_unique :: "objects \<Rightarrow> bool" where
  "node_ports_unique a \<longleftrightarrow>
     (\<forall>n1 n2 s1 s2. stored_service a n1 s1 \<longrightarrow> stored_service a n2 s2 \<longrightarrow> n1 \<noteq> n2 \<longrightarrow>
       svcNodePort (svcSpec s1) \<noteq> 0 \<longrightarrow> svcNodePort (svcSpec s1) \<noteq> svcNodePort (svcSpec s2))"

definition api_store_ok :: "objects \<Rightarrow> bool" where
  "api_store_ok a \<longleftrightarrow> objects_ok a \<and> services_ok a \<and> node_ports_unique a"

lemma objects_okD:
  "objects_ok a \<Longrightarrow> newResource kind = Some z \<Longrightarrow> a kind name = Some (j, v) \<Longrightarrow>
    \<exists>r. unmarshal_new kind j = Some r \<and> admitted kind name r"
  unfolding objects_ok_def by blast

lemma newResource_plain: "newResource kind = Some r \<Longrightarrow> plain kind"
  by (auto simp: newResource_def plain_def split: if_splits)

lemma admitted_plain: "admitted kind name r \<Longrightarrow> plain kind"
  by (auto simp: admitted_def newResource_plain)

lemma agree_put_plain:
  "agree_on_plain a' (put_object kind name v a) \<Longrightarrow> plain k \<Longrightarrow>
    a' k n = (if k = kind \<and> n = name then v else a k n)"
  by (auto simp: agree_on_plain_def put_object_def)

text \<open>What is stored for an admitted resource decodes to the resource, normalised.\<close>

lemma admitted_decodes:
  assumes "admitted kind name r" and "json_Marshal r = Inr j"
  shows "unmarshal_new kind j = Some (norm_Resource r)" and "admitted kind name (norm_Resource r)"
proof -
  show *: "unmarshal_new kind j = Some (norm_Resource r)"
    using assms Resource_roundtrip [of r j] by (simp add: unmarshal_new_def admitted_def)
  have "valid_Resource (norm_Resource r)"
    using Resource_roundtrip [of r j] assms json_Unmarshal_valid [of j "zero_like r"]
    by (simp add: admitted_def)
  moreover have "validateResource kind (norm_Resource r) = None"
    using assms(1) by (cases r) (auto simp: admitted_def validateResource_def norm_Pod_def
        norm_PodSpec_def elems_def split: if_splits option.splits)
  ultimately show "admitted kind name (norm_Resource r)"
    using assms(1) by (simp add: admitted_def)
qed

lemma objects_ok_put:
  assumes "objects_ok a" and "admitted kind name r" and "json_Marshal r = Inr j"
    and "agree_on_plain a' (put_object kind name (Some (j, v)) a)"
  shows "objects_ok a'"
  using assms(1) admitted_decodes [OF assms(2,3)] agree_put_plain [OF assms(4)]
  unfolding objects_ok_def by (metis (no_types, lifting) fst_conv newResource_plain not_None_eq
      option.inject)

lemma objects_ok_delete:
  assumes "objects_ok a" and "agree_on_plain a' (put_object kind name None a)"
  shows "objects_ok a'"
  using assms(1) agree_put_plain [OF assms(2)] newResource_plain
  unfolding objects_ok_def by (metis (no_types, lifting) not_None_eq)

lemma plain_Service [simp]: "plain ''Service''"
  by (simp add: plain_def)

lemma stored_service_put:
  assumes "admitted kind name r" and "json_Marshal r = Inr j"
    and "agree_on_plain a' (put_object kind name (Some (j, v)) a)"
  shows "stored_service a' n s \<longleftrightarrow>
    (if kind = ''Service'' \<and> n = name then norm_Resource r = RService s else stored_service a n s)"
proof (cases "kind = ''Service'' \<and> n = name")
  case True
  then have "a' ''Service'' n = Some (j, v)"
    using agree_put_plain [OF assms(3)] by simp
  moreover have "map_option RService (dec_Service j zero_Service) = Some (norm_Resource r)"
    using admitted_decodes(1) [OF assms(1,2)] True by (simp add: unmarshal_new_def newResource_def)
  ultimately show ?thesis using True by (auto simp: stored_service_def)
next
  case False
  then have "a' ''Service'' n = a ''Service'' n"
    using agree_put_plain [OF assms(3)] by auto
  with False show ?thesis by (auto simp: stored_service_def)
qed

lemma stored_service_delete:
  "agree_on_plain a' (put_object kind name None a) \<Longrightarrow> stored_service a' n s \<Longrightarrow>
    stored_service a n s"
  by (auto simp: stored_service_def agree_put_plain split: if_splits)

lemma norm_Service_spec: "norm_Resource r = RService s \<Longrightarrow>
    \<exists>s'. r = RService s' \<and> svcSpec s = svcSpec s' \<and> Name (svcMeta s) = Name (svcMeta s')"
  by (cases r) (auto simp: norm_Service_def norm_ObjectMeta_def)

lemma service_prepared_ok: "service_prepared a excludeName before s \<Longrightarrow> service_ok s"
  by (auto simp: service_prepared_def service_ok_def in_service_range_nonempty
      split: if_splits)

lemma stored_service_name:
  assumes "objects_ok a" and "stored_service a name s"
  shows "Name (svcMeta s) = name \<and> name \<noteq> []"
proof -
  from assms(2) obtain j v where j: "a ''Service'' name = Some (j, v)"
    and s: "dec_Service j zero_Service = Some s"
    by (auto simp: stored_service_def)
  have "newResource ''Service'' = Some (RService zero_Service)" by (simp add: newResource_def)
  with assms(1) j obtain r where "unmarshal_new ''Service'' j = Some r" "admitted ''Service'' name r"
    using objects_okD by metis
  with s show ?thesis
    by (auto simp: unmarshal_new_def newResource_def admitted_def)
qed

text \<open>A node port free among the other Services stays unique when the Service is stored.\<close>

lemma node_ports_unique_put:
  assumes "objects_ok a" and "node_ports_unique a"
    and "admitted kind name r" and "prepared_for a excludeName r"
    and "excludeName = [] \<and> a kind name = None \<or> excludeName = name"
    and "json_Marshal r = Inr j" and "agree_on_plain a' (put_object kind name (Some (j, v)) a)"
  shows "node_ports_unique a'"
  unfolding node_ports_unique_def
proof (intro allI impI)
  fix n1 n2 s1 s2
  assume s: "stored_service a' n1 s1" "stored_service a' n2 s2" and "n1 \<noteq> n2"
    and port: "svcNodePort (svcSpec s1) \<noteq> 0"
  note stored = s [unfolded stored_service_put [OF assms(3,6,7)]]
  have new: "svcNodePort (svcSpec s) \<noteq> svcNodePort (svcSpec t)"
    if norm: "norm_Resource r = RService s" and that: "stored_service a n t" "n \<noteq> name" "kind = ''Service''"
      "svcNodePort (svcSpec s) \<noteq> 0" for s t n
  proof -
    obtain s' where s': "r = RService s'" "svcSpec s = svcSpec s'"
      using norm_Service_spec [OF norm] by blast
    with assms(4) obtain before where "service_prepared a excludeName before s'"
      by (auto simp: prepared_for_def)
    then have "port_free a excludeName (svcNodePort (svcSpec s'))"
      using that(4) s'(2) by (auto simp: service_prepared_def split: if_splits)
    moreover have "Name (svcMeta t) \<noteq> excludeName"
      using stored_service_name [OF assms(1) that(1)] assms(5) that(2) by auto
    ultimately show ?thesis using that(1) s'(2) unfolding port_free_def by metis
  qed
  show "svcNodePort (svcSpec s1) \<noteq> svcNodePort (svcSpec s2)"
  proof (cases "kind = ''Service'' \<and> n1 = name")
    case True
    with stored \<open>n1 \<noteq> n2\<close> new [of s1 n2 s2] port show ?thesis by auto
  next
    case first: False
    show ?thesis
    proof (cases "kind = ''Service'' \<and> n2 = name")
      case True
      with first stored \<open>n1 \<noteq> n2\<close> new [of s2 n1 s1] port show ?thesis by force
    next
      case False
      with first stored have "stored_service a n1 s1" "stored_service a n2 s2"
        by presburger+
      with \<open>n1 \<noteq> n2\<close> port assms(2) show ?thesis
        unfolding node_ports_unique_def by metis
    qed
  qed
qed

lemma services_ok_put:
  assumes "services_ok a" and "admitted kind name r" and "prepared_for a excludeName r"
    and "json_Marshal r = Inr j" and "agree_on_plain a' (put_object kind name (Some (j, v)) a)"
  shows "services_ok a'"
proof -
  have "service_ok s" if norm: "norm_Resource r = RService s" for s
  proof -
    obtain s' where s': "r = RService s'" "svcSpec s = svcSpec s'"
      using norm_Service_spec [OF norm] by blast
    with assms(3) service_prepared_ok have "service_ok s'" by (auto simp: prepared_for_def)
    with s' show ?thesis by (simp add: service_ok_def)
  qed
  with assms(1) show ?thesis
    by (auto simp: services_ok_def stored_service_put [OF assms(2,4,5)] split: if_splits)
qed

lemma api_store_ok_put:
  assumes "api_store_ok a" and "admitted kind name r" and "prepared_for a excludeName r"
    and "excludeName = [] \<and> a kind name = None \<or> excludeName = name"
    and "json_Marshal r = Inr j" and "agree_on_plain a' (put_object kind name (Some (j, v)) a)"
  shows "api_store_ok a'"
  using assms objects_ok_put node_ports_unique_put services_ok_put
  unfolding api_store_ok_def by metis

lemma api_store_ok_delete:
  assumes "api_store_ok a" and "agree_on_plain a' (put_object kind name None a)"
  shows "api_store_ok a'"
  using assms(1) objects_ok_delete [OF _ assms(2)] stored_service_delete [OF assms(2)]
  unfolding api_store_ok_def services_ok_def node_ports_unique_def by metis

lemma api_step_invariant:
  assumes "api_step (a, n) (a', n')" and "api_store_ok a"
  shows "api_store_ok a'"
  using assms(1)
proof (cases rule: api_step.cases)
  case unchanged
  with assms(2) show ?thesis by simp
next
  case (create kind name r j)
  with assms(2) api_store_ok_put show ?thesis by blast
next
  case (replace kind name r old j)
  with assms(2) api_store_ok_put show ?thesis by blast
next
  case (remove kind name)
  with assms(2) api_store_ok_delete show ?thesis by blast
qed

lemma api_step_revision: "api_step (a, n) (a', n') \<Longrightarrow> n \<le> n' \<and> (n' = n \<longrightarrow> a' = a)"
  by (auto elim: api_stepE)

lemma api_store_ok_empty: "api_store_ok (\<lambda>kind name. None)"
  by (simp add: api_store_ok_def objects_ok_def services_ok_def node_ports_unique_def
      stored_service_def)

section \<open>Every request is a step of the specification\<close>

lemma kindForResource_known:
  "kindForResource resource = Inr kind \<Longrightarrow>
    kind = kindForResourceName resource \<and> (\<exists>z. newResource kind = Some z \<and> zero_like z = z)"
  by (auto simp: kindForResource_def kindForResourceName_def newResource_def Let_def
      split: if_splits)

lemma unmarshal_new_like:
  assumes "unmarshal_new kind j = Some r"
  shows "newResource kind = Some (zero_like r) \<and> valid_Resource r"
proof -
  from assms obtain z where z: "newResource kind = Some z" "json_Unmarshal j z = Some r"
    by (auto simp: unmarshal_new_def bind_eq_Some_conv)
  have "zero_like z = z" using z(1) by (auto simp: newResource_def split: if_splits)
  with z zero_like_Unmarshal [OF z(2)] json_Unmarshal_valid [OF z(2)] valid_zero_like [of z]
  show ?thesis by simp
qed

lemma decodeResource_admitted:
  "decodeResource resource body = Inr (r, name) \<Longrightarrow>
    admitted (kindForResourceName resource) name r"
  using unmarshal_new_like
  by (auto simp: decodeResource_def admitted_def Let_def bind_eq_Some_conv
      split: option.splits if_splits)

lemma valid_prepared:
  assumes "service_prepared a excludeName before after" and "valid_Resource (RService before)"
  shows "valid_Resource (RService after)"
proof -
  have "svcNodePort (svcSpec after) = 0 \<or>
      30000 \<le> svcNodePort (svcSpec after) \<and> svcNodePort (svcSpec after) \<le> 32767"
    using assms(1) by (auto simp: service_prepared_def firstNodePort_def lastNodePort_def
        split: if_splits)
  then have "in_int64 (svcNodePort (svcSpec after))"
    by (auto simp: in_int64_def int64_min_def int64_max_def)
  with assms show ?thesis by (simp add: service_prepared_def)
qed

context etcd_interface begin

lemma prepareObject_admitted:
  assumes "invar w" and "prepareObject etcd r excludeName w = (Inr p, w')" and "admitted kind name r"
  shows "admitted kind name p \<and> prepared_for (objs w) excludeName p \<and>
    GetResourceVersion p = GetResourceVersion r"
proof (cases r)
  case (RService s)
  with assms(2) obtain s' where s': "prepareService etcd s excludeName w = (Inr s', w')"
    and p: "p = RService s'"
    by (auto simp: prepareObject_def returning_def elim!: andThen_InrE)
  note prep = prepareService_ok [OF assms(1) s']
  have "valid_Resource (RService s')"
    using valid_prepared [OF prep] assms(3) RService by (simp add: admitted_def)
  moreover have "svcMeta s' = svcMeta s" using prep by (simp add: service_prepared_def)
  ultimately show ?thesis
    using assms(3) prep RService p
    by (auto simp: admitted_def prepared_for_def validateResource_def)
qed (use assms(2,3) in \<open>auto simp: prepareObject_def returning_def prepared_for_def\<close>)

lemma prepareObject_view:
  "invar w \<Longrightarrow> prepareObject etcd r excludeName w = (res, w') \<Longrightarrow>
    invar w' \<and> objs w' = objs w \<and> revision w' = revision w"
  using keepsD [OF keeps_prepareObject] by force

abbreviation steps :: "'w \<Rightarrow> 'w \<Rightarrow> bool" where
  "steps w w' \<equiv> invar w' \<and> api_step (objs w, revision w) (objs w', revision w')"

lemma steps_refl:
  "invar w' \<Longrightarrow> objs w' = objs w \<Longrightarrow> revision w' = revision w \<Longrightarrow> steps w w'"
  by (simp add: api_step.unchanged)

lemma create_steps:
  assumes "invar w" and "admitted kind name r" and "prepared_for (objs w) [] r"
    and "etcdCreate etcd kind name r w = (res, w')"
  shows "steps w w'"
proof -
  note kind = admitted_plain [OF assms(2)]
  have "invar w' \<and> (objs w' = objs w \<and> revision w' = revision w \<or>
      objs w kind name = None \<and> revision w' = revision w + 1 \<and>
      (\<exists>j. json_Marshal r = Inr j \<and>
        agree_on_plain (objs w') (put_object kind name (Some (j, revision w')) (objs w))))"
  proof (cases res)
    case (Inl e)
    with create_error [OF assms(1) kind] assms(4) show ?thesis by blast
  next
    case (Inr v)
    with create_ok [OF assms(1) kind] assms(4) show ?thesis by fastforce
  qed
  then show ?thesis
    using api_step.unchanged api_step.create [OF assms(2,3)] by metis
qed

lemma update_steps:
  assumes "invar w" and "admitted kind name r" and "prepared_for (objs w) name r"
    and "GetResourceVersion r \<noteq> 0"
    and "etcdUpdate etcd kind name r (GetResourceVersion r) w = (res, w')"
  shows "steps w w'"
proof -
  note kind = admitted_plain [OF assms(2)]
  have "invar w' \<and> (objs w' = objs w \<and> revision w' = revision w \<or>
      (\<exists>j. objs w kind name = Some (j, GetResourceVersion r)) \<and> revision w' = revision w + 1 \<and>
      (\<exists>j. json_Marshal r = Inr j \<and>
        agree_on_plain (objs w') (put_object kind name (Some (j, revision w')) (objs w))))"
  proof (cases res)
    case (Inl e)
    with update_error [OF assms(1) kind assms(4)] assms(5) show ?thesis by blast
  next
    case (Inr v)
    with update_ok [OF assms(1) kind assms(4)] assms(5) show ?thesis by fastforce
  qed
  then show ?thesis
    using api_step.unchanged api_step.replace [OF assms(2,3)] by metis
qed

lemma delete_steps:
  assumes "invar w" and "newResource kind = Some z" and "etcdDelete etcd kind name rv w = (res, w')"
  shows "steps w w'"
proof -
  note kind = newResource_plain [OF assms(2)]
  have "invar w' \<and> (objs w' = objs w \<and> revision w' = revision w \<or>
      objs w kind name \<noteq> None \<and> revision w' = revision w + 1 \<and>
      agree_on_plain (objs w') (put_object kind name None (objs w)))"
  proof (cases res)
    case (Inl e)
    with delete_error [OF assms(1) kind] assms(3) show ?thesis by blast
  next
    case (Inr u)
    with delete_ok [OF assms(1) kind] assms(3) show ?thesis by blast
  qed
  then show ?thesis
    using api_step.unchanged api_step.remove [of kind "objs w" name] assms(2) by fastforce
qed

lemma server_collection_steps:
  assumes "invar w" and "kindForResource resource = Inr kind"
    and "server_collection etcd request resource kind w = (resp, w')"
  shows "steps w w'"
proof -
  note known = kindForResource_known [OF assms(2)]
  then have kind: "plain kind" using newResource_plain by blast
  have list: "steps w w'" if "etcdList etcd kind w = (res, w')" for res
    using list_frame [OF assms(1) kind that] steps_refl by blast
  have prep: "steps w w'" if "prepareObject etcd r [] w = (res, w')" for r res
    using prepareObject_view [OF assms(1) that] steps_refl by blast
  have create: "steps w w'" if d: "decodeResource resource (reqBody request) = Inr (r, name)"
    and p: "prepareObject etcd r [] w = (Inr p, w1)"
    and c: "etcdCreate etcd kind name p w1 = (res, w')" for r name p w1 res
  proof -
    have "admitted kind name r" using decodeResource_admitted [OF d] known by simp
    from prepareObject_admitted [OF assms(1) p this] prepareObject_view [OF assms(1) p]
      create_steps [of w1 kind name p, OF _ _ _ c] show ?thesis by simp
  qed
  show ?thesis
    using assms(3) list prep create steps_refl [OF assms(1)]
    by (auto simp: server_collection_def split: prod.splits sum.splits if_splits)
qed

lemma server_object_steps:
  assumes "invar w" and "kindForResource resource = Inr kind"
    and "server_object etcd request resource kind name w = (resp, w')"
  shows "steps w w'"
proof -
  note known = kindForResource_known [OF assms(2)]
  then obtain z where z: "newResource kind = Some z" by blast
  note kind = newResource_plain [OF z]
  have get: "steps w w'" if "etcdGet etcd kind name r w = (res, w')" for r res
    using get_frame [OF assms(1) kind that] steps_refl by blast
  have prep: "steps w w'" if "prepareObject etcd r name w = (res, w')" for r res
    using prepareObject_view [OF assms(1) that] steps_refl by blast
  have update: "steps w w'" if d: "decodeResource resource (reqBody request) = Inr (r, name)"
    and p: "prepareObject etcd r name w = (Inr p, w1)" and v: "GetResourceVersion p \<noteq> 0"
    and c: "etcdUpdate etcd kind name p (GetResourceVersion p) w1 = (res, w')" for r p w1 res
  proof -
    have "admitted kind name r" using decodeResource_admitted [OF d] known by simp
    from prepareObject_admitted [OF assms(1) p this] prepareObject_view [OF assms(1) p]
      update_steps [of w1 kind name p, OF _ _ _ v c] show ?thesis by simp
  qed
  have delete: "steps w w'" if "etcdDelete etcd kind name rv w = (res, w')" for rv res
    using delete_steps [OF assms(1) z that] .
  show ?thesis
    using assms(3) get prep update delete steps_refl [OF assms(1)]
    by (auto simp: server_object_def Let_def
        split: prod.splits sum.splits if_splits option.splits)
qed

lemma server_watch_steps:
  assumes "invar w" and "server_watch etcd request resource w = (resp, w')"
  shows "steps w w'"
proof -
  have watch: "steps w w'" if "kindForResource resource = Inr kind"
    and "etcdWatch etcd kind v w = (res, w')" for kind v res
  proof -
    have "plain kind" using kindForResource_known [OF that(1)] newResource_plain by blast
    from watch_frame [OF assms(1) this that(2)] steps_refl show ?thesis by blast
  qed
  show ?thesis
    using assms(2) watch steps_refl [OF assms(1)]
    by (auto simp: server_watch_def split: prod.splits sum.splits if_splits)
qed

lemma serveHTTP_steps:
  assumes "invar w" and "serveHTTP etcd request w = (resp, w')"
  shows "steps w w'"
  using assms(2) server_watch_steps [OF assms(1)] server_collection_steps [OF assms(1)]
    server_object_steps [OF assms(1)] steps_refl [OF assms(1)]
  by (auto simp: serveHTTP_def Let_def split: sum.splits if_splits)

end

end
