(* ===== verification/ApiTheorems.thy ===== *)
theory ApiTheorems
  imports StoreInvariant
begin

text \<open>
  The theorems on the API server of \<^verbatim>\<open>apiserver/server.go\<close> over \<open>EtcdClient\<close> and any etcd
  server that behaves as documented (\<open>etcd_server\<close>; \<open>etcd_server_up\<close> where the server also
  answers every call): the invariant of the store over any sequence of requests, optimistic
  concurrency, and the round trip from a creation to a read.
\<close>

section \<open>Sequences of requests\<close>

fun serve_all :: "'w Etcd \<Rightarrow> Request list \<Rightarrow> 'w \<Rightarrow> 'w" where
  "serve_all etcd [] w = w"
| "serve_all etcd (request # requests) w =
     serve_all etcd requests (snd (serveHTTP etcd request w))"

section \<open>Paths\<close>

lemma kindForResource_plain: "kindForResource resource = Inr kind \<Longrightarrow> plain resource \<and> resource \<noteq> []"
  by (auto simp: kindForResource_def kindForResourceName_def plain_def Let_def split: if_splits)

lemma plain_ends: "plain s \<Longrightarrow> s \<noteq> [] \<Longrightarrow> hd s \<noteq> CHR ''/'' \<and> last s \<noteq> CHR ''/''"
  unfolding plain_def by (metis hd_in_set last_in_set)

lemma parts_collection:
  "plain resource \<Longrightarrow> resource \<noteq> [] \<Longrightarrow>
    strings_Split (strings_Trim (CHR ''/'' # resource) (CHR ''/'')) (CHR ''/'') = [resource]"
  using plain_ends [of resource] by (simp add: strings_Trim_Cons strings_Split_no_sep plain_def)

lemma parts_object:
  assumes "plain resource" and "resource \<noteq> []" and "plain name" and "name \<noteq> []"
  shows "strings_Split (strings_Trim (CHR ''/'' # resource @ CHR ''/'' # name) (CHR ''/'')) (CHR ''/'')
    = [resource, name]"
proof -
  have "strings_Trim (CHR ''/'' # resource @ CHR ''/'' # name) (CHR ''/'') = resource @ CHR ''/'' # name"
    using assms plain_ends [of resource] plain_ends [of name] by (intro strings_Trim_Cons) auto
  with assms show ?thesis
    by (simp add: strings_Split_append strings_Split_no_sep plain_def)
qed

lemma serveHTTP_collection:
  assumes "kindForResource resource = Inr kind" and "urlPath request = CHR ''/'' # resource"
  shows "serveHTTP etcd request w = server_collection etcd request resource kind w"
  using assms kindForResource_plain [OF assms(1)]
  by (simp add: serveHTTP_def parts_collection)

lemma serveHTTP_object:
  assumes "kindForResource resource = Inr kind" and "plain name" and "name \<noteq> []"
    and "urlPath request = CHR ''/'' # resource @ CHR ''/'' # name"
  shows "serveHTTP etcd request w = server_object etcd request resource kind name w"
proof -
  have "resource \<noteq> ''watch''"
    using assms(1) by (auto simp: kindForResource_def kindForResourceName_def Let_def)
  then show ?thesis
    using assms kindForResource_plain [OF assms(1)]
    by (simp add: serveHTTP_def parts_object)
qed

section \<open>A step sequence\<close>

lemma api_step_keeps_version_away:
  assumes "api_step (a, n) (a', n')" and "plain kind" and "rv \<le> n"
    and "\<forall>j. a kind name \<noteq> Some (j, rv)"
  shows "rv \<le> n' \<and> (\<forall>j. a' kind name \<noteq> Some (j, rv))"
  using assms(1)
proof (cases rule: api_step.cases)
  case unchanged
  with assms show ?thesis by simp
next
  case (create k nm r j)
  with assms(2-4) show ?thesis by (auto simp: agree_put_plain)
next
  case (replace k nm r old j)
  with assms(2-4) show ?thesis by (auto simp: agree_put_plain)
next
  case (remove k nm)
  with assms(2-4) show ?thesis by (auto simp: agree_put_plain)
qed

context etcd_interface begin

lemma serve_all_steps:
  "invar w \<Longrightarrow> invar (serve_all etcd requests w) \<and>
    api_step\<^sup>*\<^sup>* (objs w, revision w)
      (objs (serve_all etcd requests w), revision (serve_all etcd requests w))"
proof (induction requests arbitrary: w)
  case Nil
  then show ?case by simp
next
  case (Cons request requests)
  obtain resp w1 where w1: "serveHTTP etcd request w = (resp, w1)" by fastforce
  from serveHTTP_steps [OF Cons.prems w1] Cons.IH [of w1] show ?case
    by (auto simp: w1 intro: converse_rtranclp_into_rtranclp)
qed

lemma api_steps_invariant:
  "api_step\<^sup>*\<^sup>* s s' \<Longrightarrow> api_store_ok (fst s) \<Longrightarrow> api_store_ok (fst s')"
  by (induction rule: rtranclp_induct) (auto simp: api_step_invariant split_paired_all)

lemma api_steps_version_away:
  "api_step\<^sup>*\<^sup>* s s' \<Longrightarrow> plain kind \<Longrightarrow> rv \<le> snd s \<and> (\<forall>j. fst s kind name \<noteq> Some (j, rv)) \<Longrightarrow>
    rv \<le> snd s' \<and> (\<forall>j. fst s' kind name \<noteq> Some (j, rv))"
proof (induction rule: rtranclp_induct)
  case base
  then show ?case by simp
next
  case (step y z)
  then show ?case
    using api_step_keeps_version_away [of "fst y" "snd y" "fst z" "snd z" kind rv name] by simp
qed

text \<open>A PUT that succeeds replaced exactly the version its body names.\<close>

lemma put_success:
  assumes "invar w" and "kindForResource resource = Inr kind"
    and "reqMethod request = MethodPut"
    and "decodeResource resource (reqBody request) = Inr (r, bodyName)"
    and "server_object etcd request resource kind name w = (resp, w')"
    and "respStatus resp = Some 200"
  shows "bodyName = name \<and> (\<exists>j. objs w kind name = Some (j, GetResourceVersion r)) \<and>
    revision w' = revision w + 1 \<and> (\<exists>j. objs w' kind name = Some (j, revision w'))"
proof -
  note known = kindForResource_known [OF assms(2)]
  then have kind: "plain kind" using newResource_plain by blast
  from assms(3-6) obtain p w1 v where name: "bodyName = name"
    and p: "prepareObject etcd r name w = (Inr p, w1)" and nz: "GetResourceVersion p \<noteq> 0"
    and u: "etcdUpdate etcd kind name p (GetResourceVersion p) w1 = (Inr v, w')"
    by (auto simp: server_object_def method_defs Let_def writeError_def writeJSON_def
        writeStoreError_def split: prod.splits sum.splits if_splits)
  have "admitted kind bodyName r" using decodeResource_admitted [OF assms(4)] known by simp
  from prepareObject_admitted [OF assms(1) p this] have "GetResourceVersion p = GetResourceVersion r"
    by simp
  moreover have w1: "invar w1" "objs w1 = objs w" "revision w1 = revision w"
    using prepareObject_view [OF assms(1) p] by auto
  moreover note update_ok [OF w1(1) kind nz u]
  ultimately show ?thesis using name kind by (fastforce simp: agree_put_plain)
qed

text \<open>A PUT whose version is not the stored one changes nothing and does not succeed.\<close>

lemma put_stale:
  assumes "invar w" and "kindForResource resource = Inr kind"
    and "reqMethod request = MethodPut"
    and "decodeResource resource (reqBody request) = Inr (r, bodyName)"
    and "\<forall>j. objs w kind name \<noteq> Some (j, GetResourceVersion r)"
    and "server_object etcd request resource kind name w = (resp, w')"
  shows "respStatus resp \<noteq> Some 200 \<and> objs w' = objs w \<and> revision w' = revision w"
proof -
  note known = kindForResource_known [OF assms(2)]
  then have kind: "plain kind" using newResource_plain by blast
  have adm: "admitted kind bodyName r" using decodeResource_admitted [OF assms(4)] known by simp
  have prep: "objs w1 = objs w \<and> revision w1 = revision w"
    if "prepareObject etcd r name w = (res, w1)" for res w1
    using prepareObject_view [OF assms(1) that] by simp
  have update: "objs w2 = objs w \<and> revision w2 = revision w"
    if p: "prepareObject etcd r name w = (Inr p, w1)" and nz: "GetResourceVersion p \<noteq> 0"
      and u: "etcdUpdate etcd kind name p (GetResourceVersion p) w1 = (res, w2)" for p w1 w2 res
  proof -
    have v: "GetResourceVersion p = GetResourceVersion r"
      using prepareObject_admitted [OF assms(1) p adm] by simp
    note w1 = prepareObject_view [OF assms(1) p]
    then have i1: "invar w1" by simp
    show ?thesis
    proof (cases res)
      case (Inl e)
      with update_error [OF i1 kind nz] u v w1 assms(5) show ?thesis by metis
    next
      case (Inr v')
      with update_ok [OF i1 kind nz] u v w1 assms(5) show ?thesis by metis
    qed
  qed
  have "respStatus resp \<noteq> Some 200"
    using put_success [OF assms(1-4,6)] assms(5) by metis
  with assms(3,4,6) prep update show ?thesis
    by (auto simp: server_object_def method_defs Let_def split: prod.splits sum.splits if_splits)
qed

text \<open>A created object reads back as it was answered.\<close>

lemma post_success:
  assumes "invar w" and "kindForResource resource = Inr kind"
    and "reqMethod request = MethodPost"
    and "decodeResource resource (reqBody request) = Inr (r, name)"
    and "server_collection etcd request resource kind w = (resp, w')"
    and "respStatus resp = Some 201"
  shows "\<exists>p j x. admitted kind name p \<and> prepared_for (objs w) [] p \<and>
    objs w kind name = None \<and> invar w' \<and> revision w' = revision w + 1 \<and>
    json_Marshal p = Inr j \<and> objs w' kind name = Some (j, revision w') \<and>
    json_Marshal (SetResourceVersion (revision w') p) = Inr x \<and> respBody resp = [x]"
proof -
  note known = kindForResource_known [OF assms(2)]
  then have kind: "plain kind" using newResource_plain by blast
  from assms(3-6) obtain p w1 v where p: "prepareObject etcd r [] w = (Inr p, w1)"
    and c: "etcdCreate etcd kind name p w1 = (Inr v, w')"
    and resp: "resp = writeJSON 201 (json_Marshal (SetResourceVersion v p))"
    by (auto simp: server_collection_def method_defs writeError_def writeJSON_def
        writeStoreError_def split: prod.splits sum.splits if_splits)
  have "admitted kind name r" using decodeResource_admitted [OF assms(4)] known by simp
  from prepareObject_admitted [OF assms(1) p this]
  have adm: "admitted kind name p" "prepared_for (objs w) [] p" by auto
  have w1: "invar w1" "objs w1 = objs w" "revision w1 = revision w"
    using prepareObject_view [OF assms(1) p] by auto
  note created = create_ok [OF w1(1) kind c]
  obtain x where x: "json_Marshal (SetResourceVersion v p) = Inr x"
    using json_Marshal_total by blast
  from created obtain j where "json_Marshal p = Inr j" "objs w' kind name = Some (j, v)"
    by (auto simp: agree_put_plain [OF _ kind])
  with created adm w1 x resp show ?thesis by (auto simp: writeJSON_def)
qed

end

lemma enc_norm_ObjectMeta [simp]: "enc_ObjectMeta (norm_ObjectMeta m) = enc_ObjectMeta m"
  by (simp add: enc_ObjectMeta_def norm_ObjectMeta_def norm_map_def norm_slice_def empty_map_def
      empty_slice_def omitempty_def)

lemma enc_norm_Container [simp]: "enc_Container (norm_Container c) = enc_Container c"
  by (simp add: enc_Container_def norm_Container_def norm_slice_def empty_slice_def omitempty_def)

lemma enc_norm_PodSpec [simp]: "enc_PodSpec (norm_PodSpec s) = enc_PodSpec s"
  by (cases "Containers s") (simp_all add: enc_PodSpec_def norm_PodSpec_def enc_slice_def)

lemma enc_norm_PodTemplateSpec [simp]:
  "enc_PodTemplateSpec (norm_PodTemplateSpec t) = enc_PodTemplateSpec t"
  by (simp add: enc_PodTemplateSpec_def norm_PodTemplateSpec_def)

lemma json_Marshal_norm [simp]: "json_Marshal (norm_Resource r) = json_Marshal r"
  by (cases r)
    (simp_all add: enc_Node_def norm_Node_def enc_Pod_def norm_Pod_def enc_Deployment_def
      norm_Deployment_def enc_DeploymentSpec_def enc_ReplicaSet_def norm_ReplicaSet_def
      enc_ReplicaSetSpec_def enc_Service_def norm_Service_def)

lemma json_Marshal_set_norm: "json_Marshal (SetResourceVersion v (norm_Resource r)) =
    json_Marshal (SetResourceVersion v r)"
  by simp

context etcd_interface_up begin

lemma get_stored:
  assumes "invar w" and "kindForResource resource = Inr kind" and "admitted kind name p"
    and "json_Marshal p = Inr j" and "objs w kind name = Some (j, v)"
    and "reqMethod request = MethodGet"
    and "json_Marshal (SetResourceVersion v p) = Inr x"
  shows "\<exists>w'. server_object etcd request resource kind name w = (writeJSON 200 (Inr x), w')"
proof -
  obtain z where z: "newResource kind = Some z" using kindForResource_known [OF assms(2)] by blast
  note kind = newResource_plain [OF z]
  have "json_Unmarshal j z = Some (norm_Resource p)"
    using admitted_decodes(1) [OF assms(3,4)] z by (simp add: unmarshal_new_def)
  from get_up [OF assms(1) kind assms(5) this] obtain w' where
    "etcdGet etcd kind name z w = (Inr (norm_Resource p, v), w')" ..
  with z assms(6,7) show ?thesis
    by (auto simp: server_object_def json_Marshal_set_norm simp del: SetResourceVersion_norm)
qed

end

section \<open>The allocations over a store that answers\<close>

lemma decode_services_total:
  assumes "objects_ok a" and "lists (a ''Service'') names"
  shows "\<exists>ss. decode_services (listing (a ''Service'') names) = Inr ss"
proof -
  have kind: "newResource ''Service'' = Some (RService zero_Service)" by (simp add: newResource_def)
  have "\<exists>ss. decode_services (listing (a ''Service'') ns) = Inr ss"
    if "set ns \<subseteq> dom (a ''Service'')" for ns
    using that
  proof (induction ns)
    case Nil
    then show ?case by (simp add: listing_def)
  next
    case (Cons n ns)
    then obtain j v where j: "a ''Service'' n = Some (j, v)" by auto
    from objects_okD [OF assms(1) kind this] obtain s where "dec_Service j zero_Service = Some s"
      by (auto simp: unmarshal_new_def kind)
    with Cons j show ?case by (auto simp: listing_def)
  qed
  with assms(2) show ?thesis by (auto simp: lists_def)
qed

context etcd_interface_up begin

lemma list_services_up:
  assumes "invar w" and "objects_ok (objs w)"
  shows "\<exists>entries v w' ss. etcdList etcd ''Service'' w = (Inr (entries, v), w') \<and>
    decode_services entries = Inr ss \<and> set ss = {s. \<exists>name. stored_service (objs w) name s}"
proof -
  obtain entries v w' where l: "etcdList etcd ''Service'' w = (Inr (entries, v), w')"
    using list_up [OF assms(1) service_kind_plain] by blast
  from list_ok [OF assms(1) service_kind_plain l] decode_services_total [OF assms(2)]
  obtain ss where d: "decode_services entries = Inr ss" by blast
  with l list_services [OF assms(1) l d] show ?thesis by blast
qed

lemma allocateServiceIP_spec:
  assumes "invar w" and "objects_ok (objs w)" and "allocateServiceIP etcd w = (res, w')"
  shows "case res of
      Inr ip \<Rightarrow> in_service_range ip \<and> address_free (objs w) ip
    | Inl e \<Rightarrow> \<forall>ip. in_service_range ip \<longrightarrow> \<not> address_free (objs w) ip"
proof -
  from list_services_up [OF assms(1,2)] obtain entries v w1 ss
    where l: "etcdList etcd ''Service'' w = (Inr (entries, v), w1)"
      and d: "decode_services entries = Inr ss"
      and ss: "set ss = {s. \<exists>name. stored_service (objs w) name s}"
    by blast
  let ?find = "first_free_host service_base (map (\<lambda>s. ClusterIP (svcSpec s)) ss) 2 255"
  have res: "res = (case ?find of Some c \<Rightarrow> Inr c
      | None \<Rightarrow> Inl (NewError ''service CIDR has no available address''))"
    using assms(3) l d
    by (auto simp: allocateServiceIP_eq andThen_def returning_def failing_def split: option.splits)
  have used: "x \<in> set (map (\<lambda>s. ClusterIP (svcSpec s)) ss) \<longleftrightarrow> \<not> address_free (objs w) x" for x
    using ss by (auto simp: address_free_def)
  show ?thesis
  proof (cases ?find)
    case None
    from None [unfolded first_free_host_None used] None res show ?thesis
      by (auto simp: in_service_range_def)
  next
    case (Some c)
    from first_free_host_Some [OF Some] Some res used show ?thesis
      by (auto simp: in_service_range_def)
  qed
qed

lemma allocateNodePort_spec:
  assumes "invar w" and "objects_ok (objs w)"
    and "allocateNodePort etcd requested excludeName w = (res, w')"
  shows "case res of
      Inr port \<Rightarrow> firstNodePort \<le> port \<and> port \<le> lastNodePort \<and> (requested \<noteq> 0 \<longrightarrow> port = requested) \<and>
        port_free (objs w) excludeName port
    | Inl e \<Rightarrow> \<forall>port. firstNodePort \<le> port \<longrightarrow> port \<le> lastNodePort \<longrightarrow>
        (requested \<noteq> 0 \<longrightarrow> port = requested) \<longrightarrow> \<not> port_free (objs w) excludeName port"
proof (cases res)
  case (Inr port)
  with allocateNodePort_ok [OF assms(1)] assms(3) show ?thesis by simp
next
  case (Inl e)
  show ?thesis
  proof (cases "requested \<noteq> 0 \<and> (requested < firstNodePort \<or> requested > lastNodePort)")
    case True
    with Inl show ?thesis by auto
  next
    case False
    from list_services_up [OF assms(1,2)] obtain entries v w1 ss
      where l: "etcdList etcd ''Service'' w = (Inr (entries, v), w1)"
        and d: "decode_services entries = Inr ss"
        and ss: "set ss = {s. \<exists>name. stored_service (objs w) name s}"
      by blast
    have used: "x \<in> set (used_node_ports excludeName ss) \<Longrightarrow> \<not> port_free (objs w) excludeName x" for x
      using ss by (auto simp: used_node_ports_def port_free_def)
    from assms(3) l d False Inl
    have "if requested \<noteq> 0 then requested \<in> set (used_node_ports excludeName ss)
      else find (\<lambda>p. p \<notin> set (used_node_ports excludeName ss)) [firstNodePort..lastNodePort] = None"
      by (auto simp: allocateNodePort_def andThen_def returning_def failing_def Let_def
          split: option.splits if_splits)
    then show ?thesis using used Inl by (auto simp: find_upto_None split: if_splits)
  qed
qed

end

section \<open>Example requests\<close>

definition request_of :: "string \<Rightarrow> string \<Rightarrow> json option \<Rightarrow> Request" where
  "request_of meth path body =
     \<lparr>reqMethod = meth, urlPath = path, rawQuery = [], reqBody = body, connWrites = (\<lambda>_. True)\<rparr>"

definition pod_body :: "string \<Rightarrow> int \<Rightarrow> json" where
  "pod_body name version = JObject
     [(''metadata'', JObject [(''name'', JString name), (''resourceVersion'', JInt version)]),
      (''spec'', JObject [(''containers'', JArray [JObject [(''name'', JString ''c'')]])])]"

definition service_body :: "string \<Rightarrow> string \<Rightarrow> int \<Rightarrow> json" where
  "service_body name type port = JObject
     [(''metadata'', JObject [(''name'', JString name)]),
      (''spec'', JObject [(''type'', JString type), (''port'', JInt 80), (''nodePort'', JInt port)])]"

definition post_pod :: Request where
  "post_pod = request_of MethodPost ''/pods'' (Some (pod_body ''a'' 0))"
definition get_pod :: Request where
  "get_pod = request_of MethodGet ''/pods/a'' None"
definition put_pod :: "int \<Rightarrow> Request" where
  "put_pod version = request_of MethodPut ''/pods/a'' (Some (pod_body ''a'' version))"
definition post_service :: "string \<Rightarrow> string \<Rightarrow> int \<Rightarrow> Request" where
  "post_service name type port = request_of MethodPost ''/services'' (Some (service_body name type port))"

abbreviation mem_serve :: "Request \<Rightarrow> mem_etcd \<Rightarrow> Response \<times> mem_etcd" where
  "mem_serve \<equiv> serveHTTP (NewEtcdClient mem_client)"

lemma mem_empty_invar: "mem_invar mem_empty"
  by (simp add: mem_invar_def mem_empty_def int64_max_def)

lemma mem_empty_ok: "api_store_ok (objects_of (mem_kvs mem_empty))"
  using api_store_ok_empty by (simp add: mem_empty_def objects_of_def [abs_def])

lemma mem_serve_invar: "mem_invar w \<Longrightarrow> mem_invar (snd (mem_serve request w))"
  using etcd_interface.serveHTTP_steps [OF etcd_server_interface [OF mem_etcd_server], of w request]
  by (cases "mem_serve request w") auto

section \<open>Theorems\<close>

text \<open>
  C1: whatever sequence of requests the API server handles, from a store that satisfies the
  invariant it reaches a store that satisfies it: every object decodes to a valid resource of
  its kind under its own name, every Service has an address and a port that fits its type, and
  no two Services share a node port. The etcd server may fail any call.
\<close>

theorem requests_keep_store_ok:
  assumes "etcd_server client kvs revision invar" and "invar w"
    and "api_store_ok (objects_of (kvs w))"
  shows "invar (serve_all (NewEtcdClient client) requests w) \<and>
    api_store_ok (objects_of (kvs (serve_all (NewEtcdClient client) requests w)))"
  using etcd_interface.serve_all_steps [OF etcd_server_interface [OF assms(1)] assms(2)]
    etcd_interface.api_steps_invariant [OF etcd_server_interface [OF assms(1)]] assms(3)
  by fastforce

lemma requests_keep_store_ok_witness:
  "api_store_ok (objects_of (mem_kvs (serve_all (NewEtcdClient mem_client)
     [post_service ''a'' ''NodePort'' 0, post_service ''b'' ''NodePort'' 30000] mem_empty)))"
  using requests_keep_store_ok [OF mem_etcd_server mem_empty_invar mem_empty_ok] by blast

text \<open>
  C2: optimistic concurrency. Once a PUT of a resource version has succeeded on an object, no
  later PUT on the same object that names the same version succeeds or changes the store,
  whatever requests are handled in between.
\<close>

theorem version_used_once:
  assumes "etcd_server client kvs revision invar" and "invar w"
    and "kindForResource resource = Inr kind" and "plain name" and "name \<noteq> []"
    and "reqMethod put1 = MethodPut" and "urlPath put1 = CHR ''/'' # resource @ CHR ''/'' # name"
    and "reqMethod put2 = MethodPut" and "urlPath put2 = CHR ''/'' # resource @ CHR ''/'' # name"
    and "decodeResource resource (reqBody put1) = Inr (r1, name1)"
    and "decodeResource resource (reqBody put2) = Inr (r2, name2)"
    and "GetResourceVersion r1 = GetResourceVersion r2"
    and "serveHTTP (NewEtcdClient client) put1 w = (resp1, w1)" and "respStatus resp1 = Some 200"
    and "serveHTTP (NewEtcdClient client) put2 (serve_all (NewEtcdClient client) between w1) =
      (resp2, w2)"
  shows "respStatus resp2 \<noteq> Some 200 \<and>
    objects_of (kvs w2) = objects_of (kvs (serve_all (NewEtcdClient client) between w1))"
proof -
  note etcd = etcd_server_interface [OF assms(1)]
  let ?e = "NewEtcdClient client" and ?w = "serve_all (NewEtcdClient client) between w1"
  have kind: "plain kind" using kindForResource_known [OF assms(3)] newResource_plain by blast
  note object = serveHTTP_object [OF assms(3-5)]
  have s1: "server_object ?e put1 resource kind name w = (resp1, w1)"
    using assms(13) by (simp add: object [OF assms(7)])
  have s2: "server_object ?e put2 resource kind name ?w = (resp2, w2)"
    using assms(15) by (simp add: object [OF assms(9)])
  note first = etcd_interface.put_success [OF etcd assms(2,3,6,10) s1 assms(14)]
  then obtain j where "objects_of (kvs w) kind name = Some (j, GetResourceVersion r1)" by blast
  note v = etcd_interface.version_ok [OF etcd assms(2) kind this]
  have i1: "invar w1"
    using etcd_interface.server_object_steps [OF etcd assms(2,3) s1] by simp
  note all = etcd_interface.serve_all_steps [OF etcd i1, of between]
  have "\<forall>j. objects_of (kvs ?w) kind name \<noteq> Some (j, GetResourceVersion r1)"
    using etcd_interface.api_steps_version_away [OF etcd conjunct2 [OF all] kind,
        of "GetResourceVersion r1" name] first v by auto
  with etcd_interface.put_stale [OF etcd conjunct1 [OF all] assms(3,8,11) _ s2] assms(12)
  show ?thesis by simp
qed

lemma version_used_once_witness:
  "respStatus (fst (mem_serve (put_pod 2)
     (serve_all (NewEtcdClient mem_client) [get_pod]
       (snd (mem_serve (put_pod 2) (snd (mem_serve post_pod mem_empty))))))) \<noteq> Some 200"
proof -
  have "case decodeResource ''pods'' (reqBody (put_pod 2)) of
      Inl e \<Rightarrow> False | Inr (r, name) \<Rightarrow> name = ''a''"
    by code_simp
  then obtain r where r: "decodeResource ''pods'' (reqBody (put_pod 2)) = Inr (r, ''a'')"
    by (auto split: sum.splits)
  have status: "respStatus (fst (mem_serve (put_pod 2) (snd (mem_serve post_pod mem_empty)))) = Some 200"
    by code_simp
  have kind: "kindForResource ''pods'' = Inr ''Pod''" by code_simp
  have put: "reqMethod (put_pod 2) = MethodPut" "plain ''a''" "''a'' \<noteq> []"
    "urlPath (put_pod 2) = CHR ''/'' # ''pods'' @ CHR ''/'' # ''a''"
    by (simp_all add: put_pod_def request_of_def plain_def)
  note inv = mem_serve_invar [OF mem_empty_invar]
  show ?thesis
    by (rule conjunct1 [OF version_used_once [where between = "[get_pod]", OF mem_etcd_server inv
          kind put(2,3,1,4) put(1,4) r r refl surjective_pairing status surjective_pairing]])
qed



text \<open>
  C30: the address given to a Service lies in the Service range (host 2 to 254 of 10.96.0.0/24)
  and no stored Service has it; the allocation fails only when every address of the range is
  taken; the store is unchanged.
\<close>

theorem service_ip_allocation:
  assumes "etcd_server_up client kvs revision invar" and "invar w"
    and "objects_ok (objects_of (kvs w))"
    and "allocateServiceIP (NewEtcdClient client) w = (res, w')"
  shows "objects_of (kvs w') = objects_of (kvs w) \<and>
    (case res of
       Inr ip \<Rightarrow> in_service_range ip \<and> address_free (objects_of (kvs w)) ip
     | Inl e \<Rightarrow> \<forall>ip. in_service_range ip \<longrightarrow> \<not> address_free (objects_of (kvs w)) ip)"
proof -
  note up = etcd_server_up_interface [OF assms(1)]
  note etcd = etcd_server_interface [OF etcd_server_up.axioms(1) [OF assms(1)]]
  from keepsD [OF etcd_interface.keeps_allocateServiceIP [OF etcd] assms(2,4)]
    etcd_interface_up.allocateServiceIP_spec [OF up assms(2-4)]
  show ?thesis by simp
qed

lemma service_ip_allocation_witness:
  "address_free (objects_of (mem_kvs (snd (mem_serve (post_service ''a'' [] 0) mem_empty))))
    ''10.96.0.3''"
proof -
  let ?w = "snd (mem_serve (post_service ''a'' [] 0) mem_empty)"
  have ok: "objects_ok (objects_of (mem_kvs ?w))"
    using etcd_interface.serveHTTP_steps [OF etcd_server_interface [OF mem_etcd_server]
        mem_empty_invar surjective_pairing] api_step_invariant mem_empty_ok
    unfolding api_store_ok_def by metis
  have ip: "allocateServiceIP (NewEtcdClient mem_client) ?w = (Inr ''10.96.0.3'', ?w)"
    by code_simp
  from service_ip_allocation [OF mem_etcd_server_up mem_serve_invar [OF mem_empty_invar] ok ip]
  show ?thesis by simp
qed

text \<open>
  C31: a node port allocation answers a free port between 30000 and 32767, the requested one if
  one was requested; it fails only when no port it may answer is free among the other Services.
\<close>

theorem node_port_allocation:
  assumes "etcd_server_up client kvs revision invar" and "invar w"
    and "objects_ok (objects_of (kvs w))"
    and "allocateNodePort (NewEtcdClient client) requested excludeName w = (res, w')"
  shows "objects_of (kvs w') = objects_of (kvs w) \<and>
    (case res of
       Inr port \<Rightarrow> 30000 \<le> port \<and> port \<le> 32767 \<and> (requested \<noteq> 0 \<longrightarrow> port = requested) \<and>
         port_free (objects_of (kvs w)) excludeName port
     | Inl e \<Rightarrow> \<forall>port. 30000 \<le> port \<longrightarrow> port \<le> 32767 \<longrightarrow> (requested \<noteq> 0 \<longrightarrow> port = requested) \<longrightarrow>
         \<not> port_free (objects_of (kvs w)) excludeName port)"
proof -
  note up = etcd_server_up_interface [OF assms(1)]
  note etcd = etcd_server_interface [OF etcd_server_up.axioms(1) [OF assms(1)]]
  from keepsD [OF etcd_interface.keeps_allocateNodePort [OF etcd] assms(2,4)]
    etcd_interface_up.allocateNodePort_spec [OF up assms(2-4)]
  show ?thesis by (cases res) (simp_all add: firstNodePort_def lastNodePort_def)
qed

lemma node_port_allocation_witness:
  "port_free (objects_of (mem_kvs mem_empty)) [] 30000"
proof -
  have ok: "objects_ok (objects_of (mem_kvs mem_empty))"
    using mem_empty_ok by (simp add: api_store_ok_def)
  have "allocateNodePort (NewEtcdClient mem_client) 30000 [] mem_empty = (Inr 30000, mem_empty)"
    by code_simp
  from node_port_allocation [OF mem_etcd_server_up mem_empty_invar ok this] show ?thesis by simp
qed

text \<open>
  C29: a request body that is accepted decodes into a resource of the kind the URL names, with its
  name, integers of 64 bits and, for a Pod, containers; written out again it is accepted again and
  decodes into the same resource, up to empty maps and slices.
\<close>

theorem decoded_well_typed:
  assumes "decodeResource resource body = Inr (r, name)"
  shows "newResource (kindForResourceName resource) = Some (zero_like r) \<and> valid_Resource r \<and>
    GetName r = name \<and> name \<noteq> [] \<and> (\<forall>pod. r = RPod pod \<longrightarrow> elems (Containers (podSpec pod)) \<noteq> []) \<and>
    (\<exists>j. json_Marshal r = Inr j \<and> decodeResource resource (Some j) = Inr (norm_Resource r, name))"
proof -
  from decodeResource_admitted [OF assms] have adm: "admitted (kindForResourceName resource) name r" .
  obtain j where j: "json_Marshal r = Inr j" using json_Marshal_total by blast
  from admitted_decodes [OF adm j] have "decodeResource resource (Some j) = Inr (norm_Resource r, name)"
    by (auto simp: decodeResource_def admitted_def)
  moreover have "kindForResourceName resource = ''Pod''" if "r = RPod pod" for pod
    using adm that by (auto simp: admitted_def newResource_def split: if_splits)
  ultimately show ?thesis using adm j by (auto simp: admitted_def validateResource_def split: if_splits)
qed

lemma decoded_well_typed_witness:
  "\<exists>r j. json_Marshal r = Inr j \<and> decodeResource ''pods'' (Some j) = Inr (norm_Resource r, ''a'')"
proof -
  have "case decodeResource ''pods'' (reqBody post_pod) of Inr (r, name) \<Rightarrow> name = ''a'' | _ \<Rightarrow> False"
    by code_simp
  then obtain r where "decodeResource ''pods'' (reqBody post_pod) = Inr (r, ''a'')"
    by (auto split: sum.splits prod.splits)
  from decoded_well_typed [OF this] show ?thesis by blast
qed

end
