(* ===== verification/ApiClient.thy ===== *)
theory ApiClient
  imports ApiServer
begin

text \<open>
  The HTTP client of \<^verbatim>\<open>apiserver/client.go\<close>, which every other component uses to reach the
  API server. The transport (\<^verbatim>\<open>http.Client.Do\<close>) is an argument, \<open>httpDo\<close>: it takes the
  origin of the URL and the request as a server sees it. \<open>HTTP\<close> is the transport that hands the
  request to \<open>serveHTTP\<close>, as \<^verbatim>\<open>net/http\<close> does on a connection that works. The type
  parameter of \<^verbatim>\<open>ResourceClient[T]\<close> is the codec of \<open>T\<close> in the record.

  A response body is the sequence of its JSON values, \<open>None\<close> for a piece of text that is not
  JSON; \<open>readErr\<close> is the error that ends the reading of a stream while the context is live.
\<close>

section \<open>URLs\<close>

fun url_PathUnescape :: "string \<Rightarrow> string option" where
  "url_PathUnescape [] = Some []"
| "url_PathUnescape (c # cs) =
     (if c = CHR ''%'' then
        (case cs of
           x # y # rest \<Rightarrow>
             (case (hex_value x, hex_value y) of
                (Some a, Some b) \<Rightarrow>
                  map_option ((#) (char_of (16 * a + b))) (url_PathUnescape rest)
              | _ \<Rightarrow> None)
         | _ \<Rightarrow> None)
      else map_option ((#) c) (url_PathUnescape cs))"

definition is_control :: "char \<Rightarrow> bool" where
  "is_control c = (let n = of_char c :: nat in n < 32 \<or> n = 127)"

text \<open>
  The origin (scheme and host), path and query of a URL; \<open>None\<close> is the parse error of
  \<^verbatim>\<open>url.Parse\<close>. A fragment is dropped.
\<close>

definition url_Parse :: "string \<Rightarrow> (string \<times> string \<times> string) option" where
  "url_Parse s =
     (if list_ex is_control s then None
      else
        let u = takeWhile (\<lambda>c. c \<noteq> CHR ''#'') s;
            scheme = takeWhile (\<lambda>c. c \<noteq> CHR '':'') u;
            rest = dropWhile (\<lambda>c. c \<noteq> CHR '':'') u;
            (origin, p) =
              (if strings_HasPrefix rest ''://'' then
                 (scheme @ ''://'' @ takeWhile (\<lambda>c. c \<noteq> CHR ''/'' \<and> c \<noteq> CHR ''?'') (drop 3 rest),
                  dropWhile (\<lambda>c. c \<noteq> CHR ''/'' \<and> c \<noteq> CHR ''?'') (drop 3 rest))
               else ([], u))
        in map_option (\<lambda>path. (origin, path, drop 1 (dropWhile (\<lambda>c. c \<noteq> CHR ''?'') p)))
             (url_PathUnescape (takeWhile (\<lambda>c. c \<noteq> CHR ''?'') p)))"

section \<open>The client\<close>

record HttpResponse =
  StatusCode :: int
  Body :: "json option list"
  readErr :: "goerror option"

record 'w Client =
  baseURL :: string
  httpDo :: "string \<Rightarrow> Request \<Rightarrow> ('w, HttpResponse) operation"

text \<open>\<^verbatim>\<open>NewClient\<close>; the transport stands for \<^verbatim>\<open>http.DefaultClient\<close>.\<close>

definition NewClient ::
    "(string \<Rightarrow> Request \<Rightarrow> ('w, HttpResponse) operation) \<Rightarrow> string \<Rightarrow> 'w Client" where
  "NewClient httpClient base =
     \<lparr>baseURL = strings_TrimRight base (CHR ''/''), httpDo = httpClient\<rparr>"

definition IsNotFound :: "goerror \<Rightarrow> bool" where
  "IsNotFound err = (errors_As_HTTPError err = Some 404)"

definition dec_responseError :: "string decoder" where
  "dec_responseError = dec_struct [(''error'', dec_string)]"

text \<open>\<^verbatim>\<open>json.NewDecoder(body).Decode(output)\<close>: the first value of the body.\<close>

definition decode_body :: "'o decoder \<Rightarrow> json option list \<Rightarrow> 'o \<Rightarrow> 'o option" where
  "decode_body dec body out = (case body of Some j # _ \<Rightarrow> dec j out | _ \<Rightarrow> None)"

text \<open>\<^verbatim>\<open>http.NewRequestWithContext(ctx, method, client.baseURL+path, body)\<close>\<close>

definition http_NewRequest ::
    "'w Client \<Rightarrow> string \<Rightarrow> string \<Rightarrow> json option \<Rightarrow> (string \<times> Request) result" where
  "http_NewRequest client meth path body =
     (case url_Parse (baseURL client @ path) of
        None \<Rightarrow> Inl (NewError ''url'')
      | Some (origin, urlpath, query) \<Rightarrow>
          Inr (origin, \<lparr>reqMethod = meth, urlPath = urlpath, rawQuery = query, reqBody = body,
            connWrites = (\<lambda>_. True)\<rparr>))"

text \<open>The part of \<^verbatim>\<open>request\<close> that reads the response.\<close>

definition read_response :: "'o decoder option \<Rightarrow> 'o \<Rightarrow> HttpResponse \<Rightarrow> 'o result" where
  "read_response output out response =
     (if StatusCode response < 200 \<or> StatusCode response \<ge> 300 then
        (case decode_body dec_responseError (Body response) [] of
           None \<Rightarrow> Inl (HTTPError (StatusCode response) [])
         | Some message \<Rightarrow> Inl (HTTPError (StatusCode response) message))
      else
        (case output of
           None \<Rightarrow> Inr out
         | Some dec \<Rightarrow>
             if StatusCode response = 204 then Inr out
             else
               (case decode_body dec (Body response) out of
                  None \<Rightarrow> Inl (WrapError ''decode response'' json_error)
                | Some result \<Rightarrow> Inr result)))"

definition client_request ::
    "'w Client \<Rightarrow> string \<Rightarrow> string \<Rightarrow> json result option \<Rightarrow> 'o decoder option \<Rightarrow> 'o
      \<Rightarrow> ('w, 'o) operation" where
  "client_request client meth path input output out =
     (case input of
        Some (Inl e) \<Rightarrow> failing (WrapError ''encode request'' e)
      | _ \<Rightarrow>
          (case http_NewRequest client meth path
              (case input of Some (Inr data) \<Rightarrow> Some data | _ \<Rightarrow> None) of
             Inl e \<Rightarrow> failing (WrapError ''create request'' e)
           | Inr (origin, request) \<Rightarrow>
               andThen (httpDo client origin request) (\<lambda>response w.
                 (read_response output out response, w))))"

section \<open>Resource clients\<close>

record 'a ResourceClient =
  rcResource :: string
  codecEnc :: "'a \<Rightarrow> json"
  codecDec :: "'a decoder"
  codecZero :: 'a

definition Pods :: "Pod ResourceClient" where
  "Pods = \<lparr>rcResource = ''pods'', codecEnc = enc_Pod, codecDec = dec_Pod, codecZero = zero_Pod\<rparr>"

definition Nodes :: "Node ResourceClient" where
  "Nodes = \<lparr>rcResource = ''nodes'', codecEnc = enc_Node, codecDec = dec_Node, codecZero = zero_Node\<rparr>"

definition Deployments :: "Deployment ResourceClient" where
  "Deployments = \<lparr>rcResource = ''deployments'', codecEnc = enc_Deployment,
     codecDec = dec_Deployment, codecZero = zero_Deployment\<rparr>"

definition ReplicaSets :: "ReplicaSet ResourceClient" where
  "ReplicaSets = \<lparr>rcResource = ''replicasets'', codecEnc = enc_ReplicaSet,
     codecDec = dec_ReplicaSet, codecZero = zero_ReplicaSet\<rparr>"

definition Services :: "Service ResourceClient" where
  "Services = \<lparr>rcResource = ''services'', codecEnc = enc_Service, codecDec = dec_Service,
     codecZero = zero_Service\<rparr>"

record 'a ResourceList =
  listVersion :: int
  Items :: "'a slice"

definition zero_ResourceList :: "'a ResourceList" where
  "zero_ResourceList = \<lparr>listVersion = 0, Items = None\<rparr>"

definition dec_ResourceList :: "'a ResourceClient \<Rightarrow> 'a ResourceList decoder" where
  "dec_ResourceList rc = dec_struct
     [field ''resourceVersion'' listVersion (\<lambda>x r. r\<lparr>listVersion := x\<rparr>) dec_int,
      field ''items'' Items (\<lambda>x r. r\<lparr>Items := x\<rparr>) (dec_slice (codecDec rc) (codecZero rc))]"

definition ResourceClient_Create ::
    "'w Client \<Rightarrow> 'a ResourceClient \<Rightarrow> 'a \<Rightarrow> ('w, 'a) operation" where
  "ResourceClient_Create client resources object =
     client_request client MethodPost (''/'' @ rcResource resources)
       (Some (Inr (codecEnc resources object))) (Some (codecDec resources)) (codecZero resources)"

definition ResourceClient_Get ::
    "'w Client \<Rightarrow> 'a ResourceClient \<Rightarrow> string \<Rightarrow> ('w, 'a) operation" where
  "ResourceClient_Get client resources name =
     client_request client MethodGet (''/'' @ rcResource resources @ ''/'' @ name) None
       (Some (codecDec resources)) (codecZero resources)"

definition ResourceClient_List ::
    "'w Client \<Rightarrow> 'a ResourceClient \<Rightarrow> ('w, 'a ResourceList) operation" where
  "ResourceClient_List client resources =
     client_request client MethodGet (''/'' @ rcResource resources) None
       (Some (dec_ResourceList resources)) zero_ResourceList"

definition ResourceClient_Update ::
    "'w Client \<Rightarrow> 'a ResourceClient \<Rightarrow> string \<Rightarrow> 'a \<Rightarrow> ('w, 'a) operation" where
  "ResourceClient_Update client resources name object =
     client_request client MethodPut (''/'' @ rcResource resources @ ''/'' @ name)
       (Some (Inr (codecEnc resources object))) (Some (codecDec resources)) (codecZero resources)"

definition ResourceClient_Delete ::
    "'w Client \<Rightarrow> 'a ResourceClient \<Rightarrow> string \<Rightarrow> int \<Rightarrow> ('w, unit) operation" where
  "ResourceClient_Delete client resources name resourceVersion =
     client_request client MethodDelete
       (''/'' @ rcResource resources @ ''/'' @ name @ ''?resourceVersion='' @ strconv_Itoa resourceVersion)
       None None ()"

section \<open>Watches\<close>

record 'a WatchEvent =
  weType :: string
  weObject :: 'a
  weResourceVersion :: int
  weErr :: "goerror option"

definition watch_failure :: "'a ResourceClient \<Rightarrow> string \<Rightarrow> goerror \<Rightarrow> 'a WatchEvent" where
  "watch_failure resources what e =
     \<lparr>weType = [], weObject = codecZero resources, weResourceVersion = 0,
      weErr = Some (WrapError what e)\<rparr>"

definition dec_watch_line :: "(string \<times> json option) decoder" where
  "dec_watch_line = dec_struct
     [field ''type'' fst (\<lambda>x r. (x, snd r)) dec_string,
      (''object'', \<lambda>j r. Some (fst r, Some j))]"

fun watch_scan :: "'a ResourceClient \<Rightarrow> goerror option \<Rightarrow> json option list \<Rightarrow> 'a WatchEvent list" where
  "watch_scan resources err [] =
     (case err of
        None \<Rightarrow> []
      | Some e \<Rightarrow> [watch_failure resources (''read '' @ rcResource resources @ '' watch'') e])"
| "watch_scan resources err (line # scanned) =
     (case Option.bind line (\<lambda>j. dec_watch_line j ([], None)) of
        None \<Rightarrow>
          [watch_failure resources (''decode '' @ rcResource resources @ '' watch event'') json_error]
      | Some (eventT, raw) \<Rightarrow>
          (case Option.bind raw (\<lambda>j. codecDec resources j (codecZero resources)) of
             None \<Rightarrow>
               [watch_failure resources (''decode '' @ rcResource resources @ '' watch object'')
                  json_error]
           | Some object \<Rightarrow>
               \<lparr>weType = eventT, weObject = object, weResourceVersion = 0, weErr = None\<rparr>
                 # watch_scan resources err scanned))"

definition ResourceClient_Watch ::
    "'w Client \<Rightarrow> 'a ResourceClient \<Rightarrow> int \<Rightarrow> ('w, 'a WatchEvent list) operation" where
  "ResourceClient_Watch client resources resourceVersion =
     (case http_NewRequest client MethodGet
         (''/watch/'' @ rcResource resources @ ''?resourceVersion='' @ strconv_Itoa resourceVersion)
         None of
        Inl e \<Rightarrow> failing (WrapError ''create watch request'' e)
      | Inr (origin, request) \<Rightarrow>
          andThen
            (wrapping (''open '' @ rcResource resources @ '' watch'') (httpDo client origin request))
            (\<lambda>response.
               if StatusCode response < 200 \<or> StatusCode response \<ge> 300
               then failing (NewError (''open '' @ rcResource resources
                      @ '' watch: API request failed with status ''
                      @ strconv_Itoa (StatusCode response)))
               else returning (watch_scan resources (readErr response) (Body response))))"

text \<open>
  \<^verbatim>\<open>WatchErrors\<close> delivers the error of the first event (nil for a change) and closes; it
  delivers nothing when the stream ends first.
\<close>

definition WatchErrors :: "'a WatchEvent list \<Rightarrow> goerror option list" where
  "WatchErrors events = (case events of [] \<Rightarrow> [] | event # _ \<Rightarrow> [weErr event])"

section \<open>The transport to the server\<close>

text \<open>
  A handler writes nothing only when the context of the request is cancelled, which \<^verbatim>\<open>net/http\<close>
  does when the client has gone: the client's call ends with the cancellation.
\<close>

definition HTTP :: "'w Etcd \<Rightarrow> string \<Rightarrow> Request \<Rightarrow> ('w, HttpResponse) operation" where
  "HTTP etcd origin request w =
     (case serveHTTP etcd request w of
        (response, w') \<Rightarrow>
          (case respStatus response of
             None \<Rightarrow> (Inl ContextCanceled, w')
           | Some c \<Rightarrow>
               (Inr \<lparr>StatusCode = c, Body = map Some (respBody response), readErr = None\<rparr>, w')))"

end
