(* ===== verification/ClientStack.thy ===== *)
theory ClientStack
  imports ApiTheorems ApiClient
begin

text \<open>
  The API as its clients see it: \<^verbatim>\<open>apiserver/client.go\<close> over HTTP over
  \<^verbatim>\<open>apiserver/server.go\<close> over the \<open>Etcd\<close> interface. The state is the map from kinds and names
  to the resources a read returns, \<open>read_view\<close>. The locale \<open>typed_api\<close> states what the typed
  operations of a \<open>ResourceClient\<close> promise on it, and a \<^theory_text>\<open>sublocale\<close> shows that the stack
  keeps the promise, for every resource type that has a coherent codec (\<open>typed_resource\<close>). The
  controllers, the scheduler and the kubelet are clients of that locale.
\<close>

section \<open>URLs of the API\<close>

definition url_clean :: "string \<Rightarrow> bool" where
  "url_clean s \<longleftrightarrow> s \<noteq> [] \<and> list_all (\<lambda>c. c \<noteq> CHR ''/'' \<and> c \<noteq> CHR ''?'' \<and> c \<noteq> CHR ''#'' \<and>
     c \<noteq> CHR ''%'' \<and> \<not> is_control c) s"

definition path_clean :: "string \<Rightarrow> bool" where
  "path_clean s \<longleftrightarrow> list_all (\<lambda>c. c \<noteq> CHR ''?'' \<and> c \<noteq> CHR ''#'' \<and> c \<noteq> CHR ''%'' \<and>
     \<not> is_control c) s"

definition api_client :: "'w Etcd \<Rightarrow> 'w Client" where
  "api_client etcd = NewClient (HTTP etcd) APIServerURL"

lemma api_client_simps [simp]:
  "baseURL (api_client etcd) = APIServerURL" "httpDo (api_client etcd) = HTTP etcd"
proof -
  have "strings_TrimRight APIServerURL (CHR ''/'') = APIServerURL" by code_simp
  then show "baseURL (api_client etcd) = APIServerURL" "httpDo (api_client etcd) = HTTP etcd"
    by (simp_all add: api_client_def NewClient_def)
qed

lemma url_clean_path: "url_clean s \<Longrightarrow> path_clean s"
  by (auto simp: url_clean_def path_clean_def list_all_iff)

lemma url_clean_plain: "url_clean s \<Longrightarrow> plain s \<and> s \<noteq> []"
  by (auto simp: url_clean_def plain_def list_all_iff)

lemma path_clean_append [simp]: "path_clean (s @ t) \<longleftrightarrow> path_clean s \<and> path_clean t"
  by (auto simp: path_clean_def)

lemma path_clean_slash [simp]: "path_clean (CHR ''/'' # s) \<longleftrightarrow> path_clean s"
  by (auto simp: path_clean_def is_control_def)

lemma unescape_clean: "path_clean p \<Longrightarrow> url_PathUnescape p = Some p"
  by (induction p) (auto simp: path_clean_def)

lemma takeWhile_clean:
  "path_clean p \<Longrightarrow> takeWhile (\<lambda>c. c \<noteq> CHR ''#'') p = p"
  "path_clean p \<Longrightarrow> takeWhile (\<lambda>c. c \<noteq> CHR ''?'') (p @ t) = p @ takeWhile (\<lambda>c. c \<noteq> CHR ''?'') t"
  "path_clean p \<Longrightarrow> dropWhile (\<lambda>c. c \<noteq> CHR ''?'') (p @ t) = dropWhile (\<lambda>c. c \<noteq> CHR ''?'') t"
  by (auto simp: path_clean_def list_all_iff intro: takeWhile_append2 dropWhile_append2)

definition query_clean :: "string \<Rightarrow> bool" where
  "query_clean s \<longleftrightarrow> list_all (\<lambda>c. c \<noteq> CHR ''#'' \<and> \<not> is_control c) s"

lemma url_Parse_api:
  assumes "path_clean p" and "q = [] \<or> (\<exists>s. q = CHR ''?'' # s)" and "query_clean q"
  shows "url_Parse (APIServerURL @ CHR ''/'' # p @ q) = Some (APIServerURL, CHR ''/'' # p, drop 1 q)"
proof -
  have "\<not> list_ex is_control APIServerURL" by code_simp
  moreover have "\<not> is_control (CHR ''/'')" by code_simp
  moreover have "\<not> list_ex is_control p"
    using assms(1) by (auto simp: path_clean_def list_ex_iff list_all_iff)
  moreover have "\<not> list_ex is_control q"
    using assms(3) by (auto simp: query_clean_def list_ex_iff list_all_iff)
  ultimately have control: "list_ex is_control (APIServerURL @ CHR ''/'' # p @ q) = False"
    by simp
  have "\<forall>c\<in>set (CHR ''/'' # p @ q). c \<noteq> CHR ''#''"
    using assms(1,3) by (auto simp: path_clean_def query_clean_def list_all_iff)
  moreover have "\<forall>c\<in>set APIServerURL. c \<noteq> CHR ''#''" by code_simp
  ultimately have hash: "takeWhile (\<lambda>c. c \<noteq> CHR ''#'') (APIServerURL @ CHR ''/'' # p @ q)
      = APIServerURL @ CHR ''/'' # p @ q"
    by (subst takeWhile_eq_all_conv) auto
  have scheme: "takeWhile (\<lambda>c. c \<noteq> CHR '':'') (APIServerURL @ t) = ''http''"
    "dropWhile (\<lambda>c. c \<noteq> CHR '':'') (APIServerURL @ t) = ''://10.200.0.2:8080'' @ t" for t
    by (simp_all add: APIServerURL_def)
  have host: "takeWhile (\<lambda>c. c \<noteq> CHR ''/'' \<and> c \<noteq> CHR ''?'') (drop 3 (''://10.200.0.2:8080'' @ CHR ''/'' # t))
      = ''10.200.0.2:8080''"
    "dropWhile (\<lambda>c. c \<noteq> CHR ''/'' \<and> c \<noteq> CHR ''?'') (drop 3 (''://10.200.0.2:8080'' @ CHR ''/'' # t)) = CHR ''/'' # t"
    "strings_HasPrefix (''://10.200.0.2:8080'' @ CHR ''/'' # t) ''://''" for t
    by (simp_all add: strings_HasPrefix_def)
  have slash: "path_clean (CHR ''/'' # p)" using assms(1) by simp
  have parts: "takeWhile (\<lambda>c. c \<noteq> CHR ''?'') (CHR ''/'' # p @ q) = CHR ''/'' # p"
    "drop 1 (dropWhile (\<lambda>c. c \<noteq> CHR ''?'') (CHR ''/'' # p @ q)) = drop 1 q"
    using takeWhile_clean(2,3) [OF slash, of q] assms(2) by auto
  show ?thesis
    unfolding url_Parse_def control hash scheme Let_def host if_P [OF host(3)] prod.case parts
      unescape_clean [OF slash]
    by (simp add: APIServerURL_def)
qed

section \<open>A request through the stack\<close>

definition api_request :: "string \<Rightarrow> string \<Rightarrow> string \<Rightarrow> json option \<Rightarrow> Request" where
  "api_request meth path query body =
     \<lparr>reqMethod = meth, urlPath = path, rawQuery = query, reqBody = body, connWrites = (\<lambda>_. True)\<rparr>"

definition http_of :: "Response \<Rightarrow> HttpResponse result" where
  "http_of response =
     (case respStatus response of
        None \<Rightarrow> Inl ContextCanceled
      | Some c \<Rightarrow> Inr \<lparr>StatusCode = c, Body = map Some (respBody response), readErr = None\<rparr>)"

text \<open>The result of \<^verbatim>\<open>request\<close> for a response of the handler.\<close>

definition answer :: "'o decoder option \<Rightarrow> 'o \<Rightarrow> Response \<Rightarrow> 'o result" where
  "answer output out response =
     (case http_of response of Inl e \<Rightarrow> Inl e | Inr r \<Rightarrow> read_response output out r)"

lemma HTTP_run:
  "serveHTTP etcd request w = (resp, w') \<Longrightarrow> HTTP etcd origin request w = (http_of resp, w')"
  by (simp add: HTTP_def http_of_def split: option.splits)

lemma client_request_run:
  assumes "path_clean p" and "q = [] \<or> (\<exists>s. q = CHR ''?'' # s)" and "query_clean q"
    and "serveHTTP etcd (api_request meth (CHR ''/'' # p) (drop 1 q) body) w = (resp, w')"
    and "input = map_option Inr body"
  shows "client_request (api_client etcd) meth (CHR ''/'' # p @ q) input output out w =
    (answer output out resp, w')"
proof -
  have "http_NewRequest (api_client etcd) meth (CHR ''/'' # p @ q) body =
      Inr (APIServerURL, api_request meth (CHR ''/'' # p) (drop 1 q) body)"
    using url_Parse_api [OF assms(1-3)] by (simp add: http_NewRequest_def api_request_def)
  with HTTP_run [OF assms(4)] assms(5) show ?thesis
    by (cases body) (auto simp: client_request_def andThen_def answer_def split: sum.splits)
qed

lemma client_request_path:
  assumes "path_clean p"
    and "serveHTTP etcd (api_request meth (CHR ''/'' # p) [] body) w = (resp, w')"
    and "input = map_option Inr body"
  shows "client_request (api_client etcd) meth (CHR ''/'' # p) input output out w =
    (answer output out resp, w')"
  using client_request_run [where q = "[]", of p etcd meth body w resp w'] assms
  by (simp add: query_clean_def)

section \<open>The map of resources\<close>

text \<open>
  The resource a read of a stored object returns: its value with the resource version of the
  store, normalised by its way through JSON.
\<close>

definition read_view :: "objects \<Rightarrow> string \<Rightarrow> string \<rightharpoonup> Resource" where
  "read_view a kind name =
     (case a kind name of
        None \<Rightarrow> None
      | Some (j, v) \<Rightarrow> map_option (\<lambda>r. norm_Resource (SetResourceVersion v r)) (unmarshal_new kind j))"

type_synonym resources = "string \<Rightarrow> string \<rightharpoonup> Resource"

definition put_resource :: "string \<Rightarrow> string \<Rightarrow> Resource option \<Rightarrow> resources \<Rightarrow> resources" where
  "put_resource kind name r m = m(kind := (m kind)(name := r))"

lemma put_resource_apply:
  "put_resource kind name r m k n = (if k = kind \<and> n = name then r else m k n)"
  by (simp add: put_resource_def)

text \<open>The resources without the Pods \<open>N\<close>.\<close>

definition without :: "string set \<Rightarrow> resources \<Rightarrow> resources" where
  "without N m = m(''Pod'' := (\<lambda>n. if n \<in> N then None else m ''Pod'' n))"

lemma without_simps [simp]:
  "without {} m = m"
  "without N (put_resource ''Pod'' n None m) = without (insert n N) m"
  "without N m ''Pod'' n = (if n \<in> N then None else m ''Pod'' n)"
  "kind \<noteq> ''Pod'' \<Longrightarrow> without N m kind = m kind"
  by (auto simp: without_def put_resource_def fun_eq_iff)

lemma read_view_unknown: "newResource kind = None \<Longrightarrow> read_view a kind name = None"
  by (auto simp: read_view_def unmarshal_new_def split: option.splits)

lemma read_view_put:
  assumes "plain kind" and "agree_on_plain a' (put_object kind name v a)"
  shows "read_view a' = put_resource kind name
    (case v of None \<Rightarrow> None | Some (j, v) \<Rightarrow>
       map_option (\<lambda>r. norm_Resource (SetResourceVersion v r)) (unmarshal_new kind j)) (read_view a)"
proof (intro ext)
  fix k n
  show "read_view a' k n = put_resource kind name
    (case v of None \<Rightarrow> None | Some (j, v) \<Rightarrow>
       map_option (\<lambda>r. norm_Resource (SetResourceVersion v r)) (unmarshal_new kind j)) (read_view a) k n"
  proof (cases "newResource k")
    case None
    then show ?thesis
      using read_view_unknown [OF None]
      by (auto simp: put_resource_apply unmarshal_new_def split: option.splits)
  next
    case (Some z)
    from agree_put_plain [OF assms(2) newResource_plain [OF Some]] show ?thesis
      by (auto simp: put_resource_apply read_view_def)
  qed
qed

lemma GetResourceVersion_norm [simp]: "GetResourceVersion (norm_Resource r) = GetResourceVersion r"
  by (cases r)
    (simp_all add: norm_Node_def norm_Pod_def norm_Deployment_def norm_ReplicaSet_def
      norm_Service_def norm_ObjectMeta_def)

lemma read_view_Some:
  assumes "objects_ok a" and "newResource kind = Some z" and "a kind name = Some (j, v)"
  shows "\<exists>r. unmarshal_new kind j = Some r \<and> admitted kind name r \<and>
    read_view a kind name = Some (norm_Resource (SetResourceVersion v r))"
  using objects_okD [OF assms] assms(3) by (auto simp: read_view_def)

lemma read_view_dom:
  assumes "objects_ok a" and "newResource kind = Some z"
  shows "dom (read_view a kind) = dom (a kind)"
proof
  show "dom (read_view a kind) \<subseteq> dom (a kind)"
    by (auto simp: read_view_def split: option.splits)
  show "dom (a kind) \<subseteq> dom (read_view a kind)"
    using read_view_Some [OF assms] by fastforce
qed

lemma valid_SetResourceVersion:
  "valid_Resource r \<Longrightarrow> in_int64 v \<Longrightarrow> valid_Resource (SetResourceVersion v r)"
  by (cases r) (simp_all add: valid_ObjectMeta_def)

section \<open>What a typed client promises\<close>

text \<open>
  \<open>stored x y\<close>: \<open>y\<close> is what the API keeps of a written \<open>x\<close>. A Service also gets the defaults of
  \<open>prepareService\<close>.
\<close>

definition stored_form :: "string \<Rightarrow> Resource \<Rightarrow> Resource \<Rightarrow> bool" where
  "stored_form kind x y \<longleftrightarrow>
     GetName y = GetName x \<and>
     (kind \<noteq> ''Service'' \<longrightarrow> y = norm_Resource (SetResourceVersion (GetResourceVersion y) x))"

locale typed_api =
  fixes client :: "'w Client"
    and rc :: "'a ResourceClient"
    and wrap :: "'a \<Rightarrow> Resource"
    and kind :: string
    and res :: "'w \<Rightarrow> resources"
    and ok :: "'w \<Rightarrow> bool"
  assumes named: "ok w \<Longrightarrow> res w kind name = Some r \<Longrightarrow>
      GetName r = name \<and> name \<noteq> [] \<and> valid_Resource r \<and> (\<exists>x. r = wrap x)"
    and list_ok: "ok w \<Longrightarrow> ResourceClient_List client rc w = (Inr l, w') \<Longrightarrow>
      ok w' \<and> res w' = res w \<and>
      (\<exists>names. sorted_wrt (<) names \<and> set names = dom (res w kind) \<and>
        map (\<lambda>x. Some (wrap x)) (elems (Items l)) = map (res w kind) names)"
    and list_error: "ok w \<Longrightarrow> ResourceClient_List client rc w = (Inl e, w') \<Longrightarrow>
      ok w' \<and> res w' = res w"
    and create_ok: "ok w \<Longrightarrow> valid_Resource (wrap x) \<Longrightarrow>
      ResourceClient_Create client rc x w = (Inr y, w') \<Longrightarrow>
      ok w' \<and> res w kind (GetName (wrap x)) = None \<and> stored_form kind (wrap x) (wrap y) \<and>
      res w' = put_resource kind (GetName (wrap x)) (Some (wrap y)) (res w)"
    and create_error: "ok w \<Longrightarrow> valid_Resource (wrap x) \<Longrightarrow>
      ResourceClient_Create client rc x w = (Inl e, w') \<Longrightarrow>
      ok w' \<and> (res w' = res w \<or> res w kind (GetName (wrap x)) = None \<and>
        (\<exists>y. stored_form kind (wrap x) (wrap y) \<and>
          res w' = put_resource kind (GetName (wrap x)) (Some (wrap y)) (res w)))"
    and update_ok: "ok w \<Longrightarrow> valid_Resource (wrap x) \<Longrightarrow> url_clean name \<Longrightarrow>
      ResourceClient_Update client rc name x w = (Inr y, w') \<Longrightarrow>
      ok w' \<and> GetName (wrap x) = name \<and> stored_form kind (wrap x) (wrap y) \<and>
      (\<exists>old. res w kind name = Some (wrap old) \<and>
        GetResourceVersion (wrap old) = GetResourceVersion (wrap x)) \<and>
      res w' = put_resource kind name (Some (wrap y)) (res w)"
    and update_error: "ok w \<Longrightarrow> valid_Resource (wrap x) \<Longrightarrow> url_clean name \<Longrightarrow>
      ResourceClient_Update client rc name x w = (Inl e, w') \<Longrightarrow>
      ok w' \<and> (res w' = res w \<or> GetName (wrap x) = name \<and>
        (\<exists>old. res w kind name = Some (wrap old) \<and>
          GetResourceVersion (wrap old) = GetResourceVersion (wrap x)) \<and>
        (\<exists>y. stored_form kind (wrap x) (wrap y) \<and>
          res w' = put_resource kind name (Some (wrap y)) (res w)))"
    and delete_ok: "ok w \<Longrightarrow> url_clean name \<Longrightarrow> in_int64 rv \<Longrightarrow>
      ResourceClient_Delete client rc name rv w = (Inr (), w') \<Longrightarrow>
      ok w' \<and> (\<exists>old. res w kind name = Some (wrap old) \<and> GetResourceVersion (wrap old) = rv) \<and>
      res w' = put_resource kind name None (res w)"
    and delete_error: "ok w \<Longrightarrow> url_clean name \<Longrightarrow> in_int64 rv \<Longrightarrow>
      ResourceClient_Delete client rc name rv w = (Inl e, w') \<Longrightarrow>
      ok w' \<and> (res w' = res w \<or>
        (\<exists>old. res w kind name = Some (wrap old) \<and> GetResourceVersion (wrap old) = rv) \<and>
        res w' = put_resource kind name None (res w))"
    and delete_not_found: "ok w \<Longrightarrow> url_clean name \<Longrightarrow> in_int64 rv \<Longrightarrow>
      ResourceClient_Delete client rc name rv w = (Inl e, w') \<Longrightarrow> IsNotFound e \<Longrightarrow>
      res w kind name = Some (wrap old) \<Longrightarrow> GetResourceVersion (wrap old) \<noteq> rv"
    and get_ok: "ok w \<Longrightarrow> url_clean name \<Longrightarrow> ResourceClient_Get client rc name w = (Inr x, w') \<Longrightarrow>
      ok w' \<and> res w' = res w \<and> res w kind name = Some (wrap x)"
    and get_error: "ok w \<Longrightarrow> url_clean name \<Longrightarrow> ResourceClient_Get client rc name w = (Inl e, w') \<Longrightarrow>
      ok w' \<and> res w' = res w \<and> (IsNotFound e \<longrightarrow> res w kind name = None)"
    and watch_frame: "ok w \<Longrightarrow> ResourceClient_Watch client rc rv w = (events, w') \<Longrightarrow>
      ok w' \<and> res w' = res w"

context typed_api begin

text \<open>A listing holds every resource of the kind once, under its name.\<close>

lemma list_items:
  assumes "ok w" and "ResourceClient_List client rc w = (Inr l, w')"
  shows "ok w'" and "res w' = res w"
    and "distinct (map (\<lambda>x. GetName (wrap x)) (elems (Items l)))"
    and "x \<in> set (elems (Items l)) \<Longrightarrow> res w kind (GetName (wrap x)) = Some (wrap x)"
    and "res w kind name = Some r \<Longrightarrow> \<exists>x\<in>set (elems (Items l)). r = wrap x"
proof -
  from list_ok [OF assms] obtain names where w': "ok w'" "res w' = res w"
    and names: "sorted_wrt (<) names" "set names = dom (res w kind)"
    and items: "map (\<lambda>x. Some (wrap x)) (elems (Items l)) = map (res w kind) names"
    by blast
  have len: "length (elems (Items l)) = length names"
    using items by (rule map_eq_imp_length_eq)
  have nth: "res w kind (names ! i) = Some (wrap (elems (Items l) ! i))"
    if "i < length names" for i
    using items that len by (metis nth_map)
  have keys: "map (\<lambda>x. GetName (wrap x)) (elems (Items l)) = names"
  proof (rule nth_equalityI)
    fix i assume "i < length (map (\<lambda>x. GetName (wrap x)) (elems (Items l)))"
    with len have i: "i < length names" by simp
    from named [OF assms(1) nth [OF i]] i len
    show "map (\<lambda>x. GetName (wrap x)) (elems (Items l)) ! i = names ! i" by simp
  qed (simp add: len)
  show "ok w'" "res w' = res w" by (fact w')+
  show "distinct (map (\<lambda>x. GetName (wrap x)) (elems (Items l)))"
    unfolding keys using names(1) strict_sorted_iff by blast
  show "res w kind (GetName (wrap x)) = Some (wrap x)" if "x \<in> set (elems (Items l))"
    using items that keys by (metis (no_types, lifting) in_set_conv_nth length_map nth nth_map)
  show "\<exists>x\<in>set (elems (Items l)). r = wrap x" if "res w kind name = Some r"
  proof -
    from that names(2) obtain i where "i < length names" "names ! i = name"
      by (metis domI in_set_conv_nth)
    with nth that keys show ?thesis by (metis length_map nth_mem option.inject)
  qed
qed

end

section \<open>The stack\<close>

locale typed_resource =
  fixes rc :: "'a ResourceClient"
    and wrap :: "'a \<Rightarrow> Resource"
    and kind :: string
  assumes kind_of: "kindForResource (rcResource rc) = Inr kind"
    and clean: "url_clean (rcResource rc)"
    and wrap_inject: "wrap x = wrap y \<longleftrightarrow> x = y"
    and marshal: "json_Marshal (wrap x) = Inr (codecEnc rc x)"
    and unmarshal: "json_Unmarshal j (wrap x) = map_option wrap (codecDec rc j x)"
    and zero_kind: "newResource kind = Some (wrap (codecZero rc))"
    and zero_wrap: "zero_like r = wrap (codecZero rc) \<longleftrightarrow> (\<exists>x. r = wrap x)"

lemma resource_kinds:
  "newResource ''Node'' = Some (RNode zero_Node)"
  "newResource ''Pod'' = Some (RPod zero_Pod)"
  "newResource ''Deployment'' = Some (RDeployment zero_Deployment)"
  "newResource ''ReplicaSet'' = Some (RReplicaSet zero_ReplicaSet)"
  "newResource ''Service'' = Some (RService zero_Service)"
  by (simp_all add: newResource_def)

lemma zero_like_eq:
  "(zero_like r = RNode zero_Node) = (\<exists>x. r = RNode x)"
  "(zero_like r = RPod zero_Pod) = (\<exists>x. r = RPod x)"
  "(zero_like r = RDeployment zero_Deployment) = (\<exists>x. r = RDeployment x)"
  "(zero_like r = RReplicaSet zero_ReplicaSet) = (\<exists>x. r = RReplicaSet x)"
  "(zero_like r = RService zero_Service) = (\<exists>x. r = RService x)"
  by (cases r; simp)+

lemma resource_names:
  "kindForResource ''nodes'' = Inr ''Node''" "url_clean ''nodes''"
  "kindForResource ''pods'' = Inr ''Pod''" "url_clean ''pods''"
  "kindForResource ''deployments'' = Inr ''Deployment''" "url_clean ''deployments''"
  "kindForResource ''replicasets'' = Inr ''ReplicaSet''" "url_clean ''replicasets''"
  "kindForResource ''services'' = Inr ''Service''" "url_clean ''services''"
  by code_simp+

interpretation node_codec: typed_resource Nodes RNode "''Node''"
  by unfold_locales (simp_all add: Nodes_def resource_kinds zero_like_eq resource_names)

interpretation pod_codec: typed_resource Pods RPod "''Pod''"
  by unfold_locales (simp_all add: Pods_def resource_kinds zero_like_eq resource_names)

interpretation deployment_codec: typed_resource Deployments RDeployment "''Deployment''"
  by unfold_locales (simp_all add: Deployments_def resource_kinds zero_like_eq resource_names)

interpretation replicaSet_codec: typed_resource ReplicaSets RReplicaSet "''ReplicaSet''"
  by unfold_locales (simp_all add: ReplicaSets_def resource_kinds zero_like_eq resource_names)

interpretation service_codec: typed_resource Services RService "''Service''"
  by unfold_locales (simp_all add: Services_def resource_kinds zero_like_eq resource_names)

context typed_resource begin

lemma codec_roundtrip:
  assumes "valid_Resource (wrap x)"
  obtains y where "codecDec rc (codecEnc rc x) (codecZero rc) = Some y"
    and "wrap y = norm_Resource (wrap x)"
proof -
  have "zero_like (wrap x) = wrap (codecZero rc)" using zero_wrap by blast
  then have "map_option wrap (codecDec rc (codecEnc rc x) (codecZero rc)) = Some (norm_Resource (wrap x))"
    using Resource_roundtrip [OF assms marshal] unmarshal by simp
  then show ?thesis using that by auto
qed

lemma wrap_of: "newResource kind = Some (zero_like r) \<Longrightarrow> \<exists>x. r = wrap x"
  using zero_kind zero_wrap by auto

lemma unmarshal_new_wrap:
  "unmarshal_new kind j = map_option wrap (codecDec rc j (codecZero rc))"
  using unmarshal by (simp add: unmarshal_new_def zero_kind)

lemma decode_written:
  assumes "valid_Resource (wrap x)"
    and "decodeResource (rcResource rc) (Some (codecEnc rc x)) = Inr (r, name)"
  shows "r = norm_Resource (wrap x) \<and> name = GetName (wrap x)"
proof -
  have "kindForResourceName (rcResource rc) = kind"
    using kindForResource_known [OF kind_of] by simp
  moreover obtain y where y: "codecDec rc (codecEnc rc x) (codecZero rc) = Some y"
    "wrap y = norm_Resource (wrap x)"
    by (rule codec_roundtrip [OF assms(1)])
  ultimately show ?thesis using assms(2)
    by (auto simp: decodeResource_def unmarshal_new_wrap Let_def split: option.splits if_splits)
qed

end

section \<open>The writing handlers, case by case\<close>

definition refused :: "Response \<Rightarrow> bool" where
  "refused resp \<longleftrightarrow>
     respStatus resp = None \<and> respBody resp = [] \<or> (\<exists>c \<ge> 400. respStatus resp = Some c)"

lemma refused_simps [simp]:
  "refused (writeStoreError e)" "400 \<le> c \<Longrightarrow> refused (writeError c m)"
  by (simp_all add: refused_def writeStoreError_def writeError_def writeJSON_def)

lemma refused_Inl: "refused resp \<Longrightarrow> \<exists>e. answer (Some dec) out resp = Inl e"
  by (auto simp: refused_def answer_def read_response_def http_of_def split: option.splits)

text \<open>\<open>written a kind name p a'\<close>: the store \<open>a'\<close> is \<open>a\<close> with \<open>p\<close> written at the revision.\<close>

definition written :: "objects \<Rightarrow> string \<Rightarrow> string \<Rightarrow> Resource \<Rightarrow> int \<Rightarrow> objects \<Rightarrow> bool" where
  "written a kind name p v a' \<longleftrightarrow>
     admitted kind name p \<and>
     (\<exists>j. json_Marshal p = Inr j \<and> agree_on_plain a' (put_object kind name (Some (j, v)) a))"

context etcd_interface begin

lemma prepareObject_same:
  "prepareObject etcd r ex w = (Inr p, w') \<Longrightarrow> newResource kind = Some (zero_like r) \<Longrightarrow>
    kind \<noteq> ''Service'' \<Longrightarrow> p = r"
  by (cases r) (auto simp: prepareObject_def returning_def newResource_def split: if_splits)

lemma post_cases:
  assumes "invar w" and "kindForResource resource = Inr kind" and "reqMethod request = MethodPost"
    and "server_collection etcd request resource kind w = (resp, w')"
  obtains (refused) "refused resp" "objs w' = objs w"
    | (written) r name p where "decodeResource resource (reqBody request) = Inr (r, name)"
        "kind \<noteq> ''Service'' \<Longrightarrow> p = r" "objs w kind name = None"
        "written (objs w) kind name p (revision w') (objs w')"
        "resp = writeJSON 201 (json_Marshal (SetResourceVersion (revision w') p)) \<or> refused resp"
proof -
  note known = kindForResource_known [OF assms(2)]
  then have kind: "plain kind" using newResource_plain by blast
  consider (bad) "refused resp" "w' = w"
    | (unprepared) r e where "prepareObject etcd r [] w = (Inl e, w')" "refused resp"
    | (create) r name p w1 res where "decodeResource resource (reqBody request) = Inr (r, name)"
      "prepareObject etcd r [] w = (Inr p, w1)" "etcdCreate etcd kind name p w1 = (res, w')"
      "resp = (case res of Inl err \<Rightarrow> writeStoreError err
        | Inr version \<Rightarrow> writeJSON 201 (json_Marshal (SetResourceVersion version p)))"
    using assms(3,4)
    by (auto simp: server_collection_def method_defs split: prod.splits sum.splits)
  then show thesis
  proof cases
    case bad
    with refused show thesis by blast
  next
    case (unprepared r e)
    with refused prepareObject_view [OF assms(1)] show thesis by blast
  next
    case (create r name p w1 res)
    have adm: "admitted kind name r" using decodeResource_admitted [OF create(1)] known by simp
    then have same: "kind \<noteq> ''Service'' \<Longrightarrow> p = r"
      using prepareObject_same [OF create(2)] unfolding admitted_def by blast
    have p: "admitted kind name p" using prepareObject_admitted [OF assms(1) create(2) adm] by simp
    have w1: "invar w1" "objs w1 = objs w" "revision w1 = revision w"
      using prepareObject_view [OF assms(1) create(2)] by auto
    show thesis
    proof (cases res)
      case (Inr v)
      from create_ok [OF w1(1) kind create(3) [unfolded Inr]] w1 p
      have "objs w kind name = None" "written (objs w) kind name p (revision w') (objs w')"
        "v = revision w'"
        by (auto simp: written_def)
      with written [OF create(1) same] create(4) Inr show thesis by simp
    next
      case (Inl e)
      then have "refused resp" using create(4) by simp
      with create_error [OF w1(1) kind create(3) [unfolded Inl]] w1 p written [OF create(1) same] refused
      show thesis by (auto simp: written_def)
    qed
  qed
qed

lemma put_cases:
  assumes "invar w" and "kindForResource resource = Inr kind" and "reqMethod request = MethodPut"
    and "server_object etcd request resource kind name w = (resp, w')"
  obtains (refused) "refused resp" "objs w' = objs w"
    | (written) r p old where "decodeResource resource (reqBody request) = Inr (r, name)"
        "kind \<noteq> ''Service'' \<Longrightarrow> p = r" "objs w kind name = Some (old, GetResourceVersion r)"
        "written (objs w) kind name p (revision w') (objs w')"
        "resp = writeJSON 200 (json_Marshal (SetResourceVersion (revision w') p)) \<or> refused resp"
proof -
  note known = kindForResource_known [OF assms(2)]
  then have kind: "plain kind" using newResource_plain by blast
  consider (bad) "refused resp" "w' = w"
    | (unprepared) r res where "prepareObject etcd r name w = (res, w')" "refused resp"
    | (update) r p w1 res where "decodeResource resource (reqBody request) = Inr (r, name)"
      "prepareObject etcd r name w = (Inr p, w1)" "GetResourceVersion p \<noteq> 0"
      "etcdUpdate etcd kind name p (GetResourceVersion p) w1 = (res, w')"
      "resp = (case res of Inl err \<Rightarrow> writeStoreError err
        | Inr version \<Rightarrow> writeJSON 200 (json_Marshal (SetResourceVersion version p)))"
    using assms(3,4)
    by (auto simp: server_object_def method_defs Let_def split: prod.splits sum.splits if_splits)
  then show thesis
  proof cases
    case bad
    with refused show thesis by blast
  next
    case (unprepared r res)
    with refused prepareObject_view [OF assms(1)] show thesis by blast
  next
    case (update r p w1 res)
    have adm: "admitted kind name r" using decodeResource_admitted [OF update(1)] known by simp
    then have same: "kind \<noteq> ''Service'' \<Longrightarrow> p = r"
      using prepareObject_same [OF update(2)] unfolding admitted_def by blast
    have p: "admitted kind name p" "GetResourceVersion p = GetResourceVersion r"
      using prepareObject_admitted [OF assms(1) update(2) adm] by auto
    have w1: "invar w1" "objs w1 = objs w" "revision w1 = revision w"
      using prepareObject_view [OF assms(1) update(2)] by auto
    show thesis
    proof (cases res)
      case (Inr v)
      from update_ok [OF w1(1) kind update(3,4) [unfolded Inr]] w1 p
      obtain old where "objs w kind name = Some (old, GetResourceVersion r)"
        "written (objs w) kind name p (revision w') (objs w')" "v = revision w'"
        by (auto simp: written_def)
      with written [OF update(1) same] update(5) Inr show thesis by simp
    next
      case (Inl e)
      then have "refused resp" using update(5) by simp
      with update_error [OF w1(1) kind update(3,4) [unfolded Inl]] w1 p
        written [OF update(1) same] refused
      show thesis by (auto simp: written_def)
    qed
  qed
qed

lemma delete_cases:
  assumes "invar w" and "kindForResource resource = Inr kind" and "reqMethod request = MethodDelete"
    and "queryResourceVersion request = Inr rv" and "rv \<noteq> 0"
    and "server_object etcd request resource kind name w = (resp, w')"
  obtains (refused) "refused resp" "objs w' = objs w"
        "respStatus resp = Some 404 \<Longrightarrow> \<forall>old. objs w kind name \<noteq> Some (old, rv)"
    | (deleted) old where "objs w kind name = Some (old, rv)"
        "agree_on_plain (objs w') (put_object kind name None (objs w))"
        "resp = \<lparr>respStatus = Some 204, contentType = [], respBody = []\<rparr> \<or>
          refused resp \<and> respStatus resp \<noteq> Some 404"
proof -
  have kind: "plain kind" using kindForResource_known [OF assms(2)] newResource_plain by blast
  from assms(3,4,6) obtain res where d: "etcdDelete etcd kind name rv w = (res, w')"
    and resp: "resp = (case res of Inl err \<Rightarrow> writeStoreError err
      | Inr _ \<Rightarrow> \<lparr>respStatus = Some 204, contentType = [], respBody = []\<rparr>)"
    by (auto simp: server_object_def method_defs split: prod.splits sum.splits)
  show thesis
  proof (cases res)
    case (Inr u)
    from delete_ok [OF assms(1) kind d [unfolded Inr]] assms(5) resp Inr deleted show thesis by auto
  next
    case (Inl e)
    have missing: "errors_Is e ErrNotFound" if "respStatus resp = Some 404"
      using that resp Inl by (auto simp: writeStoreError_def writeError_def writeJSON_def split: if_splits)
    show thesis
    proof (cases "sentinel e")
      case True
      from delete_not_found [OF assms(1) kind d [unfolded Inl] True] resp Inl show thesis
        by (intro refused) auto
    next
      case False
      with missing have "respStatus resp \<noteq> Some 404" by (auto simp: sentinel_def)
      with delete_error [OF assms(1) kind d [unfolded Inl]] assms(5) resp Inl deleted refused
      show thesis by auto
    qed
  qed
qed

text \<open>A GET, a watch included, leaves the objects alone.\<close>

lemma get_keeps_objects:
  assumes "invar w" and "reqMethod request = MethodGet" and "serveHTTP etcd request w = (resp, w')"
  shows "invar w' \<and> objs w' = objs w"
proof -
  have plain: "plain kind" if "kindForResource resource = Inr kind" for resource kind
    using kindForResource_known [OF that] newResource_plain by blast
  have watch: "invar w' \<and> objs w' = objs w" if "server_watch etcd request resource w = (resp, w')" for resource
    using that assms(1) plain
    by (auto simp: server_watch_def split: sum.splits if_splits prod.splits dest: watch_frame)
  have collection: "invar w' \<and> objs w' = objs w"
    if "server_collection etcd request resource kind w = (resp, w')" "plain kind" for resource kind
    using that assms(1,2)
    by (auto simp: server_collection_def split: sum.splits prod.splits dest: list_frame)
  have object: "invar w' \<and> objs w' = objs w"
    if "server_object etcd request resource kind name w = (resp, w')" "plain kind" for resource kind name
    using that assms(1,2)
    by (auto simp: server_object_def split: sum.splits prod.splits option.splits dest: get_frame)
  from assms(3) show ?thesis
    using assms(1) plain watch collection object
    unfolding serveHTTP_def Let_def by (auto split: if_splits sum.splits)
qed

lemma step_objects_ok:
  "api_step (a, n) (a', n') \<Longrightarrow> objects_ok a \<Longrightarrow> objects_ok a'"
  by (erule api_stepE) (auto intro: objects_ok_put objects_ok_delete)

end

section \<open>The version in a query\<close>

lemma Itoa_chars: "c \<in> set (strconv_Itoa i) \<Longrightarrow> is_digit c \<or> c = CHR ''-''"
  by (auto simp: strconv_Itoa_def show_nat_digits split: if_splits)

lemma Itoa_clean:
  assumes "c \<in> set (strconv_Itoa i)"
  shows "c \<noteq> CHR ''&'' \<and> c \<noteq> CHR '';'' \<and> c \<noteq> CHR ''%'' \<and> c \<noteq> CHR ''+'' \<and> c \<noteq> CHR ''#'' \<and>
    \<not> is_control c"
  using Itoa_chars [OF assms] by (auto simp: is_digit_def is_control_def Let_def)

lemma QueryUnescape_plain: "CHR ''%'' \<notin> set s \<Longrightarrow> CHR ''+'' \<notin> set s \<Longrightarrow> url_QueryUnescape s = Some s"
  by (induction s) auto

lemma url_Query_version:
  "url_Query (''resourceVersion='' @ strconv_Itoa i) = [(''resourceVersion'', strconv_Itoa i)]"
proof -
  have clean: "x \<notin> set (strconv_Itoa i)"
    if "x = CHR ''&'' \<or> x = CHR '';'' \<or> x = CHR ''%'' \<or> x = CHR ''+''" for x
    using Itoa_clean [of x i] that by blast
  have split: "strings_Split (''resourceVersion='' @ strconv_Itoa i) (CHR ''&'') =
      [''resourceVersion='' @ strconv_Itoa i]"
    using clean by (intro strings_Split_no_sep) simp
  have "query_pair (''resourceVersion='' @ strconv_Itoa i) = [(''resourceVersion'', strconv_Itoa i)]"
    using clean by (simp add: query_pair_def Let_def QueryUnescape_plain)
  then show ?thesis unfolding url_Query_def split by simp
qed

lemma Itoa_nonempty [simp]: "strconv_Itoa i \<noteq> []"
  by (simp add: strconv_Itoa_def)

lemma queryResourceVersion_Itoa:
  assumes "in_int64 i" and "rawQuery request = ''resourceVersion='' @ strconv_Itoa i"
  shows "if i < 1 then isl (queryResourceVersion request) else queryResourceVersion request = Inr i"
proof -
  have sent: "query_Get (url_Query (rawQuery request)) ''resourceVersion'' = strconv_Itoa i"
    unfolding assms(2) url_Query_version by (simp add: query_Get_def)
  show ?thesis
  proof (cases "i < 0")
    case True
    then have "strconv_ParseInt (strconv_Itoa i) = None \<or> strconv_ParseInt (strconv_Itoa i) = Some i"
      by (simp add: strconv_ParseInt_def strconv_Itoa_def parse_nat_show_nat)
    with True show ?thesis by (auto simp: queryResourceVersion_def sent Let_def)
  next
    case False
    then show ?thesis
      using ParseInt_Itoa [of i] assms(1) by (auto simp: queryResourceVersion_def sent Let_def)
  qed
qed

section \<open>The stack keeps the promise\<close>

locale client_stack = typed_resource rc wrap kind + etcd_interface etcd objs revision invar
  for rc :: "'a ResourceClient" and wrap :: "'a \<Rightarrow> Resource" and kind :: string
    and etcd :: "'w Etcd" and objs :: "'w \<Rightarrow> objects" and revision :: "'w \<Rightarrow> int"
    and invar :: "'w \<Rightarrow> bool"

context client_stack begin

lemma ok_after:
  assumes "invar w" and "objects_ok (objs w)" and "serveHTTP etcd request w = (resp, w')"
  shows "invar w' \<and> objects_ok (objs w')"
  using serveHTTP_steps [OF assms(1,3)] step_objects_ok assms(2) by blast

lemma collection_path:
  assumes "serveHTTP etcd (api_request meth (CHR ''/'' # rcResource rc) [] body) w = (resp, w')"
  shows "server_collection etcd (api_request meth (CHR ''/'' # rcResource rc) [] body) (rcResource rc)
    kind w = (resp, w')"
  using assms serveHTTP_collection [OF kind_of, of _ etcd w] by (simp add: api_request_def)

lemma object_path:
  assumes "serveHTTP etcd (api_request meth (CHR ''/'' # rcResource rc @ CHR ''/'' # name) q body) w
      = (resp, w')"
    and "url_clean name"
  shows "server_object etcd (api_request meth (CHR ''/'' # rcResource rc @ CHR ''/'' # name) q body)
    (rcResource rc) kind name w = (resp, w')"
  using assms url_clean_plain [OF assms(2)] serveHTTP_object [OF kind_of, of name _ etcd w]
  by (simp add: api_request_def)

lemma clean_paths:
  "path_clean (rcResource rc)"
  "url_clean name \<Longrightarrow> path_clean (rcResource rc @ CHR ''/'' # name)"
  using url_clean_path clean by auto

lemma plain_kind: "plain kind"
  using newResource_plain [OF zero_kind] .

text \<open>An answer of the server, as the typed client reads it.\<close>

lemma read_answer:
  assumes "admitted kind name p" and "in_int64 v" and "status = 200 \<or> status = 201"
  obtains y where "answer (Some (codecDec rc)) (codecZero rc)
      (writeJSON status (json_Marshal (SetResourceVersion v p))) = Inr y"
    and "wrap y = norm_Resource (SetResourceVersion v p)"
proof -
  obtain x where x: "SetResourceVersion v p = wrap x"
    using wrap_of [of "SetResourceVersion v p"] assms(1) by (auto simp: admitted_def)
  have "valid_Resource (wrap x)"
    using valid_SetResourceVersion [of p v] assms(1,2) x by (simp add: admitted_def)
  then obtain y where y: "codecDec rc (codecEnc rc x) (codecZero rc) = Some y"
    "wrap y = norm_Resource (wrap x)"
    by (rule codec_roundtrip)
  have "answer (Some (codecDec rc)) (codecZero rc)
      (writeJSON status (json_Marshal (wrap x))) = Inr y"
    using y(1) assms(3) by (auto simp: marshal writeJSON_def http_of_def answer_def read_response_def decode_body_def)
  with that y(2) x show thesis by simp
qed

text \<open>What a write makes of the map of resources.\<close>

lemma written_view:
  assumes "written (objs w) kind name p v (objs w')"
  shows "read_view (objs w') =
    put_resource kind name (Some (norm_Resource (SetResourceVersion v p))) (read_view (objs w))"
proof -
  from assms obtain j where p: "admitted kind name p" "json_Marshal p = Inr j"
    and a: "agree_on_plain (objs w') (put_object kind name (Some (j, v)) (objs w))"
    by (auto simp: written_def)
  have "SetResourceVersion v (norm_Resource p) = norm_Resource (SetResourceVersion v p)" by simp
  with read_view_put [OF plain_kind a] admitted_decodes(1) [OF p] show ?thesis
    by (simp del: SetResourceVersion_norm)
qed

lemma deleted_view:
  "agree_on_plain (objs w') (put_object kind name None (objs w)) \<Longrightarrow>
    read_view (objs w') = put_resource kind name None (read_view (objs w))"
  using read_view_put [OF plain_kind] by fastforce

lemma stored_view:
  assumes "objects_ok (objs w)" and "objs w kind name = Some (j, v)"
  obtains x where "read_view (objs w) kind name = Some (wrap x)" "GetResourceVersion (wrap x) = v"
    and "GetName (wrap x) = name"
proof -
  obtain r where r: "admitted kind name r"
    and v: "read_view (objs w) kind name = Some (norm_Resource (SetResourceVersion v r))"
    using read_view_Some [OF assms(1) zero_kind assms(2)] by blast
  moreover obtain x where "norm_Resource (SetResourceVersion v r) = wrap x"
    using wrap_of [of "norm_Resource (SetResourceVersion v r)"] r by (auto simp: admitted_def)
  ultimately show thesis using that [of x] r
    by (metis (no_types, lifting) GetName_SetResourceVersion GetName_norm GetResourceVersion_Set
        GetResourceVersion_norm admitted_def)
qed

lemma valid_norm: "valid_Resource (wrap x) \<Longrightarrow> valid_Resource (norm_Resource (wrap x))"
proof -
  assume x: "valid_Resource (wrap x)"
  have "json_Unmarshal (codecEnc rc x) (zero_like (wrap x)) = Some (norm_Resource (wrap x))"
    using Resource_roundtrip [OF x marshal] .
  then show ?thesis using json_Unmarshal_valid by simp
qed

lemma view_named:
  assumes "invar w" and "objects_ok (objs w)" and "read_view (objs w) kind name = Some r"
  shows "GetName r = name \<and> name \<noteq> [] \<and> valid_Resource r \<and> (\<exists>x. r = wrap x)"
proof -
  obtain j v where j: "objs w kind name = Some (j, v)"
    using assms(3) by (auto simp: read_view_def split: option.splits)
  obtain r0 where r0: "admitted kind name r0" "r = norm_Resource (SetResourceVersion v r0)"
    using read_view_Some [OF assms(2) zero_kind j] assms(3) by auto
  obtain x where x: "SetResourceVersion v r0 = wrap x"
    using wrap_of [of "SetResourceVersion v r0"] r0(1) by (auto simp: admitted_def)
  have "in_int64 v"
    using version_ok [OF assms(1) plain_kind j] revision_ok [OF assms(1)]
    by (auto simp: in_int64_def int64_min_def)
  then have "valid_Resource (wrap x)"
    using valid_SetResourceVersion [of r0 v] r0(1) x by (simp add: admitted_def)
  from valid_norm [OF this] stored_view [OF assms(2) j] assms(3) r0 x show ?thesis
    by (metis admitted_def option.inject)
qed

lemma view_None: "objects_ok (objs w) \<Longrightarrow> read_view (objs w) kind name = None \<longleftrightarrow> objs w kind name = None"
  using read_view_dom [OF _ zero_kind, of "objs w"] by (metis domIff)

lemma written_stored_form:
  assumes "written (objs w) kind name p v (objs w')"
    and "kind \<noteq> ''Service'' \<Longrightarrow> p = norm_Resource x" and "name = GetName x"
  shows "\<exists>y. norm_Resource (SetResourceVersion v p) = wrap y \<and> stored_form kind x (wrap y)"
proof -
  have p: "admitted kind name p" using assms(1) by (simp add: written_def)
  then obtain y where y: "norm_Resource (SetResourceVersion v p) = wrap y"
    using wrap_of [of "norm_Resource (SetResourceVersion v p)"] by (auto simp: admitted_def)
  have "GetResourceVersion (wrap y) = v" "GetName (wrap y) = name"
    using p unfolding y [symmetric] by (simp_all add: admitted_def)
  with y assms(2,3) show ?thesis
    by (auto simp: stored_form_def simp flip: SetResourceVersion_norm)
qed

abbreviation api :: "'w Client" where "api \<equiv> api_client etcd"
abbreviation view_of :: "'w \<Rightarrow> resources" where "view_of w \<equiv> read_view (objs w)"

lemma request_runs:
  assumes "path_clean p" and "q = [] \<or> (\<exists>s. q = CHR ''?'' # s)" and "query_clean q"
    and "client_request api meth (CHR ''/'' # p @ q) (map_option Inr body) output out w = (ans, w')"
  obtains resp where "serveHTTP etcd (api_request meth (CHR ''/'' # p) (drop 1 q) body) w = (resp, w')"
    and "ans = answer output out resp"
proof -
  obtain resp w1 where run: "serveHTTP etcd (api_request meth (CHR ''/'' # p) (drop 1 q) body) w = (resp, w1)"
    by fastforce
  have "client_request api meth (CHR ''/'' # p @ q) (map_option Inr body) output out w =
      (answer output out resp, w1)"
    by (rule client_request_run [OF assms(1-3) run refl])
  with assms(4) run that show thesis by simp
qed

lemma request_runs_path:
  assumes "path_clean p"
    and "client_request api meth (CHR ''/'' # p) (map_option Inr body) output out w = (ans, w')"
  obtains resp where "serveHTTP etcd (api_request meth (CHR ''/'' # p) [] body) w = (resp, w')"
    and "ans = answer output out resp"
proof -
  have "client_request api meth (CHR ''/'' # p @ []) (map_option Inr body) output out w = (ans, w')"
    using assms(2) by simp
  then show thesis
  proof (rule request_runs [OF assms(1) disjI1 [OF refl], rotated])
    fix resp
    assume "serveHTTP etcd (api_request meth (CHR ''/'' # p) (drop 1 []) body) w = (resp, w')"
      and "ans = answer output out resp"
    then show thesis using that by simp
  qed (simp add: query_clean_def)
qed

lemma create_effect:
  assumes "invar w" and "objects_ok (objs w)" and "valid_Resource (wrap x)"
    and "ResourceClient_Create api rc x w = (ans, w')"
  shows "invar w' \<and> objects_ok (objs w') \<and>
    (isl ans \<and> view_of w' = view_of w \<or>
     view_of w kind (GetName (wrap x)) = None \<and>
     (\<exists>y. stored_form kind (wrap x) (wrap y) \<and> (\<forall>z. ans = Inr z \<longrightarrow> z = y) \<and>
       view_of w' = put_resource kind (GetName (wrap x)) (Some (wrap y)) (view_of w)))"
proof -
  let ?request = "api_request MethodPost (CHR ''/'' # rcResource rc) [] (Some (codecEnc rc x))"
  have "client_request api MethodPost (CHR ''/'' # rcResource rc) (map_option Inr (Some (codecEnc rc x)))
      (Some (codecDec rc)) (codecZero rc) w = (ans, w')"
    using assms(4) by (simp add: ResourceClient_Create_def)
  from request_runs_path [OF clean_paths(1) this] obtain resp
    where run: "serveHTTP etcd ?request w = (resp, w')"
      and ans: "ans = answer (Some (codecDec rc)) (codecZero rc) resp"
    by blast
  note after = ok_after [OF assms(1,2) run]
  have post: "reqMethod ?request = MethodPost" by (simp add: api_request_def)
  show ?thesis
  proof (rule post_cases [OF assms(1) kind_of post collection_path [OF run]])
    assume "refused resp" and "objs w' = objs w"
    with after refused_Inl ans show ?thesis by (metis isl_def)
  next
    fix r name p
    assume d: "decodeResource (rcResource rc) (reqBody ?request) = Inr (r, name)"
      and pr: "kind \<noteq> ''Service'' \<Longrightarrow> p = r" and none: "objs w kind name = None"
      and wr: "written (objs w) kind name p (revision w') (objs w')"
      and resp: "resp = writeJSON 201 (json_Marshal (SetResourceVersion (revision w') p)) \<or> refused resp"
    from decode_written [OF assms(3)] d have r: "r = norm_Resource (wrap x)" "name = GetName (wrap x)"
      by (auto simp: api_request_def)
    from written_stored_form [OF wr, of "wrap x"] pr r obtain y
      where y: "norm_Resource (SetResourceVersion (revision w') p) = wrap y"
        "stored_form kind (wrap x) (wrap y)"
      by auto
    have "z = y" if "ans = Inr z" for z
    proof -
      have "resp = writeJSON 201 (json_Marshal (SetResourceVersion (revision w') p))"
        using resp refused_Inl that ans by (metis Inr_not_Inl)
      moreover have "admitted kind name p" using wr by (simp add: written_def)
      ultimately show ?thesis
        using read_answer [of name p "revision w'" 201] revision_ok after ans that y(1) wrap_inject
        by (metis Inr_inject)
    qed
    with y written_view [OF wr] view_None [OF assms(2)] none r(2) after show ?thesis by metis
  qed
qed

lemma update_effect:
  assumes "invar w" and "objects_ok (objs w)" and "valid_Resource (wrap x)" and "url_clean name"
    and "ResourceClient_Update api rc name x w = (ans, w')"
  shows "invar w' \<and> objects_ok (objs w') \<and>
    (isl ans \<and> view_of w' = view_of w \<or>
     GetName (wrap x) = name \<and>
     (\<exists>old. view_of w kind name = Some (wrap old) \<and>
       GetResourceVersion (wrap old) = GetResourceVersion (wrap x)) \<and>
     (\<exists>y. stored_form kind (wrap x) (wrap y) \<and> (\<forall>z. ans = Inr z \<longrightarrow> z = y) \<and>
       view_of w' = put_resource kind name (Some (wrap y)) (view_of w)))"
proof -
  let ?request = "api_request MethodPut (CHR ''/'' # rcResource rc @ CHR ''/'' # name) []
    (Some (codecEnc rc x))"
  have "client_request api MethodPut (CHR ''/'' # rcResource rc @ CHR ''/'' # name) (map_option Inr (Some (codecEnc rc x)))
      (Some (codecDec rc)) (codecZero rc) w = (ans, w')"
    using assms(5) by (simp add: ResourceClient_Update_def)
  from request_runs_path [OF clean_paths(2) [OF assms(4)] this] obtain resp
    where run: "serveHTTP etcd ?request w = (resp, w')"
      and ans: "ans = answer (Some (codecDec rc)) (codecZero rc) resp"
    by blast
  note after = ok_after [OF assms(1,2) run]
  have put: "reqMethod ?request = MethodPut" by (simp add: api_request_def)
  show ?thesis
  proof (rule put_cases [OF assms(1) kind_of put object_path [OF run assms(4)]])
    assume "refused resp" and "objs w' = objs w"
    with after refused_Inl ans show ?thesis by (metis isl_def)
  next
    fix r p old
    assume d: "decodeResource (rcResource rc) (reqBody ?request) = Inr (r, name)"
      and pr: "kind \<noteq> ''Service'' \<Longrightarrow> p = r"
      and old: "objs w kind name = Some (old, GetResourceVersion r)"
      and wr: "written (objs w) kind name p (revision w') (objs w')"
      and resp: "resp = writeJSON 200 (json_Marshal (SetResourceVersion (revision w') p)) \<or> refused resp"
    from decode_written [OF assms(3)] d have r: "r = norm_Resource (wrap x)" "name = GetName (wrap x)"
      by (auto simp: api_request_def)
    from written_stored_form [OF wr, of "wrap x"] pr r obtain y
      where y: "norm_Resource (SetResourceVersion (revision w') p) = wrap y"
        "stored_form kind (wrap x) (wrap y)"
      by auto
    have "z = y" if "ans = Inr z" for z
    proof -
      have "resp = writeJSON 200 (json_Marshal (SetResourceVersion (revision w') p))"
        using resp refused_Inl that ans by (metis Inr_not_Inl)
      moreover have "admitted kind name p" using wr by (simp add: written_def)
      ultimately show ?thesis
        using read_answer [of name p "revision w'" 200] revision_ok after ans that y(1) wrap_inject
        by (metis Inr_inject)
    qed
    moreover obtain before where "view_of w kind name = Some (wrap before)"
      "GetResourceVersion (wrap before) = GetResourceVersion (wrap x)"
      using stored_view [OF assms(2) old] r(1) by auto
    ultimately show ?thesis using y written_view [OF wr] r(2) after by metis
  qed
qed

lemma get_effect:
  assumes "invar w" and "objects_ok (objs w)" and "url_clean name"
    and "ResourceClient_Get api rc name w = (ans, w')"
  shows "invar w' \<and> objects_ok (objs w') \<and> view_of w' = view_of w \<and>
    (case ans of Inr x \<Rightarrow> view_of w kind name = Some (wrap x)
     | Inl e \<Rightarrow> IsNotFound e \<longrightarrow> view_of w kind name = None)"
proof -
  let ?request = "api_request MethodGet (CHR ''/'' # rcResource rc @ CHR ''/'' # name) [] None"
  have "client_request api MethodGet (CHR ''/'' # rcResource rc @ CHR ''/'' # name) (map_option Inr (None))
      (Some (codecDec rc)) (codecZero rc) w = (ans, w')"
    using assms(4) by (simp add: ResourceClient_Get_def)
  from request_runs_path [OF clean_paths(2) [OF assms(3)] this] obtain resp
    where run: "serveHTTP etcd ?request w = (resp, w')"
      and ans: "ans = answer (Some (codecDec rc)) (codecZero rc) resp"
    by blast
  note after = ok_after [OF assms(1,2) run]
  from object_path [OF run assms(3)] obtain res where
    g: "etcdGet etcd kind name (wrap (codecZero rc)) w = (res, w')"
    and resp: "resp = (case res of Inl err \<Rightarrow> writeStoreError err
      | Inr (found, version) \<Rightarrow> writeJSON 200 (json_Marshal (SetResourceVersion version found)))"
    by (auto simp: server_object_def api_request_def zero_kind split: prod.splits sum.splits)
  have same: "objs w' = objs w" using get_frame [OF assms(1) plain_kind g] by simp
  show ?thesis
  proof (cases res)
    case (Inl e)
    have "errors_Is e ErrNotFound \<Longrightarrow> view_of w kind name = None"
      using get_not_found [OF assms(1) plain_kind g [unfolded Inl]] view_None [OF assms(2)]
      by (simp add: sentinel_def)
    moreover have "\<exists>e'. ans = Inl e' \<and> (IsNotFound e' \<longrightarrow> errors_Is e ErrNotFound)"
      using resp Inl ans
      by (auto simp: writeStoreError_def writeError_def writeJSON_def http_of_def answer_def read_response_def
          decode_body_def IsNotFound_def json_error_def split: option.splits)
    ultimately show ?thesis using same after by auto
  next
    case (Inr rv)
    obtain found v where rv: "rv = (found, v)" by (cases rv)
    from get_ok [OF assms(1) plain_kind g [unfolded Inr rv]] obtain j
      where j: "objs w kind name = Some (j, v)"
        and u: "json_Unmarshal j (wrap (codecZero rc)) = Some found" by blast
    have new: "unmarshal_new kind j = Some found" using u by (simp add: unmarshal_new_def zero_kind)
    with objects_okD [OF assms(2) zero_kind j] have adm: "admitted kind name found" by simp
    have "in_int64 v"
      using version_ok [OF assms(1) plain_kind j] revision_ok [OF assms(1)]
      by (auto simp: in_int64_def int64_min_def)
    from read_answer [OF adm this, of 200] resp Inr rv ans obtain x
      where "ans = Inr x" "wrap x = norm_Resource (SetResourceVersion v found)"
      by auto
    with new j same after show ?thesis by (simp add: read_view_def)
  qed
qed

lemma delete_effect:
  assumes "invar w" and "objects_ok (objs w)" and "url_clean name" and "in_int64 rv"
    and "ResourceClient_Delete api rc name rv w = (ans, w')"
  shows "invar w' \<and> objects_ok (objs w') \<and>
    (isl ans \<and> view_of w' = view_of w \<or>
     (\<exists>old. view_of w kind name = Some (wrap old) \<and> GetResourceVersion (wrap old) = rv) \<and>
     view_of w' = put_resource kind name None (view_of w)) \<and>
    (\<forall>e old. ans = Inl e \<longrightarrow> IsNotFound e \<longrightarrow> view_of w kind name = Some (wrap old) \<longrightarrow>
      GetResourceVersion (wrap old) \<noteq> rv)"
proof -
  let ?query = "''resourceVersion='' @ strconv_Itoa rv"
  let ?request = "api_request MethodDelete (CHR ''/'' # rcResource rc @ CHR ''/'' # name) ?query None"
  have "query_clean (CHR ''?'' # ?query)"
    using Itoa_clean [of _ rv] by (auto simp: query_clean_def list_all_iff is_control_def)
  moreover have "client_request api MethodDelete
      (CHR ''/'' # (rcResource rc @ CHR ''/'' # name) @ CHR ''?'' # ?query) (map_option Inr None) None () w
      = (ans, w')"
    using assms(5) by (simp add: ResourceClient_Delete_def)
  ultimately obtain resp where run: "serveHTTP etcd ?request w = (resp, w')"
    and ans: "ans = answer None () resp"
  proof (rule request_runs [OF clean_paths(2) [OF assms(3)] disjI2, rotated])
    fix resp
    assume "serveHTTP etcd (api_request MethodDelete (CHR ''/'' # rcResource rc @ CHR ''/'' # name)
        (drop 1 (CHR ''?'' # ?query)) None) w = (resp, w')"
      and "ans = answer None () resp"
    then show thesis using that by (simp only: drop_Suc_Cons One_nat_def drop_0)
  qed blast
  note after = ok_after [OF assms(1,2) run]
  have status: "respStatus resp = Some 404" if "ans = Inl e" "IsNotFound e" for e
    using that ans by (auto simp: answer_def read_response_def http_of_def IsNotFound_def decode_body_def
        json_error_def split: option.splits if_splits list.splits)
  have viewed: "\<exists>j. objs w kind name = Some (j, GetResourceVersion (wrap old))"
    if "view_of w kind name = Some (wrap old)" for old
    using that by (auto simp: read_view_def dest!: sym [of _ "wrap old"] split: option.splits)
  have refused: ?thesis if "refused resp" "objs w' = objs w"
    "respStatus resp = Some 404 \<Longrightarrow> \<forall>old. objs w kind name \<noteq> Some (old, rv)"
  proof -
    have "isl ans"
      using that(1) ans by (auto simp: refused_def answer_def read_response_def http_of_def split: option.splits)
    moreover have "GetResourceVersion (wrap old) \<noteq> rv"
      if "ans = Inl e" "IsNotFound e" "view_of w kind name = Some (wrap old)" for e old
      using \<open>respStatus resp = Some 404 \<Longrightarrow> _\<close> [OF status [OF that(1,2)]] viewed [OF that(3)] by metis
    ultimately show ?thesis using after that(2) by simp
  qed
  have del: "reqMethod ?request = MethodDelete" "rawQuery ?request = ?query"
    by (simp_all add: api_request_def)
  note query = queryResourceVersion_Itoa [OF assms(4) del(2)]
  show ?thesis
  proof (cases "rv < 1")
    case True
    then obtain e where "queryResourceVersion ?request = Inl e"
      using query by (auto simp: isl_def)
    with object_path [OF run assms(3)] del(1) have "resp = writeError 400 (err_Error e) \<and> w' = w"
      by (auto simp: server_object_def method_defs)
    then have "refused resp" "respStatus resp \<noteq> Some 404" "w' = w"
      by (simp_all add: refused_def writeError_def writeJSON_def)
    with refused show ?thesis by blast
  next
    case False
    with query have q: "queryResourceVersion ?request = Inr rv" by simp
    show ?thesis
    proof (rule delete_cases [OF assms(1) kind_of del(1) q _ object_path [OF run assms(3)]])
      show "rv \<noteq> 0" using False by simp
    next
      assume "refused resp" and "objs w' = objs w"
        and "respStatus resp = Some 404 \<Longrightarrow> \<forall>old. objs w kind name \<noteq> Some (old, rv)"
      then show ?thesis by (rule refused)
    next
      fix old
      assume old: "objs w kind name = Some (old, rv)"
        and a: "agree_on_plain (objs w') (put_object kind name None (objs w))"
        and resp: "resp = \<lparr>respStatus = Some 204, contentType = [], respBody = []\<rparr> \<or>
          refused resp \<and> respStatus resp \<noteq> Some 404"
      then have "respStatus resp \<noteq> Some 404" by auto
      with status have "\<not> IsNotFound e" if "ans = Inl e" for e using that by blast
      with stored_view [OF assms(2) old] deleted_view [OF a] after show ?thesis by metis
    qed
  qed
qed

lemma watch_effect:
  assumes "invar w" and "objects_ok (objs w)" and "ResourceClient_Watch api rc rv w = (events, w')"
  shows "invar w' \<and> objects_ok (objs w') \<and> view_of w' = view_of w"
proof (cases "http_NewRequest api MethodGet (''/watch/'' @ rcResource rc @ ''?resourceVersion='' @ strconv_Itoa rv) None")
  case (Inl e)
  with assms show ?thesis by (simp add: ResourceClient_Watch_def failing_def)
next
  case (Inr r)
  obtain origin request where r: "r = (origin, request)" by (cases r)
  with Inr have get: "reqMethod request = MethodGet"
    by (auto simp: http_NewRequest_def split: option.splits)
  obtain resp w1 where run: "serveHTTP etcd request w = (resp, w1)" by fastforce
  from assms(3) Inr r HTTP_run [OF run, of origin] have "w' = w1"
    by (auto simp: ResourceClient_Watch_def andThen_def wrapping_def returning_def failing_def
        split: sum.splits if_splits)
  with get_keeps_objects [OF assms(1) get run] assms(2) show ?thesis by simp
qed

text \<open>A listing, through the server and back.\<close>

lemma decodeList_listing:
  assumes "objects_ok a" and "set names \<subseteq> dom (a kind)"
  shows "\<exists>xs. decodeList kind (listing (a kind) names) = Inr (map wrap xs) \<and>
    map (\<lambda>x. Some (norm_Resource (wrap x))) xs = map (read_view a kind) names \<and>
    (\<forall>x\<in>set xs. \<exists>n\<in>set names. \<exists>j v r. a kind n = Some (j, v) \<and> valid_Resource r \<and>
      wrap x = SetResourceVersion v r)"
  using assms(2)
proof (induction names)
  case Nil
  then show ?case by (simp add: listing_def)
next
  case (Cons n names)
  then obtain j v where j: "a kind n = Some (j, v)" by auto
  obtain r where r: "unmarshal_new kind j = Some r" "admitted kind n r"
    "read_view a kind n = Some (norm_Resource (SetResourceVersion v r))"
    using read_view_Some [OF assms(1) zero_kind j] by blast
  obtain x where x: "SetResourceVersion v r = wrap x"
    using wrap_of [of "SetResourceVersion v r"] r(2) by (auto simp: admitted_def)
  from Cons obtain xs where "decodeList kind (listing (a kind) names) = Inr (map wrap xs)"
    "map (\<lambda>x. Some (norm_Resource (wrap x))) xs = map (read_view a kind) names"
    "\<forall>x\<in>set xs. \<exists>n\<in>set names. \<exists>j v r. a kind n = Some (j, v) \<and> valid_Resource r \<and>
      wrap x = SetResourceVersion v r"
    by auto
  with j r x show ?case
    by (intro exI [of _ "x # xs"]) (auto simp: listing_def admitted_def)
qed

lemma list_response:
  assumes "in_int64 v" and "\<And>x. x \<in> set xs \<Longrightarrow> valid_Resource (wrap x)"
  obtains ys where "answer (Some (dec_ResourceList rc)) zero_ResourceList
      (writeJSON 200 (Inr (enc_resourceList v (map wrap xs))))
      = Inr \<lparr>listVersion = v, Items = Some ys\<rparr>"
    and "map wrap ys = map (\<lambda>x. norm_Resource (wrap x)) xs"
proof -
  define f where "f x = the (codecDec rc (codecEnc rc x) (codecZero rc))" for x
  have f: "codecDec rc (codecEnc rc x) (codecZero rc) = Some (f x) \<and> wrap (f x) = norm_Resource (wrap x)"
    if "x \<in> set xs" for x
    using codec_roundtrip [OF assms(2) [OF that]] by (metis f_def option.sel)
  have "concat (map (\<lambda>r. case json_Marshal r of Inl _ \<Rightarrow> [] | Inr j \<Rightarrow> [j]) (map wrap xs)) =
      map (codecEnc rc) xs"
    by (induction xs) (simp_all add: marshal)
  moreover have "dec_list (codecDec rc) (codecZero rc) (map (codecEnc rc) xs) = Some (map f xs)"
    using f by (intro dec_list_map) blast
  ultimately have "dec_ResourceList rc (enc_resourceList v (map wrap xs)) zero_ResourceList =
      Some \<lparr>listVersion = v, Items = Some (map f xs)\<rparr>"
    using assms(1)
    by (simp add: dec_ResourceList_def enc_resourceList_def zero_ResourceList_def codec_simps
        dec_slice_def del: map_map)
  then show thesis
    using f by (intro that [of "map f xs"])
      (auto simp: writeJSON_def http_of_def answer_def read_response_def decode_body_def)
qed

lemma list_effect:
  assumes "invar w" and "objects_ok (objs w)" and "ResourceClient_List api rc w = (ans, w')"
  shows "invar w' \<and> objects_ok (objs w') \<and> view_of w' = view_of w \<and>
    (case ans of
       Inl e \<Rightarrow> True
     | Inr l \<Rightarrow> listVersion l = revision w \<and>
         (\<exists>names. sorted_wrt (<) names \<and> set names = dom (view_of w kind) \<and>
           map (\<lambda>x. Some (wrap x)) (elems (Items l)) = map (view_of w kind) names))"
proof -
  let ?request = "api_request MethodGet (CHR ''/'' # rcResource rc) [] None"
  have "client_request api MethodGet (CHR ''/'' # rcResource rc) (map_option Inr None)
      (Some (dec_ResourceList rc)) zero_ResourceList w = (ans, w')"
    using assms(3) by (simp add: ResourceClient_List_def)
  from request_runs_path [OF clean_paths(1) this] obtain resp
    where run: "serveHTTP etcd ?request w = (resp, w')"
      and ans: "ans = answer (Some (dec_ResourceList rc)) zero_ResourceList resp"
    by blast
  note after = ok_after [OF assms(1,2) run]
  from collection_path [OF run] obtain res where
    g: "etcdList etcd kind w = (res, w')"
    and resp: "resp = (case res of Inl err \<Rightarrow> writeStoreError err
      | Inr (entries, version) \<Rightarrow> (case decodeList kind entries of
          Inl err \<Rightarrow> writeError 500 (err_Error err)
        | Inr objects \<Rightarrow> writeJSON 200 (Inr (enc_resourceList version objects))))"
    by (auto simp: server_collection_def api_request_def split: prod.splits sum.splits)
  have same: "objs w' = objs w" using list_frame [OF assms(1) plain_kind g] by simp
  show ?thesis
  proof (cases res)
    case (Inl e)
    then have "refused resp" using resp by simp
    then obtain e' where "ans = Inl e'"
      using refused_Inl [of resp "dec_ResourceList rc" zero_ResourceList] ans by auto
    with same after show ?thesis by simp
  next
    case (Inr ev)
    obtain entries v where ev: "ev = (entries, v)" by (cases ev)
    from list_ok [OF assms(1) plain_kind g [unfolded Inr ev]] obtain names
      where v: "v = revision w" and l: "lists (objs w kind) names"
        and e: "entries = listing (objs w kind) names" by blast
    have "set names \<subseteq> dom (objs w kind)" using l by (simp add: lists_def)
    from decodeList_listing [OF assms(2) this] obtain xs
      where xs: "decodeList kind entries = Inr (map wrap xs)"
        "map (\<lambda>x. Some (norm_Resource (wrap x))) xs = map (view_of w kind) names"
      and wr: "\<forall>x\<in>set xs. \<exists>n\<in>set names. \<exists>j v r. objs w kind n = Some (j, v) \<and> valid_Resource r \<and>
        wrap x = SetResourceVersion v r"
      unfolding e by blast
    have "valid_Resource (wrap x)" if x: "x \<in> set xs" for x
    proof -
      from wr x obtain n j v r where r: "objs w kind n = Some (j, v)" "valid_Resource r"
        "wrap x = SetResourceVersion v r" by blast
      have "in_int64 v"
        using version_ok [OF assms(1) plain_kind r(1)] revision_ok [OF assms(1)]
        by (auto simp: in_int64_def int64_min_def)
      with r show ?thesis using valid_SetResourceVersion by simp
    qed
    moreover have "in_int64 v" using revision_ok [OF assms(1)] v by simp
    ultimately obtain ys where ys: "ans = Inr \<lparr>listVersion = v, Items = Some ys\<rparr>"
      "map wrap ys = map (\<lambda>x. norm_Resource (wrap x)) xs"
      using list_response [of v xs] ans resp Inr ev xs(1) by auto
    have "map (\<lambda>x. Some (wrap x)) ys = map Some (map wrap ys)" by simp
    also have "\<dots> = map (view_of w kind) names" unfolding ys(2) using xs(2) by (simp add: comp_def)
    finally have "map (\<lambda>x. Some (wrap x)) ys = map (view_of w kind) names" .
    with ys(1) v same after l read_view_dom [OF assms(2) zero_kind] show ?thesis
      by (auto simp: lists_def)
  qed
qed

end

sublocale client_stack \<subseteq> typed: typed_api "api_client etcd" rc wrap kind "\<lambda>w. read_view (objs w)"
  "\<lambda>w. invar w \<and> objects_ok (objs w)"
proof (unfold_locales, goal_cases)
  case 1 then show ?case using view_named by blast
next
  case (2 w l w')
  with list_effect [of w "Inr l" w'] show ?case by simp
next
  case (3 w e w')
  with list_effect [of w "Inl e" w'] show ?case by simp
next
  case (4 w x y w')
  with create_effect [of w x "Inr y" w'] show ?case by auto
next
  case (5 w x e w')
  with create_effect [of w x "Inl e" w'] show ?case by auto
next
  case (6 w x name y w')
  with update_effect [of w x name "Inr y" w'] show ?case by auto
next
  case (7 w x name e w')
  with update_effect [of w x name "Inl e" w'] show ?case by auto
next
  case (8 w name rv w')
  with delete_effect [of w name rv "Inr ()" w'] show ?case by auto
next
  case (9 w name rv e w')
  with delete_effect [of w name rv "Inl e" w'] show ?case by auto
next
  case (10 w name rv e w' old)
  with delete_effect [of w name rv "Inl e" w'] show ?case by blast
next
  case (11 w name x w')
  with get_effect [of w name "Inr x" w'] show ?case by simp
next
  case (12 w name e w')
  with get_effect [of w name "Inl e" w'] show ?case by simp
next
  case (13 w rv events w')
  with watch_effect show ?case by blast
qed

section \<open>All resource types together\<close>

locale cluster_api =
  nodes: typed_api client Nodes RNode "''Node''" res ok +
  pods: typed_api client Pods RPod "''Pod''" res ok +
  deployments: typed_api client Deployments RDeployment "''Deployment''" res ok +
  replicaSets: typed_api client ReplicaSets RReplicaSet "''ReplicaSet''" res ok +
  services: typed_api client Services RService "''Service''" res ok
  for client :: "'w Client" and res :: "'w \<Rightarrow> resources" and ok :: "'w \<Rightarrow> bool"

sublocale etcd_server \<subseteq> node_stack: client_stack Nodes RNode "''Node''" "NewEtcdClient client"
  "\<lambda>w. objects_of (kvs w)" revision invar
  by unfold_locales

sublocale etcd_server \<subseteq> pod_stack: client_stack Pods RPod "''Pod''" "NewEtcdClient client"
  "\<lambda>w. objects_of (kvs w)" revision invar
  by unfold_locales

sublocale etcd_server \<subseteq> deployment_stack: client_stack Deployments RDeployment "''Deployment''"
  "NewEtcdClient client" "\<lambda>w. objects_of (kvs w)" revision invar
  by unfold_locales

sublocale etcd_server \<subseteq> replicaSet_stack: client_stack ReplicaSets RReplicaSet "''ReplicaSet''"
  "NewEtcdClient client" "\<lambda>w. objects_of (kvs w)" revision invar
  by unfold_locales

sublocale etcd_server \<subseteq> service_stack: client_stack Services RService "''Service''"
  "NewEtcdClient client" "\<lambda>w. objects_of (kvs w)" revision invar
  by unfold_locales

sublocale etcd_server \<subseteq> cluster: cluster_api "api_client (NewEtcdClient client)"
  "\<lambda>w. read_view (objects_of (kvs w))" "\<lambda>w. invar w \<and> objects_ok (objects_of (kvs w))"
  by unfold_locales

context etcd_server begin

lemma server_cluster_api:
  "cluster_api (api_client (NewEtcdClient client)) (\<lambda>w. read_view (objects_of (kvs w)))
    (\<lambda>w. invar w \<and> objects_ok (objects_of (kvs w)))"
  by (rule cluster.cluster_api_axioms)

end

lemmas etcd_server_cluster_api = etcd_server.server_cluster_api

interpretation mem_cluster: cluster_api "api_client (NewEtcdClient mem_client)"
  "\<lambda>w. read_view (objects_of (mem_kvs w))" "\<lambda>w. mem_invar w \<and> objects_ok (objects_of (mem_kvs w))"
  by (rule etcd_server_cluster_api [OF mem_etcd_server])

end
