(* ===== verification/ExampleCluster.thy ===== *)
theory ExampleCluster
  imports ClientStack
begin

text \<open>
  A cluster on the server in memory, on which the theorems about the components that call the API
  are instantiated: resources are created through the typed clients of \<open>ApiClient\<close>. It models no
  code of the repository.
\<close>

abbreviation mem_api :: "mem_etcd Client" where
  "mem_api \<equiv> api_client (NewEtcdClient mem_client)"

abbreviation mem_res :: "mem_etcd \<Rightarrow> resources" where
  "mem_res w \<equiv> read_view (objects_of (mem_kvs w))"

definition mem_ok :: "mem_etcd \<Rightarrow> bool" where
  "mem_ok w \<longleftrightarrow> mem_invar w \<and> objects_ok (objects_of (mem_kvs w))"

definition names_clean :: "mem_etcd \<Rightarrow> bool" where
  "names_clean w \<longleftrightarrow> (\<forall>kind name. mem_res w kind name \<noteq> None \<longrightarrow> url_clean name)"

context typed_api begin

lemma create_extends:
  assumes "ok w" and "valid_Resource (wrap x)"
  shows "ok (snd (ResourceClient_Create client rc x w))"
    and "res (snd (ResourceClient_Create client rc x w)) k n \<noteq> None \<Longrightarrow>
      res w k n \<noteq> None \<or> n = GetName (wrap x)"
proof -
  obtain ans w' where run: "ResourceClient_Create client rc x w = (ans, w')" by fastforce
  show "ok (snd (ResourceClient_Create client rc x w))"
    using create_ok [OF assms, of _ w'] create_error [OF assms, of _ w'] run by (cases ans) auto
  show "res w k n \<noteq> None \<or> n = GetName (wrap x)"
    if "res (snd (ResourceClient_Create client rc x w)) k n \<noteq> None"
    using create_ok [OF assms, of _ w'] create_error [OF assms, of _ w'] run that
    by (cases ans) (auto simp: put_resource_apply split: if_splits)
qed

end

lemma mem_cleanD:
  assumes "mem_ok w \<and> names_clean w"
  shows "mem_invar w" and "objects_ok (objects_of (mem_kvs w))"
    and "name \<in> dom (mem_res w kind) \<Longrightarrow> url_clean name"
  using assms by (auto simp: mem_ok_def names_clean_def)

lemma mem_empty_clean: "mem_ok mem_empty \<and> names_clean mem_empty"
  using api_store_ok_empty
  by (auto simp: mem_ok_def names_clean_def api_store_ok_def mem_invar_def mem_empty_def
      int64_max_def objects_of_def [abs_def] read_view_def)

definition mem_create :: "'a ResourceClient \<Rightarrow> 'a \<Rightarrow> mem_etcd \<Rightarrow> mem_etcd" where
  "mem_create rc x w = snd (ResourceClient_Create mem_api rc x w)"

lemma mem_create_clean:
  assumes "typed_api mem_api rc wrap kind mem_res (\<lambda>w. mem_invar w \<and> objects_ok (objects_of (mem_kvs w)))"
    and "mem_ok w \<and> names_clean w" and "valid_Resource (wrap x)" and "url_clean (GetName (wrap x))"
  shows "mem_ok (mem_create rc x w) \<and> names_clean (mem_create rc x w)"
proof -
  have w: "mem_invar w \<and> objects_ok (objects_of (mem_kvs w))" using assms(2) by (simp add: mem_ok_def)
  from typed_api.create_extends [OF assms(1) w assms(3)] assms(2,4) show ?thesis
    unfolding mem_create_def mem_ok_def names_clean_def by metis
qed

context cluster_api begin

lemma typed_clients:
  shows "typed_api client Nodes RNode ''Node'' res ok"
    and "typed_api client Pods RPod ''Pod'' res ok"
    and "typed_api client Deployments RDeployment ''Deployment'' res ok"
    and "typed_api client ReplicaSets RReplicaSet ''ReplicaSet'' res ok"
    and "typed_api client Services RService ''Service'' res ok"
  by (rule nodes.typed_api_axioms pods.typed_api_axioms deployments.typed_api_axioms
      replicaSets.typed_api_axioms services.typed_api_axioms)+

end

lemmas mem_typed_clients = cluster_api.typed_clients [OF etcd_server_cluster_api [OF mem_etcd_server]]

lemmas mem_create_node = mem_create_clean [OF mem_typed_clients(1)]
lemmas mem_create_pod = mem_create_clean [OF mem_typed_clients(2)]
lemmas mem_create_deployment = mem_create_clean [OF mem_typed_clients(3)]
lemmas mem_create_replicaSet = mem_create_clean [OF mem_typed_clients(4)]
lemmas mem_create_service = mem_create_clean [OF mem_typed_clients(5)]

definition named_meta :: "string \<Rightarrow> ObjectMeta" where
  "named_meta name = zero_ObjectMeta\<lparr>Name := name\<rparr>"

definition example_node :: "string \<Rightarrow> NodePhase \<Rightarrow> Node" where
  "example_node name phase = zero_Node\<lparr>nodeMeta := named_meta name, nodeStatus := \<lparr>nodePhase = phase\<rparr>\<rparr>"

definition example_pod :: "string \<Rightarrow> Pod" where
  "example_pod name = zero_Pod\<lparr>podMeta := named_meta name,
     podSpec := zero_PodSpec\<lparr>Containers := Some [zero_Container\<lparr>containerName := ''c''\<rparr>]\<rparr>\<rparr>"

end
