(* ===== verification/ReconcileLoop.thy ===== *)
theory ReconcileLoop
  imports Prelude
begin

text \<open>
  The loop every component runs its reconciliation in, \<^verbatim>\<open>api/reconcile.go\<close>: it opens a watch,
  reconciles, and waits for an event before it starts again. The loop is a step function on its
  control state and its two flags; what the watch, the reconciliation, the timer and the context
  answer is the input of a step, and a log line is its output.
\<close>

section \<open>The loop\<close>

text \<open>
  \<open>Opening\<close> and \<open>Reconciling\<close> are the calls of lines 22 and 37, \<open>Retrying\<close> is
  \<^verbatim>\<open>waitForRetry\<close>, \<open>Waiting\<close> the select of line 51.
\<close>

datatype loop_phase = Opening | Reconciling | Retrying | Waiting | Returned "goerror option"

record loop_state =
  phase :: loop_phase
  watchFailed :: bool
  reconcileFailed :: bool

text \<open>
  The channel of a watch answers an error, nil, or that it is closed; \<open>ContextDone\<close> carries
  \<^verbatim>\<open>ctx.Err()\<close>.
\<close>

datatype loop_answer =
    WatchOpened
  | WatchError goerror
  | Reconciled
  | ReconcileError goerror
  | TimerElapsed
  | EventReceived "goerror option"
  | WatchClosed
  | ContextDone goerror

definition loop_start :: loop_state where
  "loop_start = \<lparr>phase = Opening, watchFailed = False, reconcileFailed = False\<rparr>"

text \<open>The next state and the line it logs; \<open>None\<close> is an answer the phase does not take.\<close>

definition loop_step :: "loop_state \<Rightarrow> loop_answer \<Rightarrow> (loop_state \<times> string list) option" where
  "loop_step s answer =
     (case (phase s, answer) of
        (Opening, WatchError err) \<Rightarrow>
          Some (s\<lparr>phase := Retrying, watchFailed := True\<rparr>,
            if \<not> watchFailed s then [''open watch: '' @ err_Error err @ ''; retrying''] else [])
      | (Opening, WatchOpened) \<Rightarrow>
          Some (s\<lparr>phase := Reconciling, watchFailed := False\<rparr>,
            if watchFailed s then [''watch reconnected''] else [])
      | (Reconciling, ReconcileError err) \<Rightarrow>
          Some (s\<lparr>phase := Retrying, reconcileFailed := True\<rparr>,
            if \<not> reconcileFailed s then [''reconcile: '' @ err_Error err @ ''; retrying''] else [])
      | (Reconciling, Reconciled) \<Rightarrow>
          Some (s\<lparr>phase := Waiting, reconcileFailed := False\<rparr>,
            if reconcileFailed s then [''reconcile recovered''] else [])
      | (Retrying, TimerElapsed) \<Rightarrow> Some (s\<lparr>phase := Opening\<rparr>, [])
      | (Retrying, ContextDone err) \<Rightarrow> Some (s\<lparr>phase := Returned (Some err)\<rparr>, [])
      | (Waiting, EventReceived err) \<Rightarrow>
          Some (s\<lparr>phase := Opening\<rparr>,
            case err of None \<Rightarrow> [] | Some e \<Rightarrow> [''watch event: '' @ err_Error e @ ''; reconnecting''])
      | (Waiting, WatchClosed) \<Rightarrow> Some (s\<lparr>phase := Opening\<rparr>, [])
      | (Waiting, ContextDone err) \<Rightarrow> Some (s\<lparr>phase := Returned None\<rparr>, [])
      | _ \<Rightarrow> None)"

fun loop_run :: "loop_state \<Rightarrow> loop_answer list \<Rightarrow> (loop_state \<times> string list) option" where
  "loop_run s [] = Some (s, [])"
| "loop_run s (a # as) =
     (case loop_step s a of
        None \<Rightarrow> None
      | Some (s', out) \<Rightarrow> map_option (\<lambda>(s'', rest). (s'', out @ rest)) (loop_run s' as))"

section \<open>Combined watches\<close>

text \<open>
  The watches are opened in order, the first failure cancels those already open. The combined
  channel then delivers the first message of one of them, where a closed channel counts as nil:
  the result is the list of these messages, \<open>combined_event\<close> what may be delivered.
\<close>

definition first_event :: "goerror option list \<Rightarrow> goerror option" where
  "first_event events = (case events of [] \<Rightarrow> None | e # _ \<Rightarrow> e)"

fun CombineWatches :: "('w, goerror option list) operation list \<Rightarrow> ('w, goerror option list) operation" where
  "CombineWatches [] = returning []"
| "CombineWatches (watch # watches) =
     andThen watch (\<lambda>events. andThen (CombineWatches watches) (\<lambda>others.
       returning (first_event events # others)))"

definition combined_event :: "goerror option list \<Rightarrow> loop_answer \<Rightarrow> bool" where
  "combined_event messages answer \<longleftrightarrow> answer \<in> EventReceived ` set messages"

section \<open>The loop in a changing cluster\<close>

text \<open>
  \<open>version\<close> counts the changes of the watched resources. A watch notifies of every change after
  it was opened: \<open>notified\<close> says that a message waits in the channel of the open watch. \<open>seen\<close> is
  the version the last successful reconciliation read, or a later one.
\<close>

record cluster_loop =
  control :: loop_state
  version :: nat
  watching :: bool
  notified :: bool
  reading :: nat
  seen :: "nat option"

definition cluster_start :: cluster_loop where
  "cluster_start = \<lparr>control = loop_start, version = 0, watching = False, notified = False,
     reading = 0, seen = None\<rparr>"

inductive cluster_step :: "cluster_loop \<Rightarrow> cluster_loop \<Rightarrow> bool" where
  change: "cluster_step c (c\<lparr>version := version c + 1, notified := notified c \<or> watching c\<rparr>)"
| open_watch: "loop_step (control c) WatchOpened = Some (s, out) \<Longrightarrow>
    cluster_step c (c\<lparr>control := s, watching := True, notified := False, reading := version c\<rparr>)"
| open_failed: "loop_step (control c) (WatchError e) = Some (s, out) \<Longrightarrow>
    cluster_step c (c\<lparr>control := s, watching := False\<rparr>)"
| reconciled: "loop_step (control c) Reconciled = Some (s, out) \<Longrightarrow>
    cluster_step c (c\<lparr>control := s, seen := Some (reading c)\<rparr>)"
| reconcile_failed: "loop_step (control c) (ReconcileError e) = Some (s, out) \<Longrightarrow>
    cluster_step c (c\<lparr>control := s\<rparr>)"
| elapsed: "loop_step (control c) TimerElapsed = Some (s, out) \<Longrightarrow>
    cluster_step c (c\<lparr>control := s\<rparr>)"
| event: "loop_step (control c) (EventReceived err) = Some (s, out) \<Longrightarrow> err \<noteq> None \<or> notified c \<Longrightarrow>
    cluster_step c (c\<lparr>control := s\<rparr>)"
| closed: "loop_step (control c) WatchClosed = Some (s, out) \<Longrightarrow>
    cluster_step c (c\<lparr>control := s\<rparr>)"
| context_done: "loop_step (control c) (ContextDone e) = Some (s, out) \<Longrightarrow>
    cluster_step c (c\<lparr>control := s\<rparr>)"

inductive_cases cluster_stepE: "cluster_step c c'"

lemma loop_step_iff:
  "loop_step s WatchOpened = Some (s', out) \<longleftrightarrow> phase s = Opening \<and>
     s' = s\<lparr>phase := Reconciling, watchFailed := False\<rparr> \<and>
     out = (if watchFailed s then [''watch reconnected''] else [])"
  "loop_step s (WatchError e) = Some (s', out) \<longleftrightarrow> phase s = Opening \<and>
     s' = s\<lparr>phase := Retrying, watchFailed := True\<rparr> \<and>
     out = (if watchFailed s then [] else [''open watch: '' @ err_Error e @ ''; retrying''])"
  "loop_step s Reconciled = Some (s', out) \<longleftrightarrow> phase s = Reconciling \<and>
     s' = s\<lparr>phase := Waiting, reconcileFailed := False\<rparr> \<and>
     out = (if reconcileFailed s then [''reconcile recovered''] else [])"
  "loop_step s (ReconcileError e) = Some (s', out) \<longleftrightarrow> phase s = Reconciling \<and>
     s' = s\<lparr>phase := Retrying, reconcileFailed := True\<rparr> \<and>
     out = (if reconcileFailed s then [] else [''reconcile: '' @ err_Error e @ ''; retrying''])"
  "loop_step s TimerElapsed = Some (s', out) \<longleftrightarrow>
     phase s = Retrying \<and> s' = s\<lparr>phase := Opening\<rparr> \<and> out = []"
  "loop_step s (EventReceived err) = Some (s', out) \<longleftrightarrow> phase s = Waiting \<and>
     s' = s\<lparr>phase := Opening\<rparr> \<and> out = (case err of None \<Rightarrow> []
       | Some e \<Rightarrow> [''watch event: '' @ err_Error e @ ''; reconnecting''])"
  "loop_step s WatchClosed = Some (s', out) \<longleftrightarrow>
     phase s = Waiting \<and> s' = s\<lparr>phase := Opening\<rparr> \<and> out = []"
  "loop_step s (ContextDone e) = Some (s', out) \<longleftrightarrow> out = [] \<and>
     (phase s = Retrying \<and> s' = s\<lparr>phase := Returned (Some e)\<rparr> \<or>
      phase s = Waiting \<and> s' = s\<lparr>phase := Returned None\<rparr>)"
  by (auto simp: loop_step_def split: loop_phase.splits)

text \<open>
  While the loop waits, its watch is open, and either the last reconciliation has seen every
  change, or a message is on its way.
\<close>

definition loop_invar :: "cluster_loop \<Rightarrow> bool" where
  "loop_invar c \<longleftrightarrow>
     reading c \<le> version c \<and>
     (phase (control c) \<in> {Reconciling, Waiting} \<longrightarrow>
       watching c \<and> (reading c = version c \<or> notified c)) \<and>
     (phase (control c) = Waiting \<longrightarrow> seen c = Some (reading c))"

lemma cluster_start_invar: "loop_invar cluster_start"
  by (simp add: loop_invar_def cluster_start_def loop_start_def)

lemma cluster_step_invar: "cluster_step c c' \<Longrightarrow> loop_invar c \<Longrightarrow> loop_invar c'"
  by (induction rule: cluster_step.induct) (auto simp: loop_invar_def loop_step_iff)

lemma loop_run_snoc:
  "loop_run t (xs @ [a]) = Some (s, out) \<Longrightarrow> \<exists>t' out'. loop_step t' a = Some (s, out')"
  by (induction xs arbitrary: t out) (auto split: option.splits)

lemma loop_run_stuck:
  "loop_run t xs = Some (s, out) \<Longrightarrow> (\<And>a. loop_step s a = None) \<Longrightarrow> ys \<noteq> [] \<Longrightarrow>
    loop_run t (xs @ ys) = None"
proof (induction xs arbitrary: t out)
  case Nil
  then show ?case by (cases ys) auto
next
  case (Cons x xs)
  then show ?case by (auto split: option.splits)
qed

section \<open>Theorems\<close>

text \<open>
  C13: no change is missed. Whenever the loop waits for an event in a reachable state, either the
  last reconciliation read a state in which every change had happened, or a notification is
  waiting in the channel; this is what opening the watch before the reconciliation is for.
\<close>

theorem no_change_missed:
  assumes "cluster_step\<^sup>*\<^sup>* cluster_start c" and "phase (control c) = Waiting"
  shows "watching c \<and> (seen c = Some (version c) \<or> notified c)"
proof -
  from assms(1) have "loop_invar c"
    by (induction rule: rtranclp_induct) (auto intro: cluster_start_invar cluster_step_invar)
  with assms(2) show ?thesis by (auto simp: loop_invar_def)
qed

lemma no_change_missed_witness:
  "\<exists>c. cluster_step\<^sup>*\<^sup>* cluster_start c \<and> phase (control c) = Waiting \<and> version c = 1 \<and>
    seen c = Some 0 \<and> notified c"
proof -
  let ?s = "loop_start\<lparr>phase := Waiting\<rparr>"
  let ?c = "cluster_start\<lparr>control := ?s, watching := True, notified := True, version := 1, seen := Some 0\<rparr>"
  have open_step: "cluster_step cluster_start
      (cluster_start\<lparr>control := loop_start\<lparr>phase := Reconciling\<rparr>, watching := True\<rparr>)"
    using cluster_step.open_watch [of cluster_start "loop_start\<lparr>phase := Reconciling\<rparr>" "[]"]
    by (simp add: cluster_start_def loop_start_def loop_step_iff)
  have change_step: "cluster_step
      (cluster_start\<lparr>control := loop_start\<lparr>phase := Reconciling\<rparr>, watching := True\<rparr>)
      (cluster_start\<lparr>control := loop_start\<lparr>phase := Reconciling\<rparr>, watching := True, notified := True,
        version := 1\<rparr>)"
    using cluster_step.change [of
        "cluster_start\<lparr>control := loop_start\<lparr>phase := Reconciling\<rparr>, watching := True\<rparr>"]
    by (simp add: cluster_start_def)
  have "cluster_step
      (cluster_start\<lparr>control := loop_start\<lparr>phase := Reconciling\<rparr>, watching := True, notified := True,
        version := 1\<rparr>) ?c"
    using cluster_step.reconciled [of "cluster_start\<lparr>control := loop_start\<lparr>phase := Reconciling\<rparr>,
        watching := True, notified := True, version := 1\<rparr>" ?s "[]"]
    by (simp add: cluster_start_def loop_start_def loop_step_iff)
  note last_step = this
  have run: "cluster_step\<^sup>*\<^sup>* cluster_start ?c"
    by (rule converse_rtranclp_into_rtranclp [where r = cluster_step, OF open_step],
        rule converse_rtranclp_into_rtranclp [where r = cluster_step, OF change_step],
        rule r_into_rtranclp [where r = cluster_step, OF last_step])
  moreover have "watching ?c \<and> (seen ?c = Some (version ?c) \<or> notified ?c)"
    by (rule no_change_missed [OF run]) simp
  ultimately show ?thesis by (intro exI [of _ ?c]) simp
qed



definition lines_with :: "string \<Rightarrow> string list \<Rightarrow> nat" where
  "lines_with start out = length (filter (\<lambda>l. strings_HasPrefix l start) out)"

lemma loop_run_lines:
  "loop_run s answers = Some (s', out) \<Longrightarrow>
    lines_with ''open watch: '' out + of_bool (watchFailed s) =
      lines_with ''watch reconnected'' out + of_bool (watchFailed s') \<and>
    lines_with ''reconcile: '' out + of_bool (reconcileFailed s) =
      lines_with ''reconcile recovered'' out + of_bool (reconcileFailed s')"
proof (induction s answers arbitrary: out rule: loop_run.induct)
  case (1 s)
  then show ?case by (simp add: lines_with_def)
next
  case (2 s a as)
  from 2(2) obtain t o1 o2 where step: "loop_step s a = Some (t, o1)"
    and rest: "loop_run t as = Some (s', o2)" and out: "out = o1 @ o2"
    by (auto split: option.splits)
  from 2(1) [OF step refl rest] have IH: "lines_with ''open watch: '' o2 + of_bool (watchFailed t) =
      lines_with ''watch reconnected'' o2 + of_bool (watchFailed s') \<and>
    lines_with ''reconcile: '' o2 + of_bool (reconcileFailed t) =
      lines_with ''reconcile recovered'' o2 + of_bool (reconcileFailed s')" .
  have "lines_with ''open watch: '' o1 + of_bool (watchFailed s) =
      lines_with ''watch reconnected'' o1 + of_bool (watchFailed t) \<and>
    lines_with ''reconcile: '' o1 + of_bool (reconcileFailed s) =
      lines_with ''reconcile recovered'' o1 + of_bool (reconcileFailed t)"
    using step by (cases a) (auto simp: loop_step_iff lines_with_def strings_HasPrefix_def
        split: option.splits)
  with IH show ?case unfolding out lines_with_def by simp
qed

text \<open>
  An outage of the watch or of the reconciliation is reported once: the lines that report a
  failure are as many as those that report its end, and one more while it lasts.
\<close>

lemma outages_reported_once:
  assumes "loop_run loop_start answers = Some (s, out)"
  shows "lines_with ''open watch: '' out = lines_with ''watch reconnected'' out + of_bool (watchFailed s)
    \<and> lines_with ''reconcile: '' out = lines_with ''reconcile recovered'' out + of_bool (reconcileFailed s)"
  using loop_run_lines [OF assms] by (simp add: loop_start_def)

lemma outages_reported_once_witness:
  "\<exists>s out. loop_run loop_start
      [WatchError ErrNotFound, TimerElapsed, WatchError ErrConflict, TimerElapsed, WatchOpened] = Some (s, out) \<and>
    lines_with ''open watch: '' out = 1"
proof -
  let ?s = "\<lparr>phase = Reconciling, watchFailed = False, reconcileFailed = False\<rparr>"
  have run: "loop_run loop_start
      [WatchError ErrNotFound, TimerElapsed, WatchError ErrConflict, TimerElapsed, WatchOpened] =
      Some (?s, [''open watch: object not found; retrying'', ''watch reconnected''])"
    by code_simp
  from outages_reported_once [OF run] run show ?thesis by (simp add: lines_with_def strings_HasPrefix_def)
qed

end
