(* ===== verification/Scheduler.thy ===== *)
theory Scheduler
  imports ExampleCluster ReconcileLoop
begin

text \<open>
  The scheduler of \<^verbatim>\<open>scheduler/scheduler.go\<close>. Its memory is \<open>nextNode\<close>, the index where the
  search for a Ready node resumes; it starts at 0 and is only ever set to an index, so it is a
  natural number. The lemmas show the search: it finds a Ready node exactly when there is one,
  the first from the start index on, cyclically, and moves the index behind it.
\<close>

section \<open>Choosing a node\<close>

definition zero_choice :: "nat \<Rightarrow> Node \<times> nat \<times> bool" where
  "zero_choice start = (zero_Node, start, False)"

definition nextReadyNode :: "Node list \<Rightarrow> nat \<Rightarrow> Node \<times> nat \<times> bool" where
  "nextReadyNode nodes start =
     (if length nodes = 0 then zero_choice 0
      else case find (\<lambda>offset. nodePhase (nodeStatus (nodes ! ((start + offset) mod length nodes)))
               = NodeReady) [0..<length nodes] of
          Some offset \<Rightarrow>
            let index = (start + offset) mod length nodes
            in (nodes ! index, (index + 1) mod length nodes, True)
        | None \<Rightarrow> zero_choice start)"

section \<open>The reconciliation\<close>

definition bind_pod :: "string \<Rightarrow> Pod \<Rightarrow> Pod" where
  "bind_pod node pod = pod\<lparr>podSpec := (podSpec pod)\<lparr>NodeName := node\<rparr>\<rparr>"

fun bind_pods :: "'w Client \<Rightarrow> Node list \<Rightarrow> Pod list \<Rightarrow> (nat \<times> 'w, unit) operation" where
  "bind_pods client nodes [] = returning ()"
| "bind_pods client nodes (pod # pods) =
     (if NodeName (podSpec pod) \<noteq> [] then bind_pods client nodes pods
      else
        andThen get_memory (\<lambda>next.
          case nextReadyNode nodes next of
            (node, nextNode, found) \<Rightarrow>
              if \<not> found then returning ()
              else
                andThen
                  (on_world (ResourceClient_Update client Pods (Name (podMeta pod))
                     (bind_pod (Name (nodeMeta node)) pod)))
                  (\<lambda>_. andThen (put_memory nextNode) (\<lambda>_. bind_pods client nodes pods))))"

definition Scheduler_Reconcile :: "'w Client \<Rightarrow> (nat \<times> 'w, unit) operation" where
  "Scheduler_Reconcile client =
     andThen (on_world (ResourceClient_List client Nodes)) (\<lambda>nodes.
       andThen (on_world (ResourceClient_List client Pods)) (\<lambda>pods.
         bind_pods client (elems (Items nodes)) (elems (Items pods))))"

text \<open>\<^verbatim>\<open>watchNodes\<close> and \<^verbatim>\<open>watchPods\<close>: a watch from the revision of a listing.\<close>

definition list_and_watch ::
    "'w Client \<Rightarrow> 'a ResourceClient \<Rightarrow> ('w, goerror option list) operation" where
  "list_and_watch client resources =
     andThen (ResourceClient_List client resources) (\<lambda>objects.
       andThen (ResourceClient_Watch client resources (listVersion objects)) (\<lambda>events.
         returning (WatchErrors events)))"

definition Scheduler_watch :: "'w Client \<Rightarrow> ('w, goerror option list) operation" where
  "Scheduler_watch client =
     CombineWatches [list_and_watch client Nodes, list_and_watch client Pods]"

section \<open>The search\<close>

definition ready :: "Node \<Rightarrow> bool" where
  "ready node \<longleftrightarrow> nodePhase (nodeStatus node) = NodeReady"

lemma find_upt_Some:
  "find P [0..<n] = Some k \<longleftrightarrow> k < n \<and> P k \<and> (\<forall>i<k. \<not> P i)"
  by (auto simp: find_Some_iff)

lemma nextReadyNode_found:
  assumes "nextReadyNode nodes start = (node, next, True)"
  shows "\<exists>offset < length nodes.
    node = nodes ! ((start + offset) mod length nodes) \<and> ready node \<and>
    next = (start + offset + 1) mod length nodes \<and>
    (\<forall>i<offset. \<not> ready (nodes ! ((start + i) mod length nodes)))"
  using assms
  by (auto simp: nextReadyNode_def zero_choice_def ready_def find_upt_Some Let_def mod_Suc_eq
      split: if_splits option.splits)

lemma offset_exists:
  assumes "i < n"
  shows "\<exists>offset<n. (start + offset) mod n = (i :: nat)"
proof -
  let ?k = "i + n - start mod n"
  have less: "start mod n < n" using assms by simp
  have "(start + ?k mod n) mod n = (start + ?k) mod n"
    by (rule mod_add_right_eq)
  also have "\<dots> = (start mod n + ?k) mod n"
    by (rule mod_add_left_eq [symmetric])
  also have "start mod n + ?k = i + n" using less by simp
  also have "(i + n) mod n = i" using assms by simp
  finally show ?thesis using assms by (intro exI [of _ "?k mod n"]) auto
qed

lemma nextReadyNode_none:
  assumes "nextReadyNode nodes start = (node, next, False)" and "n \<in> set nodes"
  shows "\<not> ready n"
proof -
  from assms(2) obtain i where i: "i < length nodes" "n = nodes ! i"
    by (auto simp: in_set_conv_nth)
  from offset_exists [OF i(1), of start] obtain offset where
    "offset < length nodes" "(start + offset) mod length nodes = i"
    by blast
  with assms(1) i show ?thesis
    by (auto simp: nextReadyNode_def ready_def zero_choice_def find_None_iff Let_def
        split: if_splits option.splits)
qed

lemma nextReadyNode_in_range:
  "nextReadyNode nodes start = (node, next, True) \<Longrightarrow> next < length nodes \<and> node \<in> set nodes"
  using nextReadyNode_found [of nodes start node "next"]
  by (metis length_pos_if_in_set mod_less_divisor not_less_zero nth_mem gr_zeroI)

section \<open>The effect of a reconciliation\<close>

text \<open>
  \<open>bound_to m node p r\<close>: \<open>r\<close> is what the API keeps of the Pod \<open>p\<close> after it was bound to the
  node. \<open>scheduled m m'\<close>: \<open>m'\<close> differs from \<open>m\<close> only in unassigned Pods, now bound to Ready nodes.
\<close>

definition bound_to :: "Node \<Rightarrow> Pod \<Rightarrow> Resource \<Rightarrow> bool" where
  "bound_to node p r \<longleftrightarrow>
     (\<exists>v. r = norm_Resource (SetResourceVersion v (RPod (bind_pod (Name (nodeMeta node)) p))))"

definition scheduled :: "resources \<Rightarrow> resources \<Rightarrow> bool" where
  "scheduled m m' \<longleftrightarrow>
     (\<forall>kind. kind \<noteq> ''Pod'' \<longrightarrow> m' kind = m kind) \<and>
     (\<forall>name. m' ''Pod'' name = m ''Pod'' name \<or>
       (\<exists>p node r n. m ''Pod'' name = Some (RPod p) \<and> NodeName (podSpec p) = [] \<and>
         m ''Node'' n = Some (RNode node) \<and> ready node \<and>
         m' ''Pod'' name = Some r \<and> bound_to node p r))"

definition assigned :: "resources \<Rightarrow> string \<Rightarrow> bool" where
  "assigned m name \<longleftrightarrow> (\<exists>q. m ''Pod'' name = Some (RPod q) \<and> NodeName (podSpec q) \<noteq> [])"

lemma scheduled_refl: "scheduled m m"
  by (simp add: scheduled_def)

lemma assigned_stays:
  assumes "scheduled m m'" and "assigned m name"
  shows "assigned m' name"
proof -
  from assms(2) obtain q where q: "m ''Pod'' name = Some (RPod q)" "NodeName (podSpec q) \<noteq> []"
    by (auto simp: assigned_def)
  from assms(1) have "m' ''Pod'' name = m ''Pod'' name \<or>
    (\<exists>p. m ''Pod'' name = Some (RPod p) \<and> NodeName (podSpec p) = [])"
    unfolding scheduled_def by blast
  with q show ?thesis by (auto simp: assigned_def)
qed

lemma norm_bind_pod:
  "norm_Resource (SetResourceVersion v (RPod (bind_pod n p))) = RPod q \<Longrightarrow> NodeName (podSpec q) = n"
  by (auto simp: norm_Pod_def norm_PodSpec_def bind_pod_def)

lemma valid_bind_pod: "valid_Resource (RPod (bind_pod n p)) = valid_Resource (RPod p)"
  by (simp add: bind_pod_def valid_PodSpec_def)

lemma GetName_bind_pod: "GetName (RPod (bind_pod n p)) = Name (podMeta p)"
  by (simp add: bind_pod_def)

text \<open>Pods still to be visited are as they were listed.\<close>

definition as_listed :: "resources \<Rightarrow> Pod list \<Rightarrow> bool" where
  "as_listed m ps \<longleftrightarrow> distinct (map (\<lambda>p. Name (podMeta p)) ps) \<and>
     (\<forall>p\<in>set ps. m ''Pod'' (Name (podMeta p)) = Some (RPod p) \<and> url_clean (Name (podMeta p)))"

lemma as_listed_Cons: "as_listed m (p # ps) \<Longrightarrow> as_listed m ps"
  by (simp add: as_listed_def)

lemma as_listed_put:
  assumes "as_listed m (p # ps)"
  shows "as_listed (put_resource ''Pod'' (Name (podMeta p)) r m) ps"
proof -
  have "Name (podMeta q) \<noteq> Name (podMeta p)" if "q \<in> set ps" for q
  proof -
    have "Name (podMeta p) \<notin> (\<lambda>p. Name (podMeta p)) ` set ps"
      using assms by (simp add: as_listed_def)
    with that show ?thesis by (metis imageI)
  qed
  with as_listed_Cons [OF assms] show ?thesis
    unfolding as_listed_def put_resource_apply by simp
qed

definition nodes_listed :: "resources \<Rightarrow> Node list \<Rightarrow> bool" where
  "nodes_listed m ns \<longleftrightarrow> (\<forall>n\<in>set ns. m ''Node'' (Name (nodeMeta n)) = Some (RNode n))"

lemma scheduled_put:
  assumes "m ''Pod'' (Name (podMeta p)) = Some (RPod p)" and "NodeName (podSpec p) = []"
    and "m ''Node'' n = Some (RNode node)" and "ready node" and "bound_to node p r"
    and "scheduled (put_resource ''Pod'' (Name (podMeta p)) (Some r) m) m'"
    and "NodeName (podSpec p) = [] \<Longrightarrow> Name (nodeMeta node) \<noteq> []"
  shows "scheduled m m'"
  unfolding scheduled_def
proof (intro conjI allI impI)
  fix kind assume "kind \<noteq> ''Pod''"
  with assms(6) show "m' kind = m kind" by (auto simp: scheduled_def put_resource_def)
next
  fix name
  let ?m = "put_resource ''Pod'' (Name (podMeta p)) (Some r) m"
  have node: "?m ''Node'' k = m ''Node'' k" for k by (simp add: put_resource_def)
  have bound: "\<not> (\<exists>q. r = RPod q \<and> NodeName (podSpec q) = [])"
    using assms(2,5,7) norm_bind_pod by (auto simp: bound_to_def)
  from assms(6) have *: "m' ''Pod'' name = ?m ''Pod'' name \<or>
      (\<exists>p' node' r' n'. ?m ''Pod'' name = Some (RPod p') \<and> NodeName (podSpec p') = [] \<and>
        m ''Node'' n' = Some (RNode node') \<and> ready node' \<and> m' ''Pod'' name = Some r' \<and>
        bound_to node' p' r')"
    unfolding scheduled_def node by blast
  show "m' ''Pod'' name = m ''Pod'' name \<or>
      (\<exists>p node r n. m ''Pod'' name = Some (RPod p) \<and> NodeName (podSpec p) = [] \<and>
        m ''Node'' n = Some (RNode node) \<and> ready node \<and> m' ''Pod'' name = Some r \<and>
        bound_to node p r)"
  proof (cases "name = Name (podMeta p)")
    case True
    then have "?m ''Pod'' name = Some r" by (simp add: put_resource_apply)
    with * bound have "m' ''Pod'' name = Some r" by auto
    with assms(1-5) True show ?thesis by blast
  next
    case False
    then have "?m ''Pod'' name = m ''Pod'' name" by (simp add: put_resource_apply)
    with * show ?thesis by simp
  qed
qed

context cluster_api begin

lemma bind_pod_update:
  assumes "ok w" and "as_listed (res w) (p # ps)"
    and "ResourceClient_Update client Pods (Name (podMeta p)) (bind_pod (Name (nodeMeta node)) p) w
      = (ans, w')"
  shows "ok w' \<and> (isl ans \<and> res w' = res w \<or>
    (\<exists>r. bound_to node p r \<and> res w' = put_resource ''Pod'' (Name (podMeta p)) (Some r) (res w)))"
proof -
  let ?x = "bind_pod (Name (nodeMeta node)) p"
  from assms(2) have listed: "res w ''Pod'' (Name (podMeta p)) = Some (RPod p)"
    "url_clean (Name (podMeta p))" by (auto simp: as_listed_def)
  have valid: "valid_Resource (RPod ?x)"
    using pods.named [OF assms(1) listed(1)] valid_bind_pod by simp
  have form: "bound_to node p (RPod y)" if "stored_form ''Pod'' (RPod ?x) (RPod y)" for y
    using that by (auto simp: stored_form_def bound_to_def)
  show ?thesis
  proof (cases ans)
    case (Inl e)
    from pods.update_error [OF assms(1) valid listed(2) assms(3) [unfolded Inl]] form Inl
    show ?thesis by (metis isl_def)
  next
    case (Inr y)
    from pods.update_ok [OF assms(1) valid listed(2) assms(3) [unfolded Inr]] form
    show ?thesis by blast
  qed
qed

lemma bind_pods_effect:
  assumes "ok w" and "as_listed (res w) ps" and "nodes_listed (res w) ns"
    and "bind_pods client ns ps (k, w) = (ans, (k', w'))"
  shows "ok w' \<and> scheduled (res w) (res w')"
  using assms
proof (induction ps arbitrary: k w)
  case Nil
  then show ?case by (simp add: returning_def scheduled_refl)
next
  case (Cons p ps)
  obtain node "next" found where n: "nextReadyNode ns k = (node, next, found)"
    by (cases "nextReadyNode ns k") auto
  consider (skip) "NodeName (podSpec p) \<noteq> []"
    | (none) "NodeName (podSpec p) = []" "\<not> found"
    | (bind) "NodeName (podSpec p) = []" "found" by blast
  then show ?case
  proof cases
    case skip
    with Cons.IH [OF Cons.prems(1) as_listed_Cons [OF Cons.prems(2)] Cons.prems(3)] Cons.prems(4)
    show ?thesis by simp
  next
    case none
    with Cons.prems n show ?thesis
      by (simp add: andThen_def get_memory_def returning_def scheduled_refl)
  next
    case bind
    obtain res1 w1 where u: "ResourceClient_Update client Pods (Name (podMeta p))
        (bind_pod (Name (nodeMeta node)) p) w = (res1, w1)" by fastforce
    have run: "case res1 of Inl e \<Rightarrow> w' = w1 | Inr _ \<Rightarrow> bind_pods client ns ps (next, w1) = (ans, (k', w'))"
      using Cons.prems(4) n bind u
      by (auto simp: andThen_def get_memory_def on_world_def put_memory_def split: sum.splits)
    have node: "node \<in> set ns" "ready node"
      using nextReadyNode_in_range [of ns k node "next"] nextReadyNode_found [of ns k node "next"] n bind
      by auto
    then have listed: "res w ''Node'' (Name (nodeMeta node)) = Some (RNode node)"
      using Cons.prems(3) by (simp add: nodes_listed_def)
    then have named: "Name (nodeMeta node) \<noteq> []"
      using nodes.named [OF Cons.prems(1)] by force
    from bind_pod_update [OF Cons.prems(1,2) u] have ok: "ok w1" and
      eff: "isl res1 \<and> res w1 = res w \<or> (\<exists>r. bound_to node p r \<and>
        res w1 = put_resource ''Pod'' (Name (podMeta p)) (Some r) (res w))" by auto
    have p: "res w ''Pod'' (Name (podMeta p)) = Some (RPod p)"
      using Cons.prems(2) by (simp add: as_listed_def)
    note put = scheduled_put [OF p bind(1) listed node(2)]
    show ?thesis
    proof (cases res1)
      case (Inl e)
      with run eff ok put [OF _ _ named] scheduled_refl show ?thesis by auto
    next
      case (Inr y)
      with eff obtain r where r: "bound_to node p r"
        "res w1 = put_resource ''Pod'' (Name (podMeta p)) (Some r) (res w)" by auto
      have "as_listed (res w1) ps" unfolding r(2) by (rule as_listed_put [OF Cons.prems(2)])
      moreover have "nodes_listed (res w1) ns"
        using Cons.prems(3) r(2) by (simp add: nodes_listed_def put_resource_apply)
      ultimately have "ok w' \<and> scheduled (res w1) (res w')"
        using Cons.IH [OF ok] run Inr by simp
      with put [OF r(1) _ named] r(2) show ?thesis by simp
    qed
  qed
qed

lemma bind_pods_complete:
  assumes "ok w" and "as_listed (res w) ps" and "nodes_listed (res w) ns"
    and "bind_pods client ns ps (k, w) = (Inr u, (k', w'))"
    and "n \<in> set ns" and "ready n" and "p \<in> set ps"
  shows "assigned (res w') (Name (podMeta p))"
  using assms
proof (induction ps arbitrary: k w)
  case Nil
  then show ?case by simp
next
  case (Cons q ps)
  have q: "res w ''Pod'' (Name (podMeta q)) = Some (RPod q)"
    using Cons.prems(2) by (simp add: as_listed_def)
  show ?case
  proof (cases "NodeName (podSpec q) \<noteq> []")
    case True
    then have run: "bind_pods client ns ps (k, w) = (Inr u, (k', w'))"
      using Cons.prems(4) by simp
    note rest = as_listed_Cons [OF Cons.prems(2)]
    have "assigned (res w) (Name (podMeta q))" using q True by (simp add: assigned_def)
    with bind_pods_effect [OF Cons.prems(1) rest Cons.prems(3) run]
    have "assigned (res w') (Name (podMeta q))" using assigned_stays by blast
    with Cons.IH [OF Cons.prems(1) rest Cons.prems(3) run Cons.prems(5,6)] Cons.prems(7)
    show ?thesis by auto
  next
    case False
    obtain node "next" found where nr: "nextReadyNode ns k = (node, next, found)"
      by (cases "nextReadyNode ns k") auto
    then have found using nextReadyNode_none [of ns k node "next" n] Cons.prems(5,6) by (cases found) auto
    with nr have node: "node \<in> set ns" using nextReadyNode_in_range [of ns k node "next"] by simp
    then have "res w ''Node'' (Name (nodeMeta node)) = Some (RNode node)"
      using Cons.prems(3) by (simp add: nodes_listed_def)
    then have named: "Name (nodeMeta node) \<noteq> []" using nodes.named [OF Cons.prems(1)] by force
    obtain ans w1 where upd: "ResourceClient_Update client Pods (Name (podMeta q))
        (bind_pod (Name (nodeMeta node)) q) w = (ans, w1)" by fastforce
    have run: "\<not> isl ans" "bind_pods client ns ps (next, w1) = (Inr u, (k', w'))"
      using Cons.prems(4) nr \<open>found\<close> False upd
      by (auto simp: andThen_def get_memory_def on_world_def put_memory_def split: sum.splits)
    from bind_pod_update [OF Cons.prems(1,2) upd] run(1) obtain r where ok: "ok w1"
      and r: "bound_to node q r" "res w1 = put_resource ''Pod'' (Name (podMeta q)) (Some r) (res w)"
      by auto
    have listed: "as_listed (res w1) ps" unfolding r(2) by (rule as_listed_put [OF Cons.prems(2)])
    have nodes: "nodes_listed (res w1) ns"
      using Cons.prems(3) r(2) by (simp add: nodes_listed_def put_resource_apply)
    obtain q' where q': "r = RPod q'" using r(1) by (auto simp: bound_to_def)
    then have "NodeName (podSpec q') \<noteq> []"
      using r(1) norm_bind_pod named by (auto simp: bound_to_def)
    then have "assigned (res w1) (Name (podMeta q))"
      using q' r(2) by (simp add: assigned_def put_resource_apply)
    with bind_pods_effect [OF ok listed nodes run(2)]
    have "assigned (res w') (Name (podMeta q))" using assigned_stays by blast
    with Cons.IH [OF ok listed nodes run(2) Cons.prems(5,6)] Cons.prems(7) show ?thesis by auto
  qed
qed

lemma Scheduler_Reconcile_effect:
  assumes "ok w" and "\<And>name. name \<in> dom (res w ''Pod'') \<Longrightarrow> url_clean name"
    and "Scheduler_Reconcile client (k, w) = (ans, (k', w'))"
  shows "ok w' \<and> scheduled (res w) (res w') \<and>
    (\<not> isl ans \<longrightarrow> (\<exists>n node. res w ''Node'' n = Some (RNode node) \<and> ready node) \<longrightarrow>
      (\<forall>name \<in> dom (res w ''Pod''). assigned (res w') name))"
proof -
  obtain nl w1 where n: "ResourceClient_List client Nodes w = (nl, w1)" by fastforce
  obtain pl w2 where p: "ResourceClient_List client Pods w1 = (pl, w2)" by fastforce
  show ?thesis
  proof (cases nl)
    case (Inl e)
    with n assms(3) nodes.list_error [OF assms(1) n [unfolded Inl]] scheduled_refl
    show ?thesis by (auto simp: Scheduler_Reconcile_def andThen_def on_world_def)
  next
    case (Inr ns)
    note nodes_ok = nodes.list_items [OF assms(1) n [unfolded Inr]]
    show ?thesis
    proof (cases pl)
      case (Inl e)
      with n p Inr assms(3) pods.list_error [OF nodes_ok(1) p [unfolded Inl]] nodes_ok(2) scheduled_refl
      show ?thesis by (auto simp: Scheduler_Reconcile_def andThen_def on_world_def)
    next
      case ps: (Inr ps)
      note pods_ok = pods.list_items [OF nodes_ok(1) p [unfolded ps]]
      from n p Inr ps assms(3)
      have run: "bind_pods client (elems (Items ns)) (elems (Items ps)) (k, w2) = (ans, (k', w'))"
        by (simp add: Scheduler_Reconcile_def andThen_def on_world_def)
      have same: "res w2 = res w" using nodes_ok(2) pods_ok(2) by simp
      have listed: "as_listed (res w2) (elems (Items ps))"
        unfolding as_listed_def
      proof (intro conjI ballI)
        show "distinct (map (\<lambda>p. Name (podMeta p)) (elems (Items ps)))" using pods_ok(3) by simp
      next
        fix p assume "p \<in> set (elems (Items ps))"
        from pods_ok(4) [OF this] show "res w2 ''Pod'' (Name (podMeta p)) = Some (RPod p)"
          by (simp add: same nodes_ok(2))
        then have "Name (podMeta p) \<in> dom (res w ''Pod'')" by (auto simp: same)
        then show "url_clean (Name (podMeta p))" by (rule assms(2))
      qed
      have nl: "nodes_listed (res w2) (elems (Items ns))"
        unfolding nodes_listed_def
      proof
        fix n assume "n \<in> set (elems (Items ns))"
        from nodes_ok(4) [OF this] show "res w2 ''Node'' (Name (nodeMeta n)) = Some (RNode n)"
          by (simp add: same)
      qed
      note effect = bind_pods_effect [OF pods_ok(1) listed nl run]
      have "assigned (res w') name"
        if succeeded: "\<not> isl ans" and node: "res w ''Node'' n = Some (RNode node)" "ready node"
          and pod: "res w ''Pod'' name = Some r" for n node name r
      proof -
        obtain u where ans: "ans = Inr u" using succeeded by (cases ans) auto
        from nodes_ok(5) [OF node(1)] have "node \<in> set (elems (Items ns))" by auto
        from bind_pods_complete [OF pods_ok(1) listed nl run [unfolded ans] this node(2)]
        have all: "\<forall>p\<in>set (elems (Items ps)). assigned (res w') (Name (podMeta p))" by simp
        have stored: "res w1 ''Pod'' name = Some r" using pod nodes_ok(2) by simp
        from pods_ok(5) [OF stored] obtain q where q: "q \<in> set (elems (Items ps))" "r = RPod q" by auto
        from pods.named [OF nodes_ok(1) stored] q(2) have "Name (podMeta q) = name" by simp
        with all q(1) show ?thesis by auto
      qed
      with effect same show ?thesis by (auto simp: dom_def)
    qed
  qed
qed

end

section \<open>Theorems\<close>

text \<open>
  The search for a node finds one exactly when some node is Ready; it is the first Ready
  node from the start index on, cyclically, and the next search starts behind it.
\<close>

lemma next_ready_node:
  assumes "nextReadyNode nodes start = (node, next, found)"
  shows "(found \<longleftrightarrow> (\<exists>n\<in>set nodes. nodePhase (nodeStatus n) = NodeReady)) \<and>
    (found \<longrightarrow> (\<exists>offset < length nodes.
      node = nodes ! ((start + offset) mod length nodes) \<and>
      nodePhase (nodeStatus node) = NodeReady \<and> next = (start + offset + 1) mod length nodes \<and>
      (\<forall>i<offset. nodePhase (nodeStatus (nodes ! ((start + i) mod length nodes))) \<noteq> NodeReady)))"
proof (cases found)
  case True
  with assms nextReadyNode_found [of nodes start node "next"] nextReadyNode_in_range [of nodes start node "next"]
  show ?thesis by (auto simp: ready_def)
next
  case False
  with assms nextReadyNode_none [of nodes start node "next"] show ?thesis by (auto simp: ready_def)
qed

lemma next_ready_node_witness:
  "nodePhase (nodeStatus (example_node ''b'' ''Ready'')) = NodeReady"
proof -
  have "nextReadyNode [example_node ''a'' [], example_node ''b'' ''Ready''] 0 =
      (example_node ''b'' ''Ready'', 0, True)" by code_simp
  from next_ready_node [OF this] show ?thesis by auto
qed


definition example_unscheduled :: mem_etcd where
  "example_unscheduled =
     mem_create Pods (example_pod ''a'') (mem_create Nodes (example_node ''n'' NodeReady) mem_empty)"

lemma example_unscheduled_clean: "mem_ok example_unscheduled \<and> names_clean example_unscheduled"
  unfolding example_unscheduled_def
  by (intro mem_create_pod mem_create_node mem_empty_clean) code_simp+


end
