(* ===== verification/ControllerManager.thy ===== *)
theory ControllerManager
  imports Scheduler
begin

text \<open>
  The controllers of \<^verbatim>\<open>controller-manager/controllers.go\<close>: the Deployment controller keeps one
  ReplicaSet per Deployment, the ReplicaSet controller keeps the desired number of Pods per
  ReplicaSet. A range over a slice that returns at the first error is a recursion on the list.
\<close>

section \<open>Owners and templates\<close>

definition hasOwner :: "OwnerReference list \<Rightarrow> string \<Rightarrow> string \<Rightarrow> string \<Rightarrow> bool" where
  "hasOwner owners kind name uid =
     list_ex (\<lambda>owner. ownerKind owner = kind \<and> ownerName owner = name \<and>
       (uid = [] \<or> ownerUID owner = uid)) owners"

text \<open>The copy is made entry by entry; nil stays nil.\<close>

definition copyLabels :: "string_map \<Rightarrow> string_map" where
  "copyLabels labels =
     (case labels of
        None \<Rightarrow> None
      | Some f \<Rightarrow> Some (fold (\<lambda>(k, v) m. fmupd k v m) (sorted_list_of_fmap f) fmempty))"

definition replicaSetForDeployment :: "Deployment \<Rightarrow> ReplicaSet list \<Rightarrow> ReplicaSet option" where
  "replicaSetForDeployment deployment replicaSets =
     find (\<lambda>rs. hasOwner (elems (OwnerReferences (rsMeta rs))) ''Deployment''
       (Name (deploymentMeta deployment)) (UID (deploymentMeta deployment))) replicaSets"

definition managedPodsForReplicaSet :: "ReplicaSet \<Rightarrow> Pod list \<Rightarrow> Pod list" where
  "managedPodsForReplicaSet replicaSet pods =
     filter (\<lambda>pod. hasOwner (elems (OwnerReferences (podMeta pod))) ''ReplicaSet''
         (Name (rsMeta replicaSet)) (UID (rsMeta replicaSet))
       \<and> LabelsMatch (rsSelector (rsSpec replicaSet)) (Labels (podMeta pod))) pods"

definition newReplicaSet :: "Deployment \<Rightarrow> ReplicaSet" where
  "newReplicaSet deployment = zero_ReplicaSet
     \<lparr>rsTypeMeta := \<lparr>APIVersion = APIVersionV1, Kind = ''ReplicaSet''\<rparr>,
      rsMeta := zero_ObjectMeta
        \<lparr>Name := Name (deploymentMeta deployment) @ ''-rs'',
         Labels := copyLabels (Labels (templateMeta (deploymentTemplate (deploymentSpec deployment)))),
         OwnerReferences := Some [\<lparr>ownerKind = ''Deployment'',
           ownerName = Name (deploymentMeta deployment), ownerUID = UID (deploymentMeta deployment)\<rparr>]\<rparr>,
      rsSpec :=
        \<lparr>rsReplicas = deploymentReplicas (deploymentSpec deployment),
         rsSelector = copyLabels (deploymentSelector (deploymentSpec deployment)),
         rsTemplate = deploymentTemplate (deploymentSpec deployment)\<rparr>\<rparr>"

definition newPod :: "ReplicaSet \<Rightarrow> string \<Rightarrow> Pod" where
  "newPod replicaSet name =
     (let template = rsTemplate (rsSpec replicaSet) in zero_Pod
        \<lparr>podTypeMeta := \<lparr>APIVersion = APIVersionV1, Kind = ''Pod''\<rparr>,
         podMeta := zero_ObjectMeta
           \<lparr>Name := name,
            Labels := copyLabels (Labels (templateMeta template)),
            OwnerReferences := Some [\<lparr>ownerKind = ''ReplicaSet'',
              ownerName = Name (rsMeta replicaSet), ownerUID = UID (rsMeta replicaSet)\<rparr>]\<rparr>,
         podSpec := templateSpec template\<rparr>)"

section \<open>Pod names\<close>

definition indexed_name :: "string \<Rightarrow> nat \<Rightarrow> string" where
  "indexed_name base index = base @ ''-'' @ strconv_Itoa (int index)"

lemma indexed_name_inject [simp]: "indexed_name base i = indexed_name base j \<longleftrightarrow> i = j"
  by (simp add: indexed_name_def)

lemma finite_used_indices: "finite {j. i \<le> j \<and> indexed_name base j \<in> set used}"
proof -
  have "inj (indexed_name base)" by (simp add: inj_def)
  then have "finite (indexed_name base -` set used)" by (rule finite_vimageI [rotated]) simp
  then show ?thesis by (rule rev_finite_subset) auto
qed

text \<open>The unbounded loop of \<^verbatim>\<open>nextPodName\<close>: it passes used names only, which are finitely many.\<close>

function first_free_name :: "string \<Rightarrow> string list \<Rightarrow> nat \<Rightarrow> string" where
  "first_free_name base used index =
     (if indexed_name base index \<notin> set used then indexed_name base index
      else first_free_name base used (index + 1))"
  by pat_completeness auto
termination
proof (relation "measure (\<lambda>(base, used, index). card {j. index \<le> j \<and> indexed_name base j \<in> set used})")
  fix base :: string and used index
  assume used: "\<not> indexed_name base index \<notin> set used"
  have "{j. index + 1 \<le> j \<and> indexed_name base j \<in> set used}
      \<subset> {j. index \<le> j \<and> indexed_name base j \<in> set used}"
    using used by (auto simp: Suc_le_eq)
  then show "((base, used, index + 1), (base, used, index)) \<in> measure
      (\<lambda>(base, used, index). card {j. index \<le> j \<and> indexed_name base j \<in> set used})"
    using psubset_card_mono [OF finite_used_indices] by simp
qed simp

declare first_free_name.simps [simp del]

definition nextPodName :: "ReplicaSet \<Rightarrow> Pod list \<Rightarrow> string" where
  "nextPodName replicaSet pods =
     first_free_name (Name (rsMeta replicaSet)) (map (\<lambda>pod. Name (podMeta pod)) pods) 1"

section \<open>The ReplicaSet controller\<close>

definition pod_name_less :: "Pod \<Rightarrow> Pod \<Rightarrow> bool" where
  "pod_name_less a b \<longleftrightarrow> Name (podMeta a) < Name (podMeta b)"

definition named_pod :: "string \<Rightarrow> Pod" where
  "named_pod name = zero_Pod\<lparr>podMeta := zero_ObjectMeta\<lparr>Name := name\<rparr>\<rparr>"

text \<open>
  The creating loop runs while the index, which starts at the number of managed Pods, is below
  the desired number; \<open>missing\<close> is how many rounds are left. The result is the extended slice.
\<close>

fun create_pods :: "'w Client \<Rightarrow> ReplicaSet \<Rightarrow> nat \<Rightarrow> Pod list \<Rightarrow> ('w, Pod list) operation" where
  "create_pods client replicaSet 0 managedPods = returning managedPods"
| "create_pods client replicaSet (Suc missing) managedPods =
     (let name = nextPodName replicaSet managedPods in
      andThen (ResourceClient_Create client Pods (newPod replicaSet name)) (\<lambda>_.
        create_pods client replicaSet missing (managedPods @ [named_pod name])))"

fun delete_pods :: "'w Client \<Rightarrow> Pod list \<Rightarrow> ('w, unit) operation" where
  "delete_pods client [] = returning ()"
| "delete_pods client (pod # pods) =
     andThen (ResourceClient_Delete client Pods (Name (podMeta pod)) (ResourceVersion (podMeta pod)))
       (\<lambda>_. delete_pods client pods)"

definition reconcilePods :: "'w Client \<Rightarrow> ReplicaSet \<Rightarrow> Pod list \<Rightarrow> ('w, unit) operation" where
  "reconcilePods client replicaSet managed =
     (let managedPods = sort_Slice pod_name_less managed;
          desiredReplicas =
            (if rsReplicas (rsSpec replicaSet) < 0 then 0 else rsReplicas (rsSpec replicaSet))
      in andThen
           (create_pods client replicaSet (nat (desiredReplicas - int (length managedPods))) managedPods)
           (\<lambda>pods.
             andThen (delete_pods client (drop (nat desiredReplicas) pods)) (\<lambda>_.
               if rsStatusReplicas (rsStatus replicaSet) = desiredReplicas then returning ()
               else
                 andThen
                   (ResourceClient_Update client ReplicaSets (Name (rsMeta replicaSet))
                     (replicaSet\<lparr>rsStatus := \<lparr>rsStatusReplicas = desiredReplicas\<rparr>\<rparr>))
                   (\<lambda>_. returning ()))))"

fun reconcile_replicaSets :: "'w Client \<Rightarrow> Pod list \<Rightarrow> ReplicaSet list \<Rightarrow> ('w, unit) operation" where
  "reconcile_replicaSets client pods [] = returning ()"
| "reconcile_replicaSets client pods (replicaSet # replicaSets) =
     andThen (reconcilePods client replicaSet (managedPodsForReplicaSet replicaSet pods)) (\<lambda>_.
       reconcile_replicaSets client pods replicaSets)"

definition ReplicaSetController_Reconcile :: "'w Client \<Rightarrow> ('w, unit) operation" where
  "ReplicaSetController_Reconcile client =
     andThen (ResourceClient_List client ReplicaSets) (\<lambda>replicaSets.
       andThen (ResourceClient_List client Pods) (\<lambda>pods.
         reconcile_replicaSets client (elems (Items pods)) (elems (Items replicaSets))))"

definition ReplicaSetController_watch :: "'w Client \<Rightarrow> ('w, goerror option list) operation" where
  "ReplicaSetController_watch client =
     CombineWatches [list_and_watch client ReplicaSets, list_and_watch client Pods]"

section \<open>The Deployment controller\<close>

fun reconcile_deployments ::
    "'w Client \<Rightarrow> ReplicaSet list \<Rightarrow> Deployment list \<Rightarrow> ('w, unit) operation" where
  "reconcile_deployments client replicaSets [] = returning ()"
| "reconcile_deployments client replicaSets (deployment # deployments) =
     (case replicaSetForDeployment deployment replicaSets of
        None \<Rightarrow>
          andThen (ResourceClient_Create client ReplicaSets (newReplicaSet deployment)) (\<lambda>_.
            reconcile_deployments client replicaSets deployments)
      | Some replicaSet \<Rightarrow>
          let desired = (newReplicaSet deployment)
            \<lparr>rsMeta := (rsMeta (newReplicaSet deployment))
               \<lparr>ResourceVersion := ResourceVersion (rsMeta replicaSet)\<rparr>,
             rsStatus := rsStatus replicaSet\<rparr>
          in
          if rsSpec replicaSet = rsSpec desired \<and>
             OwnerReferences (rsMeta replicaSet) = OwnerReferences (rsMeta desired)
          then reconcile_deployments client replicaSets deployments
          else
            andThen (ResourceClient_Update client ReplicaSets (Name (rsMeta replicaSet)) desired) (\<lambda>_.
              reconcile_deployments client replicaSets deployments))"

definition DeploymentController_Reconcile :: "'w Client \<Rightarrow> ('w, unit) operation" where
  "DeploymentController_Reconcile client =
     andThen (ResourceClient_List client Deployments) (\<lambda>deployments.
       andThen (ResourceClient_List client ReplicaSets) (\<lambda>replicaSets.
         reconcile_deployments client (elems (Items replicaSets)) (elems (Items deployments))))"

definition DeploymentController_watch :: "'w Client \<Rightarrow> ('w, goerror option list) operation" where
  "DeploymentController_watch client =
     CombineWatches [list_and_watch client Deployments, list_and_watch client ReplicaSets]"

section \<open>What the parts compute\<close>

lemma copyLabels_id [simp]: "copyLabels labels = labels"
  by (cases labels) (simp_all add: copyLabels_def fold_fmupd fmap_of_rev_sorted)

lemma first_free_name_free: "first_free_name base used index \<notin> set used"
  by (induction base used index rule: first_free_name.induct) (subst first_free_name.simps, simp)

lemma first_free_name_least:
  "\<exists>i \<ge> index. first_free_name base used index = indexed_name base i \<and>
    (\<forall>j. index \<le> j \<longrightarrow> j < i \<longrightarrow> indexed_name base j \<in> set used)"
proof (induction base used index rule: first_free_name.induct)
  case (1 base used index)
  show ?case
  proof (cases "indexed_name base index \<in> set used")
    case False
    then show ?thesis by (subst first_free_name.simps) auto
  next
    case True
    with 1 obtain i where i: "index + 1 \<le> i"
      "first_free_name base used (index + 1) = indexed_name base i"
      "\<forall>j. index + 1 \<le> j \<longrightarrow> j < i \<longrightarrow> indexed_name base j \<in> set used"
      by auto
    have "indexed_name base j \<in> set used" if "index \<le> j" "j < i" for j
      using that i(3) True by (cases "j = index") auto
    with i True show ?thesis
      by (subst first_free_name.simps) (auto intro: exI [of _ i])
  qed
qed

lemma nextPodName_fresh: "nextPodName replicaSet pods \<notin> (\<lambda>pod. Name (podMeta pod)) ` set pods"
  using first_free_name_free [of _ "map (\<lambda>pod. Name (podMeta pod)) pods"]
  by (simp add: nextPodName_def)

lemma newPod_managed:
  "managedPodsForReplicaSet replicaSet [newPod replicaSet name] =
    (if LabelsMatch (rsSelector (rsSpec replicaSet)) (Labels (templateMeta (rsTemplate (rsSpec replicaSet))))
     then [newPod replicaSet name] else [])"
  by (simp add: managedPodsForReplicaSet_def newPod_def hasOwner_def Let_def)

end
