(* ===== verification/ReplicaSetController.thy ===== *)
theory ReplicaSetController
  imports ControllerManager ExampleCluster
begin

text \<open>
  What the ReplicaSet controller does to the Pods of one ReplicaSet: it touches only Pods it
  manages and Pods it creates, and when it succeeds the ReplicaSet has as many Pods as it wants.
\<close>

section \<open>Specification\<close>

definition manages :: "ReplicaSet \<Rightarrow> Pod \<Rightarrow> bool" where
  "manages rs pod \<longleftrightarrow>
     hasOwner (elems (OwnerReferences (podMeta pod))) ''ReplicaSet'' (Name (rsMeta rs)) (UID (rsMeta rs)) \<and>
     LabelsMatch (rsSelector (rsSpec rs)) (Labels (podMeta pod))"

definition managed_names :: "ReplicaSet \<Rightarrow> resources \<Rightarrow> string set" where
  "managed_names rs m = {n. \<exists>p. m ''Pod'' n = Some (RPod p) \<and> manages rs p}"

definition desired_replicas :: "ReplicaSet \<Rightarrow> nat" where
  "desired_replicas rs = nat (rsReplicas (rsSpec rs))"


text \<open>A Pod the controller made for the ReplicaSet under a name of it, as the API stores it.\<close>

definition created_for :: "ReplicaSet \<Rightarrow> string \<Rightarrow> Resource \<Rightarrow> bool" where
  "created_for rs n r \<longleftrightarrow> stored_form ''Pod'' (RPod (newPod rs n)) r \<and>
     (\<exists>i. n = indexed_name (Name (rsMeta rs)) i)"

text \<open>The ReplicaSet with the number of its Pods reported.\<close>

definition counted_set :: "ReplicaSet \<Rightarrow> Resource \<Rightarrow> bool" where
  "counted_set rs r \<longleftrightarrow>
     stored_form ''ReplicaSet'' (RReplicaSet (rs\<lparr>rsStatus := \<lparr>rsStatusReplicas = int (desired_replicas rs)\<rparr>\<rparr>)) r"

text \<open>The ReplicaSets that are stored.\<close>

definition replicaSets_of :: "resources \<Rightarrow> ReplicaSet set" where
  "replicaSets_of m = {rs. \<exists>n. m ''ReplicaSet'' n = Some (RReplicaSet rs)}"

text \<open>What the controller may change when it reconciles the ReplicaSets \<open>RS\<close>.\<close>

definition scales :: "ReplicaSet set \<Rightarrow> resources \<Rightarrow> resources \<Rightarrow> bool" where
  "scales RS m m' \<longleftrightarrow>
     (\<forall>kind. kind \<noteq> ''Pod'' \<longrightarrow> kind \<noteq> ''ReplicaSet'' \<longrightarrow> m' kind = m kind) \<and>
     (\<forall>n. m' ''ReplicaSet'' n = m ''ReplicaSet'' n \<or>
        (\<exists>rs\<in>RS. Name (rsMeta rs) = n \<and> (\<exists>r. m' ''ReplicaSet'' n = Some r \<and> counted_set rs r))) \<and>
     (\<forall>n. m' ''Pod'' n = m ''Pod'' n \<or>
        (m ''Pod'' n = None \<or> (\<exists>rs\<in>RS. n \<in> managed_names rs m)) \<and>
        (m' ''Pod'' n = None \<or> (\<exists>rs\<in>RS. \<exists>r. m' ''Pod'' n = Some r \<and> created_for rs n r)))"

text \<open>The ReplicaSet has the Pods it wants.\<close>

definition satisfied :: "ReplicaSet \<Rightarrow> resources \<Rightarrow> bool" where
  "satisfied rs m \<longleftrightarrow> finite (managed_names rs m) \<and> card (managed_names rs m) = desired_replicas rs"

definition template_matches :: "ReplicaSet \<Rightarrow> bool" where
  "template_matches rs \<longleftrightarrow>
     LabelsMatch (rsSelector (rsSpec rs)) (Labels (templateMeta (rsTemplate (rsSpec rs))))"

lemma map_index_norm [simp]: "map_index (norm_map l) k = map_index l k"
  by (cases l) (auto simp: norm_map_def map_index_def empty_map_def fmdom_notD)

lemma LabelsMatch_norm [simp]: "LabelsMatch s (norm_map l) = LabelsMatch s l"
  by (simp add: LabelsMatch_iff)


lemma created_for_owner:
  assumes "created_for rs n r"
  shows "\<exists>p. r = RPod p \<and> (manages rs' p \<longrightarrow> Name (rsMeta rs') = Name (rsMeta rs)) \<and>
    (template_matches rs \<longrightarrow> manages rs p)"
proof -
  from assms obtain v where r: "r = RPod (norm_Pod (Pod_SetResourceVersion v (newPod rs n)))"
    by (auto simp: created_for_def stored_form_def)
  have "Labels (podMeta (norm_Pod (Pod_SetResourceVersion v (newPod rs n)))) =
      norm_map (Labels (templateMeta (rsTemplate (rsSpec rs))))"
    "OwnerReferences (podMeta (norm_Pod (Pod_SetResourceVersion v (newPod rs n)))) =
      Some [\<lparr>ownerKind = ''ReplicaSet'', ownerName = Name (rsMeta rs), ownerUID = UID (rsMeta rs)\<rparr>]"
    by (simp_all add: norm_Pod_def norm_ObjectMeta_def newPod_def Let_def norm_slice_def empty_slice_def)
  with r show ?thesis by (simp add: manages_def hasOwner_def template_matches_def)
qed

lemma scales_refl: "scales RS m m"
  by (simp add: scales_def)

lemma scales_podD:
  "scales RS m m' \<Longrightarrow> m' ''Pod'' n \<noteq> m ''Pod'' n \<Longrightarrow>
    (m ''Pod'' n = None \<or> (\<exists>rs\<in>RS. n \<in> managed_names rs m)) \<and>
    (m' ''Pod'' n = None \<or> (\<exists>rs\<in>RS. \<exists>r. m' ''Pod'' n = Some r \<and> created_for rs n r))"
  unfolding scales_def by metis

lemma scales_rsD:
  "scales RS m m' \<Longrightarrow> m' ''ReplicaSet'' n = m ''ReplicaSet'' n \<or>
    (\<exists>rs\<in>RS. Name (rsMeta rs) = n \<and> (\<exists>r. m' ''ReplicaSet'' n = Some r \<and> counted_set rs r))"
  unfolding scales_def by (elim conjE allE)

text \<open>Another ReplicaSet keeps its Pods.\<close>

lemma scales_frame:
  assumes "scales RS m m'"
    and "\<And>rs. rs \<in> RS \<Longrightarrow> Name (rsMeta rs) \<noteq> Name (rsMeta rs') \<and> managed_names rs m \<inter> managed_names rs' m = {}"
  shows "managed_names rs' m' = managed_names rs' m"
    and "n \<in> managed_names rs' m \<Longrightarrow> m' ''Pod'' n = m ''Pod'' n"
proof -
  show same: "m' ''Pod'' n = m ''Pod'' n" if n: "n \<in> managed_names rs' m" for n
  proof (rule ccontr)
    assume "m' ''Pod'' n \<noteq> m ''Pod'' n"
    from scales_podD [OF assms(1) this] n obtain rs where "rs \<in> RS" "n \<in> managed_names rs m"
      by (auto simp: managed_names_def)
    with assms(2) n show False by blast
  qed
  have "n \<in> managed_names rs' m" if n: "n \<in> managed_names rs' m'" for n
  proof (rule ccontr)
    assume "n \<notin> managed_names rs' m"
    with n have "m' ''Pod'' n \<noteq> m ''Pod'' n" by (auto simp: managed_names_def)
    from scales_podD [OF assms(1) this] n obtain rs r where "rs \<in> RS" "m' ''Pod'' n = Some r" "created_for rs n r"
      by (auto simp: managed_names_def)
    with created_for_owner [of rs n r rs'] assms(2) [of rs] n show False by (auto simp: managed_names_def)
  qed
  with same show "managed_names rs' m' = managed_names rs' m" by (auto simp: managed_names_def)
qed

lemma scales_trans:
  assumes "scales {rs} m m1" and "scales RS m1 m2"
    and "\<And>rs'. rs' \<in> RS \<Longrightarrow> managed_names rs' m1 = managed_names rs' m"
  shows "scales (insert rs RS) m m2"
  unfolding scales_def
proof (intro conjI allI)
  fix kind
  show "kind \<noteq> ''Pod'' \<longrightarrow> kind \<noteq> ''ReplicaSet'' \<longrightarrow> m2 kind = m kind"
    using assms(1,2) by (simp add: scales_def)
next
  fix n
  show "m2 ''ReplicaSet'' n = m ''ReplicaSet'' n \<or>
      (\<exists>s\<in>insert rs RS. Name (rsMeta s) = n \<and> (\<exists>r. m2 ''ReplicaSet'' n = Some r \<and> counted_set s r))"
    using scales_rsD [OF assms(1), of n] scales_rsD [OF assms(2), of n] by (cases "m2 ''ReplicaSet'' n = m1 ''ReplicaSet'' n") auto
next
  fix n
  from assms(3) have managed: "n \<in> managed_names rs' m1 \<longleftrightarrow> n \<in> managed_names rs' m" if "rs' \<in> RS" for rs'
    using that by simp
  show "m2 ''Pod'' n = m ''Pod'' n \<or>
      (m ''Pod'' n = None \<or> (\<exists>s\<in>insert rs RS. n \<in> managed_names s m)) \<and>
      (m2 ''Pod'' n = None \<or> (\<exists>s\<in>insert rs RS. \<exists>r. m2 ''Pod'' n = Some r \<and> created_for s n r))"
  proof (cases "m1 ''Pod'' n = m ''Pod'' n")
    case True
    with scales_podD [OF assms(2), of n] managed show ?thesis by auto
  next
    case False
    note first = scales_podD [OF assms(1) False]
    show ?thesis
    proof (cases "m2 ''Pod'' n = m1 ''Pod'' n")
      case True
      with first show ?thesis by auto
    next
      case False
      with first scales_podD [OF assms(2) False] show ?thesis by blast
    qed
  qed
qed

section \<open>One ReplicaSet\<close>

text \<open>\<open>added rs new m m'\<close>: the Pods \<open>new\<close> are created.\<close>

definition added :: "ReplicaSet \<Rightarrow> string list \<Rightarrow> resources \<Rightarrow> resources \<Rightarrow> bool" where
  "added rs new m m' \<longleftrightarrow> distinct new \<and>
     (\<forall>n\<in>set new. m ''Pod'' n = None \<and> (\<exists>r. m' ''Pod'' n = Some r \<and> created_for rs n r)) \<and>
     (\<forall>n. n \<notin> set new \<longrightarrow> m' ''Pod'' n = m ''Pod'' n) \<and>
     (\<forall>kind. kind \<noteq> ''Pod'' \<longrightarrow> m' kind = m kind)"

lemma added_Nil: "added rs [] m m"
  by (simp add: added_def)

lemma added_none [simp]: "added rs [] m m' \<longleftrightarrow> m' = m"
proof
  assume "added rs [] m m'"
  then have "m' kind = m kind" for kind by (cases "kind = ''Pod''") (auto simp: added_def fun_eq_iff)
  then show "m' = m" by (rule ext)
qed (simp add: added_Nil)

lemma added_Cons:
  assumes "m ''Pod'' n = None" and "created_for rs n r"
    and "added rs new (put_resource ''Pod'' n (Some r) m) m'"
  shows "added rs (n # new) m m'"
proof -
  from assms(3) have fresh: "n \<notin> set new" by (auto simp: added_def put_resource_apply)
  with assms have "\<forall>k\<in>set (n # new). m ''Pod'' k = None \<and> (\<exists>r. m' ''Pod'' k = Some r \<and> created_for rs k r)"
    by (simp add: added_def put_resource_apply) (metis option.distinct(1))
  with assms(3) fresh show ?thesis by (simp add: added_def put_resource_apply put_resource_def)
qed

lemma added_managed:
  assumes "added rs new m m'" and "template_matches rs"
  shows "managed_names rs m' = managed_names rs m \<union> set new" and "managed_names rs m \<inter> set new = {}"
proof -
  have new: "n \<in> managed_names rs m' \<and> n \<notin> managed_names rs m" if "n \<in> set new" for n
  proof -
    from assms(1) that obtain r where "m ''Pod'' n = None" "m' ''Pod'' n = Some r" "created_for rs n r"
      by (auto simp: added_def)
    with created_for_owner [of rs n r rs] assms(2) show ?thesis by (auto simp: managed_names_def)
  qed
  moreover have "n \<in> managed_names rs m' \<longleftrightarrow> n \<in> managed_names rs m" if "n \<notin> set new" for n
    using assms(1) that by (simp add: added_def managed_names_def)
  ultimately show "managed_names rs m' = managed_names rs m \<union> set new" "managed_names rs m \<inter> set new = {}"
    by blast+
qed

lemma managed_without: "managed_names rs (without N m) = managed_names rs m - N"
  by (auto simp: managed_names_def)


lemma valid_newPod: "valid_Resource (RReplicaSet rs) \<Longrightarrow> valid_Resource (RPod (newPod rs n))"
  by (simp add: newPod_def Let_def valid_ObjectMeta_def valid_PodTemplateSpec_def
      zero_ObjectMeta_def in_int64_def int64_min_def int64_max_def)

lemma GetName_newPod [simp]: "Name (podMeta (newPod rs n)) = n" "GetName (RPod (newPod rs n)) = n"
  by (simp_all add: newPod_def Let_def)

lemma scales_added: "added rs new m m' \<Longrightarrow> scales {rs} m m'"
  unfolding added_def scales_def by (intro conjI allI) (simp, simp, metis singletonI)

lemma scales_without: "N \<subseteq> managed_names rs m \<Longrightarrow> scales {rs} m (without N m)"
  unfolding scales_def by auto

lemma scales_counted:
  assumes "scales {rs} m m'" and "counted_set rs r"
  shows "scales {rs} m (put_resource ''ReplicaSet'' (Name (rsMeta rs)) (Some r) m')"
proof -
  have "put_resource ''ReplicaSet'' (Name (rsMeta rs)) (Some r) m' kind = m' kind" if "kind \<noteq> ''ReplicaSet''" for kind
    using that by (simp add: put_resource_def)
  moreover have "n = Name (rsMeta rs) \<or> m' ''ReplicaSet'' n = m ''ReplicaSet'' n" for n
    using scales_rsD [OF assms(1), of n] by auto
  ultimately show ?thesis using assms
    unfolding scales_def by (simp add: put_resource_apply) metis
qed

lemma managed_put_rs [simp]: "managed_names rs (put_resource ''ReplicaSet'' n r m) = managed_names rs m"
  by (simp add: managed_names_def put_resource_apply)

context cluster_api begin

lemma create_pods_effect:
  assumes "ok w" and "valid_Resource (RReplicaSet rs)" and "create_pods client rs k L w = (ans, w')"
  shows "ok w' \<and> (\<exists>new. added rs new (res w) (res w') \<and>
    (\<forall>L'. ans = Inr L' \<longrightarrow> length new = k \<and> length L' = length L + k))"
  using assms(1,3)
proof (induction k arbitrary: L w)
  case 0
  then show ?case by (auto simp: returning_def intro: exI [of _ "[]"] added_Nil)
next
  case (Suc k)
  define n where "n = nextPodName rs L"
  have index: "\<exists>i. n = indexed_name (Name (rsMeta rs)) i"
    using first_free_name_least unfolding n_def nextPodName_def by blast
  have valid: "valid_Resource (RPod (newPod rs n))" using assms(2) by (rule valid_newPod)
  obtain a w1 where call: "ResourceClient_Create client Pods (newPod rs n) w = (a, w1)" by fastforce
  show ?case
  proof (cases a)
    case (Inl e)
    with Suc.prems(2) call have "ans = Inl e" "w' = w1" by (simp_all add: andThen_def Let_def n_def)
    with pods.create_error [OF Suc.prems(1) valid call [unfolded Inl]] show ?thesis
      using added_Nil [of rs "res w"] added_Cons [OF _ _ added_Nil, of "res w" n rs]
      index unfolding created_for_def GetName_newPod(2) by (metis isl_def sum.disc(2))
  next
    case (Inr y)
    with Suc.prems(2) call have rest: "create_pods client rs k (L @ [named_pod n]) w1 = (ans, w')"
      by (simp add: andThen_def Let_def n_def)
    from pods.create_ok [OF Suc.prems(1) valid call [unfolded Inr]]
    have w1: "ok w1" "res w ''Pod'' n = None" "created_for rs n (RPod y)"
      "res w1 = put_resource ''Pod'' n (Some (RPod y)) (res w)"
      using index by (simp_all add: created_for_def)
    from Suc.IH [OF w1(1) rest] obtain new where "ok w'" "added rs new (res w1) (res w')"
      "\<forall>L'. ans = Inr L' \<longrightarrow> length new = k \<and> length L' = Suc (length L) + k" by auto
    with added_Cons [where m = "res w" and n = n and rs = rs and r = "RPod y" and new = new] w1 show ?thesis by (intro conjI exI [of _ "n # new"]) auto
  qed
qed

lemma delete_pods_effect:
  assumes "ok w" and "delete_pods client ps w = (ans, w')"
    and "\<And>p. p \<in> set ps \<Longrightarrow> url_clean (Name (podMeta p)) \<and> in_int64 (ResourceVersion (podMeta p))"
  shows "ok w' \<and> (\<exists>N \<subseteq> (\<lambda>p. Name (podMeta p)) ` set ps. res w' = without N (res w) \<and>
    (\<not> isl ans \<longrightarrow> N = (\<lambda>p. Name (podMeta p)) ` set ps))"
  using assms
proof (induction ps arbitrary: w)
  case Nil
  then show ?case by (auto simp: returning_def)
next
  case (Cons p ps)
  define n where "n = Name (podMeta p)"
  from Cons.prems(3) [of p] have p: "url_clean n" "in_int64 (ResourceVersion (podMeta p))" by (simp_all add: n_def)
  obtain a w1 where call: "ResourceClient_Delete client Pods n (ResourceVersion (podMeta p)) w = (a, w1)" by fastforce
  show ?case
  proof (cases a)
    case (Inl e)
    with Cons.prems(2) call have ans: "isl ans" "w' = w1" by (auto simp: andThen_def n_def)
    from pods.delete_error [OF Cons.prems(1) p call [unfolded Inl]]
    have "ok w1 \<and> (res w1 = without {} (res w) \<or> res w1 = without {n} (res w))"
      using without_simps(1) [of "put_resource ''Pod'' n None (res w)"] without_simps(1) [of "res w"] without_simps(2) [of "{}" n "res w"] by metis
    with ans show ?thesis unfolding n_def by (intro conjI) auto
  next
    case (Inr y)
    with Cons.prems(2) call have rest: "delete_pods client ps w1 = (ans, w')"
      by (simp add: andThen_def n_def)
    from pods.delete_ok [OF Cons.prems(1) p, of w1] call Inr
    have w1: "ok w1" "res w1 = put_resource ''Pod'' n None (res w)" by simp_all
    from Cons.IH [OF w1(1) rest] Cons.prems(3) obtain N where N: "ok w'" "N \<subseteq> (\<lambda>p. Name (podMeta p)) ` set ps"
      "res w' = without N (res w1)" "\<not> isl ans \<longrightarrow> N = (\<lambda>p. Name (podMeta p)) ` set ps" by auto
    show ?thesis
      by (intro conjI exI [of _ "insert n N"]) (use N w1(2) in \<open>auto simp: n_def\<close>)
  qed
qed

lemma reconcilePods_effect:
  assumes "ok w" and "res w ''ReplicaSet'' (Name (rsMeta rs)) = Some (RReplicaSet rs)" and "url_clean (Name (rsMeta rs))"
    and "distinct (map (\<lambda>p. Name (podMeta p)) L)" and "(\<lambda>p. Name (podMeta p)) ` set L = managed_names rs (res w)"
    and "\<And>p. p \<in> set L \<Longrightarrow> url_clean (Name (podMeta p)) \<and> in_int64 (ResourceVersion (podMeta p))"
    and "reconcilePods client rs L w = (ans, w')"
  shows "ok w' \<and> scales {rs} (res w) (res w') \<and> (\<not> isl ans \<longrightarrow> template_matches rs \<longrightarrow> satisfied rs (res w'))"
proof -
  from replicaSets.named [OF assms(1,2)] have valid: "valid_Resource (RReplicaSet rs)" by blast
  define S where "S = sort_Slice pod_name_less L"
  have S: "set S = set L" "length S = length L" "distinct (map (\<lambda>p. Name (podMeta p)) S)"
    using assms(4) by (simp_all add: S_def)
  define d where "d = desired_replicas rs"
  have card_L: "card (managed_names rs (res w)) = length L" "finite (managed_names rs (res w))"
    using assms(4) distinct_card [of "map (\<lambda>p. Name (podMeta p)) L"] by (simp_all flip: assms(5))
  define k where "k = d - length S"
  define counted where "counted = rs\<lparr>rsStatus := \<lparr>rsStatusReplicas = int d\<rparr>\<rparr>"
  have desired: "(if rsReplicas (rsSpec rs) < 0 then 0 else rsReplicas (rsSpec rs)) = int d"
    by (simp add: d_def desired_replicas_def)
  have run: "andThen (create_pods client rs k S) (\<lambda>pods. andThen (delete_pods client (drop d pods)) (\<lambda>_.
      if rsStatusReplicas (rsStatus rs) = int d then returning ()
      else andThen (ResourceClient_Update client ReplicaSets (Name (rsMeta rs)) counted) (\<lambda>_. returning ()))) w = (ans, w')"
    using assms(7) unfolding reconcilePods_def Let_def desired S_def [symmetric] counted_def k_def
    by (simp add: nat_minus_as_int)
  obtain a w1 where create: "create_pods client rs k S w = (a, w1)" by fastforce
  from create_pods_effect [OF assms(1) valid create] obtain new where w1: "ok w1" "added rs new (res w) (res w1)"
    and new: "\<forall>L'. a = Inr L' \<longrightarrow> length new = k \<and> length L' = length S + k" by blast
  show ?thesis
  proof (cases a)
    case (Inl e)
    with run create have "isl ans" "w' = w1" by (auto simp: andThen_def)
    with w1 scales_added show ?thesis by blast
  next
    case (Inr L')
    with new have len: "length new = k" "length L' = length S + k" by auto
    obtain b w2 where delete: "delete_pods client (drop d L') w1 = (b, w2)" by fastforce
    have "k = 0 \<Longrightarrow> L' = S" using create Inr by (simp add: returning_def)
    then have surplus: "drop d L' = drop d S" "k = 0 \<or> drop d S = []"
      using len by (cases "k = 0"; simp add: k_def)+
    have sub: "set (drop d L') \<subseteq> set L" using set_drop_subset [of d S] S(1) surplus(1) by simp
    then have listed: "url_clean (Name (podMeta p)) \<and> in_int64 (ResourceVersion (podMeta p))" if "p \<in> set (drop d L')" for p
      using assms(6) that by blast
    from delete_pods_effect [OF w1(1) delete listed] obtain N where w2: "ok w2"
      "N \<subseteq> (\<lambda>p. Name (podMeta p)) ` set (drop d S)" "res w2 = without N (res w1)"
      "\<not> isl b \<longrightarrow> N = (\<lambda>p. Name (podMeta p)) ` set (drop d S)"
      unfolding surplus(1) by blast
    have N: "N \<subseteq> managed_names rs (res w)" using w2(2) sub surplus(1) assms(5) by auto
    have scaled: "scales {rs} (res w) (res w2)"
    proof (cases "k = 0")
      case True
      with w1(2) len added_none have "res w1 = res w" by simp
      with w2(3) scales_without [OF N] show ?thesis by simp
    next
      case False
      with surplus(2) w2(2,3) scales_added [OF w1(2)] show ?thesis by simp
    qed
    have satisfied: "satisfied rs (res w2)" if "\<not> isl b" "template_matches rs"
    proof (cases "k = 0")
      case True
      with w1(2) len added_none have "res w1 = res w" by simp
      have "card N = length (drop d S)"
        using w2(4) that(1) S(3) distinct_card [of "map (\<lambda>p. Name (podMeta p)) (drop d S)"]
          distinct_drop [OF S(3), of d] by (simp add: drop_map)
      with card_L card_Diff_subset [OF finite_subset [OF N] N] True S(2) w2(3) \<open>res w1 = res w\<close>
      show ?thesis by (simp add: satisfied_def managed_without d_def k_def)
    next
      case False
      with surplus(2) w2(2,3) have "res w2 = res w1" by simp
      moreover have "distinct new" using w1(2) by (simp add: added_def)
      ultimately show ?thesis
        using added_managed [OF w1(2) that(2)] card_L card_Un_disjoint [of "managed_names rs (res w)" "set new"]
          len(1) S(2) False
        by (simp add: satisfied_def distinct_card d_def k_def)
    qed
    show ?thesis
    proof (cases b)
      case (Inl e)
      with run create delete Inr have "isl ans" "w' = w2" by (auto simp: andThen_def)
      with w2(1) scaled show ?thesis by blast
    next
      case [simp]: (Inr u)
      show ?thesis
      proof (cases "rsStatusReplicas (rsStatus rs) = int d")
        case True
        with run create delete \<open>a = Inr L'\<close> have "w' = w2" by (auto simp: andThen_def returning_def)
        with w2(1) scaled satisfied show ?thesis by simp
      next
        case False
        obtain c w3 where update: "ResourceClient_Update client ReplicaSets (Name (rsMeta rs)) counted w2 = (c, w3)" by fastforce
        from run create delete \<open>a = Inr L'\<close> False update
        have w': "w' = w3" "isl ans = isl c" by (cases c; auto simp: andThen_def returning_def)+
        have "valid_Resource (RReplicaSet counted)"
          using valid unfolding counted_def d_def desired_replicas_def
          by (auto simp: in_int64_def int64_min_def int64_max_def)
        with replicaSets.update_ok [OF w2(1) _ assms(3), of counted _ w3] replicaSets.update_error [OF w2(1) _ assms(3), of counted _ w3]
          update
        have "ok w3 \<and> (res w3 = res w2 \<or> (\<exists>r. counted_set rs r \<and>
            res w3 = put_resource ''ReplicaSet'' (Name (rsMeta rs)) (Some r) (res w2)))"
          unfolding counted_set_def counted_def d_def by (cases c) (simp, metis, simp, metis)
        with w' scaled satisfied scales_counted [OF scaled] show ?thesis
          by (auto simp: satisfied_def)
      qed
    qed
  qed
qed

section \<open>All ReplicaSets\<close>

text \<open>The ReplicaSets and the Pods the controller has listed.\<close>

definition listed_set :: "Pod list \<Rightarrow> resources \<Rightarrow> ReplicaSet \<Rightarrow> bool" where
  "listed_set P m rs \<longleftrightarrow>
     url_clean (Name (rsMeta rs)) \<and> m ''ReplicaSet'' (Name (rsMeta rs)) = Some (RReplicaSet rs) \<and>
     (\<lambda>p. Name (podMeta p)) ` set (managedPodsForReplicaSet rs P) = managed_names rs m"

definition separate :: "resources \<Rightarrow> ReplicaSet \<Rightarrow> ReplicaSet \<Rightarrow> bool" where
  "separate m rs rs' \<longleftrightarrow>
     Name (rsMeta rs) \<noteq> Name (rsMeta rs') \<and> managed_names rs m \<inter> managed_names rs' m = {}"

definition listed_sets :: "ReplicaSet list \<Rightarrow> Pod list \<Rightarrow> resources \<Rightarrow> bool" where
  "listed_sets RS P m \<longleftrightarrow>
     distinct (map (\<lambda>p. Name (podMeta p)) P) \<and>
     (\<forall>p\<in>set P. url_clean (Name (podMeta p)) \<and> in_int64 (ResourceVersion (podMeta p))) \<and>
     list_all (listed_set P m) RS \<and> sorted_wrt (separate m) RS"

lemma separate_sym: "separate m rs rs' \<Longrightarrow> separate m rs' rs"
  by (auto simp: separate_def)

text \<open>Reconciling one ReplicaSet leaves the others as they were listed, and apart.\<close>

lemma scales_separate:
  assumes "scales {rs} m m'" and "separate m rs rs'"
  shows "managed_names rs' m' = managed_names rs' m" and "separate m' rs rs'"
    and "listed_set P m rs' \<Longrightarrow> listed_set P m' rs'"
proof -
  from assms(2) have apart: "\<And>s. s \<in> {rs} \<Longrightarrow>
      Name (rsMeta s) \<noteq> Name (rsMeta rs') \<and> managed_names s m \<inter> managed_names rs' m = {}"
    by (simp add: separate_def)
  note frame = scales_frame [OF assms(1) apart]
  show same: "managed_names rs' m' = managed_names rs' m" by (rule frame(1))
  have "n \<in> managed_names rs m" if "n \<in> managed_names rs m'" "n \<in> managed_names rs' m" for n
    using that frame(2) [of n] by (simp add: managed_names_def)
  with same assms(2) show "separate m' rs rs'" by (auto simp: separate_def)
  have "m' ''ReplicaSet'' (Name (rsMeta rs')) = m ''ReplicaSet'' (Name (rsMeta rs'))"
    using scales_rsD [OF assms(1), of "Name (rsMeta rs')"] assms(2) by (auto simp: separate_def)
  then show "listed_set P m rs' \<Longrightarrow> listed_set P m' rs'" by (simp add: listed_set_def same)
qed

lemma scales_others:
  assumes "scales {rs} m m'" and "\<forall>rs'\<in>set RS. separate m rs rs'" and "sorted_wrt (separate m) RS"
  shows "sorted_wrt (separate m') RS"
  using assms(2,3)
proof (induction RS)
  case (Cons s RS)
  have "separate m' s t" if "t \<in> set RS" for t
    using Cons.prems that scales_separate(1) [OF assms(1)] by (simp add: separate_def)
  with Cons show ?case by simp
qed simp

lemma reconcile_replicaSets_effect:
  assumes "ok w" and "listed_sets RS P (res w)" and "reconcile_replicaSets client P RS w = (ans, w')"
  shows "ok w' \<and> scales (set RS) (res w) (res w') \<and>
    (\<not> isl ans \<longrightarrow> (\<forall>rs\<in>set RS. template_matches rs \<longrightarrow> satisfied rs (res w')))"
  using assms
proof (induction RS arbitrary: w)
  case Nil
  then show ?case by (simp add: returning_def scales_refl)
next
  case (Cons rs RS)
  from Cons.prems(2) have P: "distinct (map (\<lambda>p. Name (podMeta p)) P)"
    and pods: "\<And>p. p \<in> set P \<Longrightarrow> url_clean (Name (podMeta p)) \<and> in_int64 (ResourceVersion (podMeta p))"
    and rs: "listed_set P (res w) rs" and RS: "list_all (listed_set P (res w)) RS"
    and apart: "\<forall>rs'\<in>set RS. separate (res w) rs rs'" "sorted_wrt (separate (res w)) RS"
    by (simp_all add: listed_sets_def)
  obtain a w1 where head: "reconcilePods client rs (managedPodsForReplicaSet rs P) w = (a, w1)" by fastforce
  have sub: "p \<in> set P" if "p \<in> set (managedPodsForReplicaSet rs P)" for p
    using that by (simp add: managedPodsForReplicaSet_def)
  have dist: "distinct (map (\<lambda>p. Name (podMeta p)) (managedPodsForReplicaSet rs P))"
    using P unfolding managedPodsForReplicaSet_def by (rule distinct_map_filter)
  from rs [unfolded listed_set_def] reconcilePods_effect [OF Cons.prems(1) _ _ dist _ pods [OF sub] head]
  have w1: "ok w1" "scales {rs} (res w) (res w1)" "\<not> isl a \<longrightarrow> template_matches rs \<longrightarrow> satisfied rs (res w1)"
    by blast+
  note others = scales_separate [OF w1(2) bspec [OF apart(1)]]
  show ?case
  proof (cases a)
    case (Inl e)
    with Cons.prems(3) head have "isl ans" "w' = w1" by (auto simp: andThen_def)
    with w1 scales_trans [OF w1(2) scales_refl others(1)] show ?thesis by simp
  next
    case (Inr u)
    with Cons.prems(3) head have rest: "reconcile_replicaSets client P RS w1 = (ans, w')" by (simp add: andThen_def)
    have "list_all (listed_set P (res w1)) RS" using RS others(3) by (simp add: list_all_iff)
    then have "listed_sets RS P (res w1)"
      using P pods scales_others [OF w1(2) apart] by (simp add: listed_sets_def)
    from Cons.IH [OF w1(1) this rest] have w': "ok w'" "scales (set RS) (res w1) (res w')"
      "\<not> isl ans \<longrightarrow> (\<forall>rs\<in>set RS. template_matches rs \<longrightarrow> satisfied rs (res w'))" by auto
    have "managed_names rs (res w') = managed_names rs (res w1)"
      using scales_frame(1) [OF w'(2)] separate_sym [OF others(2)] by (simp add: separate_def)
    with w1(3) Inr have "template_matches rs \<longrightarrow> satisfied rs (res w')" by (simp add: satisfied_def)
    with w' scales_trans [OF w1(2) w'(2) others(1)] show ?thesis by simp
  qed
qed

text \<open>A whole reconciliation, from the listings on.\<close>

lemma ReplicaSetController_effect:
  assumes "ok w" and "\<And>kind name. name \<in> dom (res w kind) \<Longrightarrow> url_clean name"
    and "\<And>rs rs'. rs \<in> replicaSets_of (res w) \<Longrightarrow> rs' \<in> replicaSets_of (res w) \<Longrightarrow>
      Name (rsMeta rs) \<noteq> Name (rsMeta rs') \<Longrightarrow> managed_names rs (res w) \<inter> managed_names rs' (res w) = {}"
    and "ReplicaSetController_Reconcile client w = (ans, w')"
  shows "ok w' \<and> scales (replicaSets_of (res w)) (res w) (res w') \<and>
    (\<not> isl ans \<longrightarrow> (\<forall>rs\<in>replicaSets_of (res w). template_matches rs \<longrightarrow> satisfied rs (res w')))"
proof -
  obtain a w1 where list1: "ResourceClient_List client ReplicaSets w = (a, w1)" by fastforce
  show ?thesis
  proof (cases a)
    case (Inl e)
    with assms(4) list1 have "isl ans" "w' = w1" by (auto simp: ReplicaSetController_Reconcile_def andThen_def)
    with replicaSets.list_error [OF assms(1) list1 [unfolded Inl]] show ?thesis by (simp add: scales_refl)
  next
    case (Inr l)
    note R = replicaSets.list_items [OF assms(1) list1 [unfolded Inr]]
    obtain b w2 where list2: "ResourceClient_List client Pods w1 = (b, w2)" by fastforce
    show ?thesis
    proof (cases b)
      case (Inl e)
      with assms(4) list1 list2 Inr have "isl ans" "w' = w2"
        by (auto simp: ReplicaSetController_Reconcile_def andThen_def)
      with pods.list_error [OF R(1) list2 [unfolded Inl]] R(2) show ?thesis by (simp add: scales_refl)
    next
      case [simp]: (Inr pl)
      note Q = pods.list_items [OF R(1) list2 [unfolded Inr]]
      define RS where "RS = elems (Items l)"
      define P where "P = elems (Items pl)"
      from assms(4) list1 list2 \<open>a = Inr l\<close>
      have run: "reconcile_replicaSets client P RS w2 = (ans, w')"
        by (simp add: ReplicaSetController_Reconcile_def andThen_def RS_def P_def)
      have view: "res w2 = res w" using Q(2) R(2) by simp
      have RS: "distinct (map (\<lambda>rs. Name (rsMeta rs)) RS)"
        "\<And>rs. rs \<in> set RS \<Longrightarrow> res w ''ReplicaSet'' (Name (rsMeta rs)) = Some (RReplicaSet rs)"
        using R(3,4) by (simp_all add: RS_def)
      have P: "distinct (map (\<lambda>p. Name (podMeta p)) P)"
        "\<And>p. p \<in> set P \<Longrightarrow> res w ''Pod'' (Name (podMeta p)) = Some (RPod p)"
        "\<And>n r. res w ''Pod'' n = Some r \<Longrightarrow> \<exists>p\<in>set P. r = RPod p"
        using Q(3-5) R(2) by (simp_all add: P_def)
      have all: "rs \<in> set RS" if "res w ''ReplicaSet'' n = Some (RReplicaSet rs)" for n rs
        using R(5) [OF that] by (auto simp: RS_def)
      have sets: "replicaSets_of (res w) = set RS"
        using all RS(2) unfolding replicaSets_of_def by blast
      have key: "Name (podMeta p) = n" "p \<in> set P" if "res w ''Pod'' n = Some (RPod p)" for n p
        using pods.named [OF assms(1) that] P(3) [OF that] by auto
      have "managed_names rs (res w) = (\<lambda>p. Name (podMeta p)) ` set (managedPodsForReplicaSet rs P)" for rs
        using P(2) key by (fastforce simp: managed_names_def managedPodsForReplicaSet_def manages_def)
      then have listed: "listed_set P (res w) rs" if "rs \<in> set RS" for rs
        using RS(2) [OF that] assms(2) [of "Name (rsMeta rs)" "''ReplicaSet''"] by (simp add: listed_set_def domIff)
      have apart: "sorted_wrt (separate (res w)) RS"
        unfolding sorted_wrt_iff_nth_less
      proof (intro allI impI)
        fix i j assume i: "i < j" "j < length RS"
        with RS(1) have "Name (rsMeta (RS ! i)) \<noteq> Name (rsMeta (RS ! j))"
          by (auto simp: distinct_conv_nth)
        with assms(3) [of "RS ! i" "RS ! j"] i show "separate (res w) (RS ! i) (RS ! j)"
          by (simp add: separate_def sets)
      qed
      have "url_clean (Name (podMeta p)) \<and> in_int64 (ResourceVersion (podMeta p))" if "p \<in> set P" for p
        using P(2) [OF that] pods.named [OF assms(1) P(2) [OF that]] assms(2) by (auto simp: valid_ObjectMeta_def)
      then have "listed_sets RS P (res w2)"
        using P(1) listed apart by (simp add: listed_sets_def list_all_iff view)
      from reconcile_replicaSets_effect [OF Q(1) this run] show ?thesis unfolding view sets .
    qed
  qed
qed

end

section \<open>The property\<close>


definition example_set :: ReplicaSet where
  "example_set = zero_ReplicaSet
     \<lparr>rsMeta := named_meta ''web'', rsSpec := (rsSpec zero_ReplicaSet)\<lparr>rsReplicas := 2,
        rsTemplate := zero_PodTemplateSpec\<lparr>templateSpec := podSpec (example_pod [])\<rparr>\<rparr>\<rparr>"

definition example_scaled :: mem_etcd where
  "example_scaled = mem_create ReplicaSets example_set mem_empty"

lemma example_scaled_clean: "mem_ok example_scaled \<and> names_clean example_scaled"
  unfolding example_scaled_def
  by (intro mem_create_replicaSet mem_empty_clean) code_simp+

context cluster_api begin

lemma only_replicaSet:
  assumes "ok w" and "valid_Resource (RReplicaSet rs)" and "res w ''ReplicaSet'' = Map.empty"
    and "rs' \<in> replicaSets_of (res (snd (ResourceClient_Create client ReplicaSets rs w)))"
  shows "Name (rsMeta rs') = Name (rsMeta rs)"
proof -
  from assms(4) obtain n where n: "res (snd (ResourceClient_Create client ReplicaSets rs w)) ''ReplicaSet'' n = Some (RReplicaSet rs')"
    by (auto simp: replicaSets_of_def)
  have "n = Name (rsMeta rs)"
    using replicaSets.create_extends(2) [OF assms(1,2), of "''ReplicaSet''" n] n assms(3) by simp
  with replicaSets.named [OF replicaSets.create_extends(1) [OF assms(1,2)] n] show ?thesis by simp
qed

end

lemma example_scaled_sets: "rs \<in> replicaSets_of (mem_res example_scaled) \<Longrightarrow> Name (rsMeta rs) = ''web''"
proof -
  assume rs: "rs \<in> replicaSets_of (mem_res example_scaled)"
  have "valid_Resource (RReplicaSet example_set)" by code_simp
  moreover have "mem_res mem_empty ''ReplicaSet'' = Map.empty"
    by (simp add: fun_eq_iff read_view_def objects_of_def mem_empty_def)
  ultimately have "Name (rsMeta rs) = Name (rsMeta example_set)"
    using cluster_api.only_replicaSet [OF etcd_server_cluster_api [OF mem_etcd_server], of mem_empty example_set rs] rs mem_empty_clean
    by (simp add: example_scaled_def mem_create_def mem_ok_def)
  then show ?thesis by (simp add: example_set_def named_meta_def)
qed


end
