(* ===== verification/DeploymentController.thy ===== *)
theory DeploymentController
  imports ReplicaSetController
begin

text \<open>
  What the Deployment controller does: it writes nothing but the ReplicaSets that belong to stored
  Deployments, and when it succeeds each Deployment has a ReplicaSet made from it.
\<close>

section \<open>Specification\<close>

definition rs_name :: "Deployment \<Rightarrow> string" where
  "rs_name d = Name (deploymentMeta d) @ ''-rs''"

definition owned_by :: "Deployment \<Rightarrow> ReplicaSet \<Rightarrow> bool" where
  "owned_by d rs \<longleftrightarrow> hasOwner (elems (OwnerReferences (rsMeta rs))) ''Deployment''
     (Name (deploymentMeta d)) (UID (deploymentMeta d))"

definition norm_rs_spec :: "ReplicaSetSpec \<Rightarrow> ReplicaSetSpec" where
  "norm_rs_spec s = s\<lparr>rsTemplate := norm_PodTemplateSpec (rsTemplate s)\<rparr>"

text \<open>A ReplicaSet is made from the Deployment: its spec, and no owner but the Deployment.\<close>

definition fits :: "Deployment \<Rightarrow> ReplicaSet \<Rightarrow> bool" where
  "fits d rs \<longleftrightarrow> norm_rs_spec (rsSpec rs) = norm_rs_spec (rsSpec (newReplicaSet d)) \<and>
     OwnerReferences (rsMeta rs) = OwnerReferences (rsMeta (newReplicaSet d))"

definition fitting :: "Deployment \<Rightarrow> Resource option \<Rightarrow> bool" where
  "fitting d r \<longleftrightarrow> (\<exists>rs. r = Some (RReplicaSet rs) \<and> fits d rs)"

definition deployed :: "resources \<Rightarrow> Deployment \<Rightarrow> bool" where
  "deployed m d \<longleftrightarrow> (\<exists>n. fitting d (m ''ReplicaSet'' n))"

definition deploys :: "Deployment set \<Rightarrow> resources \<Rightarrow> resources \<Rightarrow> bool" where
  "deploys DS m m' \<longleftrightarrow>
     (\<forall>kind. kind \<noteq> ''ReplicaSet'' \<longrightarrow> m' kind = m kind) \<and>
     (\<forall>n. m' ''ReplicaSet'' n = m ''ReplicaSet'' n \<or>
       (\<exists>d\<in>DS. n = rs_name d \<and> fitting d (m' ''ReplicaSet'' n) \<and>
         (m ''ReplicaSet'' n = None \<or> (\<exists>old. m ''ReplicaSet'' n = Some (RReplicaSet old) \<and> owned_by d old))))"

lemma deploys_refl [simp]: "deploys DS m m"
  by (simp add: deploys_def)

lemma rs_name_inject [simp]: "rs_name d = rs_name d' \<longleftrightarrow> Name (deploymentMeta d) = Name (deploymentMeta d')"
  by (simp add: rs_name_def)

lemma newReplicaSet_fields [simp]:
  "Name (rsMeta (newReplicaSet d)) = rs_name d"
  "OwnerReferences (rsMeta (newReplicaSet d)) =
    Some [\<lparr>ownerKind = ''Deployment'', ownerName = Name (deploymentMeta d), ownerUID = UID (deploymentMeta d)\<rparr>]"
  by (simp_all add: newReplicaSet_def rs_name_def)

lemma fits_owner: "fits d rs \<Longrightarrow> owned_by d' rs \<Longrightarrow> Name (deploymentMeta d') = Name (deploymentMeta d)"
  by (simp add: fits_def owned_by_def hasOwner_def)

lemma deploysD:
  "deploys DS m m' \<Longrightarrow> m' ''ReplicaSet'' n \<noteq> m ''ReplicaSet'' n \<Longrightarrow>
    \<exists>d\<in>DS. n = rs_name d \<and> fitting d (m' ''ReplicaSet'' n) \<and>
      (m ''ReplicaSet'' n = None \<or> (\<exists>old. m ''ReplicaSet'' n = Some (RReplicaSet old) \<and> owned_by d old))"
  unfolding deploys_def by (elim conjE allE [of _ n]) simp

text \<open>What fits another Deployment stays.\<close>

lemma deploys_keeps:
  assumes "deploys DS m m'" and "fitting d (m ''ReplicaSet'' n)"
    and "\<And>d'. d' \<in> DS \<Longrightarrow> Name (deploymentMeta d') \<noteq> Name (deploymentMeta d)"
  shows "m' ''ReplicaSet'' n = m ''ReplicaSet'' n"
proof (rule ccontr)
  assume "m' ''ReplicaSet'' n \<noteq> m ''ReplicaSet'' n"
  from deploysD [OF assms(1) this] assms(2) obtain d' old where "d' \<in> DS" "owned_by d' old" "fits d old"
    by (auto simp: fitting_def)
  with fits_owner assms(3) show False by blast
qed

lemma deploys_insert:
  assumes "deploys {d} m m1" and "deploys DS m1 m2"
    and "\<And>d'. d' \<in> DS \<Longrightarrow> Name (deploymentMeta d') \<noteq> Name (deploymentMeta d)"
  shows "deploys (insert d DS) m m2"
  unfolding deploys_def
proof (intro conjI allI)
  fix kind
  show "kind \<noteq> ''ReplicaSet'' \<longrightarrow> m2 kind = m kind"
    using assms(1,2) by (simp add: deploys_def)
next
  fix n
  show "m2 ''ReplicaSet'' n = m ''ReplicaSet'' n \<or> (\<exists>d\<in>insert d DS. n = rs_name d \<and>
      fitting d (m2 ''ReplicaSet'' n) \<and>
      (m ''ReplicaSet'' n = None \<or> (\<exists>old. m ''ReplicaSet'' n = Some (RReplicaSet old) \<and> owned_by d old)))"
  proof (cases "m2 ''ReplicaSet'' n = m1 ''ReplicaSet'' n")
    case True
    with deploysD [OF assms(1), of n] show ?thesis by auto
  next
    case False
    from deploysD [OF assms(2) False] obtain d' where d': "d' \<in> DS" "n = rs_name d'"
      "fitting d' (m2 ''ReplicaSet'' n)"
      "m1 ''ReplicaSet'' n = None \<or> (\<exists>old. m1 ''ReplicaSet'' n = Some (RReplicaSet old) \<and> owned_by d' old)"
      by blast
    have "m1 ''ReplicaSet'' n = m ''ReplicaSet'' n"
      using deploysD [OF assms(1), of n] d'(2) assms(3) [OF d'(1)] by auto
    with d' show ?thesis by auto
  qed
qed

lemma deploys_put:
  assumes "fits d y" and "m ''ReplicaSet'' (rs_name d) = None \<or>
    (\<exists>old. m ''ReplicaSet'' (rs_name d) = Some (RReplicaSet old) \<and> owned_by d old)"
  shows "deploys {d} m (put_resource ''ReplicaSet'' (rs_name d) (Some (RReplicaSet y)) m)"
    and "deployed (put_resource ''ReplicaSet'' (rs_name d) (Some (RReplicaSet y)) m) d"
proof -
  show "deploys {d} m (put_resource ''ReplicaSet'' (rs_name d) (Some (RReplicaSet y)) m)"
    unfolding deploys_def
  proof (intro conjI allI)
    fix n
    show "put_resource ''ReplicaSet'' (rs_name d) (Some (RReplicaSet y)) m ''ReplicaSet'' n = m ''ReplicaSet'' n \<or>
      (\<exists>d'\<in>{d}. n = rs_name d' \<and>
        fitting d' (put_resource ''ReplicaSet'' (rs_name d) (Some (RReplicaSet y)) m ''ReplicaSet'' n) \<and>
        (m ''ReplicaSet'' n = None \<or> (\<exists>old. m ''ReplicaSet'' n = Some (RReplicaSet old) \<and> owned_by d' old)))"
      using assms by (cases "n = rs_name d") (auto simp: put_resource_apply fitting_def)
  qed (simp add: put_resource_def)
  show "deployed (put_resource ''ReplicaSet'' (rs_name d) (Some (RReplicaSet y)) m) d"
    unfolding deployed_def fitting_def using assms(1)
    by (intro exI [of _ "rs_name d"]) (simp add: put_resource_apply)
qed

section \<open>One Deployment\<close>

definition renewed :: "Deployment \<Rightarrow> ReplicaSet \<Rightarrow> ReplicaSet" where
  "renewed d rs = (newReplicaSet d)
     \<lparr>rsMeta := (rsMeta (newReplicaSet d))\<lparr>ResourceVersion := ResourceVersion (rsMeta rs)\<rparr>, rsStatus := rsStatus rs\<rparr>"

lemma renewed_fields [simp]:
  "rsSpec (renewed d rs) = rsSpec (newReplicaSet d)"
  "OwnerReferences (rsMeta (renewed d rs)) = OwnerReferences (rsMeta (newReplicaSet d))"
  "Name (rsMeta (renewed d rs)) = rs_name d"
  "ResourceVersion (rsMeta (renewed d rs)) = ResourceVersion (rsMeta rs)"
  "rsStatus (renewed d rs) = rsStatus rs"
  by (simp_all add: renewed_def newReplicaSet_def rs_name_def)

lemma valid_newReplicaSet:
  "valid_Resource (RDeployment d) \<Longrightarrow> valid_Resource (RReplicaSet (newReplicaSet d))"
  by (simp add: newReplicaSet_def zero_defs valid_ObjectMeta_def in_int64_def int64_min_def int64_max_def)

lemma valid_renewed:
  "valid_Resource (RDeployment d) \<Longrightarrow> valid_Resource (RReplicaSet rs) \<Longrightarrow> valid_Resource (RReplicaSet (renewed d rs))"
  using valid_newReplicaSet [of d] by (simp add: valid_ObjectMeta_def)

lemma stored_fits:
  assumes "stored_form ''ReplicaSet'' (RReplicaSet x) (RReplicaSet y)" and "rsSpec x = rsSpec (newReplicaSet d)"
    and "OwnerReferences (rsMeta x) = OwnerReferences (rsMeta (newReplicaSet d))"
  shows "fits d y"
proof -
  from assms(1) obtain v where "y = norm_ReplicaSet (ReplicaSet_SetResourceVersion v x)"
    by (auto simp: stored_form_def)
  with assms(2,3) show ?thesis
    by (simp add: fits_def norm_rs_spec_def norm_ReplicaSet_def norm_ObjectMeta_def norm_slice_def empty_slice_def)
qed

lemma find_owned:
  "replicaSetForDeployment d L = Some rs \<Longrightarrow> rs \<in> set L \<and> owned_by d rs"
  unfolding replicaSetForDeployment_def owned_by_def by (auto simp: find_Some_iff)

lemma reconcile_deployments_Cons:
  "reconcile_deployments client L (d # DS) =
    andThen (reconcile_deployments client L [d]) (\<lambda>_. reconcile_deployments client L DS)"
  by (rule ext) (simp add: Let_def andThen_def returning_def split: option.splits sum.splits prod.splits)

lemma reconcile_deployments_one:
  "reconcile_deployments client L [d] =
    (case replicaSetForDeployment d L of
       None \<Rightarrow> andThen (ResourceClient_Create client ReplicaSets (newReplicaSet d)) (\<lambda>_. returning ())
     | Some rs \<Rightarrow>
         if rsSpec rs = rsSpec (newReplicaSet d) \<and> OwnerReferences (rsMeta rs) = OwnerReferences (rsMeta (newReplicaSet d))
         then returning ()
         else andThen (ResourceClient_Update client ReplicaSets (Name (rsMeta rs)) (renewed d rs)) (\<lambda>_. returning ()))"
  by (simp add: Let_def renewed_def split: option.splits)

context cluster_api begin

text \<open>The ReplicaSets a Deployment may meet are as they were listed.\<close>

definition listed_for :: "ReplicaSet list \<Rightarrow> Deployment \<Rightarrow> resources \<Rightarrow> bool" where
  "listed_for L d m \<longleftrightarrow> valid_Resource (RDeployment d) \<and>
     (\<forall>rs\<in>set L. url_clean (Name (rsMeta rs)) \<and> valid_Resource (RReplicaSet rs) \<and>
       (fits d rs \<or> Name (rsMeta rs) = rs_name d \<longrightarrow>
         m ''ReplicaSet'' (Name (rsMeta rs)) = Some (RReplicaSet rs)))"

lemma listed_for_step:
  assumes "listed_for L d m" and "deploys {d'} m m'"
    and "Name (deploymentMeta d') \<noteq> Name (deploymentMeta d)"
  shows "listed_for L d m'"
proof -
  have "m' ''ReplicaSet'' (Name (rsMeta rs)) = m ''ReplicaSet'' (Name (rsMeta rs))"
    if "rs \<in> set L" "fits d rs \<or> Name (rsMeta rs) = rs_name d" for rs
  proof (rule ccontr)
    assume "m' ''ReplicaSet'' (Name (rsMeta rs)) \<noteq> m ''ReplicaSet'' (Name (rsMeta rs))"
    from deploysD [OF assms(2) this] have d': "Name (rsMeta rs) = rs_name d'"
      "m ''ReplicaSet'' (Name (rsMeta rs)) = None \<or>
        (\<exists>old. m ''ReplicaSet'' (Name (rsMeta rs)) = Some (RReplicaSet old) \<and> owned_by d' old)" by auto
    have rs: "m ''ReplicaSet'' (Name (rsMeta rs)) = Some (RReplicaSet rs)"
      using assms(1) that by (auto simp: listed_for_def)
    show False
    proof (cases "fits d rs")
      case True
      with rs d'(2) fits_owner [OF True, of d'] assms(3) show False by auto
    next
      case False
      with that(2) d'(1) assms(3) show False by simp
    qed
  qed
  with assms(1) show ?thesis by (auto simp: listed_for_def)
qed

lemma deployment_round:
  assumes "ok w" and "listed_for L d (res w)" and "reconcile_deployments client L [d] w = (ans, w')"
  shows "ok w' \<and> deploys {d} (res w) (res w') \<and> (\<not> isl ans \<longrightarrow> deployed (res w') d)"
proof (cases "replicaSetForDeployment d L")
  case None
  from assms(2) have valid: "valid_Resource (RReplicaSet (newReplicaSet d))"
    by (intro valid_newReplicaSet) (simp add: listed_for_def)
  have form: "fits d y" if "stored_form ''ReplicaSet'' (RReplicaSet (newReplicaSet d)) (RReplicaSet y)" for y
    using stored_fits [OF that] by simp
  obtain a w1 where call: "ResourceClient_Create client ReplicaSets (newReplicaSet d) w = (a, w1)" by fastforce
  have w': "w' = w1" "isl ans = isl a"
    using assms(3) None call unfolding reconcile_deployments_one by (cases a; auto simp: andThen_def returning_def)+
  show ?thesis
  proof (cases a)
    case (Inl e)
    from replicaSets.create_error [OF assms(1) valid call [unfolded Inl]] form w' Inl
    show ?thesis using deploys_put(1) [of d _ "res w"] by auto
  next
    case (Inr y)
    from replicaSets.create_ok [OF assms(1) valid call [unfolded Inr]] form w' Inr
    show ?thesis using deploys_put [of d y "res w"] by auto
  qed
next
  case (Some rs)
  from find_owned [OF this] have rs: "rs \<in> set L" "owned_by d rs" by simp_all
  with assms(2) have valid: "valid_Resource (RReplicaSet (renewed d rs))" and clean: "url_clean (Name (rsMeta rs))"
    and stored: "fits d rs \<or> Name (rsMeta rs) = rs_name d \<Longrightarrow> res w ''ReplicaSet'' (Name (rsMeta rs)) = Some (RReplicaSet rs)"
    using valid_renewed [of d rs] unfolding listed_for_def by blast+
  show ?thesis
  proof (cases "rsSpec rs = rsSpec (newReplicaSet d) \<and> OwnerReferences (rsMeta rs) = OwnerReferences (rsMeta (newReplicaSet d))")
    case True
    then have "fits d rs" by (simp add: fits_def)
    with stored have "deployed (res w) d" by (auto simp: deployed_def fitting_def)
    moreover have "w' = w" using assms(3) Some True unfolding reconcile_deployments_one by (simp add: returning_def)
    ultimately show ?thesis using assms(1) by simp
  next
    case False
    have form: "fits d y" if "stored_form ''ReplicaSet'' (RReplicaSet (renewed d rs)) (RReplicaSet y)" for y
      using stored_fits [OF that] by simp
    obtain a w1 where call: "ResourceClient_Update client ReplicaSets (Name (rsMeta rs)) (renewed d rs) w = (a, w1)"
      by fastforce
    have w': "w' = w1" "isl ans = isl a"
      using assms(3) Some False call unfolding reconcile_deployments_one
      by (cases a; auto simp: andThen_def returning_def)+
    show ?thesis
    proof (cases a)
      case (Inl e)
      from replicaSets.update_error [OF assms(1) valid clean call [unfolded Inl]] form w' Inl stored rs(2)
      show ?thesis using deploys_put(1) [of d _ "res w"] by auto
    next
      case (Inr y)
      from replicaSets.update_ok [OF assms(1) valid clean call [unfolded Inr]] form w' Inr stored rs(2)
      show ?thesis using deploys_put [of d y "res w"] by auto
    qed
  qed
qed

lemma reconcile_deployments_effect:
  assumes "ok w" and "\<And>d. d \<in> set DS \<Longrightarrow> listed_for L d (res w)"
    and "distinct (map (\<lambda>d. Name (deploymentMeta d)) DS)" and "reconcile_deployments client L DS w = (ans, w')"
  shows "ok w' \<and> deploys (set DS) (res w) (res w') \<and> (\<not> isl ans \<longrightarrow> (\<forall>d\<in>set DS. deployed (res w') d))"
  using assms
proof (induction DS arbitrary: w)
  case Nil
  then show ?case by (simp add: returning_def)
next
  case (Cons d DS)
  obtain a w1 where head: "reconcile_deployments client L [d] w = (a, w1)" by fastforce
  from deployment_round [OF Cons.prems(1) Cons.prems(2) head] have w1: "ok w1" "deploys {d} (res w) (res w1)"
    "\<not> isl a \<longrightarrow> deployed (res w1) d" by simp_all
  have apart: "Name (deploymentMeta d') \<noteq> Name (deploymentMeta d)" if "d' \<in> set DS" for d'
    using Cons.prems(3) that by (auto simp: image_iff)
  show ?case
  proof (cases a)
    case (Inl e)
    with Cons.prems(4) head have "isl ans" "w' = w1"
      unfolding reconcile_deployments_Cons [of client L d DS] by (auto simp: andThen_def)
    with w1(1) deploys_insert [OF w1(2) deploys_refl apart] show ?thesis by simp
  next
    case (Inr u)
    with Cons.prems(4) head have rest: "reconcile_deployments client L DS w1 = (ans, w')"
      unfolding reconcile_deployments_Cons [of client L d DS] by (simp add: andThen_def)
    have "listed_for L d' (res w1)" if "d' \<in> set DS" for d'
      using listed_for_step [OF Cons.prems(2) w1(2)] apart [OF that] that by simp
    from Cons.IH [OF w1(1) this _ rest] Cons.prems(3) have tail: "ok w'" "deploys (set DS) (res w1) (res w')"
      "\<not> isl ans \<longrightarrow> (\<forall>d\<in>set DS. deployed (res w') d)" by auto
    have "deployed (res w') d"
    proof -
      from w1(3) Inr obtain n where n: "fitting d (res w1 ''ReplicaSet'' n)" by (auto simp: deployed_def)
      have "res w' ''ReplicaSet'' n = res w1 ''ReplicaSet'' n"
        by (rule deploys_keeps [OF tail(2) n]) (rule apart)
      with n show ?thesis unfolding deployed_def by (intro exI [of _ n]) simp
    qed
    with tail deploys_insert [OF w1(2) tail(2) apart] show ?thesis by simp
  qed
qed

lemma DeploymentController_effect:
  assumes "ok w" and "\<And>kind name. name \<in> dom (res w kind) \<Longrightarrow> url_clean name"
    and "DeploymentController_Reconcile client w = (ans, w')"
  defines "DS \<equiv> {d. \<exists>n. res w ''Deployment'' n = Some (RDeployment d)}"
  shows "ok w' \<and> deploys DS (res w) (res w') \<and> (\<not> isl ans \<longrightarrow> (\<forall>d\<in>DS. deployed (res w') d))"
proof -
  obtain a w1 where list1: "ResourceClient_List client Deployments w = (a, w1)" by fastforce
  show ?thesis
  proof (cases a)
    case (Inl e)
    with assms(3) list1 have "isl ans" "w' = w1" by (auto simp: DeploymentController_Reconcile_def andThen_def)
    with deployments.list_error [OF assms(1) list1 [unfolded Inl]] show ?thesis by simp
  next
    case (Inr dl)
    note D = deployments.list_items [OF assms(1) list1 [unfolded Inr]]
    obtain b w2 where list2: "ResourceClient_List client ReplicaSets w1 = (b, w2)" by fastforce
    show ?thesis
    proof (cases b)
      case (Inl e)
      with assms(3) list1 list2 Inr have "isl ans" "w' = w2"
        by (auto simp: DeploymentController_Reconcile_def andThen_def)
      with replicaSets.list_error [OF D(1) list2 [unfolded Inl]] D(2) show ?thesis by simp
    next
      case [simp]: (Inr rl)
      note R = replicaSets.list_items [OF D(1) list2 [unfolded Inr]]
      have view: "res w2 = res w" using R(2) D(2) by simp
      from assms(3) list1 list2 \<open>a = Inr dl\<close>
      have run: "reconcile_deployments client (elems (Items rl)) (elems (Items dl)) w2 = (ans, w')"
        by (simp add: DeploymentController_Reconcile_def andThen_def)
      have DS: "DS = set (elems (Items dl))"
        using D(4,5) unfolding DS_def by fastforce
      have listed: "listed_for (elems (Items rl)) d (res w2)" if d: "d \<in> set (elems (Items dl))" for d
      proof -
        have "valid_Resource (RDeployment d)" using deployments.named [OF assms(1) D(4) [OF d]] by simp
        moreover have "url_clean (Name (rsMeta rs)) \<and> valid_Resource (RReplicaSet rs) \<and>
            res w2 ''ReplicaSet'' (Name (rsMeta rs)) = Some (RReplicaSet rs)" if "rs \<in> set (elems (Items rl))" for rs
        proof -
          have rs: "res w ''ReplicaSet'' (Name (rsMeta rs)) = Some (RReplicaSet rs)"
            using R(4) [OF that] D(2) by simp
          then have "Name (rsMeta rs) \<in> dom (res w ''ReplicaSet'')" by blast
          with assms(2) replicaSets.named [OF assms(1) rs] rs view show ?thesis by auto
        qed
        ultimately show ?thesis unfolding listed_for_def by blast
      qed
      have "distinct (map (\<lambda>d. Name (deploymentMeta d)) (elems (Items dl)))" using D(3) by simp
      from reconcile_deployments_effect [OF R(1) listed this run] show ?thesis unfolding view DS .
    qed
  qed
qed

end

section \<open>The property\<close>

definition deployments_of :: "resources \<Rightarrow> Deployment set" where
  "deployments_of m = {d. \<exists>n. m ''Deployment'' n = Some (RDeployment d)}"

text \<open>
  C6: a reconciliation of the Deployment controller, on every path, writes nothing but ReplicaSets
  named after stored Deployments, where there was none or one the Deployment owns, and what it writes
  is made from the Deployment; when it succeeds every Deployment has a ReplicaSet with its number of
  replicas, selector and template, owned by it alone.
\<close>

theorem deployments_converge:
  assumes "etcd_server client kvs revision invar" and "invar w" and "objects_ok (objects_of (kvs w))"
    and "\<And>kind name. name \<in> dom (read_view (objects_of (kvs w)) kind) \<Longrightarrow> url_clean name"
    and "DeploymentController_Reconcile (api_client (NewEtcdClient client)) w = (ans, w')"
  shows "deploys (deployments_of (read_view (objects_of (kvs w))))
      (read_view (objects_of (kvs w))) (read_view (objects_of (kvs w'))) \<and>
    (\<not> isl ans \<longrightarrow> (\<forall>d \<in> deployments_of (read_view (objects_of (kvs w))).
      deployed (read_view (objects_of (kvs w'))) d))"
proof -
  have ok: "invar w \<and> objects_ok (objects_of (kvs w))" using assms(2,3) by simp
  from conjunct2 [OF cluster_api.DeploymentController_effect [OF etcd_server_cluster_api [OF assms(1)] ok _ assms(5)]]
    assms(4) show ?thesis unfolding deployments_of_def by blast
qed

definition example_deployment :: Deployment where
  "example_deployment = zero_Deployment\<lparr>deploymentMeta := named_meta ''web'',
     deploymentSpec := (deploymentSpec zero_Deployment)\<lparr>deploymentReplicas := 2,
       deploymentTemplate := zero_PodTemplateSpec\<lparr>templateSpec := podSpec (example_pod [])\<rparr>\<rparr>\<rparr>"

definition example_deployed :: mem_etcd where
  "example_deployed = mem_create Deployments example_deployment mem_empty"

lemma example_deployed_clean: "mem_ok example_deployed \<and> names_clean example_deployed"
  unfolding example_deployed_def
  by (intro mem_create_deployment mem_empty_clean) code_simp+

lemma deployments_converge_witness:
  "\<exists>d. deploymentReplicas (deploymentSpec d) = 2 \<and>
    deployed (mem_res (snd (DeploymentController_Reconcile mem_api example_deployed))) d"
proof -
  note clean = mem_cleanD [OF example_deployed_clean]
  have ok: "\<not> isl (fst (DeploymentController_Reconcile mem_api example_deployed))" by code_simp
  obtain ans w where run: "DeploymentController_Reconcile mem_api example_deployed = (ans, w)" by fastforce
  have "case mem_res example_deployed ''Deployment'' ''web'' of
      Some (RDeployment d) \<Rightarrow> deploymentReplicas (deploymentSpec d) = 2 | _ \<Rightarrow> False" by code_simp
  then obtain d where d: "d \<in> deployments_of (mem_res example_deployed)" "deploymentReplicas (deploymentSpec d) = 2"
    by (auto simp: deployments_of_def split: option.splits Resource.splits)
  have "\<not> isl ans \<longrightarrow> (\<forall>d \<in> deployments_of (mem_res example_deployed). deployed (mem_res w) d)"
    by (rule conjunct2 [OF deployments_converge [OF mem_etcd_server clean(1,2)]])
      (rule clean(3), assumption, rule run)
  with ok d show ?thesis unfolding run by auto
qed

end
