(* ===== verification/Exec.thy ===== *)
theory Exec
  imports Prelude
begin

text \<open>
  The commands the program starts with \<^verbatim>\<open>os/exec\<close>. What a command does is an argument of the
  definitions: it takes the program with its arguments and the standard input, changes the world,
  and gives its combined output and its error, if it failed.
\<close>

type_synonym 'w exec = "string list \<Rightarrow> string \<Rightarrow> 'w \<Rightarrow> (string \<times> goerror option) \<times> 'w"

text \<open>
  \<open>exec_run\<close> is the helper \<^verbatim>\<open>run\<close> of \<^verbatim>\<open>cni/cni.go\<close> and \<^verbatim>\<open>runNetworkCommand\<close> of
  \<^verbatim>\<open>node/network.go\<close>, which are the same code.
\<close>

definition exec_run :: "'w exec \<Rightarrow> string \<Rightarrow> string list \<Rightarrow> ('w, unit) operation" where
  "exec_run run name args w =
     (case run (name # args) [] w of
        ((output, Some err), w') \<Rightarrow> (Inl (WrapErrorDetail name err (strings_TrimSpace output)), w')
      | ((output, None), w') \<Rightarrow> (Inr (), w'))"

text \<open>
  A deferred clean-up that runs when the rest of the function returns an error; its own result is
  dropped.
\<close>

definition cleaning_up :: "('w, 'c) operation \<Rightarrow> ('w, 'a) operation \<Rightarrow> ('w, 'a) operation" where
  "cleaning_up cleanup m w =
     (case m w of (Inl e, w') \<Rightarrow> (Inl e, snd (cleanup w')) | r \<Rightarrow> r)"

lemma keeps_cleaning_up [intro]:
  assumes "keeps ok view cleanup" and "keeps ok view m"
  shows "keeps ok view (cleaning_up cleanup m)"
  unfolding keeps_def
proof (intro allI impI)
  fix w res w' assume w: "ok w" and run: "cleaning_up cleanup m w = (res, w')"
  obtain r w1 where r: "m w = (r, w1)" by fastforce
  obtain c w2 where c: "cleanup w1 = (c, w2)" by fastforce
  from keepsD [OF assms(2) w r] have "ok w1" "view w1 = view w" by auto
  with keepsD [OF assms(1) _ c] r c run show "ok w' \<and> view w' = view w"
    by (cases r) (auto simp: cleaning_up_def)
qed

text \<open>
  A machine that records the commands it is given, for the theorems about what a component
  executes: \<open>fails\<close> tells which commands fail, from the commands run before.
\<close>

definition recording :: "(string list list \<Rightarrow> string list \<Rightarrow> bool) \<Rightarrow> (string list list) exec" where
  "recording fails args input log =
     (([], if fails log args then Some (NewError ''exit status 1'') else None), log @ [args])"

text \<open>All the commands an operation runs on the recording machine satisfy a predicate.\<close>

definition only_runs :: "(string list \<Rightarrow> bool) \<Rightarrow> (string list list, 'a) operation \<Rightarrow> bool" where
  "only_runs P m \<longleftrightarrow> (\<forall>log. \<exists>commands. snd (m log) = log @ commands \<and> list_all P commands)"

lemma only_runsE:
  assumes "only_runs P m" and "m log = (r, log')"
  obtains commands where "log' = log @ commands" "list_all P commands"
  using assms by (metis only_runs_def snd_conv)

lemma only_runs_returning [simp]: "only_runs P (returning a)"
  by (simp add: only_runs_def returning_def)

lemma only_runs_failing [simp]: "only_runs P (failing e)"
  by (simp add: only_runs_def failing_def)

lemma exec_run_recording:
  "exec_run (recording fails) name args log =
    (if fails log (name # args) then Inl (WrapErrorDetail name (NewError ''exit status 1'') [])
     else Inr (), log @ [name # args])"
  by (simp add: exec_run_def recording_def strings_TrimSpace_def)

lemma only_runs_exec [simp]: "only_runs P (exec_run (recording fails) name args) \<longleftrightarrow> P (name # args)"
  by (simp add: only_runs_def exec_run_recording)

lemma snd_wrapping [simp]: "snd (wrapping what m w) = snd (m w)"
  by (simp add: wrapping_def split: sum.splits prod.splits)

lemma only_runs_wrapping [simp]: "only_runs P (wrapping what m) \<longleftrightarrow> only_runs P m"
  by (simp add: only_runs_def)

lemma only_runs_andThen [intro]:
  assumes "only_runs P m" and "\<And>a. only_runs P (f a)"
  shows "only_runs P (andThen m f)"
  unfolding only_runs_def
proof
  fix log
  obtain r log1 where m: "m log = (r, log1)" by fastforce
  from assms(1) m obtain c1 where c1: "log1 = log @ c1" "list_all P c1" by (rule only_runsE)
  show "\<exists>commands. snd (andThen m f log) = log @ commands \<and> list_all P commands"
  proof (cases r)
    case (Inl e)
    with m c1 show ?thesis by (simp add: andThen_def)
  next
    case (Inr a)
    obtain c2 where "snd (f a log1) = log1 @ c2" "list_all P c2"
      using assms(2) [of a] unfolding only_runs_def by blast
    with Inr m c1 show ?thesis by (auto simp: andThen_def)
  qed
qed

end
