(* ===== verification/KubeProxy.thy ===== *)
theory KubeProxy
  imports Scheduler NetAddr Exec "HOL-Library.Product_Lexorder"
begin

text \<open>
  The service proxy of \<^verbatim>\<open>kube-proxy/proxy.go\<close>: the forwarding rules of the Services and their
  Running Pods, the reconciliation that hands them to a forwarder, and the nftables forwarder,
  which writes them as an \<^verbatim>\<open>nft\<close> script.
\<close>

section \<open>Rules\<close>

record Rule =
  ruleClusterIP :: string
  rulePort :: int
  ruleNodePort :: int
  rulePodIP :: string
  ruleTargetPort :: int

definition endpoint :: "Service \<Rightarrow> Pod \<Rightarrow> bool" where
  "endpoint service pod \<longleftrightarrow>
     \<not> (podPhase (podStatus pod) \<noteq> PodRunning \<or> PodIP (podStatus pod) = [] \<or>
        \<not> LabelsMatch (svcSelector (svcSpec service)) (Labels (podMeta pod)))"

definition rule_of :: "Service \<Rightarrow> int \<Rightarrow> Pod \<Rightarrow> Rule" where
  "rule_of service nodePort pod =
     \<lparr>ruleClusterIP = ClusterIP (svcSpec service), rulePort = svcPort (svcSpec service),
      ruleNodePort = nodePort, rulePodIP = PodIP (podStatus pod),
      ruleTargetPort = TargetPort (svcSpec service)\<rparr>"

fun pod_rules :: "Service \<Rightarrow> int \<Rightarrow> Pod list \<Rightarrow> Rule list result" where
  "pod_rules service nodePort [] = Inr []"
| "pod_rules service nodePort (pod # pods) =
     (if \<not> endpoint service pod then pod_rules service nodePort pods
      else case ParseAddr (PodIP (podStatus pod)) of
          None \<Rightarrow> Inl (WrapError (''Pod '' @ Name (podMeta pod) @ '' has invalid PodIP'')
                    (NewError ''netip''))
        | Some podIP \<Rightarrow>
            if \<not> Is4 podIP
            then Inl (NewError (''Pod '' @ Name (podMeta pod) @ '' PodIP must be IPv4''))
            else (case pod_rules service nodePort pods of
                    Inl e \<Rightarrow> Inl e
                  | Inr rules \<Rightarrow> Inr (rule_of service nodePort pod # rules)))"

definition routable :: "Service \<Rightarrow> bool" where
  "routable service \<longleftrightarrow>
     \<not> (ClusterIP (svcSpec service) = [] \<or> svcPort (svcSpec service) < 1 \<or>
        TargetPort (svcSpec service) < 1)"

definition rule_node_port :: "Service \<Rightarrow> int" where
  "rule_node_port service =
     (if svcType (svcSpec service) = ServiceNodePort then svcNodePort (svcSpec service) else 0)"

fun services_rules :: "Service list \<Rightarrow> Pod list \<Rightarrow> Rule list result" where
  "services_rules [] pods = Inr []"
| "services_rules (service # services) pods =
     (if \<not> routable service then services_rules services pods
      else case ParseAddr (ClusterIP (svcSpec service)) of
          None \<Rightarrow> Inl (WrapError (''service '' @ Name (svcMeta service) @ '' has invalid ClusterIP'')
                    (NewError ''netip''))
        | Some clusterIP \<Rightarrow>
            if \<not> Is4 clusterIP
            then Inl (NewError (''service '' @ Name (svcMeta service) @ '' ClusterIP must be IPv4''))
            else (case pod_rules service (rule_node_port service) pods of
                    Inl e \<Rightarrow> Inl e
                  | Inr rules \<Rightarrow>
                      (case services_rules services pods of
                         Inl e \<Rightarrow> Inl e
                       | Inr others \<Rightarrow> Inr (rules @ others))))"

definition rule_less :: "Rule \<Rightarrow> Rule \<Rightarrow> bool" where
  "rule_less a b =
     (if ruleClusterIP a \<noteq> ruleClusterIP b then ruleClusterIP a < ruleClusterIP b
      else if rulePort a \<noteq> rulePort b then rulePort a < rulePort b
      else rulePodIP a < rulePodIP b)"

definition serviceRules :: "Service list \<Rightarrow> Pod list \<Rightarrow> Rule list result" where
  "serviceRules services pods =
     (case services_rules services pods of
        Inl e \<Rightarrow> Inl e
      | Inr rules \<Rightarrow> Inr (sort_Slice rule_less rules))"

definition Rule_String :: "Rule \<Rightarrow> string" where
  "Rule_String rule =
     ruleClusterIP rule @ '':'' @ strconv_Itoa (rulePort rule) @ '' -> '' @ rulePodIP rule
       @ '':'' @ strconv_Itoa (ruleTargetPort rule)"

section \<open>The reconciliation\<close>

record KubeProxy =
  lastRules :: "Rule slice"

definition KubeProxy_Reconcile ::
    "'w Client \<Rightarrow> (Rule list \<Rightarrow> ('w, unit) operation) \<Rightarrow> (KubeProxy \<times> 'w, unit) operation" where
  "KubeProxy_Reconcile client forwarder_Replace =
     andThen (on_world (ResourceClient_List client Services)) (\<lambda>services.
       andThen (on_world (ResourceClient_List client Pods)) (\<lambda>pods.
         case serviceRules (elems (Items services)) (elems (Items pods)) of
           Inl e \<Rightarrow> failing e
         | Inr rules \<Rightarrow>
             andThen (on_world (forwarder_Replace rules)) (\<lambda>_.
               andThen get_memory (\<lambda>proxy.
                 if lastRules proxy \<noteq> Some rules
                 then put_memory (proxy\<lparr>lastRules := Some rules\<rparr>)
                 else returning ()))))"

definition KubeProxy_watch :: "'w Client \<Rightarrow> ('w, goerror option list) operation" where
  "KubeProxy_watch client =
     CombineWatches [list_and_watch client Services, list_and_watch client Pods]"

section \<open>The nftables forwarder\<close>

definition nft_header :: "string \<Rightarrow> string list" where
  "nft_header table =
     [''add table ip '' @ table,
      ''add chain ip '' @ table
        @ '' prerouting { type nat hook prerouting priority -100; policy accept; }'',
      ''add chain ip '' @ table
        @ '' output { type nat hook output priority -100; policy accept; }'',
      ''add chain ip '' @ table
        @ '' postrouting { type nat hook postrouting priority 100; policy accept; }'']"

definition nft_target :: "Rule \<Rightarrow> string" where
  "nft_target rule = rulePodIP rule @ '':'' @ strconv_Itoa (ruleTargetPort rule)"

definition nft_rule :: "string \<Rightarrow> Rule \<Rightarrow> string list" where
  "nft_rule table rule =
     [''add rule ip '' @ table @ '' prerouting ip daddr '' @ ruleClusterIP rule @ '' tcp dport ''
        @ strconv_Itoa (rulePort rule) @ '' dnat to '' @ nft_target rule,
      ''add rule ip '' @ table @ '' output ip daddr '' @ ruleClusterIP rule @ '' tcp dport ''
        @ strconv_Itoa (rulePort rule) @ '' dnat to '' @ nft_target rule]
     @ (if ruleNodePort rule \<noteq> 0
        then [''add rule ip '' @ table @ '' prerouting tcp dport ''
                @ strconv_Itoa (ruleNodePort rule) @ '' dnat to '' @ nft_target rule,
              ''add rule ip '' @ table @ '' output tcp dport ''
                @ strconv_Itoa (ruleNodePort rule) @ '' dnat to '' @ nft_target rule,
              ''add rule ip '' @ table @ '' postrouting ip daddr '' @ rulePodIP rule
                @ '' tcp dport '' @ strconv_Itoa (ruleTargetPort rule) @ '' masquerade'']
        else [])"

definition nft_commands :: "string \<Rightarrow> Rule list \<Rightarrow> string list" where
  "nft_commands table rules = nft_header table @ concat (map (nft_rule table) rules)"

definition NftablesForwarder_Replace ::
    "'w exec \<Rightarrow> string \<Rightarrow> Rule list \<Rightarrow> ('w, unit) operation" where
  "NftablesForwarder_Replace run table rules w =
     (let apply_rules = (\<lambda>w1.
        (case run [''nft'', ''-f'', ''-''] (strings_Join (nft_commands table rules) [CHR 0x0A] @ [CHR 0x0A]) w1 of
           ((output, Some e), w2) \<Rightarrow> (Inl (WrapErrorDetail ''apply nftables rules'' e (strings_TrimSpace output)), w2)
         | ((output, None), w2) \<Rightarrow> (Inr (), w2)))
      in case run [''nft'', ''list'', ''table'', ''ip'', table] [] w of
           ((_, Some _), w1) \<Rightarrow> apply_rules w1
         | ((_, None), w1) \<Rightarrow>
             (case run [''nft'', ''delete'', ''table'', ''ip'', table] [] w1 of
                ((_, Some e), w2) \<Rightarrow> (Inl (WrapError ''delete nftables table'' e), w2)
              | ((_, None), w2) \<Rightarrow> apply_rules w2))"

section \<open>The rules of a listing\<close>

text \<open>
  The rules a listing stands for, without the order: one per routable Service and endpoint.
\<close>

definition rules_spec :: "Service list \<Rightarrow> Pod list \<Rightarrow> Rule list" where
  "rules_spec services pods =
     concat (map (\<lambda>s. map (rule_of s (rule_node_port s)) (filter (endpoint s) pods))
       (filter routable services))"

definition ipv4_text :: "string \<Rightarrow> bool" where
  "ipv4_text s \<longleftrightarrow> (\<exists>a. ParseAddr s = Some a \<and> Is4 a)"

lemma pod_rules_ok:
  "pod_rules s np pods = Inr rules \<longleftrightarrow>
     rules = map (rule_of s np) (filter (endpoint s) pods) \<and>
     (\<forall>p\<in>set pods. endpoint s p \<longrightarrow> ipv4_text (PodIP (podStatus p)))"
  by (induction pods arbitrary: rules)
    (auto simp: ipv4_text_def split: option.splits sum.splits)

lemma services_rules_ok:
  "services_rules services pods = Inr rules \<longleftrightarrow>
     rules = rules_spec services pods \<and>
     (\<forall>s\<in>set services. routable s \<longrightarrow> ipv4_text (ClusterIP (svcSpec s)) \<and>
       (\<forall>p\<in>set pods. endpoint s p \<longrightarrow> ipv4_text (PodIP (podStatus p))))"
proof (induction services arbitrary: rules)
  case Nil
  then show ?case by (auto simp: rules_spec_def)
next
  case (Cons s services)
  show ?case
  proof (cases "routable s \<and> ipv4_text (ClusterIP (svcSpec s))")
    case True
    then obtain a where "ParseAddr (ClusterIP (svcSpec s)) = Some a" "Is4 a"
      by (auto simp: ipv4_text_def)
    with True Cons.IH show ?thesis
      using pod_rules_ok [of s "rule_node_port s" pods]
      by (auto simp: rules_spec_def split: sum.splits)
  next
    case False
    with Cons.IH show ?thesis
      by (auto simp: rules_spec_def ipv4_text_def split: option.splits)
  qed
qed

text \<open>The order of the rules is that of their address, port and endpoint.\<close>

definition rule_key :: "Rule \<Rightarrow> string \<times> int \<times> string" where
  "rule_key r = (ruleClusterIP r, rulePort r, rulePodIP r)"

lemma rule_less_key: "rule_less = (\<lambda>a b. rule_key a < rule_key b)"
  by (auto simp: rule_less_def rule_key_def fun_eq_iff)

lemma rule_less_order: "strict_weak_order rule_less"
  unfolding rule_less_key by (rule strict_weak_order_key)

lemma rules_specD:
  "set (rules_spec services pods) =
     {rule_of s (rule_node_port s) p | s p. s \<in> set services \<and> routable s \<and> p \<in> set pods \<and> endpoint s p}"
  by (auto simp: rules_spec_def)

lemma serviceRules_ok:
  "serviceRules services pods = Inr rules \<longleftrightarrow>
     rules = sort_Slice rule_less (rules_spec services pods) \<and>
     (\<forall>s\<in>set services. routable s \<longrightarrow> ipv4_text (ClusterIP (svcSpec s)) \<and>
       (\<forall>p\<in>set pods. endpoint s p \<longrightarrow> ipv4_text (PodIP (podStatus p))))"
proof -
  have "serviceRules services pods = Inr rules \<longleftrightarrow>
      (\<exists>unsorted. services_rules services pods = Inr unsorted \<and> rules = sort_Slice rule_less unsorted)"
    by (auto simp: serviceRules_def split: sum.splits)
  then show ?thesis unfolding services_rules_ok by blast
qed

section \<open>What the proxy forwards\<close>

text \<open>The rules the stored Services and Pods ask for, and whether all their addresses are IPv4.\<close>

definition stored_service :: "resources \<Rightarrow> Service \<Rightarrow> bool" where
  "stored_service m s \<longleftrightarrow> m ''Service'' (Name (svcMeta s)) = Some (RService s)"

definition stored_pod :: "resources \<Rightarrow> Pod \<Rightarrow> bool" where
  "stored_pod m p \<longleftrightarrow> m ''Pod'' (Name (podMeta p)) = Some (RPod p)"

definition wanted_rules :: "resources \<Rightarrow> Rule set" where
  "wanted_rules m = {rule_of s (rule_node_port s) p | s p.
     stored_service m s \<and> routable s \<and> stored_pod m p \<and> endpoint s p}"

definition routes_ipv4 :: "resources \<Rightarrow> bool" where
  "routes_ipv4 m \<longleftrightarrow> (\<forall>s. stored_service m s \<longrightarrow> routable s \<longrightarrow> ipv4_text (ClusterIP (svcSpec s)) \<and>
     (\<forall>p. stored_pod m p \<longrightarrow> endpoint s p \<longrightarrow> ipv4_text (PodIP (podStatus p))))"

definition forwarded :: "resources \<Rightarrow> Rule list \<Rightarrow> bool" where
  "forwarded m rules \<longleftrightarrow> routes_ipv4 m \<and> set rules = wanted_rules m \<and>
     sorted_wrt (\<lambda>a b. \<not> rule_less b a) rules"

context cluster_api begin

lemma KubeProxy_Reconcile_effect:
  assumes "ok w" and "KubeProxy_Reconcile client forward (proxy, w) = (ans, (proxy', w'))"
  obtains (unchanged) "ok w'" and "res w' = res w" and "proxy' = proxy" and "isl ans"
    | (handed) rules w1 where "ok w1" and "res w1 = res w" and "forwarded (res w) rules"
      and "w' = snd (forward rules w1)" and "ans = fst (forward rules w1)"
      and "\<not> isl ans \<Longrightarrow> lastRules proxy' = Some rules" and "isl ans \<Longrightarrow> proxy' = proxy"
proof -
  obtain a w1 where list1: "ResourceClient_List client Services w = (a, w1)" by fastforce
  show thesis
  proof (cases a)
    case (Inl e)
    with assms(2) list1 services.list_error [OF assms(1), of e w1] show thesis
      by (intro unchanged) (auto simp: KubeProxy_Reconcile_def andThen_def on_world_def)
  next
    case [simp]: (Inr sl)
    note S = services.list_items [OF assms(1) list1 [unfolded Inr]]
    obtain b w2 where list2: "ResourceClient_List client Pods w1 = (b, w2)" by fastforce
    show thesis
    proof (cases b)
      case (Inl e)
      with assms(2) list1 list2 S(2) pods.list_error [OF S(1), of e w2] show thesis
        by (intro unchanged) (auto simp: KubeProxy_Reconcile_def andThen_def on_world_def)
    next
      case [simp]: (Inr pl)
      note P = pods.list_items [OF S(1) list2 [unfolded Inr]]
      have view: "res w2 = res w" using P(2) S(2) by simp
      have services: "s \<in> set (elems (Items sl)) \<longleftrightarrow> stored_service (res w) s" for s
        using S(4,5) by (auto simp: stored_service_def)
      have pods: "p \<in> set (elems (Items pl)) \<longleftrightarrow> stored_pod (res w) p" for p
        using P(4,5) S(2) by (auto simp: stored_pod_def)
      let ?rules = "serviceRules (elems (Items sl)) (elems (Items pl))"
      show thesis
      proof (cases ?rules)
        case (Inl e)
        with assms(2) list1 list2 P(1) view show thesis
          by (intro unchanged) (auto simp: KubeProxy_Reconcile_def andThen_def on_world_def failing_def)
      next
        case (Inr rules)
        from Inr [unfolded serviceRules_ok] have "forwarded (res w) rules"
          using sorted_sort_Slice [OF rule_less_order]
          unfolding forwarded_def routes_ipv4_def wanted_rules_def
          by (simp add: rules_specD services pods)
        moreover obtain c w3 where "forward rules w2 = (c, w3)" by fastforce
        ultimately show thesis using assms(2) list1 list2 Inr P(1) view
          by (intro handed [of w2 rules])
            (auto simp: KubeProxy_Reconcile_def andThen_def on_world_def get_memory_def put_memory_def
              returning_def split: sum.splits if_splits)
      qed
    qed
  qed
qed

end

text \<open>
  C12: a reconciliation of the service proxy either fails before it reaches the forwarder, which is
  so whenever a routable Service or one of its endpoints has no IPv4 address, or it hands the
  forwarder the rules of the stored Services and Pods, one for every routable Service and Running
  Pod its selector matches, in the order of address, port and endpoint. It remembers the rules
  exactly when the forwarder took them.
\<close>

theorem services_forwarded:
  assumes "etcd_server client kvs revision invar" and "invar w" and "objects_ok (objects_of (kvs w))"
    and "KubeProxy_Reconcile (api_client (NewEtcdClient client)) forward (proxy, w) = (ans, (proxy', w'))"
  shows "isl ans \<and> proxy' = proxy \<and> read_view (objects_of (kvs w')) = read_view (objects_of (kvs w)) \<or>
    (\<exists>rules w1. read_view (objects_of (kvs w1)) = read_view (objects_of (kvs w)) \<and>
      forwarded (read_view (objects_of (kvs w))) rules \<and> forward rules w1 = (ans, w') \<and>
      (if isl ans then proxy' = proxy else lastRules proxy' = Some rules))"
proof -
  have ok: "invar w \<and> objects_ok (objects_of (kvs w))" using assms(2,3) by simp
  show ?thesis
  proof (rule cluster_api.KubeProxy_Reconcile_effect [OF etcd_server_cluster_api [OF assms(1)] ok assms(4)], goal_cases)
    case 1
    then show ?case by blast
  next
    case (2 rules w1)
    then show ?case by (intro disjI2 exI [of _ rules] exI [of _ w1]) auto
  qed
qed

definition example_endpoint :: Pod where
  "example_endpoint = (example_pod ''web'')\<lparr>podStatus := \<lparr>podPhase = PodRunning, PodIP = ''10.244.1.2''\<rparr>\<rparr>"

definition example_forwarded :: mem_etcd where
  "example_forwarded = mem_create Services
     (zero_Service\<lparr>svcMeta := named_meta ''web'', svcSpec := (svcSpec zero_Service)
       \<lparr>svcPort := 80, TargetPort := 8080\<rparr>\<rparr>) (mem_create Pods example_endpoint mem_empty)"

lemma example_forwarded_clean: "mem_ok example_forwarded \<and> names_clean example_forwarded"
  unfolding example_forwarded_def
  by (intro mem_create_service mem_create_pod mem_empty_clean) code_simp+

lemma services_forwarded_witness:
  "\<exists>r \<in> wanted_rules (mem_res example_forwarded). rulePodIP r = ''10.244.1.2'' \<and> rulePort r = 80"
proof -
  note clean = mem_cleanD [OF example_forwarded_clean]
  let ?run = "KubeProxy_Reconcile mem_api (\<lambda>rules. returning ()) (\<lparr>lastRules = None\<rparr>, example_forwarded)"
  have ran: "case ?run of (Inr _, (proxy, _)) \<Rightarrow>
      map (\<lambda>r. (rulePodIP r, rulePort r)) (elems (lastRules proxy)) = [(''10.244.1.2'', 80)] | _ \<Rightarrow> False"
    by code_simp
  obtain ans proxy w where run: "?run = (ans, (proxy, w))" by (metis prod.collapse)
  from ran run obtain r where r: "elems (lastRules proxy) = [r]" "rulePodIP r = ''10.244.1.2''" "rulePort r = 80"
    "\<not> isl ans" by (auto split: sum.splits)
  from services_forwarded [OF mem_etcd_server clean(1,2) run] r(4) obtain rules where
    "forwarded (mem_res example_forwarded) rules" "lastRules proxy = Some rules" by auto
  with r have "r \<in> wanted_rules (mem_res example_forwarded)" by (auto simp: forwarded_def)
  with r show ?thesis by blast
qed

end
