(* ===== verification/Cri.thy ===== *)
theory Cri
  imports ApiServer
begin

text \<open>
  The container runtime interface of \<^verbatim>\<open>cri/cri.go\<close>: containers, sandboxes and events, the
  interface the kubelet uses, the requests and responses on the runtime's socket with their JSON
  form (the same structs stand in \<^verbatim>\<open>cri/runtime/runtime.go\<close>), and the client. The socket
  is an argument: dialling, writing a value, reading the first value of the answer and the values
  that follow it.
\<close>

section \<open>Containers and sandboxes\<close>

definition cri_ErrNotFound :: goerror where "cri_ErrNotFound = NewError ''container not found''"

type_synonym cri_State = string

definition cri_Running :: cri_State where "cri_Running = ''Running''"
definition cri_Stopped :: cri_State where "cri_Stopped = ''Stopped''"

record cri_Container =
  contID :: string
  contPod :: string
  contSandbox :: string
  contState :: cri_State

type_synonym SandboxSource = string

definition StaticPod :: SandboxSource where "StaticPod = ''staticPod''"
definition Workload :: SandboxSource where "Workload = ''workload''"

record cri_Sandbox =
  sandID :: string
  sandPod :: string
  sandSource :: SandboxSource
  sandIP :: string
  sandState :: cri_State

definition zero_cri_Container :: cri_Container where
  "zero_cri_Container = \<lparr>contID = [], contPod = [], contSandbox = [], contState = []\<rparr>"

definition zero_cri_Sandbox :: cri_Sandbox where
  "zero_cri_Sandbox = \<lparr>sandID = [], sandPod = [], sandSource = [], sandIP = [], sandState = []\<rparr>"

record cri_Event =
  criEventType :: string
  criEventContainer :: cri_Container
  criEventSandbox :: cri_Sandbox

text \<open>The interface \<^verbatim>\<open>CRI\<close>. A watch is the list of the events it delivers.\<close>

record 'w CRI =
  criList :: "('w, cri_Container list) operation"
  criListSandboxes :: "('w, cri_Sandbox list) operation"
  criWatch :: "('w, cri_Event list) operation"
  criRunPodSandbox :: "Pod \<Rightarrow> SandboxSource \<Rightarrow> ('w, cri_Sandbox) operation"
  criRunInSandbox :: "Pod \<Rightarrow> string \<Rightarrow> ('w, cri_Container) operation"
  criStop :: "string \<Rightarrow> ('w, unit) operation"
  criStopPodSandbox :: "string \<Rightarrow> ('w, unit) operation"

section \<open>Requests and responses\<close>

record cri_request =
  reqOperation :: string
  reqPod :: string
  reqImage :: string
  reqCommand :: "string slice"
  reqSandboxID :: string
  reqSource :: SandboxSource
  reqHostNetwork :: bool

record cri_response =
  respOK :: bool
  respError :: string
  respID :: string
  respPod :: string
  respState :: cri_State
  respSandboxID :: string
  respSource :: SandboxSource
  respIP :: string
  respContainers :: "cri_Container slice"
  respSandboxes :: "cri_Sandbox slice"
  respEventType :: string
  respContainer :: cri_Container
  respSandbox :: cri_Sandbox

definition zero_request :: cri_request where
  "zero_request = \<lparr>reqOperation = [], reqPod = [], reqImage = [], reqCommand = None,
     reqSandboxID = [], reqSource = [], reqHostNetwork = False\<rparr>"

definition zero_response :: cri_response where
  "zero_response = \<lparr>respOK = False, respError = [], respID = [], respPod = [], respState = [],
     respSandboxID = [], respSource = [], respIP = [], respContainers = None,
     respSandboxes = None, respEventType = [], respContainer = zero_cri_Container,
     respSandbox = zero_cri_Sandbox\<rparr>"

definition enc_cri_Container :: "cri_Container \<Rightarrow> json" where
  "enc_cri_Container c = JObject
     ([(''id'', JString (contID c)), (''pod'', JString (contPod c))]
      @ omitempty (contSandbox c = []) ''sandboxID'' (JString (contSandbox c))
      @ [(''state'', JString (contState c))])"

definition dec_cri_Container :: "cri_Container decoder" where
  "dec_cri_Container = dec_struct
     [field ''id'' contID (\<lambda>x r. r\<lparr>contID := x\<rparr>) dec_string,
      field ''pod'' contPod (\<lambda>x r. r\<lparr>contPod := x\<rparr>) dec_string,
      field ''sandboxID'' contSandbox (\<lambda>x r. r\<lparr>contSandbox := x\<rparr>) dec_string,
      field ''state'' contState (\<lambda>x r. r\<lparr>contState := x\<rparr>) dec_string]"

definition enc_cri_Sandbox :: "cri_Sandbox \<Rightarrow> json" where
  "enc_cri_Sandbox s = JObject
     ([(''id'', JString (sandID s)), (''pod'', JString (sandPod s)),
       (''source'', JString (sandSource s))]
      @ omitempty (sandIP s = []) ''ip'' (JString (sandIP s))
      @ [(''state'', JString (sandState s))])"

definition dec_cri_Sandbox :: "cri_Sandbox decoder" where
  "dec_cri_Sandbox = dec_struct
     [field ''id'' sandID (\<lambda>x r. r\<lparr>sandID := x\<rparr>) dec_string,
      field ''pod'' sandPod (\<lambda>x r. r\<lparr>sandPod := x\<rparr>) dec_string,
      field ''source'' sandSource (\<lambda>x r. r\<lparr>sandSource := x\<rparr>) dec_string,
      field ''ip'' sandIP (\<lambda>x r. r\<lparr>sandIP := x\<rparr>) dec_string,
      field ''state'' sandState (\<lambda>x r. r\<lparr>sandState := x\<rparr>) dec_string]"

definition enc_request :: "cri_request \<Rightarrow> json" where
  "enc_request r = JObject
     ([(''op'', JString (reqOperation r))]
      @ omitempty (reqPod r = []) ''pod'' (JString (reqPod r))
      @ omitempty (reqImage r = []) ''image'' (JString (reqImage r))
      @ omitempty (empty_slice (reqCommand r)) ''command'' (enc_slice JString (reqCommand r))
      @ omitempty (reqSandboxID r = []) ''sandboxID'' (JString (reqSandboxID r))
      @ omitempty (reqSource r = []) ''source'' (JString (reqSource r))
      @ omitempty (\<not> reqHostNetwork r) ''hostNetwork'' (JBool (reqHostNetwork r)))"

definition dec_request :: "cri_request decoder" where
  "dec_request = dec_struct
     [field ''op'' reqOperation (\<lambda>x r. r\<lparr>reqOperation := x\<rparr>) dec_string,
      field ''pod'' reqPod (\<lambda>x r. r\<lparr>reqPod := x\<rparr>) dec_string,
      field ''image'' reqImage (\<lambda>x r. r\<lparr>reqImage := x\<rparr>) dec_string,
      field ''command'' reqCommand (\<lambda>x r. r\<lparr>reqCommand := x\<rparr>) (dec_slice dec_string []),
      field ''sandboxID'' reqSandboxID (\<lambda>x r. r\<lparr>reqSandboxID := x\<rparr>) dec_string,
      field ''source'' reqSource (\<lambda>x r. r\<lparr>reqSource := x\<rparr>) dec_string,
      field ''hostNetwork'' reqHostNetwork (\<lambda>x r. r\<lparr>reqHostNetwork := x\<rparr>) dec_bool]"

definition enc_response :: "cri_response \<Rightarrow> json" where
  "enc_response r = JObject
     ([(''ok'', JBool (respOK r))]
      @ omitempty (respError r = []) ''error'' (JString (respError r))
      @ omitempty (respID r = []) ''id'' (JString (respID r))
      @ omitempty (respPod r = []) ''pod'' (JString (respPod r))
      @ omitempty (respState r = []) ''state'' (JString (respState r))
      @ omitempty (respSandboxID r = []) ''sandboxID'' (JString (respSandboxID r))
      @ omitempty (respSource r = []) ''source'' (JString (respSource r))
      @ omitempty (respIP r = []) ''ip'' (JString (respIP r))
      @ omitempty (empty_slice (respContainers r)) ''containers''
          (enc_slice enc_cri_Container (respContainers r))
      @ omitempty (empty_slice (respSandboxes r)) ''sandboxes''
          (enc_slice enc_cri_Sandbox (respSandboxes r))
      @ omitempty (respEventType r = []) ''eventType'' (JString (respEventType r))
      @ [(''container'', enc_cri_Container (respContainer r)),
         (''sandbox'', enc_cri_Sandbox (respSandbox r))])"

definition response_fields :: "cri_response fields" where
  "response_fields =
     [field ''ok'' respOK (\<lambda>x r. r\<lparr>respOK := x\<rparr>) dec_bool,
      field ''error'' respError (\<lambda>x r. r\<lparr>respError := x\<rparr>) dec_string,
      field ''id'' respID (\<lambda>x r. r\<lparr>respID := x\<rparr>) dec_string,
      field ''pod'' respPod (\<lambda>x r. r\<lparr>respPod := x\<rparr>) dec_string,
      field ''state'' respState (\<lambda>x r. r\<lparr>respState := x\<rparr>) dec_string,
      field ''sandboxID'' respSandboxID (\<lambda>x r. r\<lparr>respSandboxID := x\<rparr>) dec_string,
      field ''source'' respSource (\<lambda>x r. r\<lparr>respSource := x\<rparr>) dec_string,
      field ''ip'' respIP (\<lambda>x r. r\<lparr>respIP := x\<rparr>) dec_string,
      field ''containers'' respContainers (\<lambda>x r. r\<lparr>respContainers := x\<rparr>)
        (dec_slice dec_cri_Container zero_cri_Container),
      field ''sandboxes'' respSandboxes (\<lambda>x r. r\<lparr>respSandboxes := x\<rparr>)
        (dec_slice dec_cri_Sandbox zero_cri_Sandbox),
      field ''eventType'' respEventType (\<lambda>x r. r\<lparr>respEventType := x\<rparr>) dec_string,
      field ''container'' respContainer (\<lambda>x r. r\<lparr>respContainer := x\<rparr>) dec_cri_Container,
      field ''sandbox'' respSandbox (\<lambda>x r. r\<lparr>respSandbox := x\<rparr>) dec_cri_Sandbox]"

definition dec_response :: "cri_response decoder" where
  "dec_response = dec_struct response_fields"

section \<open>The client\<close>

record 'w cri_socket =
  sockDial :: "('w, unit) operation"
  sockWrite :: "json \<Rightarrow> ('w, unit) operation"
  sockRead :: "('w, json) operation"
  sockStream :: "('w, json list) operation"

definition decode_response :: "json \<Rightarrow> cri_response result" where
  "decode_response j =
     (case dec_response j zero_response of None \<Rightarrow> Inl json_error | Some r \<Rightarrow> Inr r)"

definition cri_client_request :: "'w cri_socket \<Rightarrow> cri_request \<Rightarrow> ('w, cri_response) operation" where
  "cri_client_request socket input =
     andThen (wrapping ''connect CRI socket'' (sockDial socket)) (\<lambda>_.
     andThen (wrapping ''write CRI request'' (sockWrite socket (enc_request input))) (\<lambda>_.
     andThen (wrapping ''decode CRI response'' (andThen (sockRead socket) (\<lambda>j.
         case decode_response j of Inl e \<Rightarrow> failing e | Inr r \<Rightarrow> returning r))) (\<lambda>result.
     if \<not> respOK result
     then failing (NewError (''CRI request failed: '' @ strings_TrimSpace (respError result)))
     else returning result)))"

fun watch_events :: "json list \<Rightarrow> cri_Event list" where
  "watch_events [] = []"
| "watch_events (j # js) =
     (case dec_response j zero_response of
        None \<Rightarrow> []
      | Some r \<Rightarrow> \<lparr>criEventType = respEventType r, criEventContainer = respContainer r,
          criEventSandbox = respSandbox r\<rparr> # watch_events js)"

definition cri_client_Watch :: "'w cri_socket \<Rightarrow> ('w, cri_Event list) operation" where
  "cri_client_Watch socket =
     andThen (wrapping ''connect CRI watch'' (sockDial socket)) (\<lambda>_.
     andThen (wrapping ''write CRI watch request''
       (sockWrite socket (JObject [(''op'', JString ''watch'')]))) (\<lambda>_.
     andThen (wrapping ''decode CRI watch response'' (andThen (sockRead socket) (\<lambda>j.
         case decode_response j of Inl e \<Rightarrow> failing e | Inr r \<Rightarrow> returning r))) (\<lambda>accepted.
     if \<not> respOK accepted
     then failing (NewError (''CRI watch failed: '' @ strings_TrimSpace (respError accepted)))
     else andThen (sockStream socket) (\<lambda>values. returning (watch_events values)))))"

definition cri_client_List :: "'w cri_socket \<Rightarrow> ('w, cri_Container list) operation" where
  "cri_client_List socket =
     andThen (cri_client_request socket (zero_request\<lparr>reqOperation := ''list''\<rparr>)) (\<lambda>result.
       returning (elems (respContainers result)))"

definition cri_client_ListSandboxes :: "'w cri_socket \<Rightarrow> ('w, cri_Sandbox list) operation" where
  "cri_client_ListSandboxes socket =
     andThen (cri_client_request socket (zero_request\<lparr>reqOperation := ''list-sandboxes''\<rparr>)) (\<lambda>result.
       returning (elems (respSandboxes result)))"

definition cri_client_RunPodSandbox ::
    "'w cri_socket \<Rightarrow> Pod \<Rightarrow> SandboxSource \<Rightarrow> ('w, cri_Sandbox) operation" where
  "cri_client_RunPodSandbox socket pod source =
     andThen (cri_client_request socket (zero_request
         \<lparr>reqOperation := ''run-pod-sandbox'', reqPod := Name (podMeta pod), reqSource := source,
          reqHostNetwork := HostNetwork (podSpec pod)\<rparr>)) (\<lambda>result.
       returning \<lparr>sandID = respSandboxID result, sandPod = respPod result,
         sandSource = respSource result, sandIP = respIP result, sandState = respState result\<rparr>)"

definition cri_client_RunInSandbox ::
    "'w cri_socket \<Rightarrow> Pod \<Rightarrow> string \<Rightarrow> ('w, cri_Container) operation" where
  "cri_client_RunInSandbox socket pod sandboxID =
     (case elems (Containers (podSpec pod)) of
        [] \<Rightarrow> failing (NewError ''Pod has no container'')
      | container # _ \<Rightarrow>
          andThen (cri_client_request socket (zero_request
              \<lparr>reqOperation := ''run-in-sandbox'', reqPod := Name (podMeta pod),
               reqImage := containerImage container, reqCommand := containerCommand container,
               reqSandboxID := sandboxID\<rparr>)) (\<lambda>result.
            returning \<lparr>contID = respID result, contPod = respPod result,
              contSandbox = respSandboxID result, contState = respState result\<rparr>))"

definition cri_client_StopPodSandbox :: "'w cri_socket \<Rightarrow> string \<Rightarrow> ('w, unit) operation" where
  "cri_client_StopPodSandbox socket sandboxID =
     andThen (cri_client_request socket (zero_request
         \<lparr>reqOperation := ''stop-pod-sandbox'', reqSandboxID := sandboxID\<rparr>)) (\<lambda>_. returning ())"

definition cri_client_Stop :: "'w cri_socket \<Rightarrow> string \<Rightarrow> ('w, unit) operation" where
  "cri_client_Stop socket podName =
     andThen (cri_client_request socket (zero_request\<lparr>reqOperation := ''stop'', reqPod := podName\<rparr>))
       (\<lambda>_. returning ())"

definition cri_client_Inspect :: "'w cri_socket \<Rightarrow> string \<Rightarrow> ('w, cri_Container) operation" where
  "cri_client_Inspect socket podName =
     andThen (cri_client_request socket (zero_request\<lparr>reqOperation := ''inspect'', reqPod := podName\<rparr>))
       (\<lambda>result. returning \<lparr>contID = respID result, contPod = respPod result, contSandbox = [],
         contState = respState result\<rparr>)"

definition cri_client :: "'w cri_socket \<Rightarrow> 'w CRI" where
  "cri_client socket =
     \<lparr>criList = cri_client_List socket, criListSandboxes = cri_client_ListSandboxes socket,
      criWatch = cri_client_Watch socket, criRunPodSandbox = cri_client_RunPodSandbox socket,
      criRunInSandbox = cri_client_RunInSandbox socket, criStop = cri_client_Stop socket,
      criStopPodSandbox = cri_client_StopPodSandbox socket\<rparr>"

section \<open>Round trips\<close>

text \<open>What the socket carries arrives as it was sent, up to an empty slice that becomes nil.\<close>

definition norm_request :: "cri_request \<Rightarrow> cri_request" where
  "norm_request r = r\<lparr>reqCommand := norm_slice (reqCommand r)\<rparr>"

definition norm_response :: "cri_response \<Rightarrow> cri_response" where
  "norm_response r = r\<lparr>respContainers := norm_slice (respContainers r),
     respSandboxes := norm_slice (respSandboxes r)\<rparr>"

lemma cri_Container_roundtrip:
  "dec_cri_Container (enc_cri_Container c) zero_cri_Container = Some c"
  by (cases c) (simp add: dec_cri_Container_def enc_cri_Container_def codec_simps zero_cri_Container_def)

lemma cri_Sandbox_roundtrip: "dec_cri_Sandbox (enc_cri_Sandbox s) zero_cri_Sandbox = Some s"
  by (cases s) (simp add: dec_cri_Sandbox_def enc_cri_Sandbox_def codec_simps zero_cri_Sandbox_def)

lemma request_roundtrip: "dec_request (enc_request r) zero_request = Some (norm_request r)"
  by (cases r) (simp add: dec_request_def enc_request_def codec_simps zero_request_def
      norm_request_def norm_slice_def strings_roundtrip)

lemma cri_Containers_roundtrip:
  "dec_slice dec_cri_Container zero_cri_Container (enc_slice enc_cri_Container s) r = Some s"
  using dec_slice_enc [of s dec_cri_Container enc_cri_Container zero_cri_Container id r]
  by (simp add: cri_Container_roundtrip option.map_id)

lemma cri_Sandboxes_roundtrip:
  "dec_slice dec_cri_Sandbox zero_cri_Sandbox (enc_slice enc_cri_Sandbox s) r = Some s"
  using dec_slice_enc [of s dec_cri_Sandbox enc_cri_Sandbox zero_cri_Sandbox id r]
  by (simp add: cri_Sandbox_roundtrip option.map_id)

lemma dec_members_string:
  assumes "find_field fs n = Some (\<lambda>j r. map_option (\<lambda>x. put x r) (dec_string j (get r)))"
    and "s = [] \<Longrightarrow> put s r = r"
  shows "dec_members fs (omitempty (s = []) n (JString s) @ ms) r = dec_members fs ms (put s r)"
  using assms by (cases "s = []") (simp_all add: omitempty_def)

lemma dec_members_slice:
  assumes "find_field fs n = Some (\<lambda>j r. map_option (\<lambda>x. put x r) (dec_slice dec z j (get r)))"
    and "dec_slice dec z (enc_slice enc s) (get r) = Some s"
    and "put None r = r"
  shows "dec_members fs (omitempty (empty_slice s) n (enc_slice enc s) @ ms) r =
    dec_members fs ms (put (norm_slice s) r)"
  using assms by (cases "empty_slice s") (simp_all add: omitempty_def norm_slice_def)

lemma find_response:
  "find_field response_fields ''ok'' = Some (\<lambda>j r. map_option (\<lambda>x. r\<lparr>respOK := x\<rparr>) (dec_bool j (respOK r)))"
  "find_field response_fields ''error'' = Some (\<lambda>j r. map_option (\<lambda>x. r\<lparr>respError := x\<rparr>) (dec_string j (respError r)))"
  "find_field response_fields ''id'' = Some (\<lambda>j r. map_option (\<lambda>x. r\<lparr>respID := x\<rparr>) (dec_string j (respID r)))"
  "find_field response_fields ''pod'' = Some (\<lambda>j r. map_option (\<lambda>x. r\<lparr>respPod := x\<rparr>) (dec_string j (respPod r)))"
  "find_field response_fields ''state'' = Some (\<lambda>j r. map_option (\<lambda>x. r\<lparr>respState := x\<rparr>) (dec_string j (respState r)))"
  "find_field response_fields ''sandboxID'' = Some (\<lambda>j r. map_option (\<lambda>x. r\<lparr>respSandboxID := x\<rparr>) (dec_string j (respSandboxID r)))"
  "find_field response_fields ''source'' = Some (\<lambda>j r. map_option (\<lambda>x. r\<lparr>respSource := x\<rparr>) (dec_string j (respSource r)))"
  "find_field response_fields ''ip'' = Some (\<lambda>j r. map_option (\<lambda>x. r\<lparr>respIP := x\<rparr>) (dec_string j (respIP r)))"
  "find_field response_fields ''containers'' = Some (\<lambda>j r. map_option (\<lambda>x. r\<lparr>respContainers := x\<rparr>)
     (dec_slice dec_cri_Container zero_cri_Container j (respContainers r)))"
  "find_field response_fields ''sandboxes'' = Some (\<lambda>j r. map_option (\<lambda>x. r\<lparr>respSandboxes := x\<rparr>)
     (dec_slice dec_cri_Sandbox zero_cri_Sandbox j (respSandboxes r)))"
  "find_field response_fields ''eventType'' = Some (\<lambda>j r. map_option (\<lambda>x. r\<lparr>respEventType := x\<rparr>) (dec_string j (respEventType r)))"
  "find_field response_fields ''container'' = Some (\<lambda>j r. map_option (\<lambda>x. r\<lparr>respContainer := x\<rparr>) (dec_cri_Container j (respContainer r)))"
  "find_field response_fields ''sandbox'' = Some (\<lambda>j r. map_option (\<lambda>x. r\<lparr>respSandbox := x\<rparr>) (dec_cri_Sandbox j (respSandbox r)))"
  by (simp_all add: find_field_def response_fields_def field_def)

lemmas response_strings = find_response(2-8,11) [THEN dec_members_string]
lemmas response_slices = dec_members_slice [OF find_response(9) cri_Containers_roundtrip]
  dec_members_slice [OF find_response(10) cri_Sandboxes_roundtrip]

lemma response_roundtrip: "dec_response (enc_response r) zero_response = Some (norm_response r)"
  by (cases r) (simp add: dec_response_def enc_response_def dec_struct_def response_strings
      response_slices find_response cri_Container_roundtrip cri_Sandbox_roundtrip zero_response_def
      norm_response_def)

lemma elems_norm_slice [simp]: "elems (norm_slice s) = elems s"
  by (auto simp: norm_slice_def empty_slice_def)

section \<open>What a runtime promises\<close>

text \<open>
  The contract of the interface \<^verbatim>\<open>CRI\<close> over two views of the runtime: its containers by Pod
  and its sandboxes by identifier. A call that reports an error may have had its effect (the answer
  may be lost on the socket), or none. Containers that exit by themselves are not part of a call.
\<close>

definition sandbox_started ::
    "string \<Rightarrow> SandboxSource \<Rightarrow> cri_Sandbox \<Rightarrow> (string \<rightharpoonup> cri_Sandbox) \<Rightarrow> (string \<rightharpoonup> cri_Sandbox) \<Rightarrow> bool" where
  "sandbox_started pod source s m m' \<longleftrightarrow>
     sandPod s = pod \<and> sandSource s = source \<and> sandState s = cri_Running \<and>
     (\<forall>i s'. m i = Some s' \<longrightarrow> sandPod s' = pod \<longrightarrow> sandSource s' = source \<longrightarrow> s' = s \<and> i = sandID s) \<and>
     m' = m(sandID s \<mapsto> s)"

definition container_started ::
    "string \<Rightarrow> string \<Rightarrow> cri_Container \<Rightarrow> (string \<rightharpoonup> cri_Container) \<Rightarrow> (string \<rightharpoonup> cri_Container) \<Rightarrow> bool" where
  "container_started pod sandbox c m m' \<longleftrightarrow>
     contPod c = pod \<and> contSandbox c = sandbox \<and> contState c = cri_Running \<and> m' = m(pod \<mapsto> c)"

definition container_stopped ::
    "string \<Rightarrow> (string \<rightharpoonup> cri_Container) \<Rightarrow> (string \<rightharpoonup> cri_Container) \<Rightarrow> bool" where
  "container_stopped pod m m' \<longleftrightarrow>
     (\<exists>c. m pod = Some c \<and> m' = m(pod \<mapsto> c\<lparr>contState := cri_Stopped\<rparr>))"

definition containers_of_stopped ::
    "string \<Rightarrow> (string \<rightharpoonup> cri_Container) \<Rightarrow> (string \<rightharpoonup> cri_Container) \<Rightarrow> bool" where
  "containers_of_stopped sandbox m m' \<longleftrightarrow>
     (\<forall>pod. m' pod = m pod \<or> (\<exists>c. m pod = Some c \<and> contSandbox c = sandbox \<and>
        m' pod = Some (c\<lparr>contState := cri_Stopped\<rparr>)))"

locale cri_runtime =
  fixes cri :: "'w CRI"
    and conts :: "'w \<Rightarrow> string \<rightharpoonup> cri_Container"
    and sbs :: "'w \<Rightarrow> string \<rightharpoonup> cri_Sandbox"
    and ok :: "'w \<Rightarrow> bool"
  assumes cont_named: "ok w \<Longrightarrow> conts w pod = Some c \<Longrightarrow> contPod c = pod"
    and sandbox_named: "ok w \<Longrightarrow> sbs w i = Some s \<Longrightarrow> sandID s = i \<and> sandState s = cri_Running"
    and sandbox_unique: "ok w \<Longrightarrow> sbs w i = Some s \<Longrightarrow> sbs w j = Some t \<Longrightarrow>
      sandPod s = sandPod t \<Longrightarrow> sandSource s = sandSource t \<Longrightarrow> i = j"
    and list_ok: "ok w \<Longrightarrow> criList cri w = (ans, w') \<Longrightarrow>
      ok w' \<and> conts w' = conts w \<and> sbs w' = sbs w \<and>
      (\<forall>cs. ans = Inr cs \<longrightarrow> distinct (map contPod cs) \<and> set cs = ran (conts w))"
    and sandboxes_ok: "ok w \<Longrightarrow> criListSandboxes cri w = (ans', w') \<Longrightarrow>
      ok w' \<and> conts w' = conts w \<and> sbs w' = sbs w \<and>
      (\<forall>ss. ans' = Inr ss \<longrightarrow> distinct (map sandID ss) \<and> set ss = ran (sbs w))"
    and run_sandbox_ok: "ok w \<Longrightarrow> criRunPodSandbox cri p source w = (Inr s, w') \<Longrightarrow>
      ok w' \<and> conts w' = conts w \<and> sandbox_started (Name (podMeta p)) source s (sbs w) (sbs w')"
    and run_sandbox_error: "ok w \<Longrightarrow> criRunPodSandbox cri p source w = (Inl e, w') \<Longrightarrow>
      ok w' \<and> conts w' = conts w \<and>
      (sbs w' = sbs w \<or> (\<exists>s. sandbox_started (Name (podMeta p)) source s (sbs w) (sbs w')))"
    and run_container_ok: "ok w \<Longrightarrow> criRunInSandbox cri p sandbox w = (Inr c, w') \<Longrightarrow>
      ok w' \<and> sbs w' = sbs w \<and> container_started (Name (podMeta p)) sandbox c (conts w) (conts w')"
    and run_container_error: "ok w \<Longrightarrow> criRunInSandbox cri p sandbox w = (Inl e, w') \<Longrightarrow>
      ok w' \<and> sbs w' = sbs w \<and>
      (conts w' = conts w \<or>
       (\<exists>c. container_started (Name (podMeta p)) sandbox c (conts w) (conts w')))"
    and stop_ok: "ok w \<Longrightarrow> criStop cri pod w = (Inr (), w') \<Longrightarrow>
      ok w' \<and> sbs w' = sbs w \<and> container_stopped pod (conts w) (conts w')"
    and stop_error: "ok w \<Longrightarrow> criStop cri pod w = (Inl e, w') \<Longrightarrow>
      ok w' \<and> sbs w' = sbs w \<and> (conts w' = conts w \<or> container_stopped pod (conts w) (conts w'))"
    and stop_sandbox_ok: "ok w \<Longrightarrow> criStopPodSandbox cri i w = (Inr (), w') \<Longrightarrow>
      ok w' \<and> sbs w i \<noteq> None \<and> sbs w' = (sbs w)(i := None) \<and>
      containers_of_stopped i (conts w) (conts w')"
    and stop_sandbox_error: "ok w \<Longrightarrow> criStopPodSandbox cri i w = (Inl e, w') \<Longrightarrow>
      ok w' \<and> (sbs w' = sbs w \<and> conts w' = conts w \<or>
        sbs w' = (sbs w)(i := None) \<and> containers_of_stopped i (conts w) (conts w'))"
    and watch_ok: "ok w \<Longrightarrow> criWatch cri w = (events, w') \<Longrightarrow> ok w' \<and> conts w' = conts w \<and> sbs w' = sbs w"

section \<open>Theorems\<close>

text \<open>
  C33: what crosses the socket of the runtime, request and response, arrives as it was sent; only
  an empty slice comes back as nil, which no reader tells apart.
\<close>

theorem cri_transport:
  "dec_request (enc_request q) zero_request = Some (q\<lparr>reqCommand := norm_slice (reqCommand q)\<rparr>) \<and>
   dec_response (enc_response r) zero_response = Some
     (r\<lparr>respContainers := norm_slice (respContainers r), respSandboxes := norm_slice (respSandboxes r)\<rparr>) \<and>
   elems (norm_slice (reqCommand q)) = elems (reqCommand q) \<and>
   elems (norm_slice (respContainers r)) = elems (respContainers r) \<and>
   elems (norm_slice (respSandboxes r)) = elems (respSandboxes r)"
  using request_roundtrip [of q] response_roundtrip [of r] by (simp add: norm_request_def norm_response_def)

end
