(* ===== verification/NetIP.thy ===== *)
theory NetIP
  imports NetAddr
begin

text \<open>
  The part of the package \<^verbatim>\<open>net\<close> the network plugin uses: an \<^verbatim>\<open>IP\<close> is a slice
  of 4 or 16 bytes, an \<^verbatim>\<open>IPNet\<close> an address with a mask of so many ones out of so many
  bits. The parsers are those of \<^verbatim>\<open>net/netip\<close> with the zone excluded; \<open>None\<close> and the
  empty slice are their errors.
\<close>

unbundle bit_operations_syntax

type_synonym ip4 = "byte \<times> byte \<times> byte \<times> byte"

fun ip4_bytes :: "ip4 \<Rightarrow> byte list" where
  "ip4_bytes (a, b, c, d) = [a, b, c, d]"

definition hex_number :: "string \<Rightarrow> nat" where
  "hex_number s = foldl (\<lambda>n c. 16 * n + (case hex_value c of None \<Rightarrow> 0 | Some d \<Rightarrow> d)) 0 s"

text \<open>The bytes of a valid IPv6 text without a zone.\<close>

definition ipv6_field :: "string \<Rightarrow> byte list" where
  "ipv6_field s =
     (if s = [] then []
      else case parseIPv4 s of
          Some a \<Rightarrow> (case As4 a of None \<Rightarrow> [] | Some b \<Rightarrow> ip4_bytes b)
        | None \<Rightarrow> [word_of_nat (hex_number s div 256), word_of_nat (hex_number s)])"

definition ipv6_fields :: "string list \<Rightarrow> byte list" where
  "ipv6_fields parts = concat (map ipv6_field parts)"

fun split_ellipsis :: "string list \<Rightarrow> string list \<Rightarrow> string list \<times> string list option" where
  "split_ellipsis front [] = (front, None)"
| "split_ellipsis front (part # parts) =
     (if part = [] then (front, Some parts) else split_ellipsis (front @ [part]) parts)"

definition ipv6_bytes :: "string \<Rightarrow> byte list" where
  "ipv6_bytes s =
     (let parts = strings_Split s (CHR '':'');
          (front, back) = (if hd parts = [] then ([], Some (drop 2 parts)) else split_ellipsis [] parts)
      in case back of
           None \<Rightarrow> ipv6_fields front
         | Some rest \<Rightarrow>
             let a = ipv6_fields front; b = ipv6_fields rest
             in a @ replicate (16 - length a - length b) 0 @ b)"

fun As16 :: "netip_Addr \<Rightarrow> byte list" where
  "As16 (Addr4 a b c d) = replicate 10 0 @ [0xFF, 0xFF, a, b, c, d]"
| "As16 (Addr6 s) = ipv6_bytes s"

definition To4 :: "byte list \<Rightarrow> ip4 option" where
  "To4 ip =
     (case ip of
        [a, b, c, d] \<Rightarrow> Some (a, b, c, d)
      | _ \<Rightarrow>
          if length ip = 16 \<and> take 12 ip = replicate 10 0 @ [0xFF, 0xFF]
          then Some (ip ! 12, ip ! 13, ip ! 14, ip ! 15) else None)"

definition net_ParseIP :: "string \<Rightarrow> byte list" where
  "net_ParseIP s =
     (case ParseAddr s of
        None \<Rightarrow> []
      | Some a \<Rightarrow> if CHR ''%'' \<in> set s then [] else As16 a)"

record net_IPNet =
  netIP :: "byte list"
  maskOnes :: nat
  maskBits :: nat

text \<open>The \<open>i\<close>-th byte of a mask of so many ones.\<close>

definition mask_byte :: "nat \<Rightarrow> nat \<Rightarrow> byte" where
  "mask_byte ones i = push_bit (8 - min 8 (ones - 8 * i)) 0xFF"

definition CIDRMask :: "nat \<Rightarrow> nat \<Rightarrow> byte list" where
  "CIDRMask ones bits = map (mask_byte ones) [0..<bits div 8]"

definition net_ParseCIDR :: "string \<Rightarrow> (byte list \<times> net_IPNet) option" where
  "net_ParseCIDR s =
     (if CHR ''/'' \<notin> set s then None
      else
        let addr = takeWhile (\<lambda>c. c \<noteq> CHR ''/'') s;
            mask = drop 1 (dropWhile (\<lambda>c. c \<noteq> CHR ''/'') s)
        in case (ParseAddr addr, parse_nat mask) of
             (Some a, Some n) \<Rightarrow>
               let bits = (if Is4 a then 32 else 128); ip = As16 a in
               if CHR ''%'' \<in> set addr \<or> bits < n then None
               else
                 let masked = (if Is4 a then drop 12 ip else ip)
                 in Some (ip, \<lparr>netIP = map2 (AND) masked (CIDRMask n bits), maskOnes = n,
                      maskBits = bits\<rparr>)
           | _ \<Rightarrow> None)"

text \<open>An IPv4 network that is written in 16 bytes uses the last four bytes of its mask.\<close>

definition net_Contains :: "net_IPNet \<Rightarrow> byte list \<Rightarrow> bool" where
  "net_Contains network ip =
     (let mask = CIDRMask (maskOnes network) (maskBits network);
          (nn, m) = (case To4 (netIP network) of
             Some b \<Rightarrow> (ip4_bytes b, if length mask = 16 then drop 12 mask else mask)
           | None \<Rightarrow> if length (netIP network) = 16 \<and> length mask = 16
               then (netIP network, mask) else ([], []));
          x = (case To4 ip of Some b \<Rightarrow> ip4_bytes b | None \<Rightarrow> ip)
      in length x = length nn \<and> map2 (AND) nn m = map2 (AND) x m)"

section \<open>IPv4 networks\<close>

lemma To4_As16 [simp]: "To4 (As16 (Addr4 a b c d)) = Some (a, b, c, d)"
  by (simp add: To4_def eval_nat_numeral)

lemma To4_bytes [simp]: "To4 (ip4_bytes b) = Some b"
  by (cases b) (simp add: To4_def)

end
