(* ===== verification/Bootstrap.thy ===== *)
theory Bootstrap
  imports NetAddr Config
begin

text \<open>
  The node networks of \<^verbatim>\<open>bootstrap/bootstrap.go\<close>: the Pod subnet and gateway of a worker
  and its address on the underlay network, computed from the index of the node with Go's
  integer conversions (a 64-bit \<^verbatim>\<open>int\<close> truncated to \<^verbatim>\<open>uint32\<close>). A panic of the code is an
  error of the model.
\<close>

section \<open>The functions\<close>

definition subnet :: "netip_Prefix \<Rightarrow> int \<Rightarrow> int \<Rightarrow> netip_Prefix result" where
  "subnet cidr bits index =
     (let available = bits - prefixBits cidr in
      if available < 0 then Inl (NewError ''panic: negative shift amount'')
      else if available < 32 \<and> (word_of_int index :: 64 word) \<ge> push_bit (nat available) 1
      then Inl (NewError (''Pod CIDR has no subnet for worker-'' @ strconv_Itoa (int64_wrap (index + 1))))
      else case As4 (prefixAddr (prefix_Masked cidr)) of
          None \<Rightarrow> Inl (NewError ''panic: As4 called on IPv6 address'')
        | Some base \<Rightarrow>
            let baseNumber = uint32_of_bytes base;
                size32 = push_bit (nat (32 - bits)) 1;
                number = baseNumber + word_of_int index * size32
            in Inr \<lparr>prefixAddr = AddrFrom4 (bytes_of_uint32 number), prefixBits = bits\<rparr>)"

definition NodeNetwork :: "int \<Rightarrow> (netip_Prefix \<times> netip_Addr) result" where
  "NodeNetwork index =
     (case ParsePrefix config_PodCIDR of
        None \<Rightarrow> Inl (NewError ''netip'')
      | Some cidr \<Rightarrow>
          (case subnet cidr NodePrefix index of
             Inl e \<Rightarrow> Inl e
           | Inr podCIDR \<Rightarrow>
               (case As4 (prefixAddr podCIDR) of
                  None \<Rightarrow> Inl (NewError ''panic: As4 called on IPv6 address'')
                | Some (b0, b1, b2, b3) \<Rightarrow>
                    Inr (podCIDR, AddrFrom4 (b0, b1, b2, word_of_int GatewayHost)))))"

definition NodeUnderlayAddress :: "int \<Rightarrow> netip_Addr result" where
  "NodeUnderlayAddress index =
     (case ParsePrefix UnderlayCIDR of
        None \<Rightarrow> Inl (NewError (''underlay CIDR must be an IPv4 network: '' @ quoted UnderlayCIDR))
      | Some cidr \<Rightarrow>
          (case As4 (prefixAddr cidr) of
             None \<Rightarrow>
               Inl (NewError (''underlay CIDR must be an IPv4 network: '' @ quoted UnderlayCIDR))
           | Some address \<Rightarrow>
               if index < 0 then Inl (NewError ''node index must not be negative'')
               else
                 let host = (word_of_int (FirstNodeHost + index) :: uint32) in
                 if host \<ge> push_bit (nat (32 - prefixBits cidr)) 1
                 then Inl (NewError (''node index '' @ strconv_Itoa index
                        @ '' does not fit in underlay CIDR '' @ prefix_String cidr))
                 else Inr (AddrFrom4 (bytes_of_uint32 (uint32_of_bytes address + host)))))"

section \<open>What they compute\<close>

lemma parse_PodCIDR:
  "ParsePrefix config_PodCIDR = Some \<lparr>prefixAddr = Addr4 10 244 0 0, prefixBits = 16\<rparr>"
  by code_simp

lemma parse_UnderlayCIDR:
  "ParsePrefix UnderlayCIDR = Some \<lparr>prefixAddr = Addr4 10 200 0 0, prefixBits = 24\<rparr>"
  by code_simp

lemma masked_PodCIDR:
  "As4 (prefixAddr (prefix_Masked \<lparr>prefixAddr = Addr4 10 244 0 0, prefixBits = 16\<rparr>))
    = Some (10, 244, 0, 0)"
  by code_simp

lemma subnet_bytes_all:
  "list_all (\<lambda>i. bytes_of_uint32 (uint32_of_bytes (10, 244, 0, 0) + word_of_int i * 256)
    = (10, 244, word_of_int i, 0)) [0..255]"
  by code_simp

lemma subnet_bytes:
  "0 \<le> i \<Longrightarrow> i < 256 \<Longrightarrow>
    bytes_of_uint32 (uint32_of_bytes (10, 244, 0, 0) + word_of_int i * 256) = (10, 244, word_of_int i, 0)"
  using subnet_bytes_all by (simp add: list_all_iff)

lemma underlay_bytes_all:
  "list_all (\<lambda>i. bytes_of_uint32 (uint32_of_bytes (10, 200, 0, 0) + word_of_int i)
    = (10, 200, 0, word_of_int i)) [0..255]"
  by code_simp

lemma underlay_bytes:
  "0 \<le> i \<Longrightarrow> i < 256 \<Longrightarrow>
    bytes_of_uint32 (uint32_of_bytes (10, 200, 0, 0) + word_of_int i) = (10, 200, 0, word_of_int i)"
  using underlay_bytes_all by (simp add: list_all_iff)

lemma uint64_bound:
  assumes "in_int64 i"
  shows "(word_of_int i :: 64 word) \<ge> 256 \<longleftrightarrow> i < 0 \<or> i \<ge> 256"
proof -
  have "uint (word_of_int i :: 64 word) = i mod 2 ^ 64"
    by (simp add: uint_word_of_int)
  moreover have "i mod 2 ^ 64 = (if i < 0 then i + 2 ^ 64 else i)"
    using assms by (auto simp: in_int64_def int64_min_def int64_max_def mod_pos_pos_trivial
        intro: mod_pos_geq [THEN trans] minus_mod_int_eq)
      (smt (verit) mod_add_self2 mod_pos_pos_trivial)
  ultimately show ?thesis
    using assms by (auto simp: word_le_def in_int64_def int64_min_def int64_max_def)
qed

lemma NodeNetwork_eq:
  assumes "in_int64 i"
  shows "NodeNetwork i =
    (if 0 \<le> i \<and> i < 256
     then Inr (\<lparr>prefixAddr = Addr4 10 244 (word_of_int i) 0, prefixBits = 24\<rparr>,
               Addr4 10 244 (word_of_int i) 1)
     else Inl (NewError (''Pod CIDR has no subnet for worker-'' @ strconv_Itoa (int64_wrap (i + 1)))))"
proof -
  have shift: "push_bit 8 1 = (256 :: 64 word)" "push_bit 8 1 = (256 :: 32 word)" by simp_all
  show ?thesis
    using uint64_bound [OF assms] subnet_bytes [of i]
    by (auto simp: NodeNetwork_def subnet_def parse_PodCIDR masked_PodCIDR NodePrefix_def
        GatewayHost_def AddrFrom4_def shift Let_def)
qed

lemma uint32_small:
  "0 \<le> x \<Longrightarrow> x < 2 ^ 32 \<Longrightarrow> (word_of_int x :: uint32) \<ge> 256 \<longleftrightarrow> x \<ge> 256"
  by (simp add: word_le_def uint_word_of_int)

lemma NodeUnderlayAddress_eval:
  "NodeUnderlayAddress i =
    (if i < 0 then Inl (NewError ''node index must not be negative'')
     else if (word_of_int (2 + i) :: uint32) \<ge> 256
     then Inl (NewError (''node index '' @ strconv_Itoa i @ '' does not fit in underlay CIDR ''
            @ prefix_String \<lparr>prefixAddr = Addr4 10 200 0 0, prefixBits = 24\<rparr>))
     else Inr (AddrFrom4 (bytes_of_uint32
       (uint32_of_bytes (10, 200, 0, 0) + word_of_int (2 + i)))))"
proof -
  have shift: "push_bit 8 1 = (256 :: 32 word)" by simp
  show ?thesis
    by (simp add: NodeUnderlayAddress_def parse_UnderlayCIDR FirstNodeHost_def shift Let_def
        del: uint32_of_bytes.simps)
qed

lemma NodeUnderlayAddress_ok:
  assumes "0 \<le> i" and "i \<le> 253"
  shows "NodeUnderlayAddress i = Inr (Addr4 10 200 0 (word_of_int (i + 2)))"
proof -
  have "\<not> i < 0" and "\<not> (word_of_int (2 + i) :: uint32) \<ge> 256"
    using uint32_small [of "2 + i"] assms by simp_all
  moreover have "bytes_of_uint32 (uint32_of_bytes (10, 200, 0, 0) + word_of_int (2 + i))
      = (10, 200, 0, word_of_int (2 + i))"
    by (rule underlay_bytes) (use assms in auto)
  ultimately show ?thesis
    by (simp only: NodeUnderlayAddress_eval if_False AddrFrom4_def prod.case add.commute)
qed

lemma NodeUnderlayAddress_error:
  assumes "i < 0 \<or> i > 253" and "i < 2 ^ 32 - 2"
  shows "isl (NodeUnderlayAddress i)"
proof (cases "i < 0")
  case False
  then have "(word_of_int (2 + i) :: uint32) \<ge> 256"
    using uint32_small [of "2 + i"] assms by simp
  then show ?thesis unfolding NodeUnderlayAddress_eval by simp
qed (simp add: NodeUnderlayAddress_eval)

section \<open>Theorems\<close>

text \<open>
  C38: worker number i (0 to 255) gets the Pod subnet 10.244.i.0/24 and the gateway 10.244.i.1;
  every other index of a 64-bit integer is refused.
\<close>

theorem node_network:
  assumes "in_int64 i"
  shows "if 0 \<le> i \<and> i < 256
    then NodeNetwork i = Inr (\<lparr>prefixAddr = Addr4 10 244 (word_of_int i) 0, prefixBits = 24\<rparr>,
      Addr4 10 244 (word_of_int i) 1)
    else isl (NodeNetwork i)"
  by (simp add: NodeNetwork_eq [OF assms])

lemma node_network_witness:
  "NodeNetwork 3 = Inr (\<lparr>prefixAddr = Addr4 10 244 3 0, prefixBits = 24\<rparr>, Addr4 10 244 3 1)
    \<and> isl (NodeNetwork (-1))"
  using node_network [of 3] node_network [of "-1"]
  by (simp add: in_int64_def int64_min_def int64_max_def)

text \<open>
  C37: the Pod subnets of different workers do not overlap: an address of one is in the other
  for no pair of indices that are both accepted.
\<close>

theorem node_networks_disjoint:
  assumes "in_int64 i" and "in_int64 j" and "i \<noteq> j"
    and "NodeNetwork i = Inr (p, g)" and "NodeNetwork j = Inr (q, h)"
    and "As4 (prefixAddr p) = Some a" and "As4 (prefixAddr q) = Some b"
    and "in_prefix (uint32_of_bytes a) (nat (prefixBits p)) v"
  shows "\<not> in_prefix (uint32_of_bytes b) (nat (prefixBits q)) v"
proof
  assume q: "in_prefix (uint32_of_bytes b) (nat (prefixBits q)) v"
  from assms(4,5) have range: "0 \<le> i" "i < 256" "0 \<le> j" "j < 256"
    by (auto simp: NodeNetwork_eq [OF assms(1)] NodeNetwork_eq [OF assms(2)] split: if_splits)
  with assms(4-7) have "a = (10, 244, word_of_int i, 0)" "b = (10, 244, word_of_int j, 0)"
    "prefixBits p = 24" "prefixBits q = 24"
    by (auto simp: NodeNetwork_eq [OF assms(1)] NodeNetwork_eq [OF assms(2)])
  with assms(8) q have eq: "drop_bit 8 (uint32_of_bytes (10, 244, word_of_int i, 0))
      = drop_bit 8 (uint32_of_bytes (10, 244, word_of_int j, 0))"
    by (simp add: in_prefix_def)
  have third: "(\<lambda>(b0, b1, b2, b3). b2) (bytes_of_uint32 x) = ucast (drop_bit 8 x)"
    for x :: uint32
    by (simp add: bytes_of_uint32_def)
  have "(word_of_int i :: 8 word) = word_of_int j"
    using third [of "uint32_of_bytes (10, 244, word_of_int i, 0)"]
      third [of "uint32_of_bytes (10, 244, word_of_int j, 0)"] eq
    unfolding bytes_of_uint32_of_bytes by simp
  then show False
    using range assms(3) by (auto simp: word_of_int_eq_iff take_bit_int_eq_self)
qed

lemma node_networks_disjoint_witness:
  "\<not> in_prefix (uint32_of_bytes (10, 244, 2, 0)) 24 (uint32_of_bytes (10, 244, 1, 7))"
proof -
  have i: "in_int64 1" "in_int64 2"
    by (simp_all add: in_int64_def int64_min_def int64_max_def)
  have n: "NodeNetwork 1 = Inr (\<lparr>prefixAddr = Addr4 10 244 1 0, prefixBits = 24\<rparr>, Addr4 10 244 1 1)"
    "NodeNetwork 2 = Inr (\<lparr>prefixAddr = Addr4 10 244 2 0, prefixBits = 24\<rparr>, Addr4 10 244 2 1)"
    by (simp_all add: NodeNetwork_eq [OF i(1)] NodeNetwork_eq [OF i(2)])
  have "in_prefix (uint32_of_bytes (10, 244, 1, 0)) 24 (uint32_of_bytes (10, 244, 1, 7))"
    by code_simp
  moreover have "As4 (Addr4 10 244 k 0) = Some (10, 244, k, 0)" for k by simp
  ultimately show ?thesis
    using node_networks_disjoint [OF i _ n, of "(10, 244, 1, 0)" "(10, 244, 2, 0)"]
    by (simp del: uint32_of_bytes.simps)
qed

text \<open>
  C40: node i (0 to 253) gets the underlay address 10.200.0.(i+2), and other indices below
  2^32 - 2 are refused; the index 2^32 passes the check, because the code truncates to 32 bits
  before it compares, and gets the address of node 0.
\<close>

theorem node_underlay_address:
  "(i < 2 ^ 32 - 2 \<longrightarrow>
     (if 0 \<le> i \<and> i \<le> 253 then NodeUnderlayAddress i = Inr (Addr4 10 200 0 (word_of_int (i + 2)))
      else isl (NodeUnderlayAddress i))) \<and>
   NodeUnderlayAddress (2 ^ 32) = NodeUnderlayAddress 0"
proof (intro conjI impI)
  assume "i < 2 ^ 32 - 2"
  then show "if 0 \<le> i \<and> i \<le> 253
    then NodeUnderlayAddress i = Inr (Addr4 10 200 0 (word_of_int (i + 2)))
    else isl (NodeUnderlayAddress i)"
    using NodeUnderlayAddress_ok [of i] NodeUnderlayAddress_error [of i] by auto
next
  show "NodeUnderlayAddress (2 ^ 32) = NodeUnderlayAddress 0"
    by code_simp
qed

lemma node_underlay_address_witness:
  "NodeUnderlayAddress 0 = Inr (Addr4 10 200 0 2) \<and> isl (NodeUnderlayAddress 254)"
  using node_underlay_address [of 0] node_underlay_address [of 254] by simp

end
