(* ===== verification/Cni.thy ===== *)
theory Cni
  imports NetIP Exec Bootstrap ApiTypes
begin

text \<open>
  The network plugin of \<^verbatim>\<open>cni/cni.go\<close>: it gives every Pod of a node an address of the node's
  Pod network and connects the Pod's network namespace to the bridge. The plugin remembers its
  attachments; the commands it runs are executed by an argument. An operation runs on the plugin
  and the world together.
\<close>

section \<open>The state\<close>

record Result =
  resultIP :: ip4
  resultGateway :: ip4

record attachment =
  attachResult :: Result
  hostLink :: string

record LinuxCNI =
  cniBridge :: string
  podNet :: net_IPNet
  cniGateway :: ip4
  cniPods :: "(string, attachment) fmap"

definition hostVethPrefix :: string where "hostVethPrefix = ''cnih''"
definition podVethPrefix :: string where "podVethPrefix = ''cnip''"
definition podInterface :: string where "podInterface = ''eth0''"
definition loopback :: string where "loopback = ''lo''"

definition ip_String :: "ip4 \<Rightarrow> string" where
  "ip_String b = addr_String (AddrFrom4 b)"

definition NewLinuxCNI :: "string \<Rightarrow> string \<Rightarrow> string \<Rightarrow> LinuxCNI result" where
  "NewLinuxCNI bridge podCIDR gateway =
     (case net_ParseCIDR podCIDR of
        None \<Rightarrow> Inl (WrapError ''parse Pod CIDR'' (NewError (''invalid CIDR address: '' @ podCIDR)))
      | Some (ip, network) \<Rightarrow>
          (case To4 (net_ParseIP gateway) of
             None \<Rightarrow> Inl (NewError ''gateway is outside Pod CIDR'')
           | Some parsedGateway \<Rightarrow>
               if \<not> net_Contains network (ip4_bytes parsedGateway)
               then Inl (NewError ''gateway is outside Pod CIDR'')
               else Inr \<lparr>cniBridge = bridge,
                 podNet = network\<lparr>netIP := (case To4 ip of None \<Rightarrow> [] | Some b \<Rightarrow> ip4_bytes b)\<rparr>,
                 cniGateway = parsedGateway, cniPods = fmempty\<rparr>))"

section \<open>Addresses and names\<close>

text \<open>
  The candidate is a copy of the network's address with its last byte replaced. \<open>None\<close> stands
  for the panic on the empty slice, which a plugin made by \<open>NewLinuxCNI\<close> never has.
\<close>

definition candidate :: "LinuxCNI \<Rightarrow> nat \<Rightarrow> ip4 option" where
  "candidate plugin host =
     (case To4 (netIP (podNet plugin)) of
        None \<Rightarrow> None
      | Some (a, b, c, d) \<Rightarrow> Some (a, b, c, word_of_nat host))"

definition ip_used :: "LinuxCNI \<Rightarrow> ip4 \<Rightarrow> bool" where
  "ip_used plugin ip =
     list_ex (\<lambda>(_, a). resultIP (attachResult a) = ip) (sorted_list_of_fmap (cniPods plugin))"

fun nextIP_from :: "LinuxCNI \<Rightarrow> nat list \<Rightarrow> ip4 result" where
  "nextIP_from plugin [] = Inl (NewError ''Pod CIDR has no available IP'')"
| "nextIP_from plugin (host # hosts) =
     (case candidate plugin host of
        None \<Rightarrow> Inl (NewError ''panic: index out of range'')
      | Some ip \<Rightarrow>
          if ip = cniGateway plugin then nextIP_from plugin hosts
          else if \<not> ip_used plugin ip then Inr ip
          else nextIP_from plugin hosts)"

definition nextIP :: "LinuxCNI \<Rightarrow> ip4 result" where
  "nextIP plugin = nextIP_from plugin [2..<255]"

text \<open>The 32-bit FNV-1a hash of \<^verbatim>\<open>hash/fnv\<close>.\<close>

definition fnv32a :: "string \<Rightarrow> uint32" where
  "fnv32a s = foldl (\<lambda>h c. (h XOR word_of_nat (of_char c)) * 16777619) 2166136261 s"

definition hex8 :: "uint32 \<Rightarrow> string" where
  "hex8 v = (case bytes_of_uint32 v of (a, b, c, d) \<Rightarrow> hex_EncodeToString (map unat [a, b, c, d]))"

definition linkNames :: "string \<Rightarrow> string \<times> string" where
  "linkNames podName =
     (let digits = take 8 (hex8 (fnv32a podName))
      in (hostVethPrefix @ digits, podVethPrefix @ digits))"

text \<open>The pattern \<^verbatim>\<open>^/proc/([0-9]+)/ns/net$\<close> and its group.\<close>

definition processNetns :: "string \<Rightarrow> string option" where
  "processNetns path =
     (if \<not> strings_HasPrefix path ''/proc/'' then None
      else
        let rest = drop 6 path; pid = takeWhile is_digit rest
        in if pid \<noteq> [] \<and> dropWhile is_digit rest = ''/ns/net'' then Some pid else None)"

definition namespaceTarget :: "string \<Rightarrow> string result" where
  "namespaceTarget path =
     (case processNetns path of
        None \<Rightarrow> Inl (NewError (''network namespace must be a process namespace: '' @ path))
      | Some target \<Rightarrow> Inr target)"

definition namespaceCommand :: "string \<Rightarrow> string list result" where
  "namespaceCommand path =
     (case namespaceTarget path of Inl e \<Rightarrow> Inl e | Inr target \<Rightarrow> Inr [''-t'', target, ''-n''])"

section \<open>The operations\<close>

definition ip_with_prefix :: "LinuxCNI \<Rightarrow> ip4 \<Rightarrow> string" where
  "ip_with_prefix plugin ip = ip_String ip @ ''/'' @ strconv_Itoa (int (maskOnes (podNet plugin)))"

definition ensureBridge :: "'w exec \<Rightarrow> LinuxCNI \<Rightarrow> ('w, unit) operation" where
  "ensureBridge run plugin w =
     (case exec_run run ''ip'' [''link'', ''show'', cniBridge plugin] w of
        (Inr u, w1) \<Rightarrow> (Inr (), w1)
      | (Inl e, w1) \<Rightarrow>
          andThen (wrapping ''create bridge''
            (exec_run run ''ip'' [''link'', ''add'', cniBridge plugin, ''type'', ''bridge''])) (\<lambda>_.
          andThen (wrapping ''assign bridge gateway''
            (exec_run run ''ip'' [''addr'', ''add'', ip_with_prefix plugin (cniGateway plugin),
              ''dev'', cniBridge plugin])) (\<lambda>_.
          wrapping ''enable bridge''
            (exec_run run ''ip'' [''link'', ''set'', cniBridge plugin, ''up'']))) w1)"

definition configurePod ::
    "'w exec \<Rightarrow> LinuxCNI \<Rightarrow> string \<Rightarrow> string \<Rightarrow> ip4 \<Rightarrow> ('w, unit) operation" where
  "configurePod run plugin netnsPath peer ip =
     (case namespaceCommand netnsPath of
        Inl e \<Rightarrow> failing e
      | Inr nsenterArgs \<Rightarrow>
          andThen (wrapping ''rename Pod interface''
            (exec_run run ''nsenter'' (nsenterArgs @ [''ip'', ''link'', ''set'', peer, ''name'', podInterface]))) (\<lambda>_.
          andThen (wrapping ''enable Pod loopback''
            (exec_run run ''nsenter'' (nsenterArgs @ [''ip'', ''link'', ''set'', loopback, ''up'']))) (\<lambda>_.
          andThen (wrapping ''assign Pod IP''
            (exec_run run ''nsenter'' (nsenterArgs @ [''ip'', ''addr'', ''add'', ip_with_prefix plugin ip,
              ''dev'', podInterface]))) (\<lambda>_.
          andThen (wrapping ''enable Pod interface''
            (exec_run run ''nsenter'' (nsenterArgs @ [''ip'', ''link'', ''set'', podInterface, ''up'']))) (\<lambda>_.
          wrapping ''set Pod default route''
            (exec_run run ''nsenter'' (nsenterArgs @ [''ip'', ''route'', ''add'', ''default'', ''via'',
              ip_String (cniGateway plugin)])))))))"

definition connectPod ::
    "'w exec \<Rightarrow> LinuxCNI \<Rightarrow> string \<Rightarrow> string \<Rightarrow> string \<Rightarrow> string \<Rightarrow> ip4 \<Rightarrow> ('w, unit) operation" where
  "connectPod run plugin netnsPath netnsTarget hostName peerName ip =
     andThen (wrapping ''move veth into Pod namespace''
       (exec_run run ''ip'' [''link'', ''set'', peerName, ''netns'', netnsTarget])) (\<lambda>_.
     andThen (wrapping ''connect veth to bridge''
       (exec_run run ''ip'' [''link'', ''set'', hostName, ''master'', cniBridge plugin])) (\<lambda>_.
     andThen (wrapping ''enable host veth''
       (exec_run run ''ip'' [''link'', ''set'', hostName, ''up''])) (\<lambda>_.
     configurePod run plugin netnsPath peerName ip)))"

definition LinuxCNI_Add ::
    "'w exec \<Rightarrow> string \<Rightarrow> string \<Rightarrow> (LinuxCNI \<times> 'w, Result) operation" where
  "LinuxCNI_Add run podName netnsPath =
     andThen get_memory (\<lambda>plugin.
       case fmlookup (cniPods plugin) podName of
         Some a \<Rightarrow> returning (attachResult a)
       | None \<Rightarrow>
           (case namespaceTarget netnsPath of
              Inl e \<Rightarrow> failing e
            | Inr netnsTarget \<Rightarrow>
                andThen (on_world (ensureBridge run plugin)) (\<lambda>_.
                case nextIP plugin of
                  Inl e \<Rightarrow> failing e
                | Inr ip \<Rightarrow>
                    let (hostName, peerName) = linkNames podName;
                        result = \<lparr>resultIP = ip, resultGateway = cniGateway plugin\<rparr>
                    in
                    andThen (on_world (wrapping (''create veth for Pod '' @ podName)
                      (exec_run run ''ip'' [''link'', ''add'', hostName, ''type'', ''veth'', ''peer'',
                        ''name'', peerName]))) (\<lambda>_.
                    andThen (on_world (cleaning_up
                      (exec_run run ''ip'' [''link'', ''del'', hostName])
                      (connectPod run plugin netnsPath netnsTarget hostName peerName ip))) (\<lambda>_.
                    andThen (put_memory (plugin\<lparr>cniPods := fmupd podName
                        \<lparr>attachResult = result, hostLink = hostName\<rparr> (cniPods plugin)\<rparr>)) (\<lambda>_.
                    returning result))))))"

definition LinuxCNI_Del :: "'w exec \<Rightarrow> string \<Rightarrow> string \<Rightarrow> (LinuxCNI \<times> 'w, unit) operation" where
  "LinuxCNI_Del run podName netnsPath =
     andThen get_memory (\<lambda>plugin.
       case fmlookup (cniPods plugin) podName of
         None \<Rightarrow> returning ()
       | Some a \<Rightarrow>
           (\<lambda>sw. case on_world (exec_run run ''ip'' [''link'', ''del'', hostLink a]) sw of
              (Inl err, sw1) \<Rightarrow>
                if \<not> strings_Contains (err_Error err) ''Cannot find device''
                then (Inl (WrapError (''remove Pod interface '' @ podName) err), sw1)
                else put_memory (plugin\<lparr>cniPods := fmdrop podName (cniPods plugin)\<rparr>) sw1
            | (Inr u, sw1) \<Rightarrow>
                put_memory (plugin\<lparr>cniPods := fmdrop podName (cniPods plugin)\<rparr>) sw1))"

section \<open>What the operations do\<close>

lemma LinuxCNI_Add_cases:
  assumes "LinuxCNI_Add run pod path (p, w) = (ans, (p', w'))"
  obtains (failed) e where "ans = Inl e" "p' = p" "fmlookup (cniPods p) pod = None"
    | (known) a where "fmlookup (cniPods p) pod = Some a" "ans = Inr (attachResult a)" "p' = p" "w' = w"
    | (attached) ip where "fmlookup (cniPods p) pod = None" "nextIP p = Inr ip"
        "ans = Inr \<lparr>resultIP = ip, resultGateway = cniGateway p\<rparr>"
        "p' = p\<lparr>cniPods := fmupd pod \<lparr>attachResult = \<lparr>resultIP = ip, resultGateway = cniGateway p\<rparr>,
          hostLink = fst (linkNames pod)\<rparr> (cniPods p)\<rparr>"
proof (cases "fmlookup (cniPods p) pod")
  case None
  then have "(\<exists>e. ans = Inl e \<and> p' = p) \<or> (\<exists>ip. nextIP p = Inr ip \<and>
      ans = Inr \<lparr>resultIP = ip, resultGateway = cniGateway p\<rparr> \<and>
      p' = p\<lparr>cniPods := fmupd pod \<lparr>attachResult = \<lparr>resultIP = ip, resultGateway = cniGateway p\<rparr>,
          hostLink = fst (linkNames pod)\<rparr> (cniPods p)\<rparr>)"
    using assms
    by (auto simp: LinuxCNI_Add_def andThen_def get_memory_def on_world_def failing_def
        returning_def put_memory_def Let_def split: sum.splits prod.splits)
  with None show ?thesis using failed attached by blast
next
  case (Some a)
  with assms have "ans = Inr (attachResult a)" "p' = p" "w' = w"
    by (simp_all add: LinuxCNI_Add_def andThen_def get_memory_def returning_def)
  with Some show ?thesis by (rule known)
qed

lemma LinuxCNI_Del_cases:
  assumes "LinuxCNI_Del run pod path (p, w) = (ans, (p', w'))"
  obtains (failed) e where "ans = Inl e" "p' = p"
    | (unknown) "fmlookup (cniPods p) pod = None" "ans = Inr ()" "p' = p" "w' = w"
    | (removed) "ans = Inr ()" "p' = p\<lparr>cniPods := fmdrop pod (cniPods p)\<rparr>"
  using assms
  by (auto simp: LinuxCNI_Del_def andThen_def get_memory_def on_world_def put_memory_def
      returning_def split: option.splits sum.splits prod.splits if_splits)

lemma ip_used_iff:
  "ip_used p ip \<longleftrightarrow> (\<exists>pod a. fmlookup (cniPods p) pod = Some a \<and> resultIP (attachResult a) = ip)"
proof -
  have "(pod, a) \<in> set (sorted_list_of_fmap (cniPods p)) \<longleftrightarrow> fmlookup (cniPods p) pod = Some a" for pod a
    by (auto simp: sorted_list_of_fmap_def fmlookup_dom_iff)
  then show ?thesis by (force simp: ip_used_def list_ex_iff)
qed

lemma nextIP_from_ok:
  "nextIP_from p hosts = Inr ip \<Longrightarrow>
    \<exists>h \<in> set hosts. candidate p h = Some ip \<and> ip \<noteq> cniGateway p \<and> \<not> ip_used p ip"
  by (induction hosts) (auto split: option.splits if_splits)

lemma nextIP_from_error:
  assumes "nextIP_from p hosts = Inl e" and "candidate p 0 \<noteq> None" and "h \<in> set hosts"
  shows "\<exists>ip. candidate p h = Some ip \<and> (ip = cniGateway p \<or> ip_used p ip)"
  using assms
proof (induction hosts)
  case Nil
  then show ?case by simp
next
  case (Cons host hosts)
  then obtain c where c: "candidate p host = Some c"
    by (auto simp: candidate_def split: option.splits)
  show ?case
  proof (cases "h = host")
    case True
    with Cons.prems(1) c show ?thesis by (auto split: if_splits)
  next
    case False
    with Cons c show ?thesis by (auto split: if_splits)
  qed
qed

lemma nextIP_ok:
  assumes "nextIP p = Inr ip"
  obtains h where "2 \<le> h" "h < 255" "candidate p h = Some ip" "ip \<noteq> cniGateway p" "\<not> ip_used p ip"
proof -
  from nextIP_from_ok [OF assms [unfolded nextIP_def]] obtain h
    where "h \<in> {2..<255}" "candidate p h = Some ip" "ip \<noteq> cniGateway p" "\<not> ip_used p ip"
    by (simp only: set_upt) blast
  then show ?thesis by (intro that [of h]) simp_all
qed

lemma nextIP_error:
  assumes "nextIP p = Inl e" and "candidate p 0 \<noteq> None" and "2 \<le> h" and "h < 255"
  shows "\<exists>ip. candidate p h = Some ip \<and> (ip = cniGateway p \<or> ip_used p ip)"
proof -
  have "h \<in> set [2..<255]" unfolding set_upt using assms(3,4) by simp
  from nextIP_from_error [OF assms(1) [unfolded nextIP_def] assms(2) this] show ?thesis .
qed

section \<open>The network a runtime relies on\<close>

text \<open>
  What the interface \<^verbatim>\<open>CNI\<close> promises: the address of every attached Pod, no two Pods with
  the same one; an operation that fails changes no attachment.
\<close>

locale cni_network =
  fixes add :: "string \<Rightarrow> string \<Rightarrow> ('w, Result) operation"
    and del :: "string \<Rightarrow> string \<Rightarrow> ('w, unit) operation"
    and address :: "'w \<Rightarrow> string \<rightharpoonup> ip4"
    and ok :: "'w \<Rightarrow> bool"
  assumes add_ok: "ok w \<Longrightarrow> add pod path w = (Inr r, w') \<Longrightarrow>
      ok w' \<and> address w' = (address w)(pod \<mapsto> resultIP r) \<and>
      (address w pod = None \<or> address w pod = Some (resultIP r))"
    and add_error: "ok w \<Longrightarrow> add pod path w = (Inl e, w') \<Longrightarrow> ok w' \<and> address w' = address w"
    and del_ok: "ok w \<Longrightarrow> del pod path w = (Inr (), w') \<Longrightarrow>
      ok w' \<and> address w' = (address w)(pod := None)"
    and del_error: "ok w \<Longrightarrow> del pod path w = (Inl e, w') \<Longrightarrow> ok w' \<and> address w' = address w"
    and unique: "ok w \<Longrightarrow> inj_on (address w) (dom (address w))"

context cni_network begin

lemma add_fresh:
  assumes "ok w" and "add pod path w = (Inr r, w')" and "address w' other = Some (resultIP r)"
  shows "other = pod"
proof -
  from add_ok [OF assms(1,2)] have "ok w'" "address w' pod = Some (resultIP r)" by auto
  with assms(3) inj_onD [OF unique [OF \<open>ok w'\<close>], of other pod] show ?thesis by auto
qed

end

definition pod_address :: "LinuxCNI \<Rightarrow> string \<rightharpoonup> ip4" where
  "pod_address p pod = map_option (\<lambda>a. resultIP (attachResult a)) (fmlookup (cniPods p) pod)"

text \<open>
  The invariant of the plugin: the network has an IPv4 address; every attachment has an address
  with a host part from 2 to 254 other than the gateway's, the gateway and the link of its Pod;
  no two attachments share an address.
\<close>

definition cni_invar :: "LinuxCNI \<Rightarrow> bool" where
  "cni_invar p \<longleftrightarrow>
     candidate p 0 \<noteq> None \<and>
     (\<forall>pod a. fmlookup (cniPods p) pod = Some a \<longrightarrow>
       (\<exists>h. 2 \<le> h \<and> h < 255 \<and> candidate p h = Some (resultIP (attachResult a))) \<and>
       resultIP (attachResult a) \<noteq> cniGateway p \<and> resultGateway (attachResult a) = cniGateway p \<and>
       hostLink a = fst (linkNames pod)) \<and>
     (\<forall>pod pod' a a'. fmlookup (cniPods p) pod = Some a \<longrightarrow> fmlookup (cniPods p) pod' = Some a' \<longrightarrow>
       resultIP (attachResult a) = resultIP (attachResult a') \<longrightarrow> pod = pod')"

lemma candidate_pods [simp]: "candidate (p\<lparr>cniPods := m\<rparr>) h = candidate p h"
  by (simp add: candidate_def)

lemma cni_invar_attach:
  assumes "cni_invar p" and "nextIP p = Inr ip"
  shows "cni_invar (p\<lparr>cniPods := fmupd pod \<lparr>attachResult = \<lparr>resultIP = ip, resultGateway = cniGateway p\<rparr>,
      hostLink = fst (linkNames pod)\<rparr> (cniPods p)\<rparr>)"
proof -
  from nextIP_ok [OF assms(2)] obtain h
    where h: "2 \<le> h" "h < 255" "candidate p h = Some ip" "ip \<noteq> cniGateway p" "\<not> ip_used p ip" .
  then have fresh: "fmlookup (cniPods p) q = Some a \<Longrightarrow> resultIP (attachResult a) \<noteq> ip" for q a
    by (auto simp: ip_used_iff)
  show ?thesis
    using assms(1) h(1-4) fresh unfolding cni_invar_def by (auto split: if_splits)
qed

lemma cni_invar_detach: "cni_invar p \<Longrightarrow> cni_invar (p\<lparr>cniPods := fmdrop pod (cniPods p)\<rparr>)"
  unfolding cni_invar_def by auto

lemma LinuxCNI_Add_invar:
  assumes "cni_invar p" and "LinuxCNI_Add run pod path (p, w) = (ans, (p', w'))"
  shows "cni_invar p'"
  using assms(2) by (rule LinuxCNI_Add_cases) (use assms(1) cni_invar_attach in auto)

lemma LinuxCNI_Del_invar:
  assumes "cni_invar p" and "LinuxCNI_Del run pod path (p, w) = (ans, (p', w'))"
  shows "cni_invar p'"
  using assms(2) by (rule LinuxCNI_Del_cases) (use assms(1) cni_invar_detach in auto)

interpretation linux_cni: cni_network "LinuxCNI_Add run" "LinuxCNI_Del run"
  "\<lambda>pw. pod_address (fst pw)" "\<lambda>pw. cni_invar (fst pw)" for run :: "'w exec"
proof (unfold_locales, goal_cases)
  case (1 w pod path r w')
  obtain p v p' v' where w: "w = (p, v)" "w' = (p', v')" by (cases w, cases w') auto
  note add = 1(2) [unfolded w]
  from add have "pod_address p' = (pod_address p)(pod \<mapsto> resultIP r) \<and>
      (pod_address p pod = None \<or> pod_address p pod = Some (resultIP r))"
    by (rule LinuxCNI_Add_cases) (auto simp: pod_address_def fun_eq_iff)
  with LinuxCNI_Add_invar [OF _ add] 1(1) w show ?case by simp
next
  case (2 w pod path e w')
  obtain p v p' v' where w: "w = (p, v)" "w' = (p', v')" by (cases w, cases w') auto
  note add = 2(2) [unfolded w]
  from add have "p' = p" by (rule LinuxCNI_Add_cases) auto
  with 2(1) w show ?case by simp
next
  case (3 w pod path w')
  obtain p v p' v' where w: "w = (p, v)" "w' = (p', v')" by (cases w, cases w') auto
  note del = 3(2) [unfolded w]
  from del have "pod_address p' = (pod_address p)(pod := None)"
    by (rule LinuxCNI_Del_cases) (auto simp: pod_address_def fun_eq_iff)
  with LinuxCNI_Del_invar [OF _ del] 3(1) w show ?case by simp
next
  case (4 w pod path e w')
  obtain p v p' v' where w: "w = (p, v)" "w' = (p', v')" by (cases w, cases w') auto
  note del = 4(2) [unfolded w]
  from del have "p' = p" by (rule LinuxCNI_Del_cases) auto
  with 4(1) w show ?case by simp
next
  case (5 w)
  then show ?case
    by (auto simp: inj_on_def pod_address_def cni_invar_def)
qed

section \<open>Sequences of calls\<close>

datatype cni_call = CallAdd string string | CallDel string string

fun cni_call_run :: "'w exec \<Rightarrow> cni_call \<Rightarrow> LinuxCNI \<times> 'w \<Rightarrow> LinuxCNI \<times> 'w" where
  "cni_call_run run (CallAdd pod path) s = snd (LinuxCNI_Add run pod path s)"
| "cni_call_run run (CallDel pod path) s = snd (LinuxCNI_Del run pod path s)"

definition cni_calls :: "'w exec \<Rightarrow> cni_call list \<Rightarrow> LinuxCNI \<times> 'w \<Rightarrow> LinuxCNI \<times> 'w" where
  "cni_calls run calls s = fold (cni_call_run run) calls s"

lemma cni_call_keeps:
  assumes "cni_invar (fst s)"
  shows "cni_invar (fst (cni_call_run run c s)) \<and> podNet (fst (cni_call_run run c s)) = podNet (fst s) \<and>
    cniGateway (fst (cni_call_run run c s)) = cniGateway (fst s)"
proof -
  obtain p w where s: "s = (p, w)" by (cases s)
  show ?thesis
  proof (cases c)
    case (CallAdd pod path)
    obtain ans p' w' where run: "LinuxCNI_Add run pod path (p, w) = (ans, (p', w'))"
      using prod_cases3 by blast
    then have "podNet p' = podNet p \<and> cniGateway p' = cniGateway p"
      by (rule LinuxCNI_Add_cases) auto
    with LinuxCNI_Add_invar [OF _ run] assms s CallAdd run show ?thesis by simp
  next
    case (CallDel pod path)
    obtain ans p' w' where run: "LinuxCNI_Del run pod path (p, w) = (ans, (p', w'))"
      using prod_cases3 by blast
    then have "podNet p' = podNet p \<and> cniGateway p' = cniGateway p"
      by (rule LinuxCNI_Del_cases) auto
    with LinuxCNI_Del_invar [OF _ run] assms s CallDel run show ?thesis by simp
  qed
qed

lemma cni_calls_keep:
  "cni_invar (fst s) \<Longrightarrow>
    cni_invar (fst (cni_calls run calls s)) \<and> podNet (fst (cni_calls run calls s)) = podNet (fst s) \<and>
    cniGateway (fst (cni_calls run calls s)) = cniGateway (fst s)"
  unfolding cni_calls_def
proof (induction calls arbitrary: s)
  case (Cons c calls)
  from cni_call_keeps [OF Cons.prems, of run c] Cons.IH show ?case by simp
qed simp

lemma NewLinuxCNI_invar:
  assumes "NewLinuxCNI bridge podCIDR gateway = Inr p" and "maskBits (podNet p) = 32"
  shows "cni_invar p \<and> cniPods p = fmempty"
proof -
  from assms(1) obtain ip network where parse: "net_ParseCIDR podCIDR = Some (ip, network)"
    and p: "podNet p = network\<lparr>netIP := (case To4 ip of None \<Rightarrow> [] | Some b \<Rightarrow> ip4_bytes b)\<rparr>"
      "cniPods p = fmempty"
    by (auto simp: NewLinuxCNI_def split: option.splits if_splits)
  from parse assms(2) p(1) obtain a where "Is4 a" "ip = As16 a"
    by (auto simp: net_ParseCIDR_def Let_def split: option.splits if_splits)
  then obtain b where "To4 ip = Some b"
    by (cases a) (auto simp: Is4_def simp del: As16.simps)
  with p show ?thesis
    by (auto simp: cni_invar_def candidate_def split: prod.splits)
qed

lemma mask_last_byte: "ones \<le> 24 \<Longrightarrow> mask_byte ones 3 = 0"
  by (simp add: mask_byte_def)

lemma CIDRMask_32:
  "CIDRMask ones 32 = [mask_byte ones 0, mask_byte ones 1, mask_byte ones 2, mask_byte ones 3]"
  by (simp add: CIDRMask_def upt_rec numeral_2_eq_2 numeral_3_eq_3)

lemma candidate_Contains:
  assumes "candidate p h = Some ip" and "maskBits (podNet p) = 32" and "maskOnes (podNet p) \<le> 24"
  shows "net_Contains (podNet p) (ip4_bytes ip)"
proof -
  from assms(1) obtain a b c d where net: "To4 (netIP (podNet p)) = Some (a, b, c, d)"
    and ip: "ip = (a, b, c, word_of_nat h)"
    by (auto simp: candidate_def split: option.splits)
  show ?thesis
    using assms(2) To4_bytes [of ip]
    by (simp only: net_Contains_def Let_def net option.case prod.case CIDRMask_32
        mask_last_byte [OF assms(3)] ip ip4_bytes.simps) simp
qed

section \<open>Theorems\<close>

text \<open>
  C14: whatever Pods a node attaches and detaches, and whatever the commands do, no two attached
  Pods have the same address, no Pod has the gateway's, every address has a host part from 2 to
  254, and it lies in the Pod network when that is a /24 or larger.
\<close>

theorem pod_addresses_unique:
  assumes "NewLinuxCNI bridge podCIDR gateway = Inr p" and "maskBits (podNet p) = 32"
    and "cni_calls run calls (p, w) = (p', w')"
  shows "inj_on (pod_address p') (dom (pod_address p')) \<and>
    (\<forall>pod ip. pod_address p' pod = Some ip \<longrightarrow>
      ip \<noteq> cniGateway p \<and> (\<exists>h. 2 \<le> h \<and> h < 255 \<and> candidate p h = Some ip) \<and>
      (maskOnes (podNet p) \<le> 24 \<longrightarrow> net_Contains (podNet p) (ip4_bytes ip)))"
proof -
  from cni_calls_keep [of "(p, w)" run calls] NewLinuxCNI_invar [OF assms(1,2)] assms(3)
  have inv: "cni_invar p'" and same: "podNet p' = podNet p" "cniGateway p' = cniGateway p" by simp_all
  have cand: "candidate p' h = candidate p h" for h using same by (simp add: candidate_def)
  have "inj_on (pod_address p') (dom (pod_address p'))"
    using linux_cni.unique [of "(p', w')"] inv by simp
  moreover have "ip \<noteq> cniGateway p \<and> (\<exists>h. 2 \<le> h \<and> h < 255 \<and> candidate p h = Some ip)"
    if "pod_address p' pod = Some ip" for pod ip
    using that inv by (auto simp: pod_address_def cni_invar_def same cand)
  ultimately show ?thesis using candidate_Contains [OF _ assms(2)] by blast
qed

lemma pod_addresses_unique_witness:
  "\<exists>p p' log. NewLinuxCNI ''cni0'' ''10.244.3.0/24'' ''10.244.3.1'' = Inr p \<and>
     cni_calls (recording (\<lambda>_ _. False)) [CallAdd ''a'' ''/proc/7/ns/net'', CallAdd ''b'' ''/proc/8/ns/net'',
       CallDel ''a'' ''/proc/7/ns/net'', CallAdd ''c'' ''/proc/9/ns/net''] (p, []) = (p', log) \<and>
     inj_on (pod_address p') (dom (pod_address p')) \<and> pod_address p' ''c'' = Some (10, 244, 3, 2)"
proof -
  let ?net = "\<lparr>netIP = [10, 244, 3, 0], maskOnes = 24, maskBits = 32\<rparr>"
  let ?p = "\<lparr>cniBridge = ''cni0'', podNet = ?net, cniGateway = (10, 244, 3, 1), cniPods = fmempty\<rparr>"
  let ?calls = "[CallAdd ''a'' ''/proc/7/ns/net'', CallAdd ''b'' ''/proc/8/ns/net'',
       CallDel ''a'' ''/proc/7/ns/net'', CallAdd ''c'' ''/proc/9/ns/net'']"
  have new: "NewLinuxCNI ''cni0'' ''10.244.3.0/24'' ''10.244.3.1'' = Inr ?p" by code_simp
  have "pod_address (fst (cni_calls (recording (\<lambda>_ _. False)) ?calls (?p, []))) ''c''
      = Some (10, 244, 3, 2)" by code_simp
  moreover from pod_addresses_unique [OF new _ surjective_pairing,
      of "recording (\<lambda>_ _. False)" ?calls "[]"]
  have "inj_on (pod_address (fst (cni_calls (recording (\<lambda>_ _. False)) ?calls (?p, []))))
      (dom (pod_address (fst (cni_calls (recording (\<lambda>_ _. False)) ?calls (?p, [])))))" by simp
  ultimately show ?thesis using new surjective_pairing by blast
qed


definition example_plugin :: LinuxCNI where
  "example_plugin = \<lparr>cniBridge = ''cni0'',
     podNet = \<lparr>netIP = [10, 244, 3, 0], maskOnes = 24, maskBits = 32\<rparr>,
     cniGateway = (10, 244, 3, 1), cniPods = fmempty\<rparr>"

lemma example_plugin_new: "NewLinuxCNI ''cni0'' ''10.244.3.0/24'' ''10.244.3.1'' = Inr example_plugin"
  by code_simp

lemma example_plugin_invar: "cni_invar example_plugin"
  using NewLinuxCNI_invar [OF example_plugin_new] by (simp add: example_plugin_def)


lemma only_runs_ensureBridge:
  assumes "\<And>rest. length rest \<le> 7 \<Longrightarrow> P (''ip'' # rest)"
  shows "only_runs P (ensureBridge (recording fails) p)"
proof -
  have tail: "only_runs P (andThen (wrapping ''create bridge''
      (exec_run (recording fails) ''ip'' [''link'', ''add'', cniBridge p, ''type'', ''bridge''])) (\<lambda>_.
    andThen (wrapping ''assign bridge gateway''
      (exec_run (recording fails) ''ip'' [''addr'', ''add'', ip_with_prefix p (cniGateway p),
        ''dev'', cniBridge p])) (\<lambda>_.
    wrapping ''enable bridge''
      (exec_run (recording fails) ''ip'' [''link'', ''set'', cniBridge p, ''up'']))))"
    by (intro only_runs_andThen) (simp_all add: assms)
  show ?thesis
    unfolding only_runs_def
  proof
    fix log
    let ?show = "[''ip'', ''link'', ''show'', cniBridge p]"
    obtain cs where "snd (ensureBridge (recording fails) p log) = (log @ [?show]) @ cs" "list_all P cs"
    proof (cases "fails log ?show")
      case True
      from tail [unfolded only_runs_def, rule_format, of "log @ [?show]"] that show ?thesis
        by (auto simp: ensureBridge_def exec_run_recording True)
    next
      case False
      then show ?thesis by (intro that [of "[]"]) (simp_all add: ensureBridge_def exec_run_recording)
    qed
    then show "\<exists>commands. snd (ensureBridge (recording fails) p log) = log @ commands \<and> list_all P commands"
      using assms by (intro exI [of _ "?show # cs"]) simp
  qed
qed

lemma only_runs_connectPod:
  "only_runs (\<lambda>_. True) (connectPod (recording fails) p path target hostName peerName ip)"
  unfolding connectPod_def configurePod_def
  by (cases "namespaceCommand path") (auto intro!: only_runs_andThen)



lemma span_char:
  "c \<notin> set s \<Longrightarrow> takeWhile (\<lambda>x. x \<noteq> c) (s @ c # t) = s"
  "c \<notin> set s \<Longrightarrow> dropWhile (\<lambda>x. x \<noteq> c) (s @ c # t) = c # t"
  by (induction s) auto

lemma octets_no_slash: "CHR ''/'' \<notin> set (addr_String (Addr4 a b c d))"
  using not_digit_not_in_show_nat [of "CHR ''/''"] by (auto simp: octet_string_def is_digit_def)

lemma octets_no_zone: "CHR ''%'' \<notin> set (addr_String (Addr4 a b c d))"
  using not_digit_not_in_show_nat [of "CHR ''%''"] by (auto simp: octet_string_def is_digit_def)

lemma net_ParseIP_String: "net_ParseIP (addr_String (Addr4 a b c d)) = As16 (Addr4 a b c d)"
  using ParseAddr_String [of "Addr4 a b c d"] octets_no_zone [of a b c d]
  by (simp add: net_ParseIP_def Is4_def)

lemma net_ParseCIDR_String:
  "net_ParseCIDR (prefix_String \<lparr>prefixAddr = Addr4 a b c 0, prefixBits = 24\<rparr>) =
    Some (As16 (Addr4 a b c 0), \<lparr>netIP = [a, b, c, 0], maskOnes = 24, maskBits = 32\<rparr>)"
proof -
  let ?s = "addr_String (Addr4 a b c 0)"
  note parts = span_char [OF octets_no_slash [of a b c 0]]
  have bits: "parse_nat (strconv_Itoa 24) = Some 24"
    using parse_nat_show_nat [of 24] by (simp add: strconv_Itoa_def)
  have masks: "mask_byte 24 0 = -1" "mask_byte 24 (Suc 0) = -1" "mask_byte 24 2 = -1" "mask_byte 24 3 = 0"
    by code_simp+
  show ?thesis
    using parts [of "strconv_Itoa 24"] bits octets_no_zone [of a b c 0] ParseAddr_String [of "Addr4 a b c 0"]
    by (simp add: net_ParseCIDR_def prefix_String_def Is4_def CIDRMask_32 masks Let_def
        del: addr_String.simps)
qed

lemma node_plugin:
  assumes "NodeNetwork i = Inr (cidr, gateway)" and "in_int64 i"
  shows "0 \<le> i \<and> i < 256 \<and> NewLinuxCNI bridge (prefix_String cidr) (addr_String gateway) =
    Inr \<lparr>cniBridge = bridge,
      podNet = \<lparr>netIP = [10, 244, word_of_int i, 0], maskOnes = 24, maskBits = 32\<rparr>,
      cniGateway = (10, 244, word_of_int i, 1), cniPods = fmempty\<rparr>"
proof -
  from assms have i: "0 \<le> i \<and> i < 256" and cidr: "cidr = \<lparr>prefixAddr = Addr4 10 244 (word_of_int i) 0, prefixBits = 24\<rparr>"
    and gateway: "gateway = Addr4 10 244 (word_of_int i) 1"
    by (auto simp: NodeNetwork_eq split: if_splits)
  have masks: "mask_byte 24 0 = -1" "mask_byte 24 (Suc 0) = -1" "mask_byte 24 2 = -1" "mask_byte 24 3 = 0"
    by code_simp+
  have "net_Contains \<lparr>netIP = [10, 244, word_of_int i, 0], maskOnes = 24, maskBits = 32\<rparr>
      (ip4_bytes (10, 244, word_of_int i, 1))"
    by (simp add: net_Contains_def To4_def CIDRMask_32 masks Let_def)
  with i show ?thesis
    by (simp add: NewLinuxCNI_def cidr gateway net_ParseCIDR_String net_ParseIP_String To4_As16
        del: addr_String.simps As16.simps)
qed



end
