(* ===== verification/Runtime.thy ===== *)
theory Runtime
  imports Cri Cni
begin

text \<open>
  The container runtime of \<^verbatim>\<open>cri/runtime/runtime.go\<close>: it keeps the sandboxes and
  containers of a node, starts and stops their processes, connects sandboxes to the Pod network
  and answers the requests of the CRI socket. The operating system is an argument; an operation
  runs on the runtime's state and the world together. An operation that the code runs under its
  lock is one step. The goroutine that waits for a container is \<open>waitForContainer\<close>, which runs
  when the process has exited; the channel it closes is named by a number.
\<close>

section \<open>Paths\<close>

text \<open>\<^verbatim>\<open>filepath.Clean\<close> and \<^verbatim>\<open>filepath.Join\<close> on slash-separated paths.\<close>

fun clean_parts :: "bool \<Rightarrow> string list \<Rightarrow> string list \<Rightarrow> string list" where
  "clean_parts rooted acc [] = rev acc"
| "clean_parts rooted acc (p # ps) =
     (if p = [] \<or> p = ''.'' then clean_parts rooted acc ps
      else if p = ''..'' then
        (case acc of
           [] \<Rightarrow> if rooted then clean_parts rooted [] ps else clean_parts rooted [''..''] ps
         | q # qs \<Rightarrow> if q = ''..'' then clean_parts rooted (''..'' # acc) ps
             else clean_parts rooted qs ps)
      else clean_parts rooted (p # acc) ps)"

definition filepath_Clean :: "string \<Rightarrow> string" where
  "filepath_Clean path =
     (let rooted = strings_HasPrefix path ''/'';
          joined = strings_Join (clean_parts rooted [] (strings_Split path (CHR ''/''))) ''/''
      in if rooted then ''/'' @ joined else if joined = [] then ''.'' else joined)"

definition filepath_Join :: "string list \<Rightarrow> string" where
  "filepath_Join elements =
     (case dropWhile (\<lambda>e. e = []) elements of
        [] \<Rightarrow> []
      | parts \<Rightarrow> filepath_Clean (strings_Join parts ''/''))"

section \<open>The state\<close>

record 'w CNI =
  cniAdd :: "string \<Rightarrow> string \<Rightarrow> ('w, Result) operation"
  cniDel :: "string \<Rightarrow> string \<Rightarrow> ('w, unit) operation"

record managedSandbox =
  msSandbox :: cri_Sandbox
  msProcess :: int
  msNetns :: string
  msHostNetwork :: bool

record managedContainer =
  mcContainer :: cri_Container
  mcProcess :: "int option"
  mcDone :: nat
  mcSandboxID :: string
  mcRootfs :: string

text \<open>A watcher is the buffer, of at most one event, of its channel.\<close>

record Runtime =
  bundleDir :: string
  containers :: "(string, managedContainer) fmap"
  sandboxes :: "(string, managedSandbox) fmap"
  watchers :: "(nat, cri_Event list) fmap"
  nextChannel :: nat

definition NewRuntime :: "string \<Rightarrow> Runtime" where
  "NewRuntime dir = \<lparr>bundleDir = dir, containers = fmempty, sandboxes = fmempty,
     watchers = fmempty, nextChannel = 0\<rparr>"

text \<open>
  The calls into the operating system: a pipe, a child process with or without its own network
  namespace (its number is the answer), the byte that releases it, the signals, waiting for the
  end of a process (which is killed after five seconds), files and the \<^verbatim>\<open>cp\<close> command.
\<close>

record 'w runtime_os =
  osArgs0 :: string
  osPipe :: "('w, unit) operation"
  osStart :: "string list \<Rightarrow> bool \<Rightarrow> ('w, int) operation"
  osRelease :: "int \<Rightarrow> ('w, unit) operation"
  osKill :: "int \<Rightarrow> 'w \<Rightarrow> 'w"
  osTerminate :: "int \<Rightarrow> ('w, unit) operation"
  osWait :: "int \<Rightarrow> 'w \<Rightarrow> 'w"
  osExecutable :: "('w, string) operation"
  osOpen :: "string \<Rightarrow> ('w, unit) operation"
  osReadJSON :: "string \<Rightarrow> ('w, json option) operation"
  osAbs :: "string \<Rightarrow> ('w, string) operation"
  osMkdirTemp :: "('w, string) operation"
  osRemoveAll :: "string \<Rightarrow> 'w \<Rightarrow> 'w"
  osExec :: "'w exec"

definition ErrProcessDone :: goerror where
  "ErrProcessDone = NewError ''os: process already finished''"

section \<open>Events\<close>

definition publish :: "cri_Event \<Rightarrow> Runtime \<Rightarrow> Runtime" where
  "publish event rt = rt\<lparr>watchers := fmmap (\<lambda>buffer. if buffer = [] then [event] else buffer) (watchers rt)\<rparr>"

definition sandbox_event :: "string \<Rightarrow> cri_Sandbox \<Rightarrow> cri_Event" where
  "sandbox_event type s =
     \<lparr>criEventType = type, criEventContainer = zero_cri_Container, criEventSandbox = s\<rparr>"

definition container_event :: "string \<Rightarrow> cri_Container \<Rightarrow> cri_Event" where
  "container_event type c =
     \<lparr>criEventType = type, criEventContainer = c, criEventSandbox = zero_cri_Sandbox\<rparr>"

text \<open>The two halves of \<^verbatim>\<open>watch\<close>, and the loop that writes the buffered event.\<close>

definition add_watcher :: "Runtime \<Rightarrow> nat \<times> Runtime" where
  "add_watcher rt = (nextChannel rt,
     rt\<lparr>watchers := fmupd (nextChannel rt) [] (watchers rt), nextChannel := nextChannel rt + 1\<rparr>)"

definition drain_watcher :: "nat \<Rightarrow> Runtime \<Rightarrow> cri_response list \<times> Runtime" where
  "drain_watcher ch rt =
     (case fmlookup (watchers rt) ch of
        None \<Rightarrow> ([], rt)
      | Some buffer \<Rightarrow>
          (map (\<lambda>event. zero_response\<lparr>respOK := True, respEventType := criEventType event,
               respContainer := criEventContainer event, respSandbox := criEventSandbox event\<rparr>) buffer,
           rt\<lparr>watchers := fmupd ch [] (watchers rt)\<rparr>))"

definition remove_watcher :: "nat \<Rightarrow> Runtime \<Rightarrow> Runtime" where
  "remove_watcher ch rt = rt\<lparr>watchers := fmdrop ch (watchers rt)\<rparr>"

section \<open>Listing\<close>

text \<open>The order of a listing is unspecified; the model takes that of the keys.\<close>

definition runtime_list :: "Runtime \<Rightarrow> cri_Container list" where
  "runtime_list rt = map (\<lambda>(_, m). mcContainer m) (sorted_list_of_fmap (containers rt))"

definition runtime_listSandboxes :: "Runtime \<Rightarrow> cri_Sandbox list" where
  "runtime_listSandboxes rt = map (\<lambda>(_, m). msSandbox m) (sorted_list_of_fmap (sandboxes rt))"

section \<open>Sandboxes\<close>

definition running_sandbox :: "Runtime \<Rightarrow> string \<Rightarrow> SandboxSource \<Rightarrow> cri_Sandbox option" where
  "running_sandbox rt podName source =
     find (\<lambda>s. sandPod s = podName \<and> sandSource s = source \<and> sandState s = cri_Running)
       (runtime_listSandboxes rt)"

text \<open>
  A started child is killed when the rest of the function fails; \<open>killing\<close> is that pattern.
\<close>

definition killing :: "'w runtime_os \<Rightarrow> int \<Rightarrow> ('w, 'a) operation \<Rightarrow> ('w, 'a) operation" where
  "killing os pid = cleaning_up (\<lambda>w. (Inr (), osKill os pid w))"

definition netns_path :: "int \<Rightarrow> string" where
  "netns_path pid = ''/proc/'' @ strconv_Itoa pid @ ''/ns/net''"

definition connect_sandbox ::
    "'w CNI option \<Rightarrow> string \<Rightarrow> string \<Rightarrow> bool \<Rightarrow> ('w, Result option) operation" where
  "connect_sandbox network podName netnsPath hostNetwork =
     (case network of
        None \<Rightarrow> returning None
      | Some cni \<Rightarrow>
          if hostNetwork then returning None
          else andThen (cniAdd cni podName netnsPath) (\<lambda>result. returning (Some result)))"

definition runPodSandbox ::
    "'w runtime_os \<Rightarrow> 'w CNI option \<Rightarrow> string \<Rightarrow> SandboxSource \<Rightarrow> bool \<Rightarrow>
     (Runtime \<times> 'w, cri_Sandbox) operation" where
  "runPodSandbox os network podName source hostNetwork =
     andThen get_memory (\<lambda>rt.
       case running_sandbox rt podName source of
         Some s \<Rightarrow> returning s
       | None \<Rightarrow>
           andThen (on_world (osPipe os)) (\<lambda>_.
           andThen (on_world (osStart os
             [osArgs0 os, ''--sandbox-child'', ''--network-ready-fd'', ''3''] (\<not> hostNetwork))) (\<lambda>pid.
           andThen (on_world (killing os pid
             (connect_sandbox network podName (netns_path pid) hostNetwork))) (\<lambda>result.
           andThen (on_world (killing os pid (osRelease os pid))) (\<lambda>_.
             let s = \<lparr>sandID = ''sandbox-'' @ strconv_Itoa pid, sandPod = podName,
                   sandSource = source,
                   sandIP = (case result of None \<Rightarrow> [] | Some r \<Rightarrow> ip_String (resultIP r)),
                   sandState = cri_Running\<rparr>;
                 managed = \<lparr>msSandbox = s, msProcess = pid, msNetns = netns_path pid,
                   msHostNetwork = hostNetwork\<rparr>
             in andThen (put_memory (publish (sandbox_event ''sandbox-added'' s)
                  (rt\<lparr>sandboxes := fmupd (sandID s) managed (sandboxes rt)\<rparr>))) (\<lambda>_.
                returning s))))))"

section \<open>Bundles\<close>

record bundleConfig =
  rootPath :: string
  bundleArgs :: "string slice"

definition dec_bundleConfig :: "bundleConfig decoder" where
  "dec_bundleConfig = dec_struct
     [field ''root'' rootPath (\<lambda>x c. c\<lparr>rootPath := x\<rparr>)
        (dec_struct [field ''path'' (\<lambda>p. p) (\<lambda>x p. x) dec_string]),
      field ''process'' bundleArgs (\<lambda>x c. c\<lparr>bundleArgs := x\<rparr>)
        (dec_struct [field ''args'' (\<lambda>p. p) (\<lambda>x p. x) (dec_slice dec_string [])])]"

definition readBundleConfig ::
    "'w runtime_os \<Rightarrow> string \<Rightarrow> string \<Rightarrow> ('w, bundleConfig \<times> string) operation" where
  "readBundleConfig os dir img =
     (let imageDir = filepath_Join [dir, img] in
      andThen (wrapping (''read '' @ img @ '' bundle config'')
        (osReadJSON os (filepath_Join [imageDir, ''config.json'']))) (\<lambda>data.
      case Option.bind data (\<lambda>j. dec_bundleConfig j \<lparr>rootPath = [], bundleArgs = None\<rparr>) of
        None \<Rightarrow> failing (WrapError (''decode '' @ img @ '' bundle config'') json_error)
      | Some cfg \<Rightarrow> returning (cfg, imageDir)))"

definition copyRootfs :: "'w runtime_os \<Rightarrow> string \<Rightarrow> ('w, string) operation" where
  "copyRootfs os source =
     andThen (wrapping ''create container rootfs'' (osMkdirTemp os)) (\<lambda>target w.
       case osExec os [''cp'', ''-a'', source @ ''/.'', target] [] w of
         ((output, Some err), w1) \<Rightarrow>
           (Inl (WrapErrorDetail ''copy container rootfs'' err (strings_TrimSpace output)),
            osRemoveAll os target w1)
       | ((output, None), w1) \<Rightarrow> (Inr target, w1))"

definition startContainerInSandbox ::
    "'w runtime_os \<Rightarrow> string \<Rightarrow> string list \<Rightarrow> int \<Rightarrow> ('w, int) operation" where
  "startContainerInSandbox os rootfs processArgs sandboxPID =
     andThen (osExecutable os) (\<lambda>executable.
     andThen (wrapping ''open sandbox network namespace'' (osOpen os (netns_path sandboxPID))) (\<lambda>_.
     andThen (osPipe os) (\<lambda>_.
     andThen (osStart os ([executable, ''--container-child'', ''--rootfs'', rootfs, ''--network-fd'',
       ''3'', ''--network-ready-fd'', ''4'', ''--''] @ processArgs) False) (\<lambda>pid.
     andThen (killing os pid (osRelease os pid)) (\<lambda>_.
     returning pid)))))"

section \<open>Containers\<close>

text \<open>
  Starting a container runs outside the lock: it looks its sandbox up, starts the process, and
  records the container in a second step.
\<close>

definition prepare_container ::
    "'w runtime_os \<Rightarrow> string \<Rightarrow> string list \<Rightarrow> string \<Rightarrow> (Runtime \<times> 'w, int \<times> string) operation" where
  "prepare_container os img command sandboxID =
     andThen get_memory (\<lambda>rt.
       case fmlookup (sandboxes rt) sandboxID of
         None \<Rightarrow> failing (NewError ''Pod sandbox is not running'')
       | Some sandbox \<Rightarrow>
           if sandState (msSandbox sandbox) \<noteq> cri_Running
           then failing (NewError ''Pod sandbox is not running'')
           else on_world
             (andThen (readBundleConfig os (bundleDir rt) img) (\<lambda>(cfg, configDir).
              andThen (osAbs os (filepath_Join [configDir, rootPath cfg])) (\<lambda>rootfs.
              let processArgs = (if command \<noteq> [] then command else elems (bundleArgs cfg)) in
              andThen (copyRootfs os rootfs) (\<lambda>containerRootfs.
              andThen (cleaning_up (\<lambda>w. (Inr (), osRemoveAll os containerRootfs w))
                (startContainerInSandbox os containerRootfs processArgs (msProcess sandbox))) (\<lambda>pid.
              returning (pid, containerRootfs)))))))"

definition register_container :: "string \<Rightarrow> string \<Rightarrow> int \<Rightarrow> string \<Rightarrow> Runtime \<Rightarrow> cri_Container \<times> Runtime" where
  "register_container podName sandboxID pid rootfs rt =
     (let container = \<lparr>contID = ''pid-'' @ strconv_Itoa pid, contPod = podName,
            contSandbox = sandboxID, contState = cri_Running\<rparr>;
          managed = \<lparr>mcContainer = container, mcProcess = Some pid, mcDone = nextChannel rt,
            mcSandboxID = sandboxID, mcRootfs = rootfs\<rparr>
      in (container, publish (container_event ''container-added'' container)
            (rt\<lparr>containers := fmupd podName managed (containers rt),
               nextChannel := nextChannel rt + 1\<rparr>)))"

definition runInSandbox ::
    "'w runtime_os \<Rightarrow> string \<Rightarrow> string \<Rightarrow> string list \<Rightarrow> string \<Rightarrow>
     (Runtime \<times> 'w, cri_Container) operation" where
  "runInSandbox os podName img command sandboxID =
     andThen (prepare_container os img command sandboxID) (\<lambda>(pid, rootfs).
     andThen get_memory (\<lambda>rt.
       let (container, rt') = register_container podName sandboxID pid rootfs rt in
       andThen (put_memory rt') (\<lambda>_. returning container)))"

text \<open>The process of the container has exited; only the container that waited for it is updated.\<close>

definition waitForContainer :: "'w runtime_os \<Rightarrow> string \<Rightarrow> nat \<Rightarrow> Runtime \<times> 'w \<Rightarrow> Runtime \<times> 'w" where
  "waitForContainer os podName ch = (\<lambda>(rt, w).
     case fmlookup (containers rt) podName of
       None \<Rightarrow> (rt, w)
     | Some managed \<Rightarrow>
         if mcDone managed \<noteq> ch then (rt, w)
         else
           let stopped = (mcContainer managed)\<lparr>contState := cri_Stopped\<rparr>;
               rt' = rt\<lparr>containers := fmupd podName
                 (managed\<lparr>mcContainer := stopped, mcProcess := None\<rparr>) (containers rt)\<rparr>
           in (if contID stopped \<noteq> [] then publish (container_event ''container-stopped'' stopped) rt'
               else rt', osRemoveAll os (mcRootfs managed) w))"

definition runtime_stop :: "'w runtime_os \<Rightarrow> string \<Rightarrow> (Runtime \<times> 'w, unit) operation" where
  "runtime_stop os podName = (\<lambda>(rt, w).
     case fmlookup (containers rt) podName of
       None \<Rightarrow> (Inl cri_ErrNotFound, (rt, w))
     | Some managed \<Rightarrow>
         (case mcProcess managed of
            None \<Rightarrow> (Inr (), (rt, w))
          | Some pid \<Rightarrow>
              (case osTerminate os pid w of
                 (Inl err, w1) \<Rightarrow>
                   if \<not> errors_Is err ErrProcessDone
                   then (Inl (WrapError (''stop container '' @ podName) err), (rt, w1))
                   else (Inr (), waitForContainer os podName (mcDone managed) (rt, osWait os pid w1))
               | (Inr _, w1) \<Rightarrow>
                   (Inr (), waitForContainer os podName (mcDone managed) (rt, osWait os pid w1)))))"

fun stop_all :: "'w runtime_os \<Rightarrow> string list \<Rightarrow> Runtime \<times> 'w \<Rightarrow> Runtime \<times> 'w" where
  "stop_all os [] s = s"
| "stop_all os (podName # podNames) s = stop_all os podNames (snd (runtime_stop os podName s))"

definition stopPodSandbox ::
    "'w runtime_os \<Rightarrow> 'w CNI option \<Rightarrow> string \<Rightarrow> (Runtime \<times> 'w, unit) operation" where
  "stopPodSandbox os network sid = (\<lambda>(rt, w).
     case fmlookup (sandboxes rt) sid of
       None \<Rightarrow> (Inl cri_ErrNotFound, (rt, w))
     | Some sandbox \<Rightarrow>
         let names = map fst (filter (\<lambda>(_, m). mcSandboxID m = sid) (sorted_list_of_fmap (containers rt)));
             (rt1, w1) = stop_all os names (rt, w);
             w2 = (case network of
                None \<Rightarrow> w1
              | Some cni \<Rightarrow> if msHostNetwork sandbox then w1
                  else snd (cniDel cni (sandPod (msSandbox sandbox)) (msNetns sandbox) w1));
             w3 = osKill os (msProcess sandbox) w2
         in (Inr (), (publish (sandbox_event ''sandbox-removed'' (msSandbox sandbox))
               (rt1\<lparr>sandboxes := fmdrop sid (sandboxes rt1)\<rparr>), w3)))"

definition runtime_inspect :: "Runtime \<Rightarrow> string \<Rightarrow> cri_Container result" where
  "runtime_inspect rt podName =
     (case fmlookup (containers rt) podName of
        None \<Rightarrow> Inl cri_ErrNotFound
      | Some managed \<Rightarrow> Inr (mcContainer managed))"

definition StopAll :: "'w runtime_os \<Rightarrow> Runtime \<times> 'w \<Rightarrow> Runtime \<times> 'w" where
  "StopAll os s = stop_all os (map fst (sorted_list_of_fmap (containers (fst s)))) s"

section \<open>Requests\<close>

definition handleRequest ::
    "'w runtime_os \<Rightarrow> 'w CNI option \<Rightarrow> cri_request \<Rightarrow> (Runtime \<times> 'w, cri_response) operation" where
  "handleRequest os network input =
     (if reqOperation input = ''list'' then
        andThen get_memory (\<lambda>rt. returning (zero_response\<lparr>respContainers := Some (runtime_list rt)\<rparr>))
      else if reqOperation input = ''list-sandboxes'' then
        andThen get_memory (\<lambda>rt.
          returning (zero_response\<lparr>respSandboxes := Some (runtime_listSandboxes rt)\<rparr>))
      else if reqOperation input = ''run-pod-sandbox'' then
        andThen (runPodSandbox os network (reqPod input) (reqSource input) (reqHostNetwork input)) (\<lambda>s.
          returning (zero_response\<lparr>respSandboxID := sandID s, respPod := sandPod s,
            respSource := sandSource s, respState := sandState s, respIP := sandIP s\<rparr>))
      else if reqOperation input = ''run-in-sandbox'' then
        andThen (runInSandbox os (reqPod input) (reqImage input) (elems (reqCommand input))
          (reqSandboxID input)) (\<lambda>c.
          returning (zero_response\<lparr>respID := contID c, respPod := contPod c, respState := contState c,
            respSandboxID := contSandbox c\<rparr>))
      else if reqOperation input = ''stop-pod-sandbox'' then
        andThen (stopPodSandbox os network (reqSandboxID input)) (\<lambda>_.
          returning (zero_response\<lparr>respSandboxID := reqSandboxID input, respState := cri_Stopped\<rparr>))
      else if reqOperation input = ''stop'' then
        andThen (runtime_stop os (reqPod input)) (\<lambda>_.
          returning (zero_response\<lparr>respPod := reqPod input, respState := cri_Stopped\<rparr>))
      else if reqOperation input = ''inspect'' then
        andThen get_memory (\<lambda>rt.
          case runtime_inspect rt (reqPod input) of
            Inl e \<Rightarrow> failing e
          | Inr c \<Rightarrow> returning (zero_response\<lparr>respID := contID c, respPod := contPod c,
              respState := contState c\<rparr>))
      else failing (NewError ''invalid CRI operation''))"

text \<open>The connection handler for every operation but a watch: the value it writes.\<close>

definition handleConnection ::
    "'w runtime_os \<Rightarrow> 'w CNI option \<Rightarrow> json option \<Rightarrow> Runtime \<times> 'w \<Rightarrow> json \<times> (Runtime \<times> 'w)" where
  "handleConnection os network input s =
     (case Option.bind input (\<lambda>j. dec_request j zero_request) of
        None \<Rightarrow> (enc_response (zero_response\<lparr>respError := ''invalid CRI request''\<rparr>), s)
      | Some request \<Rightarrow>
          if reqOperation request = ''watch''
          then (enc_response (zero_response\<lparr>respOK := True\<rparr>), (snd (add_watcher (fst s)), snd s))
          else (case handleRequest os network request s of
              (Inl err, s') \<Rightarrow> (enc_response (zero_response\<lparr>respError := err_Error err\<rparr>), s')
            | (Inr result, s') \<Rightarrow> (enc_response (result\<lparr>respOK := True\<rparr>), s')))"

section \<open>The invariant\<close>

definition rt_conts :: "Runtime \<Rightarrow> string \<rightharpoonup> cri_Container" where
  "rt_conts rt pod = map_option mcContainer (fmlookup (containers rt) pod)"

definition rt_sbs :: "Runtime \<Rightarrow> string \<rightharpoonup> cri_Sandbox" where
  "rt_sbs rt i = map_option msSandbox (fmlookup (sandboxes rt) i)"

text \<open>
  Sandboxes are kept under their identifier, which names their process, and are Running; no two
  have the same Pod and source. A container is kept under its Pod and is Running exactly as long as
  its process is known; containers have channels of their own.
\<close>

definition sandboxes_ok :: "(string, managedSandbox) fmap \<Rightarrow> bool" where
  "sandboxes_ok m \<longleftrightarrow>
     (\<forall>i s. fmlookup m i = Some s \<longrightarrow>
       sandID (msSandbox s) = i \<and> i = ''sandbox-'' @ strconv_Itoa (msProcess s) \<and>
       sandState (msSandbox s) = cri_Running) \<and>
     (\<forall>i s j t. fmlookup m i = Some s \<longrightarrow> fmlookup m j = Some t \<longrightarrow>
       sandPod (msSandbox s) = sandPod (msSandbox t) \<longrightarrow>
       sandSource (msSandbox s) = sandSource (msSandbox t) \<longrightarrow> i = j)"

definition containers_ok :: "nat \<Rightarrow> (string, managedContainer) fmap \<Rightarrow> bool" where
  "containers_ok n m \<longleftrightarrow>
     (\<forall>pod c. fmlookup m pod = Some c \<longrightarrow>
       contPod (mcContainer c) = pod \<and> contSandbox (mcContainer c) = mcSandboxID c \<and>
       contState (mcContainer c) = (if mcProcess c = None then cri_Stopped else cri_Running) \<and>
       contID (mcContainer c) \<noteq> [] \<and> mcDone c < n) \<and>
     (\<forall>pod c pod' c'. fmlookup m pod = Some c \<longrightarrow> fmlookup m pod' = Some c' \<longrightarrow>
       mcDone c = mcDone c' \<longrightarrow> pod = pod')"

definition rt_invar :: "Runtime \<Rightarrow> bool" where
  "rt_invar rt \<longleftrightarrow> sandboxes_ok (sandboxes rt) \<and> containers_ok (nextChannel rt) (containers rt)"

lemma states_differ [simp]: "cri_Running \<noteq> cri_Stopped" "cri_Stopped \<noteq> cri_Running"
  by (simp_all add: cri_Running_def cri_Stopped_def)

lemma publish_fields [simp]:
  "containers (publish e rt) = containers rt" "sandboxes (publish e rt) = sandboxes rt"
  "nextChannel (publish e rt) = nextChannel rt" "bundleDir (publish e rt) = bundleDir rt"
  by (simp_all add: publish_def)

lemma rt_views_publish [simp]:
  "rt_conts (publish e rt) = rt_conts rt" "rt_sbs (publish e rt) = rt_sbs rt"
  "rt_invar (publish e rt) = rt_invar rt"
  by (simp_all add: rt_conts_def rt_sbs_def rt_invar_def fun_eq_iff)

lemma NewRuntime_invar: "rt_invar (NewRuntime dir)"
  by (simp add: rt_invar_def NewRuntime_def sandboxes_ok_def containers_ok_def)

lemma set_sorted_fmap: "set (sorted_list_of_fmap m) = {(k, v). fmlookup m k = Some v}"
  by (auto simp: sorted_list_of_fmap_def fmlookup_dom_iff)

lemma map_fst_sorted_fmap: "map fst (sorted_list_of_fmap m) = sorted_list_of_fset (fmdom m)"
  by (simp add: sorted_list_of_fmap_def comp_def)

lemma distinct_sorted_fmap: "distinct (map fst (sorted_list_of_fmap m))"
  by (simp add: map_fst_sorted_fmap sorted_list_of_fset.rep_eq)

lemma distinct_map_sorted_fmap:
  assumes "\<And>k v. fmlookup m k = Some v \<Longrightarrow> f v = k"
  shows "distinct (map f (map snd (sorted_list_of_fmap m)))"
proof -
  have eq: "map f (map snd (sorted_list_of_fmap m)) = map fst (sorted_list_of_fmap m)"
    using assms by (auto simp: set_sorted_fmap)
  show ?thesis unfolding eq by (rule distinct_sorted_fmap)
qed

lemma runtime_list_ok:
  assumes "rt_invar rt"
  shows "distinct (map contPod (runtime_list rt)) \<and> set (runtime_list rt) = ran (rt_conts rt)"
proof -
  have list: "runtime_list rt = map mcContainer (map snd (sorted_list_of_fmap (containers rt)))"
    by (simp add: runtime_list_def case_prod_beta comp_def)
  have "set (runtime_list rt) = ran (rt_conts rt)"
    by (force simp: list set_sorted_fmap rt_conts_def ran_def image_iff)
  moreover have "distinct (map (\<lambda>m. contPod (mcContainer m)) (map snd (sorted_list_of_fmap (containers rt))))"
    by (rule distinct_map_sorted_fmap) (use assms in \<open>auto simp: rt_invar_def containers_ok_def\<close>)
  ultimately show ?thesis by (simp add: list comp_def)
qed

lemma runtime_listSandboxes_ok:
  assumes "rt_invar rt"
  shows "distinct (map sandID (runtime_listSandboxes rt)) \<and> set (runtime_listSandboxes rt) = ran (rt_sbs rt)"
proof -
  have list: "runtime_listSandboxes rt = map msSandbox (map snd (sorted_list_of_fmap (sandboxes rt)))"
    by (simp add: runtime_listSandboxes_def case_prod_beta comp_def)
  have "set (runtime_listSandboxes rt) = ran (rt_sbs rt)"
    by (force simp: list set_sorted_fmap rt_sbs_def ran_def image_iff)
  moreover have "distinct (map (\<lambda>m. sandID (msSandbox m)) (map snd (sorted_list_of_fmap (sandboxes rt))))"
    by (rule distinct_map_sorted_fmap) (use assms in \<open>auto simp: rt_invar_def sandboxes_ok_def\<close>)
  ultimately show ?thesis by (simp add: list comp_def)
qed

section \<open>What the operations do\<close>

lemma running_sandbox_Some:
  assumes "rt_invar rt" and "running_sandbox rt pod source = Some s"
  shows "sandPod s = pod \<and> sandSource s = source \<and> sandState s = cri_Running \<and>
    rt_sbs rt (sandID s) = Some s"
proof -
  from find_SomeD [OF assms(2) [unfolded running_sandbox_def]]
  have s: "s \<in> set (runtime_listSandboxes rt)" "sandPod s = pod" "sandSource s = source"
    "sandState s = cri_Running" by auto
  from s(1) runtime_listSandboxes_ok [OF assms(1)] obtain i where i: "rt_sbs rt i = Some s"
    by (auto simp: ran_def)
  then have "sandID s = i" using assms(1) by (auto simp: rt_sbs_def rt_invar_def sandboxes_ok_def)
  with i s show ?thesis by simp
qed

lemma running_sandbox_None:
  assumes "rt_invar rt" and "running_sandbox rt pod source = None" and "rt_sbs rt i = Some s"
  shows "sandPod s \<noteq> pod \<or> sandSource s \<noteq> source"
proof -
  from assms(1,3) have "sandState s = cri_Running"
    by (auto simp: rt_sbs_def rt_invar_def sandboxes_ok_def)
  moreover have "s \<in> set (runtime_listSandboxes rt)"
    using runtime_listSandboxes_ok [OF assms(1)] assms(3) by (auto intro: ranI)
  ultimately show ?thesis
    using assms(2) by (auto simp: running_sandbox_def find_None_iff)
qed

lemma runPodSandbox_cases:
  assumes "runPodSandbox os network pod source host (rt, w) = (ans, (rt', w'))"
  obtains (failed) e where "ans = Inl e" "rt' = rt" "running_sandbox rt pod source = None"
    | (known) s where "running_sandbox rt pod source = Some s" "ans = Inr s" "rt' = rt" "w' = w"
    | (started) s managed where "running_sandbox rt pod source = None" "ans = Inr s"
        "msSandbox managed = s" "sandPod s = pod" "sandSource s = source" "sandState s = cri_Running"
        "sandID s = ''sandbox-'' @ strconv_Itoa (msProcess managed)" "msHostNetwork managed = host"
        "rt' = publish (sandbox_event ''sandbox-added'' s)
           (rt\<lparr>sandboxes := fmupd (sandID s) managed (sandboxes rt)\<rparr>)"
proof (cases "running_sandbox rt pod source")
  case (Some s)
  with assms have "ans = Inr s" "rt' = rt" "w' = w"
    by (simp_all add: runPodSandbox_def andThen_def get_memory_def returning_def)
  with Some show ?thesis by (rule known)
next
  case None
  then show ?thesis
    using assms failed started [of _ "\<lparr>msSandbox = _, msProcess = _, msNetns = _, msHostNetwork = host\<rparr>"]
    by (auto simp: runPodSandbox_def andThen_def get_memory_def on_world_def returning_def
        put_memory_def Let_def split: sum.splits prod.splits)
qed


lemma rt_conts_Some: "rt_conts rt pod = Some c \<longleftrightarrow> (\<exists>m. fmlookup (containers rt) pod = Some m \<and> mcContainer m = c)"
  by (auto simp: rt_conts_def)

lemma rt_sbs_Some: "rt_sbs rt i = Some s \<longleftrightarrow> (\<exists>m. fmlookup (sandboxes rt) i = Some m \<and> msSandbox m = s)"
  by (auto simp: rt_sbs_def)

lemma rt_conts_update [simp]:
  "rt_conts (rt\<lparr>containers := fmupd pod m (containers rt)\<rparr>) = (rt_conts rt)(pod \<mapsto> mcContainer m)"
  "rt_conts (rt\<lparr>containers := fmupd pod m (containers rt), nextChannel := n\<rparr>) =
     (rt_conts rt)(pod \<mapsto> mcContainer m)"
  "rt_conts (rt\<lparr>sandboxes := x\<rparr>) = rt_conts rt"
  "rt_sbs (rt\<lparr>sandboxes := fmupd i s (sandboxes rt)\<rparr>) = (rt_sbs rt)(i \<mapsto> msSandbox s)"
  "rt_sbs (rt\<lparr>sandboxes := fmdrop i (sandboxes rt)\<rparr>) = (rt_sbs rt)(i := None)"
  "rt_sbs (rt\<lparr>containers := y\<rparr>) = rt_sbs rt"
  "rt_sbs (rt\<lparr>containers := y, nextChannel := n\<rparr>) = rt_sbs rt"
  by (auto simp: rt_conts_def rt_sbs_def fun_eq_iff)

lemma rt_sbs_named:
  assumes "rt_invar rt" and "rt_sbs rt i = Some s"
  shows "sandID s = i \<and> sandState s = cri_Running"
proof -
  from assms(2) obtain m where "fmlookup (sandboxes rt) i = Some m" "msSandbox m = s"
    unfolding rt_sbs_Some by blast
  with assms(1) show ?thesis unfolding rt_invar_def sandboxes_ok_def by blast
qed

lemma rt_sbs_unique:
  assumes "rt_invar rt" and "rt_sbs rt i = Some s" and "rt_sbs rt j = Some t"
    and "sandPod s = sandPod t" and "sandSource s = sandSource t"
  shows "i = j"
proof -
  from assms(2,3) obtain m n where "fmlookup (sandboxes rt) i = Some m" "msSandbox m = s"
    "fmlookup (sandboxes rt) j = Some n" "msSandbox n = t"
    unfolding rt_sbs_Some by blast
  with assms(1,4,5) show ?thesis unfolding rt_invar_def sandboxes_ok_def by blast
qed

lemma sandboxes_ok_upd:
  assumes "sandboxes_ok m" and "sandID (msSandbox s) = i" and "i = ''sandbox-'' @ strconv_Itoa (msProcess s)"
    and "sandState (msSandbox s) = cri_Running"
    and "\<And>j t. fmlookup m j = Some t \<Longrightarrow>
      sandPod (msSandbox t) \<noteq> sandPod (msSandbox s) \<or> sandSource (msSandbox t) \<noteq> sandSource (msSandbox s)"
  shows "sandboxes_ok (fmupd i s m)"
  unfolding sandboxes_ok_def
proof (intro conjI allI impI)
  fix j t assume "fmlookup (fmupd i s m) j = Some t"
  then consider "j = i" "t = s" | "fmlookup m j = Some t" by (cases "j = i") simp_all
  then have "sandID (msSandbox t) = j \<and> j = ''sandbox-'' @ strconv_Itoa (msProcess t) \<and>
    sandState (msSandbox t) = cri_Running"
  proof cases
    case 1
    with assms(2-4) show ?thesis by blast
  next
    case 2
    with assms(1) show ?thesis unfolding sandboxes_ok_def by blast
  qed
  then show "sandID (msSandbox t) = j" "j = ''sandbox-'' @ strconv_Itoa (msProcess t)"
    "sandState (msSandbox t) = cri_Running" by blast+
next
  fix j t k u
  assume t: "fmlookup (fmupd i s m) j = Some t" and u: "fmlookup (fmupd i s m) k = Some u"
    and same: "sandPod (msSandbox t) = sandPod (msSandbox u)" "sandSource (msSandbox t) = sandSource (msSandbox u)"
  show "j = k"
  proof (cases "j = i \<or> k = i")
    case True
    show ?thesis
    proof (rule ccontr)
      assume "j \<noteq> k"
      with True t u consider "fmlookup m k = Some u" "t = s" | "fmlookup m j = Some t" "u = s"
        by (cases "j = i") simp_all
      then show False
      proof cases
        case 1
        from assms(5) [OF 1(1)] same show False unfolding 1(2) by metis
      next
        case 2
        from assms(5) [OF 2(1)] same show False unfolding 2(2) by metis
      qed
    qed
  next
    case False
    with t u have "fmlookup m j = Some t" "fmlookup m k = Some u" by (auto split: if_splits)
    with same assms(1) show ?thesis unfolding sandboxes_ok_def by blast
  qed
qed

lemma runPodSandbox_ok:
  assumes ok: "rt_invar rt" and run: "runPodSandbox os network pod source host (rt, w) = (ans, (rt', w'))"
  shows "rt_invar rt' \<and> rt_conts rt' = rt_conts rt \<and>
    (case ans of Inl e \<Rightarrow> rt_sbs rt' = rt_sbs rt
     | Inr s \<Rightarrow> sandbox_started pod source s (rt_sbs rt) (rt_sbs rt'))"
  using run
proof (cases rule: runPodSandbox_cases)
  case failed
  with ok show ?thesis by simp
next
  case (known s)
  from running_sandbox_Some [OF ok known(1)] have s: "sandPod s = pod" "sandSource s = source"
    "sandState s = cri_Running" "rt_sbs rt (sandID s) = Some s" by auto
  have "s' = s \<and> i = sandID s" if "rt_sbs rt i = Some s'" "sandPod s' = pod" "sandSource s' = source" for i s'
  proof -
    from that s have "i = sandID s" using rt_sbs_unique [OF ok that(1) s(4)] by simp
    with that(1) s(4) show ?thesis by simp
  qed
  then have "sandbox_started pod source s (rt_sbs rt) (rt_sbs rt)"
    unfolding sandbox_started_def using s
      fun_upd_idem [where f = "rt_sbs rt" and x = "sandID s" and y = "Some s", OF s(4)] by metis
  with known ok show ?thesis by simp
next
  case (started s managed)
  have none: "sandPod s' \<noteq> pod \<or> sandSource s' \<noteq> source" if "rt_sbs rt i = Some s'" for i s'
    using running_sandbox_None [OF ok started(1) that] .
  have "sandboxes_ok (fmupd (sandID s) managed (sandboxes rt))"
    
  proof (rule sandboxes_ok_upd)
    show "sandboxes_ok (sandboxes rt)" using ok by (simp add: rt_invar_def)
    fix j t assume "fmlookup (sandboxes rt) j = Some t"
    then have known: "rt_sbs rt j = Some (msSandbox t)" by (simp add: rt_sbs_def)
    from none [OF known] started(3-5) show "sandPod (msSandbox t) \<noteq> sandPod (msSandbox managed) \<or>
      sandSource (msSandbox t) \<noteq> sandSource (msSandbox managed)" by simp
  qed (use started(3-7) in simp_all)
  then have "rt_invar (rt\<lparr>sandboxes := fmupd (sandID s) managed (sandboxes rt)\<rparr>)"
    using ok by (simp add: rt_invar_def)
  then show ?thesis using started none by (auto simp: sandbox_started_def)
qed

lemma runInSandbox_cases:
  assumes "runInSandbox os pod img command sandbox (rt, w) = (ans, (rt', w'))"
  obtains (failed) e where "ans = Inl e" "rt' = rt"
    | (started) c pid rootfs where "ans = Inr c" "fmlookup (sandboxes rt) sandbox \<noteq> None"
        "(c, rt') = register_container pod sandbox pid rootfs rt"
proof -
  obtain prep rt1 w1 where prep: "prepare_container os img command sandbox (rt, w) = (prep, (rt1, w1))"
    by (metis prod.collapse)
  then have rt1: "rt1 = rt" and found: "prep = Inr x \<Longrightarrow> fmlookup (sandboxes rt) sandbox \<noteq> None" for x
    by (auto simp: prepare_container_def andThen_def get_memory_def failing_def on_world_def
        split: option.splits if_splits prod.splits)
  show ?thesis
  proof (cases prep)
    case (Inl e)
    with prep rt1 assms show ?thesis by (intro failed [of e]) (simp_all add: runInSandbox_def andThen_def)
  next
    case (Inr x)
    obtain pid rootfs where x: "x = (pid, rootfs)" by (cases x)
    obtain c rt2 where reg: "register_container pod sandbox pid rootfs rt = (c, rt2)" by fastforce
    from prep rt1 assms Inr x reg have "ans = Inr c" "rt2 = rt'"
      by (auto simp: runInSandbox_def andThen_def get_memory_def put_memory_def returning_def)
    with reg found [OF Inr] show ?thesis by (intro started [of c pid rootfs]) simp_all
  qed
qed

lemma register_container_ok:
  assumes ok: "rt_invar rt" and reg: "(c, rt') = register_container pod sandbox pid rootfs rt"
  shows "rt_invar rt' \<and> rt_sbs rt' = rt_sbs rt \<and>
    container_started pod sandbox c (rt_conts rt) (rt_conts rt')"
proof -
  have "rt_invar rt'"
    using reg ok by (fastforce simp: register_container_def Let_def rt_invar_def containers_ok_def)
  with reg show ?thesis
    by (simp add: register_container_def Let_def container_started_def)
qed

lemma runInSandbox_ok:
  assumes ok: "rt_invar rt" and run: "runInSandbox os pod img command sandbox (rt, w) = (ans, (rt', w'))"
  shows "rt_invar rt' \<and> rt_sbs rt' = rt_sbs rt \<and>
    (case ans of Inl e \<Rightarrow> rt_conts rt' = rt_conts rt
     | Inr c \<Rightarrow> container_started pod sandbox c (rt_conts rt) (rt_conts rt'))"
  using run
proof (cases rule: runInSandbox_cases)
  case failed
  with ok show ?thesis by simp
next
  case started
  from register_container_ok [OF ok started(3)] started(1) show ?thesis by simp
qed

lemma waitForContainer_cases:
  assumes "waitForContainer os pod ch (rt, w) = (rt', w')"
  obtains (other) "rt' = rt" "w' = w" "\<And>m. fmlookup (containers rt) pod = Some m \<Longrightarrow> mcDone m \<noteq> ch"
    | (stopped) m m' where "fmlookup (containers rt) pod = Some m" "mcDone m = ch"
        "m' = m\<lparr>mcContainer := (mcContainer m)\<lparr>contState := cri_Stopped\<rparr>, mcProcess := None\<rparr>"
        "rt' = (if contID (mcContainer m) \<noteq> []
          then publish (container_event ''container-stopped'' (mcContainer m'))
            (rt\<lparr>containers := fmupd pod m' (containers rt)\<rparr>)
          else rt\<lparr>containers := fmupd pod m' (containers rt)\<rparr>)"
        "w' = osRemoveAll os (mcRootfs m) w"
proof (cases "fmlookup (containers rt) pod")
  case None
  with assms other show ?thesis by (simp add: waitForContainer_def)
next
  case (Some m)
  show ?thesis
  proof (cases "mcDone m = ch")
    case False
    with Some assms other show ?thesis by (simp add: waitForContainer_def)
  next
    case True
    with Some assms stopped [OF Some True refl] show ?thesis
      by (auto simp: waitForContainer_def Let_def split: if_splits)
  qed
qed

lemma waitForContainer_ok:
  assumes ok: "rt_invar rt" and wait: "waitForContainer os pod ch (rt, w) = (rt', w')"
  shows "rt_invar rt' \<and> sandboxes rt' = sandboxes rt \<and>
    (if \<exists>m. fmlookup (containers rt) pod = Some m \<and> mcDone m = ch
     then container_stopped pod (rt_conts rt) (rt_conts rt') else rt' = rt)"
  using wait
proof (cases rule: waitForContainer_cases)
  case other
  with ok show ?thesis by auto
next
  case (stopped m m')
  have m': "mcContainer m' = (mcContainer m)\<lparr>contState := cri_Stopped\<rparr>" "mcProcess m' = None"
    "mcDone m' = mcDone m" "mcSandboxID m' = mcSandboxID m"
    by (simp_all add: stopped(3))
  have "containers_ok (nextChannel rt) (fmupd pod m' (containers rt))"
    using ok stopped(1) m' unfolding containers_ok_def rt_invar_def by (auto; metis)
  then have "rt_invar rt'" using ok by (simp add: stopped(4) rt_invar_def)
  moreover have "rt_conts rt pod = Some (mcContainer m)" using stopped(1) by (simp add: rt_conts_def)
  then have "container_stopped pod (rt_conts rt) (rt_conts rt')"
    by (simp add: stopped(4) m' container_stopped_def)
  ultimately show ?thesis using stopped(1,2) by (simp add: stopped(4))
qed

lemma rt_sbs_cong: "sandboxes rt' = sandboxes rt \<Longrightarrow> rt_sbs rt' = rt_sbs rt"
  by (simp add: rt_sbs_def fun_eq_iff)

lemma stopped_already:
  assumes "rt_invar rt" and "fmlookup (containers rt) pod = Some m" and "mcProcess m = None"
  shows "container_stopped pod (rt_conts rt) (rt_conts rt)"
proof -
  have c: "rt_conts rt pod = Some (mcContainer m)" using assms(2) by (simp add: rt_conts_def)
  moreover have "contState (mcContainer m) = cri_Stopped"
    using assms by (auto simp: rt_invar_def containers_ok_def)
  ultimately show ?thesis
    by (auto simp: container_stopped_def fun_eq_iff intro!: exI [of _ "mcContainer m"])
qed

lemma runtime_stop_ok:
  assumes ok: "rt_invar rt" and stop: "runtime_stop os pod (rt, w) = (ans, (rt', w'))"
  shows "rt_invar rt' \<and> sandboxes rt' = sandboxes rt \<and>
    (case ans of Inl e \<Rightarrow> rt' = rt | Inr _ \<Rightarrow> container_stopped pod (rt_conts rt) (rt_conts rt'))"
proof (cases "fmlookup (containers rt) pod")
  case None
  with ok stop show ?thesis by (auto simp: runtime_stop_def)
next
  case (Some m)
  show ?thesis
  proof (cases "mcProcess m")
    case None
    with Some ok stop show ?thesis using stopped_already [OF ok Some None]
      by (auto simp: runtime_stop_def)
  next
    case (Some pid)
    obtain r w1 where r: "osTerminate os pid w = (r, w1)" by fastforce
    obtain rt2 w2 where wait: "waitForContainer os pod (mcDone m) (rt, osWait os pid w1) = (rt2, w2)"
      by fastforce
    from waitForContainer_ok [OF ok wait] \<open>fmlookup (containers rt) pod = Some m\<close>
    have "rt_invar rt2" "sandboxes rt2 = sandboxes rt" "container_stopped pod (rt_conts rt) (rt_conts rt2)"
      by auto
    with ok stop Some \<open>fmlookup (containers rt) pod = Some m\<close> r wait show ?thesis
      by (auto simp: runtime_stop_def split: sum.splits if_splits)
  qed
qed

end
