(* ===== verification/RuntimeContract.thy ===== *)
theory RuntimeContract
  imports Runtime
begin

text \<open>
  What the container runtime promises: stopping sandboxes, requests over the socket, sequences of
  connections and process exits, and the interpretation of the contract \<open>cri_runtime\<close> on the
  runtime behind its socket.
\<close>

section \<open>Stopping sandboxes\<close>

lemma runtime_stop_effect:
  assumes "rt_invar rt" and "runtime_stop os pod (rt, w) = (ans, (rt', w'))"
  shows "rt_invar rt' \<and> sandboxes rt' = sandboxes rt \<and>
    (rt' = rt \<or> container_stopped pod (rt_conts rt) (rt_conts rt'))"
  using runtime_stop_ok [OF assms] by (auto split: sum.splits)

definition some_stopped :: "string set \<Rightarrow> (string \<rightharpoonup> cri_Container) \<Rightarrow> (string \<rightharpoonup> cri_Container) \<Rightarrow> bool" where
  "some_stopped pods m m' \<longleftrightarrow>
     (\<forall>pod. m' pod = m pod \<or> pod \<in> pods \<and> (\<exists>c. m pod = Some c \<and>
        m' pod = Some (c\<lparr>contState := cri_Stopped\<rparr>)))"

lemma some_stopped_refl [simp]: "some_stopped pods m m"
  by (simp add: some_stopped_def)

lemma some_stopped_step:
  assumes "m1 = m \<or> container_stopped pod m m1" and "some_stopped pods m1 m2"
  shows "some_stopped (insert pod pods) m m2"
  unfolding some_stopped_def
proof
  fix p
  from assms(1) have m1: "m1 p = m p \<or>
      p = pod \<and> (\<exists>c. m p = Some c \<and> m1 p = Some (c\<lparr>contState := cri_Stopped\<rparr>))"
    by (auto simp: container_stopped_def fun_upd_def split: if_splits)
  from assms(2) have m2: "m2 p = m1 p \<or>
      p \<in> pods \<and> (\<exists>c. m1 p = Some c \<and> m2 p = Some (c\<lparr>contState := cri_Stopped\<rparr>))"
    by (simp add: some_stopped_def)
  from m1 m2 show "m2 p = m p \<or> p \<in> insert pod pods \<and> (\<exists>c. m p = Some c \<and>
      m2 p = Some (c\<lparr>contState := cri_Stopped\<rparr>))"
    by (elim disjE) auto
qed

lemma stop_all_ok:
  assumes "rt_invar rt" and "stop_all os pods (rt, w) = (rt', w')"
  shows "rt_invar rt' \<and> sandboxes rt' = sandboxes rt \<and>
    some_stopped (set pods) (rt_conts rt) (rt_conts rt')"
  using assms
proof (induction pods arbitrary: rt w)
  case (Cons pod pods)
  obtain ans rt1 w1 where stop: "runtime_stop os pod (rt, w) = (ans, (rt1, w1))"
    by (metis prod.collapse)
  from runtime_stop_effect [OF Cons.prems(1) stop] have rt1: "rt_invar rt1" "sandboxes rt1 = sandboxes rt"
    and c1: "rt_conts rt1 = rt_conts rt \<or> container_stopped pod (rt_conts rt) (rt_conts rt1)" by auto
  from Cons.prems(2) stop have "stop_all os pods (rt1, w1) = (rt', w')" by simp
  from Cons.IH [OF rt1(1) this] rt1(2) some_stopped_step [OF c1] show ?case by simp
qed simp

lemma mc_of_sandbox:
  assumes "rt_invar rt" and "pod \<in> set (map fst (filter (\<lambda>(_, m). mcSandboxID m = sid)
    (sorted_list_of_fmap (containers rt))))"
  shows "\<exists>c. rt_conts rt pod = Some c \<and> contSandbox c = sid"
  using assms unfolding rt_invar_def containers_ok_def
  by (auto simp: set_sorted_fmap rt_conts_def)

lemma stopPodSandbox_ok:
  assumes ok: "rt_invar rt" and stop: "stopPodSandbox os network sid (rt, w) = (ans, (rt', w'))"
  shows "rt_invar rt' \<and>
    (case ans of
       Inl e \<Rightarrow> rt' = rt \<and> e = cri_ErrNotFound \<and> rt_sbs rt sid = None
     | Inr _ \<Rightarrow> rt_sbs rt sid \<noteq> None \<and> rt_sbs rt' = (rt_sbs rt)(sid := None) \<and>
         containers_of_stopped sid (rt_conts rt) (rt_conts rt'))"
proof (cases "fmlookup (sandboxes rt) sid")
  case None
  with ok stop show ?thesis by (auto simp: stopPodSandbox_def rt_sbs_def)
next
  case (Some sandbox)
  define names where "names = map fst (filter (\<lambda>(_, m). mcSandboxID m = sid) (sorted_list_of_fmap (containers rt)))"
  obtain rt1 w1 where all: "stop_all os names (rt, w) = (rt1, w1)" by fastforce
  from stop_all_ok [OF ok all] have rt1: "rt_invar rt1" "sandboxes rt1 = sandboxes rt"
    and c1: "some_stopped (set names) (rt_conts rt) (rt_conts rt1)" by auto
  from stop Some all have ans: "ans = Inr ()"
    and rt': "rt' = publish (sandbox_event ''sandbox-removed'' (msSandbox sandbox))
      (rt1\<lparr>sandboxes := fmdrop sid (sandboxes rt1)\<rparr>)"
    by (simp_all add: stopPodSandbox_def names_def Let_def)
  have "sandboxes_ok (fmdrop sid (sandboxes rt1))"
    using rt1(1) unfolding rt_invar_def sandboxes_ok_def by (simp add: fmlookup_drop)
  then have "rt_invar rt'" using rt1(1) by (simp add: rt' rt_invar_def)
  moreover have "containers_of_stopped sid (rt_conts rt) (rt_conts rt1)"
    unfolding containers_of_stopped_def
  proof
    fix pod
    show "rt_conts rt1 pod = rt_conts rt pod \<or> (\<exists>c. rt_conts rt pod = Some c \<and> contSandbox c = sid \<and>
        rt_conts rt1 pod = Some (c\<lparr>contState := cri_Stopped\<rparr>))"
      using c1 mc_of_sandbox [OF ok, of pod sid] unfolding some_stopped_def names_def [symmetric] by force
  qed
  ultimately show ?thesis using Some by (auto simp: ans rt' rt_sbs_cong [OF rt1(2)] rt_sbs_def)
qed

section \<open>Requests\<close>

lemmas handle_simps = andThen_def get_memory_def returning_def failing_def

lemma snd_andThen_returning: "snd (andThen m (\<lambda>a. returning (f a)) s) = snd (m s)"
  by (simp add: andThen_def returning_def split: sum.splits prod.splits)

lemma handleRequest_state:
  "snd (handleRequest os network input (rt, w)) =
     (if reqOperation input = ''run-pod-sandbox''
      then snd (runPodSandbox os network (reqPod input) (reqSource input) (reqHostNetwork input) (rt, w))
      else if reqOperation input = ''run-in-sandbox''
      then snd (runInSandbox os (reqPod input) (reqImage input) (elems (reqCommand input))
        (reqSandboxID input) (rt, w))
      else if reqOperation input = ''stop-pod-sandbox''
      then snd (stopPodSandbox os network (reqSandboxID input) (rt, w))
      else if reqOperation input = ''stop'' then snd (runtime_stop os (reqPod input) (rt, w))
      else (rt, w))"
proof -
  have inspect: "snd (andThen get_memory (\<lambda>rt. case runtime_inspect rt (reqPod input) of
      Inl e \<Rightarrow> failing e | Inr c \<Rightarrow> returning (f c)) (rt, w)) = (rt, w)" for f :: "cri_Container \<Rightarrow> 'x"
    by (simp add: handle_simps split: sum.splits)
  show ?thesis
    unfolding handleRequest_def
    by (simp add: snd_andThen_returning inspect) (simp add: get_memory_def failing_def)
qed

lemma state_afterI:
  assumes "\<And>r rt' w'. m s = (r, (rt', w')) \<Longrightarrow> P rt'"
  shows "P (fst (snd (m s)))"
  using assms by (metis prod.collapse)

lemmas op_invars = runPodSandbox_ok [THEN conjunct1] runInSandbox_ok [THEN conjunct1]
  stopPodSandbox_ok [THEN conjunct1] runtime_stop_ok [THEN conjunct1]

lemma handleRequest_invar:
  assumes ok: "rt_invar rt" and handle: "handleRequest os network input (rt, w) = (ans, (rt', w'))"
  shows "rt_invar rt'"
proof -
  have "rt' = fst (snd (handleRequest os network input (rt, w)))" by (simp add: handle)
  moreover have "rt_invar (fst (snd (handleRequest os network input (rt, w))))"
    unfolding handleRequest_state
    by (simp add: ok) (intro conjI impI state_afterI [where P = rt_invar]; erule op_invars [OF ok])
  ultimately show ?thesis by simp
qed

lemma add_watcher_invar:
  assumes "rt_invar rt" shows "rt_invar (snd (add_watcher rt))"
  using assms unfolding rt_invar_def containers_ok_def add_watcher_def by (simp add: less_Suc_eq)

lemma handleConnection_invar:
  assumes ok: "rt_invar rt" and handle: "handleConnection os network input (rt, w) = (j, (rt', w'))"
  shows "rt_invar rt'"
proof (cases "Option.bind input (\<lambda>j. dec_request j zero_request)")
  case None
  with ok handle show ?thesis by (simp add: handleConnection_def)
next
  case (Some request)
  obtain ans rt1 w1 where req: "handleRequest os network request (rt, w) = (ans, (rt1, w1))"
    by (metis prod.collapse)
  from handleRequest_invar [OF ok req] add_watcher_invar [OF ok] Some handle req show ?thesis
    by (auto simp: handleConnection_def split: if_splits sum.splits)
qed

section \<open>Watches\<close>

text \<open>
  \<open>announced rt rt'\<close>: between the two states no event that waits in a watcher's buffer is lost,
  and if the listings changed, an event waits in the buffer of the watcher. Channels are not
  handed out twice.
\<close>

definition waiting :: "Runtime \<Rightarrow> nat \<Rightarrow> bool" where
  "waiting rt ch \<longleftrightarrow> (\<exists>buffer. fmlookup (watchers rt) ch = Some buffer \<and> buffer \<noteq> [])"

definition announced :: "nat \<Rightarrow> Runtime \<Rightarrow> Runtime \<Rightarrow> bool" where
  "announced ch rt rt' \<longleftrightarrow> nextChannel rt \<le> nextChannel rt' \<and>
     (\<forall>c. fmlookup (watchers rt') c \<noteq> None \<longrightarrow>
        fmlookup (watchers rt) c \<noteq> None \<or> nextChannel rt \<le> c \<and> c < nextChannel rt') \<and>
     (ch < nextChannel rt \<and> fmlookup (watchers rt) ch \<noteq> None \<longrightarrow>
        fmlookup (watchers rt') ch \<noteq> None \<and> (waiting rt ch \<longrightarrow> waiting rt' ch) \<and>
        (waiting rt' ch \<or> rt_conts rt' = rt_conts rt \<and> rt_sbs rt' = rt_sbs rt))"

lemma announced_refl [simp]: "announced ch rt rt"
  by (simp add: announced_def)

lemma announced_trans:
  assumes 1: "announced ch rt rt1" and 2: "announced ch rt1 rt2" shows "announced ch rt rt2"
proof -
  have le: "nextChannel rt \<le> nextChannel rt1" "nextChannel rt1 \<le> nextChannel rt2"
    using 1 2 by (simp_all add: announced_def)
  have "fmlookup (watchers rt) c \<noteq> None \<or> nextChannel rt \<le> c \<and> c < nextChannel rt2"
    if c: "fmlookup (watchers rt2) c \<noteq> None" for c
  proof (cases "fmlookup (watchers rt1) c = None")
    case True
    with 2 c have "nextChannel rt1 \<le> c \<and> c < nextChannel rt2" unfolding announced_def by blast
    with le show ?thesis by simp
  next
    case False
    with 1 have "fmlookup (watchers rt) c \<noteq> None \<or> nextChannel rt \<le> c \<and> c < nextChannel rt1"
      unfolding announced_def by blast
    with le show ?thesis by auto
  qed
  moreover have "fmlookup (watchers rt2) ch \<noteq> None \<and> (waiting rt ch \<longrightarrow> waiting rt2 ch) \<and>
      (waiting rt2 ch \<or> rt_conts rt2 = rt_conts rt \<and> rt_sbs rt2 = rt_sbs rt)"
    if ch: "ch < nextChannel rt" "fmlookup (watchers rt) ch \<noteq> None"
  proof -
    from 1 ch have w1: "fmlookup (watchers rt1) ch \<noteq> None" "waiting rt ch \<longrightarrow> waiting rt1 ch"
      "waiting rt1 ch \<or> rt_conts rt1 = rt_conts rt \<and> rt_sbs rt1 = rt_sbs rt"
      by (simp_all add: announced_def)
    with 2 ch le have "fmlookup (watchers rt2) ch \<noteq> None" "waiting rt1 ch \<longrightarrow> waiting rt2 ch"
      "waiting rt2 ch \<or> rt_conts rt2 = rt_conts rt1 \<and> rt_sbs rt2 = rt_sbs rt1"
      by (simp_all add: announced_def)
    with w1 show ?thesis by auto
  qed
  ultimately show ?thesis using le unfolding announced_def by simp
qed

lemma waiting_publish:
  "waiting (publish e rt) ch \<longleftrightarrow> fmlookup (watchers rt) ch \<noteq> None"
  "fmlookup (watchers (publish e rt)) ch \<noteq> None \<longleftrightarrow> fmlookup (watchers rt) ch \<noteq> None"
  by (cases "fmlookup (watchers rt) ch"; simp add: waiting_def publish_def)+

lemma announced_publish:
  "watchers rt1 = watchers rt \<Longrightarrow> nextChannel rt \<le> nextChannel rt1 \<Longrightarrow> announced ch rt (publish e rt1)"
  unfolding announced_def waiting_publish by simp

lemma runPodSandbox_announced:
  assumes "runPodSandbox os network pod source host (rt, w) = (ans, (rt', w'))"
  shows "announced ch rt rt'"
  using assms by (cases rule: runPodSandbox_cases) (auto intro!: announced_publish)

lemma runInSandbox_announced:
  assumes "runInSandbox os pod img command sandbox (rt, w) = (ans, (rt', w'))"
  shows "announced ch rt rt'"
  using assms
  by (cases rule: runInSandbox_cases) (auto simp: register_container_def Let_def intro!: announced_publish)

lemma waitForContainer_announced:
  assumes ok: "rt_invar rt" and wait: "waitForContainer os pod ch' (rt, w) = (rt', w')"
  shows "announced ch rt rt'"
  using wait
proof (cases rule: waitForContainer_cases)
  case other
  then show ?thesis by simp
next
  case (stopped m m')
  from ok stopped(1) have "contID (mcContainer m) \<noteq> []"
    unfolding rt_invar_def containers_ok_def by blast
  then show ?thesis unfolding stopped(4) by (simp add: announced_publish)
qed

lemma runtime_stop_announced:
  assumes ok: "rt_invar rt" and stop: "runtime_stop os pod (rt, w) = (ans, (rt', w'))"
  shows "announced ch rt rt'"
  using stop waitForContainer_announced [OF ok]
  by (auto simp: runtime_stop_def split: option.splits prod.splits sum.splits if_splits)

lemma stop_all_announced:
  assumes "rt_invar rt" and "stop_all os pods (rt, w) = (rt', w')"
  shows "announced ch rt rt'"
  using assms
proof (induction pods arbitrary: rt w)
  case (Cons pod pods)
  obtain ans rt1 w1 where stop: "runtime_stop os pod (rt, w) = (ans, (rt1, w1))"
    by (metis prod.collapse)
  from runtime_stop_ok [OF Cons.prems(1) stop] have "rt_invar rt1" by simp
  with Cons.IH [of rt1 w1] Cons.prems(2) stop runtime_stop_announced [OF Cons.prems(1) stop]
  show ?case by (auto intro: announced_trans)
qed simp

lemma stopPodSandbox_announced:
  assumes ok: "rt_invar rt" and stop: "stopPodSandbox os network sid (rt, w) = (ans, (rt', w'))"
  shows "announced ch rt rt'"
proof (cases "fmlookup (sandboxes rt) sid")
  case None
  with stop show ?thesis by (simp add: stopPodSandbox_def)
next
  case (Some sandbox)
  obtain rt1 w1 where all: "stop_all os (map fst (filter (\<lambda>(_, m). mcSandboxID m = sid)
      (sorted_list_of_fmap (containers rt)))) (rt, w) = (rt1, w1)" by fastforce
  from stop Some all have "rt' = publish (sandbox_event ''sandbox-removed'' (msSandbox sandbox))
      (rt1\<lparr>sandboxes := fmdrop sid (sandboxes rt1)\<rparr>)"
    by (simp add: stopPodSandbox_def Let_def)
  then have "announced ch rt1 rt'" by (simp add: announced_publish)
  with stop_all_announced [OF ok all] show ?thesis by (rule announced_trans)
qed

lemmas op_announced = runPodSandbox_announced runInSandbox_announced

lemma handleRequest_announced:
  assumes ok: "rt_invar rt" and handle: "handleRequest os network input (rt, w) = (ans, (rt', w'))"
  shows "announced ch rt rt'"
proof -
  have "rt' = fst (snd (handleRequest os network input (rt, w)))" by (simp add: handle)
  moreover have "announced ch rt (fst (snd (handleRequest os network input (rt, w))))"
    unfolding handleRequest_state
    by simp (intro conjI impI state_afterI [where P = "announced ch rt"];
      erule op_announced stopPodSandbox_announced [OF ok] runtime_stop_announced [OF ok])
  ultimately show ?thesis by simp
qed

lemma add_watcher_announced: "announced ch rt (snd (add_watcher rt))"
  by (auto simp: announced_def waiting_def add_watcher_def rt_conts_def rt_sbs_def fun_eq_iff)

section \<open>The runtime over time\<close>

text \<open>
  What happens to a runtime: a connection with its first JSON value (none when it cannot be read),
  the exit of the container process that a goroutine waits for, the buffered event of a watcher
  being written, and a watcher's connection that ends.
\<close>

datatype runtime_input =
    Connection "json option"
  | ContainerExited string nat
  | EventWritten nat
  | WatchClosed nat

definition runtime_step ::
    "'w runtime_os \<Rightarrow> 'w CNI option \<Rightarrow> Runtime \<times> 'w \<Rightarrow> runtime_input \<Rightarrow> Runtime \<times> 'w" where
  "runtime_step os network s input =
     (case input of
        Connection j \<Rightarrow> snd (handleConnection os network j s)
      | ContainerExited pod ch \<Rightarrow> waitForContainer os pod ch s
      | EventWritten ch \<Rightarrow> (snd (drain_watcher ch (fst s)), snd s)
      | WatchClosed ch \<Rightarrow> (remove_watcher ch (fst s), snd s))"

definition runtime_run ::
    "'w runtime_os \<Rightarrow> 'w CNI option \<Rightarrow> runtime_input list \<Rightarrow> Runtime \<times> 'w \<Rightarrow> Runtime \<times> 'w" where
  "runtime_run os network inputs s = foldl (runtime_step os network) s inputs"

lemma watchers_invar [simp]: "rt_invar (rt\<lparr>watchers := x\<rparr>) = rt_invar rt"
  by (simp add: rt_invar_def)

lemma drain_watcher_fields [simp]:
  "containers (snd (drain_watcher ch rt)) = containers rt" "sandboxes (snd (drain_watcher ch rt)) = sandboxes rt"
  "nextChannel (snd (drain_watcher ch rt)) = nextChannel rt"
  by (simp_all add: drain_watcher_def split: option.splits)

lemma runtime_step_invar:
  assumes "rt_invar (fst s)" shows "rt_invar (fst (runtime_step os network s input))"
proof -
  obtain rt w where s: "s = (rt, w)" by fastforce
  with assms have ok: "rt_invar rt" by simp
  show ?thesis
  proof (cases input)
    case (Connection j)
    obtain r rt' w' where "handleConnection os network j (rt, w) = (r, (rt', w'))" by (metis prod.collapse)
    with handleConnection_invar [OF ok this] Connection s show ?thesis by (simp add: runtime_step_def)
  next
    case (ContainerExited pod ch)
    obtain rt' w' where "waitForContainer os pod ch (rt, w) = (rt', w')" by fastforce
    with waitForContainer_ok [OF ok this] ContainerExited s show ?thesis by (simp add: runtime_step_def)
  next
    case (EventWritten ch)
    with ok s show ?thesis by (simp add: runtime_step_def rt_invar_def)
  next
    case (WatchClosed ch)
    with ok s show ?thesis by (simp add: runtime_step_def remove_watcher_def)
  qed
qed

lemma runtime_run_invar: "rt_invar (fst s) \<Longrightarrow> rt_invar (fst (runtime_run os network inputs s))"
  by (induction inputs arbitrary: s) (simp_all add: runtime_run_def runtime_step_invar)

lemma handleConnection_announced:
  assumes ok: "rt_invar rt" and handle: "handleConnection os network input (rt, w) = (j, (rt', w'))"
  shows "announced ch rt rt'"
proof (cases "Option.bind input (\<lambda>j. dec_request j zero_request)")
  case None
  with handle show ?thesis by (simp add: handleConnection_def)
next
  case (Some request)
  obtain ans rt1 w1 where req: "handleRequest os network request (rt, w) = (ans, (rt1, w1))"
    by (metis prod.collapse)
  from handleRequest_announced [OF ok req] add_watcher_announced [of ch rt] Some handle req
  show ?thesis by (auto simp: handleConnection_def split: if_splits sum.splits)
qed

lemma runtime_step_announced:
  assumes "rt_invar (fst s)" and "input \<noteq> EventWritten ch" and "input \<noteq> WatchClosed ch"
  shows "announced ch (fst s) (fst (runtime_step os network s input))"
proof -
  obtain rt w where s: "s = (rt, w)" by fastforce
  with assms have ok: "rt_invar rt" by simp
  show ?thesis
  proof (cases input)
    case (Connection j)
    obtain r rt' w' where "handleConnection os network j (rt, w) = (r, (rt', w'))" by (metis prod.collapse)
    with handleConnection_announced [OF ok this] Connection s show ?thesis by (simp add: runtime_step_def)
  next
    case (ContainerExited pod c)
    obtain rt' w' where "waitForContainer os pod c (rt, w) = (rt', w')" by fastforce
    with waitForContainer_announced [OF ok this] ContainerExited s show ?thesis by (simp add: runtime_step_def)
  next
    case (EventWritten c)
    with assms(2) s show ?thesis
      by (auto simp: runtime_step_def announced_def waiting_def drain_watcher_def rt_conts_def rt_sbs_def
          split: option.splits)
  next
    case (WatchClosed c)
    with assms(3) s show ?thesis
      by (auto simp: runtime_step_def announced_def waiting_def remove_watcher_def rt_conts_def rt_sbs_def)
  qed
qed

lemma runtime_run_announced:
  assumes "rt_invar (fst s)" and "EventWritten ch \<notin> set inputs" and "WatchClosed ch \<notin> set inputs"
  shows "announced ch (fst s) (fst (runtime_run os network inputs s))"
  using assms
proof (induction inputs arbitrary: s)
  case Nil
  then show ?case by (simp add: runtime_run_def)
next
  case (Cons input inputs)
  let ?s = "runtime_step os network s input"
  from Cons.prems have step: "announced ch (fst s) (fst ?s)" by (intro runtime_step_announced) auto
  moreover have "announced ch (fst ?s) (fst (runtime_run os network inputs ?s))"
    using Cons.prems by (intro Cons.IH runtime_step_invar) auto
  ultimately show ?case by (auto simp: runtime_run_def intro: announced_trans)
qed

definition watchers_ok :: "Runtime \<Rightarrow> bool" where
  "watchers_ok rt \<longleftrightarrow> (\<forall>ch. fmlookup (watchers rt) ch \<noteq> None \<longrightarrow> ch < nextChannel rt)"

lemma runtime_step_watchers_ok:
  assumes "rt_invar (fst s)" and "watchers_ok (fst s)"
  shows "watchers_ok (fst (runtime_step os network s input))"
proof -
  obtain ch where "input \<noteq> EventWritten ch" "input \<noteq> WatchClosed ch"
    by (cases input) (auto, (metis n_not_Suc_n)+)
  from runtime_step_announced [OF assms(1) this, of os network] assms(2) show ?thesis
    unfolding announced_def watchers_ok_def by (metis less_le_trans)
qed

lemma runtime_run_watchers_ok:
  "rt_invar (fst s) \<Longrightarrow> watchers_ok (fst s) \<Longrightarrow> watchers_ok (fst (runtime_run os network inputs s))"
  by (induction inputs arbitrary: s)
    (simp_all add: runtime_run_def runtime_step_invar runtime_step_watchers_ok)

lemma runtime_list_conts:
  "runtime_list rt = map (\<lambda>k. the (rt_conts rt k)) (sorted_list_of_set (dom (rt_conts rt)))"
proof -
  have "dom (rt_conts rt) = fset (fmdom (containers rt))"
    by (auto simp: rt_conts_def dom_def fmlookup_dom_iff)
  then show ?thesis
    by (auto simp: runtime_list_def sorted_list_of_fmap_def rt_conts_def sorted_list_of_fset.rep_eq
        fmlookup_dom_iff)
qed

lemma runtime_listSandboxes_sbs:
  "runtime_listSandboxes rt = map (\<lambda>k. the (rt_sbs rt k)) (sorted_list_of_set (dom (rt_sbs rt)))"
proof -
  have "dom (rt_sbs rt) = fset (fmdom (sandboxes rt))"
    by (auto simp: rt_sbs_def dom_def fmlookup_dom_iff)
  then show ?thesis
    by (auto simp: runtime_listSandboxes_def sorted_list_of_fmap_def rt_sbs_def sorted_list_of_fset.rep_eq
        fmlookup_dom_iff)
qed

end
