(* ===== verification/RuntimeSocket.thy ===== *)
theory RuntimeSocket
  imports RuntimeContract
begin

text \<open>
  The container runtime behind its socket: the client of \<^verbatim>\<open>cri/cri.go\<close> connected to the
  runtime's connection handler over a link that may fail, the interpretation of the contract
  \<open>cri_runtime\<close> on it, and the theorems about the runtime.
\<close>

section \<open>The socket\<close>

text \<open>
  Dialling, sending and receiving may fail; a request that was sent is handled, even if its answer
  is lost. \<open>linkStream\<close> is what a watch delivers later.
\<close>

record 'w link =
  linkDial :: "('w, unit) operation"
  linkSend :: "('w, unit) operation"
  linkReceive :: "('w, unit) operation"
  linkStream :: "('w, json list) operation"

definition on_outside :: "('w, 'a) operation \<Rightarrow> ((Runtime \<times> 'w) \<times> json, 'a) operation" where
  "on_outside m = (\<lambda>((rt, w), reply). case m w of (ans, w') \<Rightarrow> (ans, ((rt, w'), reply)))"

definition runtime_socket ::
    "'w link \<Rightarrow> 'w runtime_os \<Rightarrow> 'w CNI option \<Rightarrow> ((Runtime \<times> 'w) \<times> json) cri_socket" where
  "runtime_socket link os network =
     \<lparr>sockDial = on_outside (linkDial link),
      sockWrite = (\<lambda>j. andThen (on_outside (linkSend link)) (\<lambda>_ s.
        case handleConnection os network (Some j) (fst s) of (reply, st) \<Rightarrow> (Inr (), (st, reply)))),
      sockRead = andThen (on_outside (linkReceive link)) (\<lambda>_ s. (Inr (snd s), s)),
      sockStream = on_outside (linkStream link)\<rparr>"

lemma on_outside_eq: "on_outside m ((rt, w), reply) = (fst (m w), ((rt, snd (m w)), reply))"
  by (simp add: on_outside_def split: prod.splits)

lemma handleConnection_request:
  assumes "reqOperation q \<noteq> ''watch''"
  shows "handleConnection os network (Some (enc_request q)) s =
    (case handleRequest os network (norm_request q) s of
       (Inl err, s') \<Rightarrow> (enc_response (zero_response\<lparr>respError := err_Error err\<rparr>), s')
     | (Inr result, s') \<Rightarrow> (enc_response (result\<lparr>respOK := True\<rparr>), s'))"
  using assms by (simp add: handleConnection_def request_roundtrip norm_request_def)

lemma decode_response_enc: "decode_response (enc_response r) = Inr (norm_response r)"
  by (simp add: decode_response_def response_roundtrip)

lemma client_request_cases:
  assumes run: "cri_client_request (runtime_socket link os network) q ((rt, w), reply) =
      (ans, ((rt', w'), reply'))" and q: "reqOperation q \<noteq> ''watch''"
  obtains (refused) e where "ans = Inl e" "rt' = rt"
    | (lost) e w1 res w2 where "ans = Inl e"
        "handleRequest os network (norm_request q) (rt, w1) = (res, (rt', w2))"
        "w1 = snd (linkSend link (snd (linkDial link w)))" "w' = snd (linkReceive link w2)"
    | (answered) result w1 w2 where "ans = Inr (norm_response (result\<lparr>respOK := True\<rparr>))"
        "handleRequest os network (norm_request q) (rt, w1) = (Inr result, (rt', w2))"
        "w1 = snd (linkSend link (snd (linkDial link w)))" "w' = snd (linkReceive link w2)"
proof (cases "linkDial link w")
  case dial: (Pair d w1)
  show ?thesis
  proof (cases d)
    case (Inl e)
    with dial run have "ans = Inl (WrapError ''connect CRI socket'' e)" "rt' = rt"
      by (simp_all add: cri_client_request_def runtime_socket_def andThen_def wrapping_def on_outside_eq)
    then show ?thesis by (rule refused)
  next
    case dialled: (Inr u)
    obtain sent w2 where send: "linkSend link w1 = (sent, w2)" by fastforce
    show ?thesis
    proof (cases sent)
      case (Inl e)
      with dial dialled send run have "ans = Inl (WrapError ''write CRI request'' e)" "rt' = rt"
        by (simp_all add: cri_client_request_def runtime_socket_def andThen_def wrapping_def on_outside_eq)
      then show ?thesis by (rule refused)
    next
      case ok: (Inr u')
      obtain res rt3 w3 where handle: "handleRequest os network (norm_request q) (rt, w2) = (res, (rt3, w3))"
        by (metis prod.collapse)
      obtain got w4 where receive: "linkReceive link w3 = (got, w4)" by fastforce
      have conn: "handleConnection os network (Some (enc_request q)) (rt, w2) =
        (enc_response (case res of Inl err \<Rightarrow> zero_response\<lparr>respError := err_Error err\<rparr>
           | Inr result \<Rightarrow> result\<lparr>respOK := True\<rparr>), (rt3, w3))"
        using handle by (simp add: handleConnection_request [OF q] split: sum.splits)
      have worlds: "w2 = snd (linkSend link (snd (linkDial link w)))" "w4 = snd (linkReceive link w3)"
        by (simp_all add: dial send receive)
      note facts = cri_client_request_def runtime_socket_def andThen_def wrapping_def on_outside_eq
        dial dialled send ok conn receive decode_response_enc failing_def returning_def
      show ?thesis
      proof (cases got)
        case (Inl e)
        with run have "ans = Inl (WrapError ''decode CRI response'' e)" "rt' = rt3" "w' = w4"
          by (simp_all add: facts)
        with handle lost worlds show ?thesis by simp
      next
        case (Inr u'')
        show ?thesis
        proof (cases res)
          case res: (Inl err)
          with run Inr have "rt' = rt3" "\<exists>e. ans = Inl e" "w' = w4"
            by (auto simp: facts norm_response_def zero_response_def)
          with handle lost worlds show ?thesis by auto
        next
          case res: (Inr result)
          with run Inr have "rt' = rt3" "ans = Inr (norm_response (result\<lparr>respOK := True\<rparr>))" "w' = w4"
            by (auto simp: facts norm_response_def)
          with handle res answered worlds show ?thesis by simp
        qed
      qed
    qed
  qed
qed


section \<open>The calls of the client\<close>

definition list_request :: cri_request where
  "list_request = zero_request\<lparr>reqOperation := ''list''\<rparr>"

lemma norm_request_fields [simp]:
  "reqOperation (norm_request q) = reqOperation q" "reqPod (norm_request q) = reqPod q"
  "reqImage (norm_request q) = reqImage q" "reqSandboxID (norm_request q) = reqSandboxID q"
  "reqSource (norm_request q) = reqSource q" "reqHostNetwork (norm_request q) = reqHostNetwork q"
  "elems (reqCommand (norm_request q)) = elems (reqCommand q)"
  by (simp_all add: norm_request_def)

lemma norm_response_fields [simp]:
  "respSandboxID (norm_response r) = respSandboxID r" "respPod (norm_response r) = respPod r"
  "respSource (norm_response r) = respSource r" "respIP (norm_response r) = respIP r"
  "respState (norm_response r) = respState r" "respID (norm_response r) = respID r"
  "elems (respContainers (norm_response r)) = elems (respContainers r)"
  "elems (respSandboxes (norm_response r)) = elems (respSandboxes r)"
  by (simp_all add: norm_response_def)

text \<open>What a request of the client does to the runtime, by the operation it asks for.\<close>

lemma handle_list:
  assumes "reqOperation q = ''list''" and "handleRequest os network q (rt, w) = (res, (rt', w'))"
  shows "rt' = rt \<and> res = Inr (zero_response\<lparr>respContainers := Some (runtime_list rt)\<rparr>)"
  using assms by (auto simp: handleRequest_def handle_simps)

lemma handle_list_sandboxes:
  assumes "reqOperation q = ''list-sandboxes''" and "handleRequest os network q (rt, w) = (res, (rt', w'))"
  shows "rt' = rt \<and> res = Inr (zero_response\<lparr>respSandboxes := Some (runtime_listSandboxes rt)\<rparr>)"
  using assms by (auto simp: handleRequest_def handle_simps)

lemma handle_run_pod_sandbox:
  assumes ok: "rt_invar rt" and op: "reqOperation q = ''run-pod-sandbox''"
    and handle: "handleRequest os network q (rt, w) = (res, (rt', w'))"
  shows "rt_invar rt' \<and> rt_conts rt' = rt_conts rt \<and>
    (case res of Inl e \<Rightarrow> rt_sbs rt' = rt_sbs rt
     | Inr r \<Rightarrow> \<exists>s. sandbox_started (reqPod q) (reqSource q) s (rt_sbs rt) (rt_sbs rt') \<and>
         r = zero_response\<lparr>respSandboxID := sandID s, respPod := sandPod s, respSource := sandSource s,
           respState := sandState s, respIP := sandIP s\<rparr>)"
proof -
  obtain ans rt1 w1 where run: "runPodSandbox os network (reqPod q) (reqSource q) (reqHostNetwork q) (rt, w)
      = (ans, (rt1, w1))" by (metis prod.collapse)
  with op handle have "rt1 = rt'" by (auto simp: handleRequest_def handle_simps split: sum.splits)
  with runPodSandbox_ok [OF ok run] op handle run show ?thesis
    by (auto simp: handleRequest_def handle_simps split: sum.splits)
qed

lemma handle_run_in_sandbox:
  assumes ok: "rt_invar rt" and op: "reqOperation q = ''run-in-sandbox''"
    and handle: "handleRequest os network q (rt, w) = (res, (rt', w'))"
  shows "rt_invar rt' \<and> rt_sbs rt' = rt_sbs rt \<and>
    (case res of Inl e \<Rightarrow> rt_conts rt' = rt_conts rt
     | Inr r \<Rightarrow> \<exists>c. container_started (reqPod q) (reqSandboxID q) c (rt_conts rt) (rt_conts rt') \<and>
         r = zero_response\<lparr>respID := contID c, respPod := contPod c, respState := contState c,
           respSandboxID := contSandbox c\<rparr>)"
proof -
  obtain ans rt1 w1 where run: "runInSandbox os (reqPod q) (reqImage q) (elems (reqCommand q))
      (reqSandboxID q) (rt, w) = (ans, (rt1, w1))" by (metis prod.collapse)
  with op handle have "rt1 = rt'" by (auto simp: handleRequest_def handle_simps split: sum.splits)
  with runInSandbox_ok [OF ok run] op handle run show ?thesis
    by (auto simp: handleRequest_def handle_simps split: sum.splits)
qed

lemma handle_stop_pod_sandbox:
  assumes ok: "rt_invar rt" and op: "reqOperation q = ''stop-pod-sandbox''"
    and handle: "handleRequest os network q (rt, w) = (res, (rt', w'))"
  shows "rt_invar rt' \<and>
    (case res of Inl e \<Rightarrow> rt' = rt
     | Inr r \<Rightarrow> rt_sbs rt (reqSandboxID q) \<noteq> None \<and> rt_sbs rt' = (rt_sbs rt)(reqSandboxID q := None) \<and>
         containers_of_stopped (reqSandboxID q) (rt_conts rt) (rt_conts rt'))"
proof -
  obtain ans rt1 w1 where run: "stopPodSandbox os network (reqSandboxID q) (rt, w) = (ans, (rt1, w1))"
    by (metis prod.collapse)
  with op handle have "rt1 = rt'" by (auto simp: handleRequest_def handle_simps split: sum.splits)
  with stopPodSandbox_ok [OF ok run] op handle run show ?thesis
    by (auto simp: handleRequest_def handle_simps split: sum.splits)
qed

lemma handle_stop:
  assumes ok: "rt_invar rt" and op: "reqOperation q = ''stop''"
    and handle: "handleRequest os network q (rt, w) = (res, (rt', w'))"
  shows "rt_invar rt' \<and> rt_sbs rt' = rt_sbs rt \<and>
    (case res of Inl e \<Rightarrow> rt' = rt | Inr r \<Rightarrow> container_stopped (reqPod q) (rt_conts rt) (rt_conts rt'))"
proof -
  obtain ans rt1 w1 where run: "runtime_stop os (reqPod q) (rt, w) = (ans, (rt1, w1))"
    by (metis prod.collapse)
  with op handle have "rt1 = rt'" by (auto simp: handleRequest_def handle_simps split: sum.splits)
  with runtime_stop_ok [OF ok run] rt_sbs_cong [of rt' rt] op handle run show ?thesis
    by (auto simp: handleRequest_def handle_simps split: sum.splits)
qed

text \<open>A call is its request with the answer read off.\<close>

lemma client_call:
  assumes run: "andThen (cri_client_request (runtime_socket link os network) q) (\<lambda>r. returning (f r))
      ((rt, w), reply) = (ans, ((rt', w'), reply'))" and q: "reqOperation q \<noteq> ''watch''"
  obtains (refused) e where "ans = Inl e" "rt' = rt"
    | (lost) e w1 res w2 where "ans = Inl e"
        "handleRequest os network (norm_request q) (rt, w1) = (res, (rt', w2))"
        "w1 = snd (linkSend link (snd (linkDial link w)))" "w' = snd (linkReceive link w2)"
    | (answered) result w1 w2 where "ans = Inr (f (norm_response (result\<lparr>respOK := True\<rparr>)))"
        "handleRequest os network (norm_request q) (rt, w1) = (Inr result, (rt', w2))"
        "w1 = snd (linkSend link (snd (linkDial link w)))" "w' = snd (linkReceive link w2)"
proof -
  obtain res rt1 w1 reply1 where request: "cri_client_request (runtime_socket link os network) q
      ((rt, w), reply) = (res, ((rt1, w1), reply1))" by (metis prod.collapse)
  with run have rt1: "rt1 = rt'" "w1 = w'" and ans: "ans = (case res of Inl e \<Rightarrow> Inl e | Inr r \<Rightarrow> Inr (f r))"
    by (auto simp: andThen_def returning_def split: sum.splits)
  from request q show ?thesis
    by (cases rule: client_request_cases) (use rt1 ans refused lost answered in auto)
qed

lemma cri_surjective [simp]:
  "\<lparr>sandID = sandID s, sandPod = sandPod s, sandSource = sandSource s, sandIP = sandIP s,
     sandState = sandState s\<rparr> = s"
  "\<lparr>contID = contID c, contPod = contPod c, contSandbox = contSandbox c, contState = contState c\<rparr> = c"
  by simp_all

lemma client_List_ok:
  assumes run: "cri_client_List (runtime_socket link os network) ((rt, w), r) = (ans, ((rt', w'), r'))"
  shows "rt' = rt \<and> (\<forall>cs. ans = Inr cs \<longrightarrow> cs = runtime_list rt)"
  by (rule client_call [OF run [unfolded cri_client_List_def]])
    (auto simp: zero_request_def zero_response_def dest: handle_list [rotated])

lemma client_ListSandboxes_ok:
  assumes run: "cri_client_ListSandboxes (runtime_socket link os network) ((rt, w), r) = (ans, ((rt', w'), r'))"
  shows "rt' = rt \<and> (\<forall>ss. ans = Inr ss \<longrightarrow> ss = runtime_listSandboxes rt)"
  by (rule client_call [OF run [unfolded cri_client_ListSandboxes_def]])
    (auto simp: zero_request_def zero_response_def dest: handle_list_sandboxes [rotated])

lemma client_RunPodSandbox_ok:
  assumes ok: "rt_invar rt" and run: "cri_client_RunPodSandbox (runtime_socket link os network) p source
      ((rt, w), r) = (ans, ((rt', w'), r'))"
  shows "rt_invar rt' \<and> rt_conts rt' = rt_conts rt \<and>
    (case ans of
       Inl e \<Rightarrow> rt_sbs rt' = rt_sbs rt \<or>
         (\<exists>s. sandbox_started (Name (podMeta p)) source s (rt_sbs rt) (rt_sbs rt'))
     | Inr s \<Rightarrow> sandbox_started (Name (podMeta p)) source s (rt_sbs rt) (rt_sbs rt'))"
  by (rule client_call [OF run [unfolded cri_client_RunPodSandbox_def]])
    (auto simp: zero_request_def zero_response_def ok dest!: handle_run_pod_sandbox [OF ok, rotated]
      split: sum.splits)

lemma client_RunInSandbox_ok:
  assumes ok: "rt_invar rt" and run: "cri_client_RunInSandbox (runtime_socket link os network) p sandbox
      ((rt, w), r) = (ans, ((rt', w'), r'))"
  shows "rt_invar rt' \<and> rt_sbs rt' = rt_sbs rt \<and>
    (case ans of
       Inl e \<Rightarrow> rt_conts rt' = rt_conts rt \<or>
         (\<exists>c. container_started (Name (podMeta p)) sandbox c (rt_conts rt) (rt_conts rt'))
     | Inr c \<Rightarrow> container_started (Name (podMeta p)) sandbox c (rt_conts rt) (rt_conts rt'))"
proof (cases "elems (Containers (podSpec p))")
  case Nil
  with run ok show ?thesis by (auto simp: cri_client_RunInSandbox_def failing_def)
next
  case (Cons c cs)
  note call = run [unfolded cri_client_RunInSandbox_def Cons list.case]
  show ?thesis
    by (rule client_call [OF call])
      (auto simp: zero_request_def zero_response_def ok dest!: handle_run_in_sandbox [OF ok, rotated]
        split: sum.splits)
qed

lemma client_Stop_ok:
  assumes ok: "rt_invar rt"
    and run: "cri_client_Stop (runtime_socket link os network) pod ((rt, w), r) = (ans, ((rt', w'), r'))"
  shows "rt_invar rt' \<and> rt_sbs rt' = rt_sbs rt \<and>
    (case ans of
       Inl e \<Rightarrow> rt_conts rt' = rt_conts rt \<or> container_stopped pod (rt_conts rt) (rt_conts rt')
     | Inr _ \<Rightarrow> container_stopped pod (rt_conts rt) (rt_conts rt'))"
  by (rule client_call [OF run [unfolded cri_client_Stop_def]])
    (auto simp: zero_request_def ok dest!: handle_stop [OF ok, rotated] split: sum.splits)

lemma client_StopPodSandbox_ok:
  assumes ok: "rt_invar rt" and run: "cri_client_StopPodSandbox (runtime_socket link os network) i
      ((rt, w), r) = (ans, ((rt', w'), r'))"
  shows "rt_invar rt' \<and>
    (rt_sbs rt' = rt_sbs rt \<and> rt_conts rt' = rt_conts rt \<and> ans \<noteq> Inr () \<or>
     rt_sbs rt i \<noteq> None \<and> rt_sbs rt' = (rt_sbs rt)(i := None) \<and>
     containers_of_stopped i (rt_conts rt) (rt_conts rt'))"
  by (rule client_call [OF run [unfolded cri_client_StopPodSandbox_def]])
    (auto simp: zero_request_def ok dest!: handle_stop_pod_sandbox [OF ok, rotated] split: sum.splits)

section \<open>The contract\<close>

definition behind :: "(Runtime \<Rightarrow> 'v) \<Rightarrow> (Runtime \<times> 'w) \<times> json \<Rightarrow> 'v" where
  "behind view s = view (fst (fst s))"

lemma behind_eq [simp]: "behind view ((rt, w), reply) = view rt"
  by (simp add: behind_def)

lemma stopped_sandbox_keys:
  assumes "sbs' = sbs(i := None)" and "sbs i \<noteq> None" and "sbs' = sbs"
  shows False
  using assms by (metis fun_upd_same)

lemma watch_request: "dec_request (JObject [(''op'', JString ''watch'')]) zero_request =
    Some (zero_request\<lparr>reqOperation := ''watch''\<rparr>)"
  by (simp add: dec_request_def codec_simps zero_request_def)

lemma handle_watch:
  "handleConnection os network (Some (JObject [(''op'', JString ''watch'')])) s =
    (enc_response (zero_response\<lparr>respOK := True\<rparr>), (snd (add_watcher (fst s)), snd s))"
  by (simp add: handleConnection_def watch_request)

lemma client_Watch_keeps:
  assumes "keeps ok view (on_outside (linkDial link))" and "keeps ok view (on_outside (linkSend link))"
    and "keeps ok view (on_outside (linkReceive link))" and "keeps ok view (on_outside (linkStream link))"
    and "\<And>rt w reply reply'. ok ((rt, w), reply) \<Longrightarrow>
      ok ((snd (add_watcher rt), w), reply') \<and> view ((snd (add_watcher rt), w), reply') = view ((rt, w), reply)"
  shows "keeps ok view (cri_client_Watch (runtime_socket link os network))"
proof -
  have "keeps ok view (\<lambda>s. case handleConnection os network (Some (JObject [(''op'', JString ''watch'')])) (fst s) of
      (reply, st) \<Rightarrow> (Inr (), (st, reply)))"
    unfolding handle_watch using assms(5) by (auto simp: keeps_def)
  moreover have "keeps ok view (\<lambda>s. (Inr (snd s), s))" by (simp add: keeps_def)
  ultimately show ?thesis
    unfolding cri_client_Watch_def runtime_socket_def
    by (auto intro!: keeps_andThen keeps_wrapping assms(1-4) split: sum.split)
qed

lemma add_watcher_views [simp]:
  "rt_conts (snd (add_watcher rt)) = rt_conts rt" "rt_sbs (snd (add_watcher rt)) = rt_sbs rt"
  by (simp_all add: add_watcher_def rt_conts_def rt_sbs_def fun_eq_iff)

lemma client_Watch_ok:
  "keeps (behind rt_invar) (\<lambda>s. (behind rt_conts s, behind rt_sbs s)) (cri_client_Watch (runtime_socket link os network))"
  by (rule client_Watch_keeps) (auto simp: keeps_def on_outside_eq add_watcher_invar)

interpretation socket_runtime: cri_runtime "cri_client (runtime_socket link os network)"
  "behind rt_conts" "behind rt_sbs" "behind rt_invar"
proof (unfold_locales, goal_cases)
  case (1 s pod c)
  then show ?case by (cases s) (auto simp: rt_invar_def containers_ok_def rt_conts_def)
next
  case (2 s i sb)
  then show ?case by (cases s) (auto dest: rt_sbs_named)
next
  case (3 s i sb j t)
  then show ?case by (cases s) (auto dest: rt_sbs_unique)
next
  case (4 s ans s')
  then show ?case using runtime_list_ok
    by (cases s; cases s') (force simp: cri_client_def dest: client_List_ok)
next
  case (5 s ans s')
  then show ?case using runtime_listSandboxes_ok
    by (cases s; cases s') (force simp: cri_client_def dest: client_ListSandboxes_ok)
next
  case (6 s p source sb s')
  then show ?case by (cases s; cases s') (force simp: cri_client_def dest: client_RunPodSandbox_ok)
next
  case (7 s p source e s')
  then show ?case by (cases s; cases s') (force simp: cri_client_def dest: client_RunPodSandbox_ok)
next
  case (8 s p sandbox c s')
  then show ?case by (cases s; cases s') (force simp: cri_client_def dest: client_RunInSandbox_ok)
next
  case (9 s p sandbox e s')
  then show ?case by (cases s; cases s') (force simp: cri_client_def dest: client_RunInSandbox_ok)
next
  case (10 s pod s')
  then show ?case by (cases s; cases s') (force simp: cri_client_def dest: client_Stop_ok)
next
  case (11 s pod e s')
  then show ?case by (cases s; cases s') (force simp: cri_client_def dest: client_Stop_ok)
next
  case (12 s i s')
  then show ?case by (cases s; cases s') (force simp: cri_client_def dest: client_StopPodSandbox_ok)
next
  case (13 s i e s')
  then show ?case by (cases s; cases s') (force simp: cri_client_def dest: client_StopPodSandbox_ok)
next
  case (14 s events s')
  then show ?case using keepsD [OF client_Watch_ok] by (fastforce simp: cri_client_def)
qed

section \<open>Instances\<close>

text \<open>An operating system and a network without faults, for the instances.\<close>

definition plain_os :: "nat runtime_os" where
  "plain_os = \<lparr>osArgs0 = ''runtime'', osPipe = returning (), osStart = (\<lambda>_ _ w. (Inr (int w), w + 1)),
     osRelease = (\<lambda>_. returning ()), osKill = (\<lambda>_ w. w), osTerminate = (\<lambda>_. returning ()),
     osWait = (\<lambda>_ w. w), osExecutable = returning ''runtime'', osOpen = (\<lambda>_. returning ()),
     osReadJSON = (\<lambda>_. returning (Some (JObject [(''root'', JObject [(''path'', JString ''rootfs'')])]))),
     osAbs = returning, osMkdirTemp = returning ''/tmp/rootfs'', osRemoveAll = (\<lambda>_ w. w),
     osExec = (\<lambda>_ _ w. (([], None), w))\<rparr>"

definition sandbox_request :: "string \<Rightarrow> cri_request" where
  "sandbox_request pod = zero_request\<lparr>reqOperation := ''run-pod-sandbox'', reqPod := pod, reqSource := Workload\<rparr>"

definition container_request :: "string \<Rightarrow> string \<Rightarrow> cri_request" where
  "container_request pod sandbox = zero_request\<lparr>reqOperation := ''run-in-sandbox'', reqPod := pod,
     reqImage := ''web'', reqSandboxID := sandbox\<rparr>"

definition plain_inputs :: "runtime_input list" where
  "plain_inputs = [Connection (Some (enc_request (sandbox_request ''web''))),
     Connection (Some (enc_request (container_request ''web'' ''sandbox-7''))),
     Connection (Some (enc_request (sandbox_request ''web'')))]"

section \<open>Theorems\<close>

lemma distinct_sandboxes:
  assumes ok: "rt_invar rt"
  shows "distinct (map (\<lambda>s. (sandPod s, sandSource s)) (runtime_listSandboxes rt))"
proof -
  from runtime_listSandboxes_ok [OF ok]
  have dist: "distinct (map sandID (runtime_listSandboxes rt))"
    and set: "set (runtime_listSandboxes rt) = ran (rt_sbs rt)" by auto
  have "inj_on (\<lambda>s. (sandPod s, sandSource s)) (set (runtime_listSandboxes rt))"
  proof (rule inj_onI)
    fix s t assume "s \<in> set (runtime_listSandboxes rt)" "t \<in> set (runtime_listSandboxes rt)"
      and same: "(sandPod s, sandSource s) = (sandPod t, sandSource t)"
    with set obtain i j where "rt_sbs rt i = Some s" "rt_sbs rt j = Some t" by (auto simp: ran_def)
    moreover from rt_sbs_unique [OF ok this] same have "i = j" by blast
    ultimately show "s = t" by simp
  qed
  with dist show ?thesis by (simp add: distinct_map)
qed

text \<open>
  C10: whatever the runtime is asked and whichever containers exit, in any order, it never has two
  sandboxes for the same Pod and source, never two containers for a Pod, and a container is
  Running exactly as long as its process is known.
\<close>

theorem runtime_keeps_order:
  assumes "runtime_run os network inputs (NewRuntime dir, w) = (rt, w')"
  shows "distinct (map (\<lambda>s. (sandPod s, sandSource s)) (runtime_listSandboxes rt)) \<and>
    distinct (map contPod (runtime_list rt)) \<and>
    (\<forall>pod m. fmlookup (containers rt) pod = Some m \<longrightarrow>
       (contState (mcContainer m) = cri_Running \<longleftrightarrow> mcProcess m \<noteq> None))"
proof -
  from runtime_run_invar [of "(NewRuntime dir, w)" os network inputs] assms
  have ok: "rt_invar rt" by (simp add: NewRuntime_invar)
  from distinct_sandboxes [OF ok] runtime_list_ok [OF ok] ok show ?thesis
    by (auto simp: rt_invar_def containers_ok_def)
qed

lemma runtime_keeps_order_witness:
  "distinct (map contPod (runtime_list (fst (runtime_run plain_os None plain_inputs (NewRuntime ''/bundles'', 7)))))"
  using runtime_keeps_order [of plain_os None plain_inputs "''/bundles''" 7
      "fst (runtime_run plain_os None plain_inputs (NewRuntime ''/bundles'', 7))"
      "snd (runtime_run plain_os None plain_inputs (NewRuntime ''/bundles'', 7))"]
  by simp

text \<open>
  C20: no watcher misses a change. As long as nothing has been written to a watcher's connection,
  either the listings are what they were, or an event waits to be written.
\<close>

theorem changes_reach_watchers:
  assumes "runtime_run os network before (NewRuntime dir, w) = (rt, w')"
    and "fmlookup (watchers rt) ch \<noteq> None"
    and "EventWritten ch \<notin> set inputs" and "WatchClosed ch \<notin> set inputs"
    and "runtime_run os network inputs (rt, w') = (rt', w'')"
  shows "(runtime_list rt', runtime_listSandboxes rt') = (runtime_list rt, runtime_listSandboxes rt) \<or>
    fst (drain_watcher ch rt') \<noteq> []"
proof -
  let ?s = "(NewRuntime dir, w)"
  have "rt_invar rt" using runtime_run_invar [of ?s os network before] assms(1)
    by (simp add: NewRuntime_invar)
  moreover have "watchers_ok rt" using runtime_run_watchers_ok [of ?s os network before] assms(1)
    by (simp add: NewRuntime_invar watchers_ok_def) (simp add: NewRuntime_def)
  then have "ch < nextChannel rt" using assms(2) by (simp add: watchers_ok_def)
  ultimately have "waiting rt' ch \<or> rt_conts rt' = rt_conts rt \<and> rt_sbs rt' = rt_sbs rt"
    using runtime_run_announced [of "(rt, w')" ch inputs os network] assms
    by (simp add: announced_def)
  then show ?thesis
    by (auto simp: runtime_list_conts runtime_listSandboxes_sbs waiting_def drain_watcher_def)
qed

lemma changes_reach_watchers_witness:
  "\<exists>rt w rt' w'. runtime_run plain_os None [Connection (Some (JObject [(''op'', JString ''watch'')]))]
      (NewRuntime ''/bundles'', 7) = (rt, w) \<and>
    runtime_run plain_os None plain_inputs (rt, w) = (rt', w') \<and> fst (drain_watcher 0 rt') \<noteq> []"
proof -
  define s where "s = runtime_run plain_os None [Connection (Some (JObject [(''op'', JString ''watch'')]))]
      (NewRuntime ''/bundles'', 7)"
  define s' where "s' = runtime_run plain_os None plain_inputs s"
  have watch: "fmlookup (watchers (fst s)) 0 \<noteq> None" unfolding s_def by code_simp
  have before: "runtime_listSandboxes (fst s) = []" unfolding s_def by code_simp
  have after: "runtime_listSandboxes (fst s') \<noteq> []" unfolding s_def s'_def by code_simp
  have "fst (drain_watcher 0 (fst s')) \<noteq> []"
    using changes_reach_watchers [OF _ watch, of plain_os None
        "[Connection (Some (JObject [(''op'', JString ''watch'')]))]" "''/bundles''" 7 "snd s" plain_inputs
        "fst s'" "snd s'"] before after
    by (simp add: s_def [symmetric] s'_def [symmetric]) (simp add: plain_inputs_def)
  then show ?thesis
    by (intro exI [of _ "fst s"] exI [of _ "snd s"] exI [of _ "fst s'"] exI [of _ "snd s'"])
      (simp add: s_def [symmetric] s'_def [symmetric])
qed

text \<open>
  C24: starting a sandbox is idempotent. Once a sandbox was started for a Pod and source, asking
  again answers the same sandbox and touches nothing; and the answered sandbox is a listed,
  Running one of that Pod and source.
\<close>

theorem run_sandbox_idempotent:
  assumes "rt_invar rt" and "runPodSandbox os network pod source host (rt, w) = (Inr s, (rt', w'))"
  shows "runPodSandbox os' network' pod source host' (rt', w') = (Inr s, (rt', w')) \<and>
    s \<in> set (runtime_listSandboxes rt') \<and> sandPod s = pod \<and> sandSource s = source \<and>
    sandState s = cri_Running"
proof -
  from runPodSandbox_ok [OF assms] have ok': "rt_invar rt'"
    and started: "sandbox_started pod source s (rt_sbs rt) (rt_sbs rt')" by auto
  then have s: "sandPod s = pod" "sandSource s = source" "sandState s = cri_Running"
    "rt_sbs rt' (sandID s) = Some s" by (simp_all add: sandbox_started_def)
  then have listed: "s \<in> set (runtime_listSandboxes rt')"
    using runtime_listSandboxes_ok [OF ok'] by (auto simp: ran_def)
  have "running_sandbox rt' pod source = Some s"
  proof (cases "running_sandbox rt' pod source")
    case None
    from running_sandbox_None [OF ok' None s(4)] s show ?thesis by simp
  next
    case (Some t)
    from running_sandbox_Some [OF ok' Some] have "sandPod t = pod" "sandSource t = source"
      "rt_sbs rt' (sandID t) = Some t" by auto
    with rt_sbs_unique [OF ok' this(3) s(4)] s show ?thesis using Some by simp
  qed
  then show ?thesis using s listed
    by (simp add: runPodSandbox_def andThen_def get_memory_def returning_def)
qed

lemma run_sandbox_idempotent_witness:
  "\<exists>s rt w. runPodSandbox plain_os None ''web'' Workload False (NewRuntime ''/bundles'', 7) = (Inr s, (rt, w)) \<and>
    runPodSandbox plain_os None ''web'' Workload True (rt, w) = (Inr s, (rt, w))"
proof -
  obtain a rt w where run: "runPodSandbox plain_os None ''web'' Workload False (NewRuntime ''/bundles'', 7) =
    (a, (rt, w))" by (metis prod.collapse)
  have "case fst (runPodSandbox plain_os None ''web'' Workload False (NewRuntime ''/bundles'', 7)) of
      Inl _ \<Rightarrow> False | Inr _ \<Rightarrow> True" by code_simp
  with run obtain s where "a = Inr s" by (cases a) auto
  with run run_sandbox_idempotent [OF NewRuntime_invar, of plain_os None "''web''" Workload False
      "''/bundles''" 7 s rt w] show ?thesis by blast
qed

lemma stop_all_signalled:
  assumes "rt_invar rt" and "stop_all os pods (rt, w) = (rt', w')"
    and "\<And>pid w. \<exists>w1. osTerminate os pid w = (Inr (), w1)"
    and "pod \<in> set pods" and "rt_conts rt pod = Some c"
  shows "rt_conts rt' pod = Some (c\<lparr>contState := cri_Stopped\<rparr>)"
  using assms
proof (induction pods arbitrary: rt w c)
  case (Cons p pods)
  obtain ans rt1 w1 where stop: "runtime_stop os p (rt, w) = (ans, (rt1, w1))" by (metis prod.collapse)
  note effect = runtime_stop_ok [OF Cons.prems(1) stop]
  have all: "stop_all os pods (rt1, w1) = (rt', w')" using Cons.prems(2) stop by simp
  have ok1: "rt_invar rt1" using effect by simp
  have later: "rt_conts rt1 pod = Some c' \<Longrightarrow> contState c' = cri_Stopped \<Longrightarrow> rt_conts rt' pod = Some c'" for c'
    using stop_all_ok [OF ok1 all] by (auto simp: some_stopped_def dest!: spec [of _ pod])
  show ?case
  proof (cases "p = pod")
    case True
    from Cons.prems(5) obtain m where m: "fmlookup (containers rt) pod = Some m" by (auto simp: rt_conts_def)
    have "ans = Inr ()"
    proof (cases "mcProcess m")
      case None
      with stop True m show ?thesis by (simp add: runtime_stop_def)
    next
      case (Some pid)
      obtain w2 where "osTerminate os pid w = (Inr (), w2)" using Cons.prems(3) by blast
      with Some stop True m show ?thesis by (simp add: runtime_stop_def)
    qed
    with effect True Cons.prems(5) have "rt_conts rt1 pod = Some (c\<lparr>contState := cri_Stopped\<rparr>)"
      by (simp add: container_stopped_def)
    then show ?thesis by (rule later) simp
  next
    case False
    with Cons.prems(4) have rest: "pod \<in> set pods" by simp
    from effect False Cons.prems(5) have "rt_conts rt1 pod = Some c"
      by (auto simp: container_stopped_def split: sum.splits)
    from Cons.IH [OF ok1 all Cons.prems(3) rest this] show ?thesis .
  qed
qed simp


definition sandbox_and_container :: "Runtime \<times> nat" where
  "sandbox_and_container = runtime_run plain_os None plain_inputs (NewRuntime ''/bundles'', 7)"


text \<open>
  Starting a container looks its sandbox up, releases the lock, and records the container later. A
  stop of the sandbox in between leaves a Running container whose sandbox is gone.
\<close>

definition container_race :: "cri_Container list \<times> cri_Sandbox list" where
  "container_race =
     (let (_, s1) = runPodSandbox plain_os None ''web'' Workload False (NewRuntime ''/bundles'', 7);
          (started, s2) = prepare_container plain_os ''web'' [''serve''] ''sandbox-7'' s1;
          (_, s3) = stopPodSandbox plain_os None ''sandbox-7'' s2
      in case started of
           Inl _ \<Rightarrow> ([], [])
         | Inr (pid, rootfs) \<Rightarrow>
             (let (_, rt) = register_container ''web'' ''sandbox-7'' pid rootfs (fst s3)
              in (runtime_list rt, runtime_listSandboxes rt)))"

theorem container_outlives_sandbox:
  "container_race =
     ([\<lparr>contID = ''pid-8'', contPod = ''web'', contSandbox = ''sandbox-7'', contState = cri_Running\<rparr>], [])"
  by code_simp

text \<open>The runtime seen over a link that works: errors arrive as the client's error.\<close>

definition perfect_link :: "'w link" where
  "perfect_link = \<lparr>linkDial = returning (), linkSend = returning (), linkReceive = returning (),
     linkStream = returning []\<rparr>"

definition remote :: "'a result \<times> 's \<Rightarrow> 'a result \<times> 's" where
  "remote r = (case r of
     (Inl e, s) \<Rightarrow> (Inl (NewError (''CRI request failed: '' @ strings_TrimSpace (err_Error e))), s)
   | (Inr a, s) \<Rightarrow> (Inr a, s))"

definition called :: "'a result \<times> ('s \<times> json) \<Rightarrow> 'a result \<times> 's" where
  "called r = (fst r, fst (snd r))"

lemma perfect_request:
  assumes "reqOperation q \<noteq> ''watch''"
  shows "called (cri_client_request (runtime_socket perfect_link os network) q ((rt, w), r)) =
    (case handleRequest os network (norm_request q) (rt, w) of
       (Inl e, s) \<Rightarrow> (Inl (NewError (''CRI request failed: '' @ strings_TrimSpace (err_Error e))), s)
     | (Inr res, s) \<Rightarrow> (Inr (norm_response (res\<lparr>respOK := True\<rparr>)), s))"
proof -
  obtain ans st where handle: "handleRequest os network (norm_request q) (rt, w) = (ans, st)"
    by (metis prod.collapse)
  then have conn: "handleConnection os network (Some (enc_request q)) (rt, w) =
    (enc_response (case ans of Inl err \<Rightarrow> zero_response\<lparr>respError := err_Error err\<rparr>
       | Inr result \<Rightarrow> result\<lparr>respOK := True\<rparr>), st)"
    by (simp add: handleConnection_request [OF assms] split: sum.splits)
  show ?thesis
    by (cases ans; cases st) (simp_all add: called_def cri_client_request_def runtime_socket_def
      perfect_link_def andThen_def wrapping_def on_outside_eq returning_def failing_def conn handle
      decode_response_enc norm_response_def zero_response_def)
qed

lemma perfect_call:
  assumes "reqOperation q \<noteq> ''watch''"
  shows "called (andThen (cri_client_request (runtime_socket perfect_link os network) q)
      (\<lambda>a. returning (f a)) ((rt, w), r)) =
    (case handleRequest os network (norm_request q) (rt, w) of
       (Inl e, s) \<Rightarrow> (Inl (NewError (''CRI request failed: '' @ strings_TrimSpace (err_Error e))), s)
     | (Inr res, s) \<Rightarrow> (Inr (f (norm_response (res\<lparr>respOK := True\<rparr>))), s))"
  using perfect_request [OF assms, of os network rt w r]
  by (auto simp: called_def andThen_def returning_def split: prod.splits sum.splits)

lemmas remote_simps = zero_request_def zero_response_def handleRequest_def handle_simps remote_def

text \<open>
  C23: over a link that works, a call of the client is the operation of the runtime: the same
  effect and, but for the form of the error, the same answer.
\<close>

theorem client_is_runtime:
  fixes os :: "'w runtime_os" and network :: "'w CNI option"
  defines "client \<equiv> cri_client (runtime_socket perfect_link os network)"
  shows "called (criRunPodSandbox client pod source ((rt, w), r)) =
      remote (runPodSandbox os network (Name (podMeta pod)) source (HostNetwork (podSpec pod)) (rt, w)) \<and>
    called (criStop client podName ((rt, w), r)) = remote (runtime_stop os podName (rt, w)) \<and>
    called (criStopPodSandbox client sid ((rt, w), r)) = remote (stopPodSandbox os network sid (rt, w)) \<and>
    called (criList client ((rt, w), r)) = (Inr (runtime_list rt), (rt, w)) \<and>
    called (criListSandboxes client ((rt, w), r)) = (Inr (runtime_listSandboxes rt), (rt, w)) \<and>
    called (criRunInSandbox client pod sid ((rt, w), r)) =
      (case elems (Containers (podSpec pod)) of
         [] \<Rightarrow> (Inl (NewError ''Pod has no container''), (rt, w))
       | c # _ \<Rightarrow> remote (runInSandbox os (Name (podMeta pod)) (containerImage c)
           (elems (containerCommand c)) sid (rt, w)))"
proof (intro conjI)
  show "called (criRunPodSandbox client pod source ((rt, w), r)) =
      remote (runPodSandbox os network (Name (podMeta pod)) source (HostNetwork (podSpec pod)) (rt, w))"
    by (simp add: client_def cri_client_def cri_client_RunPodSandbox_def perfect_call)
      (simp add: remote_simps split: prod.splits sum.splits)
  show "called (criStop client podName ((rt, w), r)) = remote (runtime_stop os podName (rt, w))"
    by (simp add: client_def cri_client_def cri_client_Stop_def perfect_call)
      (simp add: remote_simps split: prod.splits sum.splits)
  show "called (criStopPodSandbox client sid ((rt, w), r)) = remote (stopPodSandbox os network sid (rt, w))"
    by (simp add: client_def cri_client_def cri_client_StopPodSandbox_def perfect_call)
      (simp add: remote_simps split: prod.splits sum.splits)
  show "called (criList client ((rt, w), r)) = (Inr (runtime_list rt), (rt, w))"
    by (simp add: client_def cri_client_def cri_client_List_def perfect_call) (simp add: remote_simps)
  show "called (criListSandboxes client ((rt, w), r)) = (Inr (runtime_listSandboxes rt), (rt, w))"
    by (simp add: client_def cri_client_def cri_client_ListSandboxes_def perfect_call) (simp add: remote_simps)
  show "called (criRunInSandbox client pod sid ((rt, w), r)) =
      (case elems (Containers (podSpec pod)) of
         [] \<Rightarrow> (Inl (NewError ''Pod has no container''), (rt, w))
       | c # _ \<Rightarrow> remote (runInSandbox os (Name (podMeta pod)) (containerImage c)
           (elems (containerCommand c)) sid (rt, w)))"
  proof (cases "elems (Containers (podSpec pod))")
    case Nil
    then show ?thesis
      by (simp add: client_def cri_client_def cri_client_RunInSandbox_def called_def failing_def)
  next
    case (Cons c cs)
    then show ?thesis
      by (simp add: client_def cri_client_def cri_client_RunInSandbox_def perfect_call)
        (simp add: remote_simps split: prod.splits sum.splits)
  qed
qed

end
