(* ===== verification/RuntimeHost.thy ===== *)
theory RuntimeHost
  imports RuntimeSocket
begin

text \<open>
  Identifiers of sandboxes. The runtime names a sandbox after its process; on a host that does not
  give a process number out twice, an identifier stands for one sandbox only. The locale
  \<open>cri_runtime_ids\<close> extends the contract of the runtime by this, \<open>runtime_host\<close> states what it
  takes of the host, and a \<^theory_text>\<open>sublocale\<close> shows that it is enough.
\<close>

locale cri_runtime_ids = cri_runtime +
  fixes issued :: "'a \<Rightarrow> string set"
  assumes sandbox_issued: "ok w \<Longrightarrow> sbs w i = Some s \<Longrightarrow> i \<in> issued w"
    and container_issued: "ok w \<Longrightarrow> conts w pod = Some c \<Longrightarrow> contSandbox c \<in> issued w"
    and new_sandbox: "ok w \<Longrightarrow> criRunPodSandbox cri p source w = (ans, w') \<Longrightarrow>
      sbs w' i = Some s \<Longrightarrow> sbs w i \<noteq> Some s \<Longrightarrow> i \<notin> issued w"
    and list_issued: "ok w \<Longrightarrow> issued w \<subseteq> issued (snd (criList cri w))"
    and sandboxes_issued: "ok w \<Longrightarrow> issued w \<subseteq> issued (snd (criListSandboxes cri w))"
    and run_sandbox_issued: "ok w \<Longrightarrow> issued w \<subseteq> issued (snd (criRunPodSandbox cri p source w))"
    and run_container_issued: "ok w \<Longrightarrow> issued w \<subseteq> issued (snd (criRunInSandbox cri p i w))"
    and stop_issued: "ok w \<Longrightarrow> issued w \<subseteq> issued (snd (criStop cri pod w))"
    and stop_sandbox_issued: "ok w \<Longrightarrow> issued w \<subseteq> issued (snd (criStopPodSandbox cri i w))"

lemma is_digit_minus: "\<not> is_digit (CHR ''-'')"
  by code_simp

lemma Itoa_inject: "strconv_Itoa i = strconv_Itoa j \<longleftrightarrow> i = j"
proof -
  have minus: "CHR ''-'' # xs \<noteq> show_nat n" for xs n
    using show_nat_hd [of n] by (metis is_digit_minus list.sel(1))
  then have "show_nat n \<noteq> CHR ''-'' # xs" for xs n by metis
  with minus show ?thesis by (auto simp: strconv_Itoa_def)
qed

section \<open>Operations that only add to a set\<close>

definition extends :: "('s \<Rightarrow> 'v set) \<Rightarrow> ('s, 'a) operation \<Rightarrow> bool" where
  "extends view m \<longleftrightarrow> (\<forall>s. view s \<subseteq> view (snd (m s)))"

named_theorems extends_intros \<open>operations that only add to a set\<close>

lemma extendsD: "extends view m \<Longrightarrow> m s = (ans, s') \<Longrightarrow> view s \<subseteq> view s'"
  by (metis extends_def snd_conv)

lemma extends_returning [extends_intros]: "extends view (returning a)"
  by (simp add: extends_def returning_def)

lemma extends_failing [extends_intros]: "extends view (failing e)"
  by (simp add: extends_def failing_def)

lemma extends_andThen [extends_intros]:
  assumes "extends view m" and "\<And>a. extends view (f a)"
  shows "extends view (andThen m f)"
  unfolding extends_def
proof
  fix s
  obtain ans s' where m: "m s = (ans, s')" by fastforce
  with extendsD [OF assms(1) m] assms(2) show "view s \<subseteq> view (snd (andThen m f s))"
    by (cases ans) (auto simp: andThen_def extends_def)
qed

lemma extends_wrapping [extends_intros]: "extends view m \<Longrightarrow> extends view (wrapping what m)"
  by (auto simp: extends_def wrapping_def split: prod.splits sum.splits) (metis snd_conv subsetD)+

lemma extends_get_memory [extends_intros]: "extends view get_memory"
  by (simp add: extends_def get_memory_def)

lemma extends_put_memory [extends_intros]: "extends (\<lambda>s. view (snd s)) (put_memory x)"
  by (simp add: extends_def put_memory_def)

lemma extends_on_world [extends_intros]: "extends view m \<Longrightarrow> extends (\<lambda>s. view (snd s)) (on_world m)"
  by (simp add: extends_def on_world_def split: prod.splits) (metis snd_conv)

lemma extends_cleaning_up [extends_intros]:
  assumes "extends view cleanup" and "extends view m"
  shows "extends view (cleaning_up cleanup m)"
  unfolding extends_def
proof
  fix s
  obtain ans s' where m: "m s = (ans, s')" by fastforce
  with extendsD [OF assms(2) m] assms(1) show "view s \<subseteq> view (snd (cleaning_up cleanup m s))"
    by (cases ans) (auto simp: cleaning_up_def extends_def)
qed

lemma extends_plain [extends_intros]:
  "(\<And>s. view s \<subseteq> view (f s)) \<Longrightarrow> extends view (\<lambda>s. (Inr (), f s))"
  by (simp add: extends_def)

lemma extends_option [extends_intros]:
  "(x = None \<Longrightarrow> extends view a) \<Longrightarrow> (\<And>y. x = Some y \<Longrightarrow> extends view (b y)) \<Longrightarrow>
    extends view (case x of None \<Rightarrow> a | Some y \<Rightarrow> b y)"
  by (cases x) simp_all

lemma extends_if [extends_intros]:
  "(c \<Longrightarrow> extends view a) \<Longrightarrow> (\<not> c \<Longrightarrow> extends view b) \<Longrightarrow> extends view (if c then a else b)"
  by simp

lemma extends_prod [extends_intros]:
  "(\<And>x y. extends view (f x y)) \<Longrightarrow> extends view (case p of (x, y) \<Rightarrow> f x y)"
  by (cases p) simp

lemma extends_sum [extends_intros]:
  "(\<And>e. x = Inl e \<Longrightarrow> extends view (a e)) \<Longrightarrow> (\<And>y. x = Inr y \<Longrightarrow> extends view (b y)) \<Longrightarrow>
    extends view (case x of Inl e \<Rightarrow> a e | Inr y \<Rightarrow> b y)"
  by (cases x) simp_all

section \<open>The host\<close>

text \<open>
  \<open>used w\<close>: the process numbers the host has given out. \<^verbatim>\<open>cp\<close>, the network plugin and the
  operating system itself may use up more.
\<close>

locale runtime_host =
  fixes link :: "'w link" and os :: "'w runtime_os" and network :: "'w CNI option"
    and used :: "'w \<Rightarrow> int set"
  assumes start_fresh: "osStart os args netns w = (Inr pid, w') \<Longrightarrow> pid \<notin> used w \<and> pid \<in> used w'"
    and os_pipe: "extends used (osPipe os)"
    and os_start: "extends used (osStart os args netns)"
    and os_release: "extends used (osRelease os pid)"
    and os_terminate: "extends used (osTerminate os pid)"
    and os_executable: "extends used (osExecutable os)"
    and os_open: "extends used (osOpen os file)"
    and os_read: "extends used (osReadJSON os file)"
    and os_abs: "extends used (osAbs os file)"
    and os_temp: "extends used (osMkdirTemp os)"
    and os_kill: "used w \<subseteq> used (osKill os pid w)"
    and os_wait: "used w \<subseteq> used (osWait os pid w)"
    and os_remove: "used w \<subseteq> used (osRemoveAll os file w)"
    and os_exec: "used w \<subseteq> used (snd (osExec os args input w))"
    and cni_add: "network = Some cni \<Longrightarrow> extends used (cniAdd cni pod netns')"
    and cni_del: "network = Some cni \<Longrightarrow> extends used (cniDel cni pod netns')"
    and link_dial: "extends used (linkDial link)"
    and link_send: "extends used (linkSend link)"
    and link_receive: "extends used (linkReceive link)"
    and link_stream: "extends used (linkStream link)"

context runtime_host begin

lemmas host_extends = os_pipe os_start os_release os_terminate os_executable os_open os_read os_abs
  os_temp link_dial link_send link_receive

abbreviation used_by :: "Runtime \<times> 'w \<Rightarrow> int set" where "used_by s \<equiv> used (snd s)"

lemma killing_extends: "extends used m \<Longrightarrow> extends used (killing os pid m)"
  unfolding killing_def by (intro extends_intros os_kill)

lemma connect_extends: "extends used (connect_sandbox network pod path host)"
  unfolding connect_sandbox_def by (intro extends_intros cni_add)

lemma runPodSandbox_extends: "extends used_by (runPodSandbox os network pod source host)"
  unfolding runPodSandbox_def Let_def
  by (intro extends_intros killing_extends connect_extends host_extends)

lemma copyRootfs_extends: "extends used (copyRootfs os source)"
  unfolding copyRootfs_def
proof (intro extends_intros host_extends)
  fix target
  show "extends used (\<lambda>w. case osExec os [''cp'', ''-a'', source @ ''/.'', target] [] w of
         ((output, Some err), w1) \<Rightarrow>
           (Inl (WrapErrorDetail ''copy container rootfs'' err (strings_TrimSpace output)),
            osRemoveAll os target w1)
       | ((output, None), w1) \<Rightarrow> (Inr target, w1))"
    unfolding extends_def
    using os_exec os_remove by (auto split: prod.splits option.splits) (metis snd_conv subsetD)+
qed

lemma prepare_container_extends: "extends used_by (prepare_container os img command sandbox)"
  unfolding prepare_container_def readBundleConfig_def startContainerInSandbox_def Let_def
  by (intro extends_intros killing_extends copyRootfs_extends host_extends os_remove
     )

lemma runInSandbox_extends: "extends used_by (runInSandbox os pod img command sandbox)"
  unfolding runInSandbox_def Let_def
  by (intro extends_intros prepare_container_extends)

lemma waitForContainer_extends: "used w \<subseteq> used (snd (waitForContainer os pod ch (rt, w)))"
  using os_remove by (auto simp: waitForContainer_def Let_def split: option.splits)

lemma runtime_stop_extends: "extends used_by (runtime_stop os pod)"
  unfolding extends_def
proof
  fix s :: "Runtime \<times> 'w"
  obtain rt w where s: "s = (rt, w)" by fastforce
  show "used_by s \<subseteq> used_by (snd (runtime_stop os pod s))"
  proof (cases "fmlookup (containers rt) pod")
    case (Some m)
    show ?thesis
    proof (cases "mcProcess m")
      case pid: (Some pid)
      obtain r w1 where r: "osTerminate os pid w = (r, w1)" by fastforce
      have "used w \<subseteq> used w1" using extendsD [OF os_terminate r] .
      moreover have "used w1 \<subseteq> used (snd (waitForContainer os pod ch (rt, osWait os pid w1)))" for ch
        using os_wait waitForContainer_extends by blast
      ultimately show ?thesis using Some pid r s by (auto simp: runtime_stop_def split: sum.splits)
    qed (use Some s in \<open>simp add: runtime_stop_def\<close>)
  qed (use s in \<open>simp add: runtime_stop_def\<close>)
qed

lemma stop_all_extends: "used_by s \<subseteq> used_by (stop_all os pods s)"
proof (induction pods arbitrary: s)
  case (Cons pod pods)
  have "used_by s \<subseteq> used_by (snd (runtime_stop os pod s))"
    using runtime_stop_extends [of pod] unfolding extends_def by blast
  with Cons.IH [of "snd (runtime_stop os pod s)"] show ?case by auto
qed simp

lemma stopPodSandbox_extends: "extends used_by (stopPodSandbox os network sid)"
  unfolding extends_def
proof
  fix s :: "Runtime \<times> 'w"
  obtain rt w where s: "s = (rt, w)" by fastforce
  show "used_by s \<subseteq> used_by (snd (stopPodSandbox os network sid s))"
  proof (cases "fmlookup (sandboxes rt) sid")
    case None
    with s show ?thesis by (simp add: stopPodSandbox_def)
  next
    case (Some sandbox)
    obtain rt1 w1 where all: "stop_all os (map fst (filter (\<lambda>(_, m). mcSandboxID m = sid)
      (sorted_list_of_fmap (containers rt)))) (rt, w) = (rt1, w1)" by fastforce
    then have "used w \<subseteq> used w1" using stop_all_extends by (metis snd_conv)
    moreover have "used w1 \<subseteq> used (snd (cniDel cni pod path w1))" if "network = Some cni" for cni pod path
      using cni_del [OF that] by (simp add: extends_def)
    moreover have "used v \<subseteq> used (osKill os pid v)" for v pid by (rule os_kill)
    ultimately show ?thesis using Some all s
      by (cases network) (force simp: stopPodSandbox_def Let_def)+
  qed
qed

lemma handleRequest_extends: "extends used_by (handleRequest os network q)"
  unfolding handleRequest_def
  by (intro extends_intros runPodSandbox_extends runInSandbox_extends stopPodSandbox_extends
      runtime_stop_extends)

lemma runPodSandbox_new:
  assumes run: "runPodSandbox os network pod source host (rt, w) = (Inr s, (rt', w'))"
    and none: "running_sandbox rt pod source = None"
  shows "\<exists>pid. sandID s = ''sandbox-'' @ strconv_Itoa pid \<and> pid \<notin> used w \<and> pid \<in> used w'"
proof -
  let ?args = "[osArgs0 os, ''--sandbox-child'', ''--network-ready-fd'', ''3'']"
  obtain p w1 where pipe: "osPipe os w = (p, w1)" by fastforce
  obtain st w2 where start: "osStart os ?args (\<not> host) w1 = (st, w2)" by fastforce
  from run none pipe obtain u where p: "p = Inr u"
    by (cases p) (auto simp: runPodSandbox_def andThen_def get_memory_def on_world_def)
  from run none pipe p start obtain pid where st: "st = Inr pid"
    by (cases st) (auto simp: runPodSandbox_def andThen_def get_memory_def on_world_def)
  obtain c w3 where connect: "killing os pid (connect_sandbox network pod (netns_path pid) host) w2 = (c, w3)"
    by fastforce
  from run none pipe p start st connect obtain r where c: "c = Inr r"
    by (cases c) (auto simp: runPodSandbox_def andThen_def get_memory_def on_world_def)
  obtain d w4 where release: "killing os pid (osRelease os pid) w3 = (d, w4)" by fastforce
  from run none pipe p start st connect c release
  have "sandID s = ''sandbox-'' @ strconv_Itoa pid \<and> w' = w4"
    by (auto simp: runPodSandbox_def andThen_def get_memory_def on_world_def put_memory_def returning_def
        Let_def split: sum.splits)
  moreover have "used w \<subseteq> used w1" using extendsD [OF os_pipe pipe] .
  moreover have "pid \<notin> used w1 \<and> pid \<in> used w2" using start st by (auto dest: start_fresh)
  moreover have "used w2 \<subseteq> used w3"
    using extendsD [OF killing_extends [OF connect_extends] connect] .
  moreover have "used w3 \<subseteq> used w4"
    using extendsD [OF killing_extends [OF os_release] release] .
  ultimately show ?thesis by blast
qed

section \<open>Over the socket\<close>

definition issued_ids :: "'w \<Rightarrow> string set" where
  "issued_ids w = {''sandbox-'' @ strconv_Itoa pid | pid. pid \<in> used w}"

lemma issued_ids_mono: "used w \<subseteq> used w' \<Longrightarrow> issued_ids w \<subseteq> issued_ids w'"
  by (auto simp: issued_ids_def)

definition host_ok :: "(Runtime \<times> 'w) \<times> json \<Rightarrow> bool" where
  "host_ok s \<longleftrightarrow> rt_invar (fst (fst s)) \<and>
     (\<forall>i sb. rt_sbs (fst (fst s)) i = Some sb \<longrightarrow> i \<in> issued_ids (snd (fst s))) \<and>
     (\<forall>pod c. rt_conts (fst (fst s)) pod = Some c \<longrightarrow> contSandbox c \<in> issued_ids (snd (fst s)))"

lemma request_worlds:
  assumes "w1 = snd (linkSend link (snd (linkDial link w)))"
    and "handleRequest os network q (rt, w1) = (res, (rt', w2))"
    and "w' = snd (linkReceive link w2)"
  shows "used w \<subseteq> used w1" and "used w2 \<subseteq> used w'" and "used w \<subseteq> used w'"
proof -
  show 1: "used w \<subseteq> used w1" using link_dial link_send assms(1) unfolding extends_def by blast
  show 2: "used w2 \<subseteq> used w'" using link_receive assms(3) unfolding extends_def by blast
  have "used w1 \<subseteq> used w2" using extendsD [OF handleRequest_extends assms(2)] by simp
  with 1 2 show "used w \<subseteq> used w'" by blast
qed

lemma on_outside_extends: "extends used m \<Longrightarrow> extends (\<lambda>s. used (snd (fst s))) (on_outside m)"
  unfolding extends_def by (auto simp: on_outside_def split: prod.splits) (metis snd_conv subsetD)

lemma write_extends:
  "extends (\<lambda>s. used (snd (fst s))) (\<lambda>s. case handleConnection os network (Some j) (fst s) of
     (reply, st) \<Rightarrow> (Inr (), (st, reply)))"
  unfolding extends_def
proof
  fix s :: "(Runtime \<times> 'w) \<times> json"
  have request: "used (snd t) \<subseteq> used (snd (snd (handleRequest os network q t)))" for q t
    using handleRequest_extends [of q] unfolding extends_def by blast
  have "used (snd t) \<subseteq> used (snd (snd (handleConnection os network (Some j) t)))" for t
  proof (cases "dec_request j zero_request")
    case (Some q)
    obtain ans t' where handle: "handleRequest os network q t = (ans, t')" by (metis prod.collapse)
    with request [of t q] have "used (snd t) \<subseteq> used (snd t')" by simp
    with Some handle show ?thesis by (cases ans) (simp_all add: handleConnection_def)
  qed (simp add: handleConnection_def)
  then show "used (snd (fst s)) \<subseteq> used (snd (fst (snd (case handleConnection os network (Some j) (fst s) of
     (reply, st) \<Rightarrow> (Inr (), (st, reply))))))"
    by (simp add: case_prod_beta)
qed

lemma client_request_extends:
  "extends (\<lambda>s. used (snd (fst s))) (cri_client_request (runtime_socket link os network) q)"
proof -
  have "extends (\<lambda>s. used (snd (fst s))) (\<lambda>s. (Inr (snd s), s))" by (simp add: extends_def)
  then show ?thesis
    unfolding cri_client_request_def runtime_socket_def
    by simp (intro extends_intros on_outside_extends host_extends write_extends)
qed

lemma host_ok_after:
  assumes "host_ok ((rt, w), r)" and "rt_invar rt'" and "used w \<subseteq> used w'"
    and "\<And>i s. rt_sbs rt' i = Some s \<Longrightarrow> rt_sbs rt i \<noteq> None \<or> i \<in> issued_ids w'"
    and "\<And>pod c. rt_conts rt' pod = Some c \<Longrightarrow>
      (\<exists>c'. rt_conts rt pod = Some c' \<and> contSandbox c' = contSandbox c) \<or> contSandbox c \<in> issued_ids w'"
  shows "host_ok ((rt', w'), r')"
  using assms issued_ids_mono [OF assms(3)] unfolding host_ok_def by (fastforce simp: subset_iff)

lemma client_RunPodSandbox_new:
  assumes ok: "rt_invar rt" and run: "cri_client_RunPodSandbox (runtime_socket link os network) p source
      ((rt, w), r) = (ans, ((rt', w'), r'))"
    and i: "rt_sbs rt' i = Some s" "rt_sbs rt i \<noteq> Some s"
  shows "i \<notin> issued_ids w \<and> i \<in> issued_ids w'"
proof -
  let ?q = "norm_request (zero_request\<lparr>reqOperation := ''run-pod-sandbox'', reqPod := Name (podMeta p),
    reqSource := source, reqHostNetwork := HostNetwork (podSpec p)\<rparr>)"
  obtain res w1 w2 where handle: "handleRequest os network ?q (rt, w1) = (res, (rt', w2))"
    and w1: "w1 = snd (linkSend link (snd (linkDial link w)))" and w2: "w' = snd (linkReceive link w2)"
    by (rule client_call [OF run [unfolded cri_client_RunPodSandbox_def]]) (use i in auto)
  note worlds = request_worlds [OF w1 handle w2]
  obtain sb rt2 w3 where pod: "runPodSandbox os network (reqPod ?q) (reqSource ?q) (reqHostNetwork ?q) (rt, w1)
    = (sb, (rt2, w3))" by (metis prod.collapse)
  with handle have same: "rt2 = rt'" "w3 = w2"
    by (auto simp: handleRequest_def handle_simps split: sum.splits)
  from pod show ?thesis
  proof (cases rule: runPodSandbox_cases)
    case (started s' managed)
    with i same have "i = sandID s'" by (auto split: if_splits)
    with runPodSandbox_new [OF pod [unfolded started(2)] started(1)] same worlds show ?thesis
      by (auto simp: issued_ids_def Itoa_inject)
  qed (use i same in auto)
qed

lemma client_RunInSandbox_known:
  assumes ok: "rt_invar rt" and run: "cri_client_RunInSandbox (runtime_socket link os network) p sandbox
      ((rt, w), r) = (ans, ((rt', w'), r'))"
    and c: "rt_conts rt' pod = Some c" "rt_conts rt pod \<noteq> Some c"
  shows "\<exists>s. rt_sbs rt (contSandbox c) = Some s"
proof (cases "elems (Containers (podSpec p))")
  case Nil
  with run c show ?thesis by (auto simp: cri_client_RunInSandbox_def failing_def)
next
  case (Cons d ds)
  let ?q = "norm_request (zero_request\<lparr>reqOperation := ''run-in-sandbox'', reqPod := Name (podMeta p),
    reqImage := containerImage d, reqCommand := containerCommand d, reqSandboxID := sandbox\<rparr>)"
  obtain res w1 w2 where handle: "handleRequest os network ?q (rt, w1) = (res, (rt', w2))"
    by (rule client_call [OF run [unfolded cri_client_RunInSandbox_def Cons list.case]]) (use c in auto)
  obtain sb rt2 w3 where cont: "runInSandbox os (reqPod ?q) (reqImage ?q) (elems (reqCommand ?q))
      (reqSandboxID ?q) (rt, w1) = (sb, (rt2, w3))" by (metis prod.collapse)
  with handle have same: "rt2 = rt'" "w3 = w2"
    by (auto simp: handleRequest_def handle_simps split: sum.splits)
  from cont show ?thesis
  proof (cases rule: runInSandbox_cases)
    case (started c' pid rootfs)
    from register_container_ok [OF ok started(3)] c same
    have "c = c'" "contSandbox c' = sandbox" by (auto simp: container_started_def split: if_splits)
    with started(2) show ?thesis by (auto simp: rt_sbs_def)
  qed (use c same in auto)
qed

lemma client_extends:
  assumes "andThen (cri_client_request (runtime_socket link os network) q) (\<lambda>r. returning (f r)) s = (ans, s')"
  shows "used (snd (fst s)) \<subseteq> used (snd (fst s'))"
proof -
  have "extends (\<lambda>s. used (snd (fst s)))
      (andThen (cri_client_request (runtime_socket link os network) q) (\<lambda>r. returning (f r)))"
    by (intro extends_intros client_request_extends)
  from extendsD [OF this assms] show ?thesis .
qed

lemma calls_extend:
  "cri_client_List (runtime_socket link os network) s = (a1, s') \<Longrightarrow> used (snd (fst s)) \<subseteq> used (snd (fst s'))"
  "cri_client_ListSandboxes (runtime_socket link os network) s = (a2, s') \<Longrightarrow> used (snd (fst s)) \<subseteq> used (snd (fst s'))"
  "cri_client_RunPodSandbox (runtime_socket link os network) p source s = (a3, s') \<Longrightarrow>
    used (snd (fst s)) \<subseteq> used (snd (fst s'))"
  "cri_client_RunInSandbox (runtime_socket link os network) p i s = (a4, s') \<Longrightarrow>
    used (snd (fst s)) \<subseteq> used (snd (fst s'))"
  "cri_client_Stop (runtime_socket link os network) pod s = (a5, s') \<Longrightarrow> used (snd (fst s)) \<subseteq> used (snd (fst s'))"
  "cri_client_StopPodSandbox (runtime_socket link os network) i s = (a6, s') \<Longrightarrow>
    used (snd (fst s)) \<subseteq> used (snd (fst s'))"
  unfolding cri_client_List_def cri_client_ListSandboxes_def cri_client_RunPodSandbox_def
    cri_client_Stop_def cri_client_StopPodSandbox_def cri_client_RunInSandbox_def
  by (fact client_extends)+ (auto simp: failing_def split: list.splits dest: client_extends)

lemma host_okD: "host_ok ((rt, w), r) \<Longrightarrow> rt_invar rt"
  by (simp add: host_ok_def)

lemma host_ok_invar: "host_ok s \<Longrightarrow> behind rt_invar s"
  by (simp add: host_ok_def behind_def)

lemma List_host_ok:
  assumes "host_ok ((rt, w), r)"
  shows "cri_client_List (runtime_socket link os network) ((rt, w), r) = (ans, ((rt', w'), r')) \<Longrightarrow>
      host_ok ((rt', w'), r')"
    and "cri_client_ListSandboxes (runtime_socket link os network) ((rt, w), r) = (ans', ((rt', w'), r')) \<Longrightarrow>
      host_ok ((rt', w'), r')"
  using host_ok_after [OF assms, of rt' w'] client_List_ok [of link os network rt w r ans rt' w' r']
    client_ListSandboxes_ok [of link os network rt w r ans' rt' w' r'] calls_extend host_okD [OF assms]
  by fastforce+

lemma RunPodSandbox_host_ok:
  assumes ok: "host_ok ((rt, w), r)"
    and run: "cri_client_RunPodSandbox (runtime_socket link os network) p source ((rt, w), r) = (ans, ((rt', w'), r'))"
  shows "host_ok ((rt', w'), r')"
proof (rule host_ok_after [OF ok])
  note effect = client_RunPodSandbox_ok [OF host_okD [OF ok] run]
  show "rt_invar rt'" using effect by simp
  show "used w \<subseteq> used w'" using calls_extend(3) [OF run] by simp
  show "rt_sbs rt i \<noteq> None \<or> i \<in> issued_ids w'" if "rt_sbs rt' i = Some s" for i s
    using client_RunPodSandbox_new [OF host_okD [OF ok] run that] by auto
  show "(\<exists>c'. rt_conts rt pod = Some c' \<and> contSandbox c' = contSandbox c) \<or> contSandbox c \<in> issued_ids w'"
    if "rt_conts rt' pod = Some c" for pod c
    using that effect by simp
qed

lemma RunInSandbox_host_ok:
  assumes ok: "host_ok ((rt, w), r)"
    and run: "cri_client_RunInSandbox (runtime_socket link os network) p i ((rt, w), r) = (ans, ((rt', w'), r'))"
  shows "host_ok ((rt', w'), r')"
proof (rule host_ok_after [OF ok])
  note effect = client_RunInSandbox_ok [OF host_okD [OF ok] run]
  show "rt_invar rt'" using effect by simp
  show grown: "used w \<subseteq> used w'" using calls_extend(4) [OF run] by simp
  show "rt_sbs rt k \<noteq> None \<or> k \<in> issued_ids w'" if "rt_sbs rt' k = Some s" for k s
    using effect that by auto
  show "(\<exists>c'. rt_conts rt pod = Some c' \<and> contSandbox c' = contSandbox c) \<or> contSandbox c \<in> issued_ids w'"
    if c: "rt_conts rt' pod = Some c" for pod c
  proof (cases "rt_conts rt pod = Some c")
    case False
    from client_RunInSandbox_known [OF host_okD [OF ok] run c False] ok
    have "contSandbox c \<in> issued_ids w" by (auto simp: host_ok_def)
    with issued_ids_mono [OF grown] show ?thesis by blast
  qed simp
qed

lemma Stop_host_ok:
  assumes ok: "host_ok ((rt, w), r)"
    and run: "cri_client_Stop (runtime_socket link os network) pod ((rt, w), r) = (ans, ((rt', w'), r'))"
  shows "host_ok ((rt', w'), r')"
proof (rule host_ok_after [OF ok])
  note effect = client_Stop_ok [OF host_okD [OF ok] run]
  show "rt_invar rt'" using effect by simp
  show "used w \<subseteq> used w'" using calls_extend(5) [OF run] by simp
  show "rt_sbs rt k \<noteq> None \<or> k \<in> issued_ids w'" if "rt_sbs rt' k = Some s" for k s
    using effect that by auto
  have "rt_conts rt' = rt_conts rt \<or> container_stopped pod (rt_conts rt) (rt_conts rt')"
    using effect by (auto split: sum.splits)
  then show "(\<exists>c'. rt_conts rt q = Some c' \<and> contSandbox c' = contSandbox c) \<or> contSandbox c \<in> issued_ids w'"
    if "rt_conts rt' q = Some c" for q c
    using that by (auto simp: container_stopped_def split: if_splits)
qed

lemma StopPodSandbox_host_ok:
  assumes ok: "host_ok ((rt, w), r)"
    and run: "cri_client_StopPodSandbox (runtime_socket link os network) i ((rt, w), r) = (ans, ((rt', w'), r'))"
  shows "host_ok ((rt', w'), r')"
proof (rule host_ok_after [OF ok])
  note effect = client_StopPodSandbox_ok [OF host_okD [OF ok] run]
  show "rt_invar rt'" using effect by simp
  show "used w \<subseteq> used w'" using calls_extend(6) [OF run] by simp
  show "rt_sbs rt k \<noteq> None \<or> k \<in> issued_ids w'" if "rt_sbs rt' k = Some s" for k s
    using effect that by (auto split: if_splits)
  have "rt_conts rt' q = rt_conts rt q \<or> (\<exists>c. rt_conts rt q = Some c \<and> 
      rt_conts rt' q = Some (c\<lparr>contState := cri_Stopped\<rparr>))" for q
    using effect by (auto simp: containers_of_stopped_def)
  then show "(\<exists>c'. rt_conts rt q = Some c' \<and> contSandbox c' = contSandbox c) \<or> contSandbox c \<in> issued_ids w'"
    if "rt_conts rt' q = Some c" for q c
    using that by (metis option.inject cri_Container.select_convs(3) cri_Container.surjective cri_Container.update_convs(4))
qed

lemma on_outside_host_ok:
  assumes "extends used m"
  shows "keeps host_ok (\<lambda>s. (behind rt_conts s, behind rt_sbs s)) (on_outside m)"
  unfolding keeps_def
proof (intro allI impI)
  fix s r s' assume s: "host_ok s" "on_outside m s = (r, s')"
  obtain rt w reply where [simp]: "s = ((rt, w), reply)" by (metis prod.collapse)
  from s have s': "s' = ((rt, snd (m w)), reply)" by (simp add: on_outside_eq)
  have "used w \<subseteq> used (snd (m w))" using assms by (simp add: extends_def)
  from host_ok_after [OF s(1) [simplified] host_okD [OF s(1) [simplified]] this] s'
  show "host_ok s' \<and> (behind rt_conts s', behind rt_sbs s') = (behind rt_conts s, behind rt_sbs s)" by auto
qed

lemma client_Watch_host_ok:
  "keeps host_ok (\<lambda>s. (behind rt_conts s, behind rt_sbs s)) (cri_client_Watch (runtime_socket link os network))"
proof (intro client_Watch_keeps on_outside_host_ok link_dial link_send link_receive link_stream conjI)
  fix rt w reply reply' assume ok: "host_ok ((rt, w), reply)"
  show "host_ok ((snd (add_watcher rt), w), reply')"
    by (rule host_ok_after [OF ok add_watcher_invar [OF host_okD [OF ok]]]) auto
qed simp

end

sublocale runtime_host \<subseteq> host: cri_runtime_ids "cri_client (runtime_socket link os network)"
  "behind rt_conts" "behind rt_sbs" host_ok "\<lambda>s. issued_ids (snd (fst s))"
proof (unfold_locales, goal_cases)
  case (1 s pod c)
  from socket_runtime.cont_named [OF host_ok_invar [OF 1(1)] 1(2)] show ?case .
next
  case (2 s i sb)
  from socket_runtime.sandbox_named [OF host_ok_invar [OF 2(1)] 2(2)] show ?case .
next
  case (3 s i sb j t)
  from socket_runtime.sandbox_unique [OF host_ok_invar [OF 3(1)] 3(2-5)] show ?case .
next
  case (4 s ans s')
  from socket_runtime.list_ok [OF host_ok_invar [OF 4(1)] 4(2)] List_host_ok(1) 4 show ?case
    by (cases s; cases s') (auto simp: cri_client_def)
next
  case (5 s ans s')
  from socket_runtime.sandboxes_ok [OF host_ok_invar [OF 5(1)] 5(2)] List_host_ok(2) 5 show ?case
    by (cases s; cases s') (auto simp: cri_client_def)
next
  case (6 s p source sb s')
  from socket_runtime.run_sandbox_ok [OF host_ok_invar [OF 6(1)] 6(2)] RunPodSandbox_host_ok 6 show ?case
    by (cases s; cases s') (auto simp: cri_client_def)
next
  case (7 s p source e s')
  from socket_runtime.run_sandbox_error [OF host_ok_invar [OF 7(1)] 7(2)] RunPodSandbox_host_ok 7 show ?case
    by (cases s; cases s') (auto simp: cri_client_def)
next
  case (8 s p sandbox c s')
  from socket_runtime.run_container_ok [OF host_ok_invar [OF 8(1)] 8(2)] RunInSandbox_host_ok 8 show ?case
    by (cases s; cases s') (auto simp: cri_client_def)
next
  case (9 s p sandbox e s')
  from socket_runtime.run_container_error [OF host_ok_invar [OF 9(1)] 9(2)] RunInSandbox_host_ok 9 show ?case
    by (cases s; cases s') (auto simp: cri_client_def)
next
  case (10 s pod s')
  from socket_runtime.stop_ok [OF host_ok_invar [OF 10(1)] 10(2)] Stop_host_ok 10 show ?case
    by (cases s; cases s') (auto simp: cri_client_def)
next
  case (11 s pod e s')
  from socket_runtime.stop_error [OF host_ok_invar [OF 11(1)] 11(2)] Stop_host_ok 11 show ?case
    by (cases s; cases s') (auto simp: cri_client_def)
next
  case (12 s i s')
  from socket_runtime.stop_sandbox_ok [OF host_ok_invar [OF 12(1)] 12(2)] StopPodSandbox_host_ok 12 show ?case
    by (cases s; cases s') (auto simp: cri_client_def)
next
  case (13 s i e s')
  from socket_runtime.stop_sandbox_error [OF host_ok_invar [OF 13(1)] 13(2)] StopPodSandbox_host_ok 13 show ?case
    by (cases s; cases s') (auto simp: cri_client_def)
next
  case (14 s events s')
  then show ?case using keepsD [OF client_Watch_host_ok] by (fastforce simp: cri_client_def)
next
  case (15 s i sb)
  then show ?case by (cases s) (auto simp: host_ok_def)
next
  case (16 s pod c)
  then show ?case by (cases s) (auto simp: host_ok_def)
next
  case (17 s p source ans s' i sb)
  then show ?case
    using client_RunPodSandbox_new [OF host_okD]
    by (cases s; cases s') (auto simp: cri_client_def)
next
  case (18 s)
  then show ?case using calls_extend(1) [of s] issued_ids_mono by (simp add: cri_client_def) (metis prod.collapse)
next
  case (19 s)
  then show ?case using calls_extend(2) [of s] issued_ids_mono by (simp add: cri_client_def) (metis prod.collapse)
next
  case (20 s p source)
  then show ?case using calls_extend(3) [of p source s] issued_ids_mono by (simp add: cri_client_def) (metis prod.collapse)
next
  case (21 s p i)
  then show ?case using calls_extend(4) [of p i s] issued_ids_mono by (simp add: cri_client_def) (metis prod.collapse)
next
  case (22 s pod)
  then show ?case using calls_extend(5) [of pod s] issued_ids_mono by (simp add: cri_client_def) (metis prod.collapse)
next
  case (23 s i)
  then show ?case using calls_extend(6) [of i s] issued_ids_mono by (simp add: cri_client_def) (metis prod.collapse)
qed

context runtime_host begin

lemma host_contract:
  "cri_runtime_ids (cri_client (runtime_socket link os network)) (behind rt_conts) (behind rt_sbs) host_ok
    (\<lambda>s. issued_ids (snd (fst s)))"
  by (rule host.cri_runtime_ids_axioms)

end

text \<open>A host that counts its processes.\<close>

interpretation plain_host: runtime_host perfect_link plain_os None "\<lambda>w. {0..<int w}"
  by unfold_locales (auto simp: plain_os_def perfect_link_def returning_def extends_def)

end
