(* ===== verification/Kubelet.thy ===== *)
theory Kubelet
  imports RuntimeHost ReconcileLoop ExampleCluster
begin

text \<open>
  The kubelet of \<^verbatim>\<open>kubelet/kubelet.go\<close>, \<^verbatim>\<open>static_pods.go\<close> and \<^verbatim>\<open>mirror_pods.go\<close>: it runs the
  Pods assigned to its node and the static Pods of a manifest directory through the container
  runtime, keeps the status of the Pods and the mirrors of the static Pods in the API server, and
  registers its node.

  Its world has two parts: that of the API server and that of the node, with the runtime and the
  files. The order in which Go visits a map is an argument, \<open>order\<close>.
\<close>

section \<open>The two worlds\<close>

definition on_api :: "('a, 'x) operation \<Rightarrow> ('a \<times> 'b, 'x) operation" where
  "on_api m = (\<lambda>(a, b). case m a of (ans, a') \<Rightarrow> (ans, (a', b)))"

lemma on_api_eq: "on_api m (a, b) = (fst (m a), (snd (m a), b))"
  by (simp add: on_api_def split: prod.splits)

section \<open>Static Pods\<close>

text \<open>
  The manifest directory, and the YAML decoder of \<^verbatim>\<open>gopkg.in/yaml.v3\<close>, which gives the
  results of decoding the documents of a text one after the other.
\<close>

record 'b manifests =
  manifestReadDir :: "string \<Rightarrow> ('b, (string \<times> bool) list) operation"
  manifestReadFile :: "string \<Rightarrow> ('b, string) operation"
  yamlDecode :: "string \<Rightarrow> Pod result list"

definition filepath_Ext :: "string \<Rightarrow> string" where
  "filepath_Ext path =
     (let base = takeWhile (\<lambda>c. c \<noteq> CHR ''/'') (rev path)
      in if CHR ''.'' \<in> set base then CHR ''.'' # rev (takeWhile (\<lambda>c. c \<noteq> CHR ''.'') base) else [])"

definition isManifest :: "string \<Rightarrow> bool" where
  "isManifest name =
     (let extension = filepath_Ext name
      in extension = ''.yaml'' \<or> extension = ''.yml'' \<or> extension = ''.json'')"

text \<open>The documents of one file; a Pod without a name ends the file.\<close>

fun read_documents :: "string \<Rightarrow> Pod result list \<Rightarrow> Pod list result" where
  "read_documents name [] = Inr []"
| "read_documents name (Inl err # documents) = Inl (WrapError (''decode static Pod '' @ name) err)"
| "read_documents name (Inr pod # documents) =
     (if Name (podMeta pod) = [] then Inr []
      else if Kind (podTypeMeta pod) \<noteq> ''Pod''
      then Inl (NewError (''static manifest '' @ name @ '' is not a Pod''))
      else if elems (Containers (podSpec pod)) = []
      then Inl (NewError (''static Pod '' @ Name (podMeta pod) @ '' has no container''))
      else (case read_documents name documents of Inl e \<Rightarrow> Inl e | Inr pods \<Rightarrow> Inr (pod # pods)))"

fun read_manifests :: "'b manifests \<Rightarrow> string \<Rightarrow> string list \<Rightarrow> ('b, Pod list) operation" where
  "read_manifests files directory [] = returning []"
| "read_manifests files directory (name # names) =
     andThen (wrapping (''read static Pod '' @ name)
       (manifestReadFile files (filepath_Join [directory, name]))) (\<lambda>data.
     case read_documents name (yamlDecode files data) of
       Inl e \<Rightarrow> failing e
     | Inr pods \<Rightarrow> andThen (read_manifests files directory names) (\<lambda>rest. returning (pods @ rest)))"

definition manifest_names :: "(string \<times> bool) list \<Rightarrow> string list" where
  "manifest_names entries = sort (map fst (filter (\<lambda>(name, dir). \<not> dir \<and> isManifest name) entries))"

definition LoadStaticPods :: "'b manifests \<Rightarrow> string \<Rightarrow> ('b, Pod list) operation" where
  "LoadStaticPods files directory =
     andThen (wrapping ''read static Pod directory'' (manifestReadDir files directory)) (\<lambda>entries.
       read_manifests files directory (manifest_names entries))"

definition staticSandboxForPod :: "cri_Sandbox list \<Rightarrow> string \<Rightarrow> cri_Sandbox option" where
  "staticSandboxForPod sbs podName = find (\<lambda>s. sandPod s = podName \<and> sandSource s = StaticPod) sbs"

definition containerForSandbox :: "cri_Container list \<Rightarrow> string \<Rightarrow> cri_Container option" where
  "containerForSandbox cs sandboxID = find (\<lambda>c. contSandbox c = sandboxID) cs"

text \<open>The two loops of \<open>ReconcileStaticPods\<close>; the first answers the list of sandboxes it extended.\<close>

definition static_sandbox :: "'b CRI \<Rightarrow> cri_Sandbox list \<Rightarrow> Pod \<Rightarrow> ('b, cri_Sandbox \<times> cri_Sandbox list) operation" where
  "static_sandbox runtime sbs pod =
     (case staticSandboxForPod sbs (Name (podMeta pod)) of
        Some sandbox \<Rightarrow> returning (sandbox, sbs)
      | None \<Rightarrow>
          andThen (wrapping (''start static Pod sandbox '' @ Name (podMeta pod))
            (criRunPodSandbox runtime pod StaticPod)) (\<lambda>sandbox. returning (sandbox, sbs @ [sandbox])))"

definition is_running :: "cri_Container option \<Rightarrow> bool" where
  "is_running found = (case found of None \<Rightarrow> False | Some c \<Rightarrow> contState c = cri_Running)"

definition static_container :: "'b CRI \<Rightarrow> cri_Container list \<Rightarrow> Pod \<Rightarrow> cri_Sandbox \<Rightarrow> ('b, unit) operation" where
  "static_container runtime cs pod sandbox =
     (if is_running (containerForSandbox cs (sandID sandbox)) then returning ()
      else andThen (wrapping (''start static Pod '' @ Name (podMeta pod))
             (criRunInSandbox runtime pod (sandID sandbox))) (\<lambda>_. returning ()))"

fun start_static :: "'b CRI \<Rightarrow> cri_Container list \<Rightarrow> Pod list \<Rightarrow> cri_Sandbox list \<Rightarrow> ('b, cri_Sandbox list) operation" where
  "start_static runtime cs [] sbs = returning sbs"
| "start_static runtime cs (pod # pods) sbs =
     andThen (static_sandbox runtime sbs pod) (\<lambda>(sandbox, sbs').
     andThen (static_container runtime cs pod sandbox) (\<lambda>_.
     start_static runtime cs pods sbs'))"

fun stop_removed :: "'b CRI \<Rightarrow> string list \<Rightarrow> cri_Sandbox list \<Rightarrow> ('b, unit) operation" where
  "stop_removed runtime desired [] = returning ()"
| "stop_removed runtime desired (sandbox # sbs) =
     (if sandSource sandbox \<noteq> StaticPod \<or> sandState sandbox \<noteq> cri_Running \<or> sandPod sandbox \<in> set desired
      then stop_removed runtime desired sbs
      else andThen (wrapping (''stop removed static Pod '' @ sandPod sandbox)
             (criStopPodSandbox runtime (sandID sandbox))) (\<lambda>_. stop_removed runtime desired sbs))"

definition ReconcileStaticPods :: "'b CRI \<Rightarrow> Pod list \<Rightarrow> ('b, unit) operation" where
  "ReconcileStaticPods runtime pods =
     andThen (criList runtime) (\<lambda>cs.
     andThen (criListSandboxes runtime) (\<lambda>sbs.
     andThen (start_static runtime cs pods sbs) (\<lambda>sbs'.
     stop_removed runtime (map (\<lambda>p. Name (podMeta p)) pods) sbs')))"

section \<open>Mirror Pods\<close>

definition mirrorAnnotation :: string where "mirrorAnnotation = ''kubernetes.io/config.mirror''"
definition sourceAnnotation :: string where "sourceAnnotation = ''kubernetes.io/config.source''"

definition copyAnnotations :: "string_map \<Rightarrow> (string, string) fmap" where
  "copyAnnotations annotations = (case annotations of None \<Rightarrow> fmempty | Some m \<Rightarrow> m)"

definition mirrorPod :: "Pod \<Rightarrow> string \<Rightarrow> Pod" where
  "mirrorPod staticPod node =
     staticPod
       \<lparr>podMeta := (podMeta staticPod)
          \<lparr>Name := Name (podMeta staticPod) @ ''-'' @ node,
           Annotations := Some (fmupd sourceAnnotation ''file''
             (fmupd mirrorAnnotation (Name (podMeta staticPod)) (copyAnnotations (Annotations (podMeta staticPod)))))\<rparr>,
        podSpec := (podSpec staticPod)\<lparr>NodeName := node\<rparr>,
        podStatus := zero_PodStatus\<rparr>"

definition isMirrorPod :: "Pod \<Rightarrow> bool" where
  "isMirrorPod pod = map_has_key (Annotations (podMeta pod)) mirrorAnnotation"

text \<open>The map of the Pods by name that the code builds: a later Pod replaces an earlier one.\<close>

definition pods_by_name :: "Pod list \<Rightarrow> (string, Pod) fmap" where
  "pods_by_name pods = fold (\<lambda>pod. fmupd (Name (podMeta pod)) pod) pods fmempty"

text \<open>The values of a map in the order of its visit.\<close>

definition map_values :: "(Pod list \<Rightarrow> Pod list) \<Rightarrow> (string, Pod) fmap \<Rightarrow> Pod list" where
  "map_values order m = order (map snd (sorted_list_of_fmap m))"

fun apply_mirrors ::
    "'a Client \<Rightarrow> string \<Rightarrow> (string, Pod) fmap \<Rightarrow> Pod list \<Rightarrow> ('a, unit) operation" where
  "apply_mirrors client node current [] = returning ()"
| "apply_mirrors client node current (staticPod # staticPods) =
     (let mirror = mirrorPod staticPod node in
      case fmlookup current (Name (podMeta mirror)) of
        None \<Rightarrow>
          andThen (wrapping (''create mirror Pod '' @ Name (podMeta mirror))
            (ResourceClient_Create client Pods mirror)) (\<lambda>_. apply_mirrors client node current staticPods)
      | Some existing \<Rightarrow>
          if podSpec existing = podSpec mirror \<and>
             Annotations (podMeta existing) = Annotations (podMeta mirror)
          then apply_mirrors client node current staticPods
          else andThen (wrapping (''update mirror Pod '' @ Name (podMeta mirror))
                 (ResourceClient_Update client Pods (Name (podMeta existing))
                   (mirror\<lparr>podMeta := (podMeta mirror)
                     \<lparr>ResourceVersion := ResourceVersion (podMeta existing)\<rparr>\<rparr>)))
                 (\<lambda>_. apply_mirrors client node current staticPods))"

fun delete_mirrors :: "'a Client \<Rightarrow> string list \<Rightarrow> Pod list \<Rightarrow> ('a, unit) operation" where
  "delete_mirrors client desired [] = returning ()"
| "delete_mirrors client desired (pod # pods) =
     (if Name (podMeta pod) \<in> set desired then delete_mirrors client desired pods
      else (\<lambda>w. case ResourceClient_Delete client Pods (Name (podMeta pod)) (ResourceVersion (podMeta pod)) w of
          (Inl err, w') \<Rightarrow>
            if \<not> IsNotFound err
            then (Inl (WrapError (''delete mirror Pod '' @ Name (podMeta pod)) err), w')
            else delete_mirrors client desired pods w'
        | (Inr _, w') \<Rightarrow> delete_mirrors client desired pods w'))"

definition reconcileMirrorPods ::
    "(Pod list \<Rightarrow> Pod list) \<Rightarrow> 'a Client \<Rightarrow> string \<Rightarrow> Pod list \<Rightarrow> ('a, unit) operation" where
  "reconcileMirrorPods order client node staticPods =
     andThen (wrapping ''list mirror Pods'' (ResourceClient_List client Pods)) (\<lambda>pods.
     let current = pods_by_name (filter isMirrorPod (elems (Items pods))) in
     andThen (apply_mirrors client node current staticPods) (\<lambda>_.
     delete_mirrors client (map (\<lambda>p. Name (podMeta (mirrorPod p node))) staticPods)
       (map_values order current)))"

section \<open>The kubelet\<close>

record ('a, 'b) Kubelet =
  apiClient :: "'a Client option"
  runtime :: "'b CRI"
  nodeName :: string
  manifestDir :: string
  podCIDR :: string
  register :: bool

definition NewKubelet :: "'a Client option \<Rightarrow> 'b CRI \<Rightarrow> string \<Rightarrow> ('a, 'b) Kubelet" where
  "NewKubelet client rt node = \<lparr>apiClient = client, runtime = rt, nodeName = node,
     manifestDir = [], podCIDR = [], register = True\<rparr>"

definition NewWithManifestDir :: "'a Client option \<Rightarrow> 'b CRI \<Rightarrow> string \<Rightarrow> string \<Rightarrow> ('a, 'b) Kubelet" where
  "NewWithManifestDir client rt node dir = (NewKubelet client rt node)\<lparr>manifestDir := dir\<rparr>"

definition NewWithManifestDirAndPodCIDR ::
    "'a Client option \<Rightarrow> 'b CRI \<Rightarrow> string \<Rightarrow> string \<Rightarrow> string \<Rightarrow> ('a, 'b) Kubelet" where
  "NewWithManifestDirAndPodCIDR client rt node dir cidr =
     (NewWithManifestDir client rt node dir)\<lparr>podCIDR := cidr\<rparr>"

definition SetRegisterNode :: "bool \<Rightarrow> ('a, 'b) Kubelet \<Rightarrow> ('a, 'b) Kubelet" where
  "SetRegisterNode r kubelet = kubelet\<lparr>register := r\<rparr>"

definition assignedPods :: "Pod list \<Rightarrow> string \<Rightarrow> (string, Pod) fmap" where
  "assignedPods pods node =
     pods_by_name (filter (\<lambda>pod. NodeName (podSpec pod) = node \<and> \<not> isMirrorPod pod) pods)"

definition containersByPod :: "cri_Container list \<Rightarrow> (string, cri_Container) fmap" where
  "containersByPod cs = fold (\<lambda>c. fmupd (contPod c) c) cs fmempty"

definition runPod :: "'b CRI \<Rightarrow> Pod \<Rightarrow> ('b, cri_Sandbox) operation" where
  "runPod rt pod =
     andThen (criRunPodSandbox rt pod Workload) (\<lambda>sandbox.
     andThen (criRunInSandbox rt pod (sandID sandbox)) (\<lambda>_. returning sandbox))"

definition updateStatus :: "'a Client \<Rightarrow> Pod \<Rightarrow> PodPhase \<Rightarrow> ('a, unit) operation" where
  "updateStatus client pod newPhase =
     andThen (ResourceClient_Update client Pods (Name (podMeta pod))
       (pod\<lparr>podStatus := (podStatus pod)\<lparr>podPhase := newPhase\<rparr>\<rparr>)) (\<lambda>_. returning ())"

text \<open>The two loops of \<open>Reconcile\<close>.\<close>

fun run_desired ::
    "'a Client \<Rightarrow> 'b CRI \<Rightarrow> (string, cri_Container) fmap \<Rightarrow> Pod list \<Rightarrow> ('a \<times> 'b, unit) operation" where
  "run_desired client rt current [] = returning ()"
| "run_desired client rt current (pod # pods) =
     (if \<not> is_running (fmlookup current (Name (podMeta pod)))
      then andThen (on_world (runPod rt pod)) (\<lambda>sandbox.
           andThen (on_api (updateStatus client
             (pod\<lparr>podStatus := (podStatus pod)\<lparr>PodIP := sandIP sandbox\<rparr>\<rparr>) PodRunning)) (\<lambda>_.
           run_desired client rt current pods))
      else if podPhase (podStatus pod) \<noteq> PodRunning
      then andThen (on_api (updateStatus client pod PodRunning)) (\<lambda>_. run_desired client rt current pods)
      else run_desired client rt current pods)"

fun stop_undesired ::
    "'b CRI \<Rightarrow> string set \<Rightarrow> (string, Pod) fmap \<Rightarrow> cri_Container list \<Rightarrow> ('b, unit) operation" where
  "stop_undesired rt static desired [] = returning ()"
| "stop_undesired rt static desired (container # cs) =
     (if contSandbox container \<in> static then stop_undesired rt static desired cs
      else if fmlookup desired (contPod container) = None \<and> contState container = cri_Running
      then andThen (criStop rt (contPod container)) (\<lambda>_.
           andThen (if contSandbox container \<noteq> [] then criStopPodSandbox rt (contSandbox container)
                    else returning ()) (\<lambda>_.
           stop_undesired rt static desired cs))
      else stop_undesired rt static desired cs)"

definition reconcile_workloads ::
    "(Pod list \<Rightarrow> Pod list) \<Rightarrow> 'a Client \<Rightarrow> 'b CRI \<Rightarrow> string \<Rightarrow> ('a \<times> 'b, unit) operation" where
  "reconcile_workloads order client rt node =
     andThen (on_api (ResourceClient_List client Pods)) (\<lambda>pods.
     andThen (on_world (criList rt)) (\<lambda>cs.
     andThen (on_world (criListSandboxes rt)) (\<lambda>sbs.
     let staticSandboxIDs = sandID ` set (filter (\<lambda>s. sandSource s = StaticPod) sbs);
         desiredPods = assignedPods (elems (Items pods)) node in
     andThen (run_desired client rt (containersByPod cs) (map_values order desiredPods)) (\<lambda>_.
     on_world (stop_undesired rt staticSandboxIDs desiredPods cs)))))"

definition reconcileStaticPods :: "'b manifests \<Rightarrow> ('a, 'b) Kubelet \<Rightarrow> ('b, Pod list) operation" where
  "reconcileStaticPods files kubelet =
     andThen (LoadStaticPods files (manifestDir kubelet)) (\<lambda>pods.
     andThen (ReconcileStaticPods (runtime kubelet) pods) (\<lambda>_. returning pods))"

definition Kubelet_Reconcile ::
    "(Pod list \<Rightarrow> Pod list) \<Rightarrow> 'b manifests \<Rightarrow> ('a, 'b) Kubelet \<Rightarrow> ('a \<times> 'b, unit) operation" where
  "Kubelet_Reconcile order files kubelet =
     andThen
       (if manifestDir kubelet \<noteq> [] then
          andThen (on_world (reconcileStaticPods files kubelet)) (\<lambda>pods.
          case apiClient kubelet of
            None \<Rightarrow> returning ()
          | Some client \<Rightarrow> on_api (reconcileMirrorPods order client (nodeName kubelet) pods))
        else returning ()) (\<lambda>_.
     case apiClient kubelet of
       None \<Rightarrow> returning ()
     | Some client \<Rightarrow> reconcile_workloads order client (runtime kubelet) (nodeName kubelet))"

section \<open>Registration\<close>

definition node_to_register :: "string \<Rightarrow> string \<Rightarrow> Node" where
  "node_to_register name cidr = zero_Node
     \<lparr>nodeTypeMeta := \<lparr>APIVersion = APIVersionV1, Kind = ''Node''\<rparr>,
      nodeMeta := zero_ObjectMeta\<lparr>Name := name\<rparr>, nodeSpec := \<lparr>PodCIDR = cidr\<rparr>,
      nodeStatus := \<lparr>nodePhase = NodeReady\<rparr>\<rparr>"

text \<open>One round of the loop: whether the node is registered, and the node with its version.\<close>

definition register_attempt :: "'a Client \<Rightarrow> Node \<Rightarrow> 'a \<Rightarrow> (bool \<times> Node) \<times> 'a" where
  "register_attempt client node a =
     (case ResourceClient_Get client Nodes (Name (nodeMeta node)) a of
        (Inr current, a1) \<Rightarrow>
          let node' = node\<lparr>nodeMeta := (nodeMeta node)
                \<lparr>ResourceVersion := ResourceVersion (nodeMeta current)\<rparr>\<rparr>
          in (case ResourceClient_Update client Nodes (Name (nodeMeta node)) node' a1 of
                (Inr _, a2) \<Rightarrow> ((True, node'), a2)
              | (Inl _, a2) \<Rightarrow> ((False, node'), a2))
      | (Inl _, a1) \<Rightarrow>
          (case ResourceClient_Create client Nodes node a1 of
             (Inr _, a2) \<Rightarrow> ((True, node), a2)
           | (Inl _, a2) \<Rightarrow> ((False, node), a2)))"

text \<open>
  After a round that failed the loop waits: \<open>None\<close> in \<open>waits\<close> is the timer, \<open>Some e\<close> the context
  with its error. The answer is \<open>None\<close> while the loop goes on.
\<close>

fun register_loop ::
    "'a Client \<Rightarrow> Node \<Rightarrow> goerror option list \<Rightarrow> 'a \<Rightarrow> unit result option \<times> 'a" where
  "register_loop client node waits a =
     (case register_attempt client node a of
        ((True, _), a') \<Rightarrow> (Some (Inr ()), a')
      | ((False, node'), a') \<Rightarrow>
          (case waits of
             [] \<Rightarrow> (None, a')
           | Some e # _ \<Rightarrow> (Some (Inl e), a')
           | None # waits' \<Rightarrow> register_loop client node' waits' a'))"

definition registerNode ::
    "('a, 'b) Kubelet \<Rightarrow> goerror option list \<Rightarrow> 'a \<Rightarrow> unit result option \<times> 'a" where
  "registerNode kubelet waits a =
     (if \<not> register kubelet \<or> apiClient kubelet = None \<or> podCIDR kubelet = []
      then (Some (Inr ()), a)
      else register_loop (the (apiClient kubelet))
             (node_to_register (nodeName kubelet) (podCIDR kubelet)) waits a)"

section \<open>Watches\<close>

text \<open>
  A watch is the list of messages of its channel. \<open>changeErrors\<close> answers to a change and to the
  end of its channel alike, \<open>criEventErrors\<close> only to an event. The inotify watch of
  \<^verbatim>\<open>WatchStaticPods\<close> is an argument.
\<close>

definition changeErrors :: "unit list \<Rightarrow> goerror option list" where
  "changeErrors changes = [None]"

definition criEventErrors :: "cri_Event list \<Rightarrow> goerror option list" where
  "criEventErrors events = (case events of [] \<Rightarrow> [] | _ # _ \<Rightarrow> [None])"

definition watchPods :: "'a Client \<Rightarrow> ('a, goerror option list) operation" where
  "watchPods client =
     andThen (ResourceClient_List client Pods) (\<lambda>pods.
     andThen (ResourceClient_Watch client Pods (listVersion pods)) (\<lambda>events.
     returning (WatchErrors events)))"

definition watchManifests :: "(string \<Rightarrow> ('b, unit list) operation) \<Rightarrow> string \<Rightarrow> ('b, goerror option list) operation" where
  "watchManifests watchDirectory dir =
     andThen (watchDirectory dir) (\<lambda>changes. returning (changeErrors changes))"

definition watchRuntime :: "'b CRI \<Rightarrow> ('b, goerror option list) operation" where
  "watchRuntime rt = andThen (criWatch rt) (\<lambda>events. returning (criEventErrors events))"

definition Kubelet_watch ::
    "(string \<Rightarrow> ('b, unit list) operation) \<Rightarrow> ('a, 'b) Kubelet \<Rightarrow> ('a \<times> 'b, goerror option list) operation" where
  "Kubelet_watch watchDirectory kubelet =
     (case apiClient kubelet of
        None \<Rightarrow> CombineWatches [on_world (watchManifests watchDirectory (manifestDir kubelet)),
          on_world (watchRuntime (runtime kubelet))]
      | Some client \<Rightarrow> CombineWatches [on_api (watchPods client), on_world (watchRuntime (runtime kubelet))])"

text \<open>What \<open>Run\<close> does before it enters the loop of \<open>ReconcileLoop\<close>; \<open>None\<close> while it registers.\<close>

definition Kubelet_start ::
    "'b manifests \<Rightarrow> ('a, 'b) Kubelet \<Rightarrow> goerror option list \<Rightarrow> 'a \<times> 'b \<Rightarrow> unit result option \<times> ('a \<times> 'b)" where
  "Kubelet_start files kubelet waits = (\<lambda>(a, b).
     case registerNode kubelet waits a of
       (None, a') \<Rightarrow> (None, (a', b))
     | (Some (Inl e), a') \<Rightarrow> (Some (Inl e), (a', b))
     | (Some (Inr _), a') \<Rightarrow>
         if manifestDir kubelet \<noteq> []
         then (case reconcileStaticPods files kubelet b of
               (Inl e, b') \<Rightarrow> (Some (Inl e), (a', b'))
             | (Inr _, b') \<Rightarrow> (Some (Inr ()), (a', b')))
         else (Some (Inr ()), (a', b)))"

end
