(* ===== verification/StaticPods.thy ===== *)
theory StaticPods
  imports Kubelet
begin

text \<open>
  What reconciling the static Pods does to the runtime: every Pod of the manifests is served by a
  Running container in a static sandbox of its own, static sandboxes of other Pods are gone, and
  nothing else is touched. The proofs rest on the contract of the runtime with identifiers,
  \<open>cri_runtime_ids\<close>.
\<close>

section \<open>Specification\<close>

text \<open>A container in a known sandbox belongs to the Pod of that sandbox.\<close>

definition placed :: "(string \<rightharpoonup> cri_Container) \<Rightarrow> (string \<rightharpoonup> cri_Sandbox) \<Rightarrow> bool" where
  "placed m s \<longleftrightarrow> (\<forall>q c x. m q = Some c \<longrightarrow> s (contSandbox c) = Some x \<longrightarrow> sandPod x = q)"

definition served :: "(string \<rightharpoonup> cri_Container) \<Rightarrow> (string \<rightharpoonup> cri_Sandbox) \<Rightarrow> string \<Rightarrow> bool" where
  "served m s q \<longleftrightarrow> (\<exists>c x. m q = Some c \<and> contState c = cri_Running \<and> s (contSandbox c) = Some x \<and>
     sandPod x = q \<and> sandSource x = StaticPod)"

text \<open>
  The change from one state of the runtime to another when the static Pods are \<open>D\<close>: only static
  sandboxes come and go, and outside \<open>D\<close> only containers of static sandboxes are stopped.
\<close>

definition static_effect ::
    "string set \<Rightarrow> (string \<rightharpoonup> cri_Container) \<Rightarrow> (string \<rightharpoonup> cri_Sandbox) \<Rightarrow>
     (string \<rightharpoonup> cri_Container) \<Rightarrow> (string \<rightharpoonup> cri_Sandbox) \<Rightarrow> bool" where
  "static_effect D m0 s0 m s \<longleftrightarrow>
     (\<forall>i x. sandSource x \<noteq> StaticPod \<longrightarrow> (s i = Some x \<longleftrightarrow> s0 i = Some x)) \<and>
     (\<forall>q. q \<notin> D \<longrightarrow> m q = m0 q \<or>
        (\<exists>c x. m0 q = Some c \<and> s0 (contSandbox c) = Some x \<and> sandSource x = StaticPod \<and>
           m q = Some (c\<lparr>contState := cri_Stopped\<rparr>)))"

lemma static_effect_refl: "static_effect D m s m s"
  by (simp add: static_effect_def)

lemma static_effect_mono: "static_effect D m0 s0 m s \<Longrightarrow> D \<subseteq> D' \<Longrightarrow> static_effect D' m0 s0 m s"
  by (auto simp: static_effect_def)

context cri_runtime_ids begin

section \<open>The calls\<close>

lemma run_sandbox_effect:
  assumes ok: "ok w" and run: "criRunPodSandbox cri p source w = (ans, w')"
  shows "ok w' \<and> conts w' = conts w \<and> issued w \<subseteq> issued w' \<and>
    (sbs w' = sbs w \<and> isl ans \<or>
     (\<exists>s. sandbox_started (Name (podMeta p)) source s (sbs w) (sbs w') \<and>
        (sbs w (sandID s) = Some s \<or> sandID s \<notin> issued w) \<and> (\<forall>x. ans = Inr x \<longrightarrow> x = s)))"
proof -
  have new: "sbs w (sandID s) = Some s \<or> sandID s \<notin> issued w"
    if "sandbox_started (Name (podMeta p)) source s (sbs w) (sbs w')" for s
    using new_sandbox [OF ok run, of "sandID s" s] that by (auto simp: sandbox_started_def)
  have grown: "issued w \<subseteq> issued w'" using run_sandbox_issued [OF ok, of p source] run by simp
  show ?thesis
  proof (cases ans)
    case (Inl e)
    from run_sandbox_error [OF ok run [unfolded Inl]] new grown Inl show ?thesis by auto
  next
    case (Inr s)
    from run_sandbox_ok [OF ok run [unfolded Inr]] new grown Inr show ?thesis by auto
  qed
qed

lemma run_container_effect:
  assumes ok: "ok w" and run: "criRunInSandbox cri p i w = (ans, w')"
  shows "ok w' \<and> sbs w' = sbs w \<and> issued w \<subseteq> issued w' \<and>
    (conts w' = conts w \<and> isl ans \<or>
     (\<exists>c. container_started (Name (podMeta p)) i c (conts w) (conts w')))"
proof -
  have grown: "issued w \<subseteq> issued w'" using run_container_issued [OF ok, of p i] run by simp
  show ?thesis
    using run_container_error [OF ok, of p i _ w'] run_container_ok [OF ok, of p i _ w'] run grown
    by (cases ans) auto
qed

lemma stop_pod_sandbox_effect:
  assumes ok: "ok w" and run: "criStopPodSandbox cri i w = (ans, w')"
  shows "ok w' \<and> issued w \<subseteq> issued w' \<and>
    (sbs w' = sbs w \<and> conts w' = conts w \<and> isl ans \<or>
     sbs w' = (sbs w)(i := None) \<and> containers_of_stopped i (conts w) (conts w'))"
proof -
  have grown: "issued w \<subseteq> issued w'" using stop_sandbox_issued [OF ok, of i] run by simp
  show ?thesis
    using stop_sandbox_error [OF ok, of i _ w'] stop_sandbox_ok [OF ok, of i w'] run grown
    by (cases ans) auto
qed

lemma placed_started:
  assumes "ok w" and "placed (conts w) (sbs w)"
    and "sandbox_started pod source s (sbs w) (sbs w')" and "sbs w (sandID s) = Some s \<or> sandID s \<notin> issued w"
  shows "placed (conts w) (sbs w')"
  unfolding placed_def
proof (intro allI impI)
  fix q c x assume c: "conts w q = Some c" and x: "sbs w' (contSandbox c) = Some x"
  have w': "sbs w' = (sbs w)(sandID s \<mapsto> s)" using assms(3) by (simp add: sandbox_started_def)
  have "sbs w (contSandbox c) = Some x"
  proof (cases "contSandbox c = sandID s")
    case True
    with x w' have "x = s" by simp
    moreover from container_issued [OF assms(1) c] assms(4) True have "sbs w (sandID s) = Some s" by simp
    ultimately show ?thesis using True by simp
  next
    case False
    with w' x show ?thesis by simp
  qed
  with assms(2) c show "sandPod x = q" by (auto simp: placed_def)
qed

lemma placed_container:
  assumes "placed m s" and "container_started pod i c m m'" and "s i = Some x" and "sandPod x = pod"
  shows "placed m' s"
  using assms by (auto simp: placed_def container_started_def)

lemma placed_stopped:
  assumes "placed m s" and "containers_of_stopped i m m'"
  shows "placed m' (s(i := None))"
  unfolding placed_def
proof (intro allI impI)
  fix q c x assume c: "m' q = Some c" and x: "(s(i := None)) (contSandbox c) = Some x"
  from assms(2) have "m' q = m q \<or> (\<exists>c. m q = Some c \<and> m' q = Some (c\<lparr>contState := cri_Stopped\<rparr>))"
    by (auto simp: containers_of_stopped_def)
  then have "\<exists>c'. m q = Some c' \<and> contSandbox c' = contSandbox c" using c
    by (elim disjE) (simp, force)
  with assms(1) x show "sandPod x = q" by (auto simp: placed_def split: if_splits)
qed

section \<open>Starting\<close>

text \<open>
  \<open>starting w0 D L w\<close>: since the listing in \<open>w0\<close> the static Pods \<open>D\<close> were handled, and \<open>L\<close> is the
  list of sandboxes.
\<close>

definition starting :: "'a \<Rightarrow> string set \<Rightarrow> cri_Sandbox list \<Rightarrow> 'a \<Rightarrow> bool" where
  "starting w0 D L w \<longleftrightarrow> ok w \<and> issued w0 \<subseteq> issued w \<and> placed (conts w) (sbs w) \<and>
     (\<forall>s\<in>set L. sbs w (sandID s) = Some s) \<and>
     (\<forall>i s. sbs w i = Some s \<longrightarrow> sandSource s = StaticPod \<longrightarrow> s \<in> set L) \<and>
     (\<forall>i s. sbs w i = Some s \<longrightarrow> sbs w0 i = Some s \<or> i \<notin> issued w0) \<and>
     (\<forall>i s. sbs w0 i = Some s \<longrightarrow> sbs w i = Some s) \<and>
     (\<forall>i x. sandSource x \<noteq> StaticPod \<longrightarrow> (sbs w i = Some x \<longleftrightarrow> sbs w0 i = Some x)) \<and>
     (\<forall>q. q \<notin> D \<longrightarrow> conts w q = conts w0 q) \<and> (\<forall>q\<in>D. served (conts w) (sbs w) q)"

lemma starting_placed: "starting w0 D L w \<Longrightarrow> placed (conts w) (sbs w)"
  by (simp add: starting_def)

lemma started_static:
  assumes "ok w" and "sandbox_started pod source s (sbs w) (sbs w')"
    and "sbs w (sandID s) = Some s \<or> sandID s \<notin> issued w"
  shows "sbs w i = Some x \<Longrightarrow> sbs w' i = Some x"
    and "sbs w' i = Some x \<Longrightarrow> sbs w i = Some x \<or> x = s \<and> sandSource x = source \<and> i \<notin> issued w"
proof -
  have w': "sbs w' = (sbs w)(sandID s \<mapsto> s)" and s: "sandSource s = source"
    using assms(2) by (simp_all add: sandbox_started_def)
  show "sbs w' i = Some x" if "sbs w i = Some x"
  proof (cases "i = sandID s")
    case True
    with sandbox_issued [OF assms(1) that] assms(3) that show ?thesis by (simp add: w')
  qed (use that w' in simp)
  show "sbs w i = Some x \<or> x = s \<and> sandSource x = source \<and> i \<notin> issued w" if "sbs w' i = Some x"
  proof (cases "i = sandID s")
    case True
    with that w' have "x = s" by simp
    with True assms(3) s show ?thesis by blast
  qed (use that w' in simp)
qed

lemma starting_effect:
  "starting w0 D L w \<Longrightarrow> D \<subseteq> D' \<Longrightarrow> static_effect D' (conts w0) (sbs w0) (conts w) (sbs w)"
  unfolding starting_def static_effect_def by blast

lemma served_sandboxes:
  "served m s q \<Longrightarrow> (\<And>i x. s i = Some x \<Longrightarrow> s' i = Some x) \<Longrightarrow> served m s' q"
  by (auto simp: served_def)

lemma static_sandbox_step:
  assumes inv: "starting w0 D L w"
    and run: "static_sandbox cri L pod w = (ans, w')"
  shows "static_effect (insert q D) (conts w0) (sbs w0) (conts w') (sbs w') \<and> ok w' \<and> placed (conts w') (sbs w') \<and>
    (\<forall>s L'. ans = Inr (s, L') \<longrightarrow> starting w0 D L' w' \<and> s \<in> set L' \<and> sandSource s = StaticPod \<and>
       sandPod s = Name (podMeta pod) \<and> sbs w' (sandID s) = Some s)"
proof (cases "staticSandboxForPod L (Name (podMeta pod))")
  case (Some s)
  from find_SomeD [OF Some [unfolded staticSandboxForPod_def]]
  have "s \<in> set L" "sandPod s = Name (podMeta pod)" "sandSource s = StaticPod" by auto
  moreover from Some run have "ans = Inr (s, L)" "w' = w" by (simp_all add: static_sandbox_def returning_def)
  ultimately show ?thesis using starting_effect [OF inv, of "insert q D"] inv
    by (auto simp: starting_def)
next
  case None
  obtain r w1 where call: "criRunPodSandbox cri pod StaticPod w = (r, w1)" by fastforce
  from None run call have w1: "w1 = w'" and ans: "\<And>s L'. ans = Inr (s, L') \<longleftrightarrow> r = Inr s \<and> L' = L @ [s]"
    by (auto simp: static_sandbox_def andThen_def wrapping_def returning_def split: sum.splits)
  from inv have ok: "ok w" by (simp add: starting_def)
  from run_sandbox_effect [OF ok call] w1
  have w': "ok w'" "conts w' = conts w" "issued w \<subseteq> issued w'"
    and cases: "sbs w' = sbs w \<and> isl r \<or>
     (\<exists>s. sandbox_started (Name (podMeta pod)) StaticPod s (sbs w) (sbs w') \<and>
        (sbs w (sandID s) = Some s \<or> sandID s \<notin> issued w) \<and> (\<forall>x. r = Inr x \<longrightarrow> x = s))" by auto
  from cases consider (same) "sbs w' = sbs w" "isl r"
    | (new) s where "sandbox_started (Name (podMeta pod)) StaticPod s (sbs w) (sbs w')"
        "sbs w (sandID s) = Some s \<or> sandID s \<notin> issued w" "\<forall>x. r = Inr x \<longrightarrow> x = s" by blast
  then show ?thesis
  proof cases
    case same
    with starting_effect [OF inv, of "insert q D"] starting_placed [OF inv] ans w' show ?thesis by auto
  next
    case (new s)
    note started = new(1) and fresh = new(2) and r = new(3)
    note keep = started_static [OF ok started fresh]
    have s: "sandSource s = StaticPod" "sandPod s = Name (podMeta pod)" "sbs w' (sandID s) = Some s"
      using started by (simp_all add: sandbox_started_def)
    have nonstatic: "sandSource x \<noteq> StaticPod \<Longrightarrow> sbs w' i = Some x \<longleftrightarrow> sbs w i = Some x" for i x
      using keep by blast
    have "starting w0 D (L @ [s]) w'"
      unfolding starting_def
    proof (intro conjI)
      show "placed (conts w') (sbs w')"
        using placed_started [OF ok _ started fresh] inv by (simp add: w' starting_def)
      show "issued w0 \<subseteq> issued w'" using inv w' by (auto simp: starting_def)
      show "\<forall>i s. sbs w' i = Some s \<longrightarrow> sbs w0 i = Some s \<or> i \<notin> issued w0"
        using inv keep(2) unfolding starting_def by blast
      show "\<forall>q\<in>D. served (conts w') (sbs w') q"
        using inv served_sandboxes keep(1) unfolding starting_def w'(2) by blast
      show "\<forall>i s'. sbs w' i = Some s' \<longrightarrow> sandSource s' = StaticPod \<longrightarrow> s' \<in> set (L @ [s])"
      proof (intro allI impI)
        fix i s' assume s': "sbs w' i = Some s'" "sandSource s' = StaticPod"
        from keep(2) [OF s'(1)] inv s'(2) have "s' \<in> set L \<or> s' = s" unfolding starting_def by blast
        then show "s' \<in> set (L @ [s])" by auto
      qed
      show "\<forall>i x. sandSource x \<noteq> StaticPod \<longrightarrow> (sbs w' i = Some x) = (sbs w0 i = Some x)"
        using inv nonstatic unfolding starting_def by blast
      show "\<forall>t\<in>set (L @ [s]). sbs w' (sandID t) = Some t"
        using inv keep(1) s(3) unfolding starting_def by auto
      show "\<forall>i s. sbs w0 i = Some s \<longrightarrow> sbs w' i = Some s"
        using inv keep(1) unfolding starting_def by blast
      show "\<forall>q. q \<notin> D \<longrightarrow> conts w' q = conts w0 q" using inv unfolding starting_def w'(2) by blast
    qed (fact w'(1))
    with starting_effect [OF this, of "insert q D"] starting_placed [OF this] ans r s w'(1)
    show ?thesis by auto
  qed
qed

lemma static_container_step:
  assumes inv: "starting w0 D L w" and cs: "set cs = ran (conts w0)" and ok0: "ok w0"
    and placed0: "placed (conts w0) (sbs w0)"
    and s: "s \<in> set L" "sandSource s = StaticPod" "sandPod s = Name (podMeta pod)"
    and run: "static_container cri cs pod s w = (ans, w')"
  defines "q \<equiv> Name (podMeta pod)"
  shows "static_effect (insert q D) (conts w0) (sbs w0) (conts w') (sbs w') \<and> ok w' \<and> placed (conts w') (sbs w') \<and>
    (\<forall>u. ans = Inr u \<longrightarrow> starting w0 (insert q D) L w')"
proof (cases "is_running (containerForSandbox cs (sandID s))")
  case True
  then obtain c where found: "containerForSandbox cs (sandID s) = Some c" and c: "contState c = cri_Running"
    by (auto simp: is_running_def split: option.splits)
  from find_SomeD [OF found [unfolded containerForSandbox_def]] cs
  obtain r where r: "conts w0 r = Some c" "contSandbox c = sandID s" by (auto simp: ran_def)
  have now: "sbs w (sandID s) = Some s" using inv s(1) by (simp add: starting_def)
  have "sandID s \<in> issued w0" using container_issued [OF ok0 r(1)] r(2) by simp
  with inv now have "sbs w0 (sandID s) = Some s" unfolding starting_def by blast
  with placed0 r s(3) have "r = q" by (auto simp: placed_def q_def)
  have "served (conts w) (sbs w) q"
  proof (cases "q \<in> D")
    case True
    with inv show ?thesis by (simp add: starting_def)
  next
    case False
    with inv have "conts w q = Some c" using r \<open>r = q\<close> by (simp add: starting_def)
    with now c r s show ?thesis by (auto simp: served_def q_def)
  qed
  with inv have "starting w0 (insert q D) L w" unfolding starting_def by blast
  moreover from True run have "w' = w" by (simp add: static_container_def returning_def)
  ultimately show ?thesis using starting_effect [of w0 "insert q D" L w] by (auto simp: starting_def)
next
  case False
  obtain r w1 where call: "criRunInSandbox cri pod (sandID s) w = (r, w1)" by fastforce
  from False run call have w1: "w1 = w'" and ans: "\<And>u. ans = Inr u \<Longrightarrow> \<not> isl r"
    by (auto simp: static_container_def andThen_def wrapping_def returning_def split: sum.splits)
  from inv have ok: "ok w" and now: "sbs w (sandID s) = Some s" using s(1) by (auto simp: starting_def)
  from run_container_effect [OF ok call] w1
  have w': "ok w'" "sbs w' = sbs w" "issued w \<subseteq> issued w'"
    and cases: "conts w' = conts w \<and> isl r \<or> (\<exists>c. container_started q (sandID s) c (conts w) (conts w'))"
    by (auto simp: q_def)
  from cases show ?thesis
  proof (elim disjE exE conjE)
    assume "conts w' = conts w" "isl r"
    with starting_effect [OF inv, of "insert q D"] starting_placed [OF inv] ans w' show ?thesis by auto
  next
    fix c assume started: "container_started q (sandID s) c (conts w) (conts w')"
    then have q: "conts w' q = Some c" "contState c = cri_Running" "contSandbox c = sandID s"
      and others: "\<And>p. p \<noteq> q \<Longrightarrow> conts w' p = conts w p" by (simp_all add: container_started_def)
    have "served (conts w') (sbs w') q" using q now s by (auto simp: served_def w'(2) q_def)
    moreover have "served (conts w') (sbs w') p" if "p \<in> D" for p
    proof (cases "p = q")
      case False
      from inv that have "served (conts w) (sbs w) p" by (simp add: starting_def)
      then show ?thesis unfolding served_def others [OF False] w'(2) .
    qed (use \<open>served (conts w') (sbs w') q\<close> in simp)
    moreover have "placed (conts w') (sbs w')"
      using placed_container [where i = "sandID s" and x = s, OF _ started] now inv s(3)
      by (simp add: starting_def w'(2) q_def)
    moreover have "issued w0 \<subseteq> issued w'" using inv w'(3) by (auto simp: starting_def)
    moreover have "\<forall>p. p \<notin> insert q D \<longrightarrow> conts w' p = conts w0 p"
      using inv others unfolding starting_def by auto
    ultimately have "starting w0 (insert q D) L w'"
      using inv w'(1) unfolding starting_def w'(2) by blast
    with starting_effect [OF this, of "insert q D"] starting_placed [OF this] w' show ?thesis by auto
  qed
qed

lemma start_static_ok:
  assumes inv: "starting w0 D L w" and cs: "set cs = ran (conts w0)" and ok0: "ok w0"
    and placed0: "placed (conts w0) (sbs w0)"
    and run: "start_static cri cs pods L w = (ans, w')"
  defines "names \<equiv> (\<lambda>p. Name (podMeta p)) ` set pods"
  shows "static_effect (D \<union> names) (conts w0) (sbs w0) (conts w') (sbs w') \<and> ok w' \<and> placed (conts w') (sbs w') \<and>
    (\<forall>L'. ans = Inr L' \<longrightarrow> starting w0 (D \<union> names) L' w')"
  using inv run unfolding names_def
proof (induction pods arbitrary: D L w)
  case Nil
  then show ?case using starting_effect [OF Nil.prems(1) subset_refl]
    by (auto simp: returning_def starting_def)
next
  case (Cons pod pods)
  let ?q = "Name (podMeta pod)" and ?names = "(\<lambda>p. Name (podMeta p)) ` set pods"
  obtain r w1 where r: "static_sandbox cri L pod w = (r, w1)" by fastforce
  note step1 = static_sandbox_step [OF Cons.prems(1) r, of ?q]
  show ?case
  proof (cases r)
    case (Inl e)
    with Cons.prems(2) r have "ans = Inl e" "w' = w1" by (auto simp: andThen_def)
    with step1 show ?thesis by (auto elim: static_effect_mono)
  next
    case (Inr x)
    obtain s L1 where x: "x = (s, L1)" by fastforce
    with step1 Inr have inv1: "starting w0 D L1 w1" and s: "s \<in> set L1" "sandSource s = StaticPod" "sandPod s = ?q"
      by auto
    obtain t w2 where t: "static_container cri cs pod s w1 = (t, w2)" by fastforce
    note step2 = static_container_step [OF inv1 cs ok0 placed0 s t]
    show ?thesis
    proof (cases t)
      case (Inl e)
      with Cons.prems(2) r Inr x t have "ans = Inl e" "w' = w2" by (auto simp: andThen_def)
      with step2 show ?thesis by (auto elim: static_effect_mono)
    next
      case u: (Inr u)
      with Cons.prems(2) r Inr x t have "start_static cri cs pods L1 w2 = (ans, w')" by (auto simp: andThen_def)
      with Cons.IH [of "insert ?q D" L1 w2] step2 u show ?thesis by auto
    qed
  qed
qed

section \<open>Stopping\<close>

definition stopping :: "'a \<Rightarrow> string set \<Rightarrow> cri_Sandbox list \<Rightarrow> 'a \<Rightarrow> bool" where
  "stopping w0 D K w \<longleftrightarrow> ok w \<and> placed (conts w) (sbs w) \<and>
     static_effect D (conts w0) (sbs w0) (conts w) (sbs w) \<and>
     (\<forall>q\<in>D. served (conts w) (sbs w) q) \<and>
     (\<forall>s\<in>set K. sandSource s = StaticPod \<longrightarrow>
        (sandID s \<in> issued w0 \<longrightarrow> sbs w0 (sandID s) = Some s) \<and>
        (sbs w (sandID s) = Some s \<or> sbs w (sandID s) = None)) \<and>
     (\<forall>i s. sbs w i = Some s \<longrightarrow> sandSource s = StaticPod \<longrightarrow> sandPod s \<in> D \<or> s \<in> set K)"

lemma starting_stopping: "starting w0 D L w \<Longrightarrow> stopping w0 D L w"
  using starting_effect [of w0 D L w D] unfolding starting_def stopping_def by blast

lemma stop_one:
  assumes inv: "stopping w0 D (s # K) w" and ok0: "ok w0"
    and s: "sandSource s = StaticPod" "sandPod s \<notin> D"
    and w': "ok w'" "sbs w' = (sbs w)(sandID s := None)"
      "containers_of_stopped (sandID s) (conts w) (conts w')"
  shows "stopping w0 D K w'"
proof -
  let ?i = "sandID s"
  from inv s have at: "sbs w ?i = Some s \<or> sbs w ?i = None" and old: "?i \<in> issued w0 \<Longrightarrow> sbs w0 ?i = Some s"
    and eff: "static_effect D (conts w0) (sbs w0) (conts w) (sbs w)" by (auto simp: stopping_def)
  have change: "conts w' q = conts w q \<or> (\<exists>c. conts w q = Some c \<and> contSandbox c = ?i \<and>
      conts w' q = Some (c\<lparr>contState := cri_Stopped\<rparr>))" for q
    using w'(3) by (auto simp: containers_of_stopped_def)
  have "static_effect D (conts w0) (sbs w0) (conts w') (sbs w')"
    unfolding static_effect_def
  proof (intro conjI allI impI)
    fix i and x :: cri_Sandbox assume x: "sandSource x \<noteq> StaticPod"
    with eff have "sbs w i = Some x \<longleftrightarrow> sbs w0 i = Some x" by (simp add: static_effect_def)
    with at x s(1) show "sbs w' i = Some x \<longleftrightarrow> sbs w0 i = Some x" by (auto simp: w'(2))
  next
    fix q assume q: "q \<notin> D"
    let ?stopped = "\<lambda>m. \<exists>c x. conts w0 q = Some c \<and> sbs w0 (contSandbox c) = Some x \<and>
      sandSource x = StaticPod \<and> m q = Some (c\<lparr>contState := cri_Stopped\<rparr>)"
    from eff q have before: "conts w q = conts w0 q \<or> ?stopped (conts w)" by (simp add: static_effect_def)
    from change [of q] show "conts w' q = conts w0 q \<or> ?stopped (conts w')"
    proof
      assume "conts w' q = conts w q"
      with before show ?thesis by simp
    next
      assume "\<exists>c. conts w q = Some c \<and> contSandbox c = ?i \<and> conts w' q = Some (c\<lparr>contState := cri_Stopped\<rparr>)"
      then obtain c where c: "conts w q = Some c" "contSandbox c = ?i"
        "conts w' q = Some (c\<lparr>contState := cri_Stopped\<rparr>)" by blast
      from before show ?thesis
      proof
        assume "conts w q = conts w0 q"
        with c have "conts w0 q = Some c" by simp
        moreover from container_issued [OF ok0 this] c(2) old have "sbs w0 (contSandbox c) = Some s" by simp
        ultimately show ?thesis using c s by blast
      next
        assume "?stopped (conts w)"
        with c show ?thesis by auto
      qed
    qed
  qed
  moreover have "served (conts w') (sbs w') q" if "q \<in> D" for q
  proof -
    from inv that obtain c x where c: "conts w q = Some c" "contState c = cri_Running"
      "sbs w (contSandbox c) = Some x" "sandPod x = q" "sandSource x = StaticPod"
      by (auto simp: stopping_def served_def)
    have "contSandbox c \<noteq> ?i" using at c(3,4) s(2) that by auto
    then have "conts w' q = Some c" "sbs w' (contSandbox c) = Some x" using change [of q] c by (auto simp: w'(2))
    with c show ?thesis by (auto simp: served_def)
  qed
  moreover have "placed (conts w') (sbs w')"
    using placed_stopped [OF _ w'(3)] inv by (simp add: stopping_def w'(2))
  moreover have "\<forall>t\<in>set K. sandSource t = StaticPod \<longrightarrow>
      (sandID t \<in> issued w0 \<longrightarrow> sbs w0 (sandID t) = Some t) \<and> (sbs w' (sandID t) = Some t \<or> sbs w' (sandID t) = None)"
    using inv by (auto simp: stopping_def w'(2))
  moreover have "sandPod t \<in> D \<or> t \<in> set K" if t: "sbs w' i = Some t" "sandSource t = StaticPod" for i and t :: cri_Sandbox
  proof -
    from t(1) have "i \<noteq> ?i" "sbs w i = Some t" by (auto simp: w'(2) split: if_splits)
    moreover have "sandID t = i" using sandbox_named [of w i t] calculation inv by (simp add: stopping_def)
    ultimately show ?thesis using inv t(2) by (auto simp: stopping_def)
  qed
  ultimately show ?thesis using w'(1) unfolding stopping_def by blast
qed

lemma stop_removed_ok:
  assumes "stopping w0 (set desired) K w" and "ok w0"
    and "stop_removed cri desired K w = (ans, w')"
  shows "static_effect (set desired) (conts w0) (sbs w0) (conts w') (sbs w') \<and> ok w' \<and>
    placed (conts w') (sbs w') \<and> (\<forall>u. ans = Inr u \<longrightarrow> stopping w0 (set desired) [] w')"
  using assms
proof (induction K arbitrary: w)
  case Nil
  then show ?case by (auto simp: returning_def stopping_def)
next
  case (Cons s K)
  show ?case
  proof (cases "sandSource s \<noteq> StaticPod \<or> sandState s \<noteq> cri_Running \<or> sandPod s \<in> set desired")
    case True
    have "sbs w i = Some s \<Longrightarrow> sandSource s = StaticPod \<Longrightarrow> sandPod s \<in> set desired" for i
      using sandbox_named [of w i s] True Cons.prems(1) by (auto simp: stopping_def)
    then have "sandPod t \<in> set desired \<or> t \<in> set K"
      if "sbs w i = Some t" "sandSource t = StaticPod" for i t
      using that Cons.prems(1) by (cases "t = s") (auto simp: stopping_def)
    with Cons.prems(1) have "stopping w0 (set desired) K w" by (simp add: stopping_def)
    with Cons True show ?thesis by simp
  next
    case False
    obtain r w1 where call: "criStopPodSandbox cri (sandID s) w = (r, w1)" by fastforce
    from Cons.prems(1) have ok: "ok w" by (simp add: stopping_def)
    note effect = stop_pod_sandbox_effect [OF ok call]
    show ?thesis
    proof (cases "sbs w1 = sbs w \<and> conts w1 = conts w \<and> isl r")
      case True
      with False Cons.prems(3) call have "w' = w1" "isl ans"
        by (auto simp: andThen_def wrapping_def split: sum.splits)
      with True Cons.prems(1) effect show ?thesis by (auto simp: stopping_def)
    next
      case other: False
      with effect have "sbs w1 = (sbs w)(sandID s := None)" "containers_of_stopped (sandID s) (conts w) (conts w1)"
        by auto
      with stop_one [OF Cons.prems(1,2)] False effect have inv: "stopping w0 (set desired) K w1" by simp
      show ?thesis
      proof (cases r)
        case (Inl e)
        with False Cons.prems(3) call have "w' = w1" "isl ans"
          by (auto simp: andThen_def wrapping_def split: sum.splits)
        with inv show ?thesis by (auto simp: stopping_def)
      next
        case (Inr u)
        with False Cons.prems(3) call have "stop_removed cri desired K w1 = (ans, w')"
          by (simp add: andThen_def wrapping_def)
        from Cons.IH [OF inv Cons.prems(2) this] show ?thesis .
      qed
    qed
  qed
qed

section \<open>The reconciliation\<close>

lemma ReconcileStaticPods_ok:
  assumes ok: "ok w" and placed: "placed (conts w) (sbs w)"
    and run: "ReconcileStaticPods cri pods w = (ans, w')"
  defines "names \<equiv> (\<lambda>p. Name (podMeta p)) ` set pods"
  shows "static_effect names (conts w) (sbs w) (conts w') (sbs w') \<and> ok w' \<and> placed (conts w') (sbs w') \<and>
    (\<forall>u. ans = Inr u \<longrightarrow> (\<forall>q\<in>names. served (conts w') (sbs w') q) \<and>
      (\<forall>i s. sbs w' i = Some s \<longrightarrow> sandSource s = StaticPod \<longrightarrow> sandPod s \<in> names))"
proof -
  obtain a w1 where l: "criList cri w = (a, w1)" by fastforce
  obtain b w2 where s: "criListSandboxes cri w1 = (b, w2)" by fastforce
  note list = list_ok [OF ok l]
  note listed = sandboxes_ok [OF conjunct1 [OF list] s]
  have same: "ok w2" "conts w2 = conts w" "sbs w2 = sbs w" using list listed by auto
  show ?thesis
  proof (cases "isl a \<or> isl b")
    case True
    with l s run have "isl ans" "w' = w1 \<or> w' = w2" by (auto simp: ReconcileStaticPods_def andThen_def split: sum.splits)
    with list same placed show ?thesis by (auto simp: static_effect_refl)
  next
    case False
    then obtain cs sb where a: "a = Inr cs" "b = Inr sb" by (auto simp: isl_def) (metis isl_def sum.collapse(2))
    obtain c w3 where start: "start_static cri cs pods sb w2 = (c, w3)" by fastforce
    have "starting w2 {} sb w2"
      unfolding starting_def same(2,3)
      using same(1) placed listed a sandbox_named [OF same(1)] unfolding same(3) by (auto simp: ran_def)
    from start_static_ok [OF this _ same(1) _ start] list a placed
    have started: "static_effect names (conts w) (sbs w) (conts w3) (sbs w3)" "ok w3" "placed (conts w3) (sbs w3)"
      "\<And>L. c = Inr L \<Longrightarrow> starting w2 names L w3" unfolding names_def same(2,3) by auto
    show ?thesis
    proof (cases c)
      case (Inl e)
      with l s a start run have "ans = Inl e" "w' = w3" by (auto simp: ReconcileStaticPods_def andThen_def)
      with started show ?thesis by simp
    next
      case (Inr L)
      with l s a start run have stop: "stop_removed cri (map (\<lambda>p. Name (podMeta p)) pods) L w3 = (ans, w')"
        by (simp add: ReconcileStaticPods_def andThen_def)
      have names: "set (map (\<lambda>p. Name (podMeta p)) pods) = names" by (simp add: names_def)
      from stop_removed_ok [OF _ same(1) stop] starting_stopping [OF started(4) [OF Inr]]
      show ?thesis unfolding names same(2,3) by (auto simp: stopping_def)
    qed
  qed
qed

section \<open>Stability\<close>

definition settled :: "string set \<Rightarrow> 'a \<Rightarrow> bool" where
  "settled names w \<longleftrightarrow> (\<forall>q\<in>names. served (conts w) (sbs w) q) \<and>
     (\<forall>i s. sbs w i = Some s \<longrightarrow> sandSource s = StaticPod \<longrightarrow> sandPod s \<in> names)"

lemma start_static_settled:
  assumes ok: "ok w" and placed: "placed (conts w) (sbs w)"
    and cs: "set cs = ran (conts w)" and sb: "set sb = ran (sbs w)"
    and served: "\<forall>p\<in>set pods. served (conts w) (sbs w) (Name (podMeta p))"
  shows "start_static cri cs pods sb w = (Inr sb, w)"
  using served
proof (induction pods)
  case Nil
  then show ?case by (simp add: returning_def)
next
  case (Cons pod pods)
  let ?q = "Name (podMeta pod)"
  from Cons.prems obtain c x where c: "conts w ?q = Some c" "contState c = cri_Running"
    "sbs w (contSandbox c) = Some x" "sandPod x = ?q" "sandSource x = StaticPod" by (auto simp: served_def)
  then have x: "x \<in> set sb" and c_in: "c \<in> set cs" by (auto simp: sb cs ran_def)
  have "staticSandboxForPod sb ?q \<noteq> None"
    using x c(4,5) unfolding staticSandboxForPod_def find_None_iff by blast
  then obtain s where s: "staticSandboxForPod sb ?q = Some s" by blast
  from find_SomeD [OF s [unfolded staticSandboxForPod_def]] sb
  obtain i where i: "sbs w i = Some s" "sandPod s = ?q" "sandSource s = StaticPod" by (auto simp: ran_def)
  have "i = contSandbox c" using sandbox_unique [OF ok i(1) c(3)] i c by simp
  with i c sandbox_named [OF ok i(1)] have s_id: "sandID s = contSandbox c" by simp
  have "containerForSandbox cs (sandID s) \<noteq> None"
    using c_in s_id unfolding containerForSandbox_def find_None_iff by auto
  then obtain d where d: "containerForSandbox cs (sandID s) = Some d" by blast
  from find_SomeD [OF d [unfolded containerForSandbox_def]] cs
  obtain r where r: "conts w r = Some d" "contSandbox d = sandID s" by (auto simp: ran_def)
  with placed c s_id have "r = ?q" unfolding placed_def by metis
  with r c have "d = c" by simp
  with d c have "static_container cri cs pod s w = (Inr (), w)"
    by (simp add: static_container_def is_running_def returning_def)
  moreover have "static_sandbox cri sb pod w = (Inr (s, sb), w)"
    by (simp add: static_sandbox_def s returning_def)
  ultimately show ?case using Cons by (simp add: andThen_def)
qed

lemma stop_removed_settled:
  "\<forall>s\<in>set K. sandSource s = StaticPod \<longrightarrow> sandPod s \<in> set desired \<Longrightarrow>
    stop_removed cri desired K w = (Inr (), w)"
  by (induction K) (auto simp: returning_def)

lemma ReconcileStaticPods_settled:
  assumes ok: "ok w" and placed: "placed (conts w) (sbs w)"
    and settled: "settled ((\<lambda>p. Name (podMeta p)) ` set pods) w"
    and run: "ReconcileStaticPods cri pods w = (ans, w')"
  shows "conts w' = conts w \<and> sbs w' = sbs w"
proof -
  obtain a w1 where l: "criList cri w = (a, w1)" by fastforce
  obtain b w2 where s: "criListSandboxes cri w1 = (b, w2)" by fastforce
  note list = list_ok [OF ok l]
  note listed = sandboxes_ok [OF conjunct1 [OF list] s]
  have same: "ok w2" "conts w2 = conts w" "sbs w2 = sbs w" using list listed by auto
  show ?thesis
  proof (cases "isl a \<or> isl b")
    case True
    with l s run have "w' = w1 \<or> w' = w2" by (auto simp: ReconcileStaticPods_def andThen_def split: sum.splits)
    with list same show ?thesis by auto
  next
    case False
    then obtain cs sb where a: "a = Inr cs" "b = Inr sb" by (auto simp: isl_def) (metis isl_def sum.collapse(2))
    have "start_static cri cs pods sb w2 = (Inr sb, w2)"
      using start_static_settled [OF same(1), of cs sb pods] list listed a placed settled same(2,3)
      by (simp add: settled_def)
    moreover have "\<forall>s\<in>set sb. sandSource s = StaticPod \<longrightarrow>
        sandPod s \<in> set (map (\<lambda>p. Name (podMeta p)) pods)"
      using listed a settled list by (auto simp: settled_def ran_def)
    from stop_removed_settled [OF this] have "stop_removed cri (map (\<lambda>p. Name (podMeta p)) pods) sb w2 = (Inr (), w2)" .
    ultimately show ?thesis using l s a run same by (simp add: ReconcileStaticPods_def andThen_def)
  qed
qed

end

section \<open>Theorems\<close>

text \<open>The static Pods of a node on the runtime behind its socket.\<close>

definition static_names :: "Pod list \<Rightarrow> string set" where
  "static_names pods = (\<lambda>p. Name (podMeta p)) ` set pods"



definition empty_node :: "(Runtime \<times> nat) \<times> json" where
  "empty_node = ((NewRuntime ''/bundles'', 7), JNull)"

abbreviation plain_cri :: "((Runtime \<times> nat) \<times> json) CRI" where
  "plain_cri \<equiv> cri_client (runtime_socket perfect_link plain_os None)"

abbreviation counted :: "nat \<Rightarrow> int set" where
  "counted \<equiv> \<lambda>w. {0..<int w}"

lemma empty_node_ok:
  "runtime_host.host_ok counted empty_node" "placed (behind rt_conts empty_node) (behind rt_sbs empty_node)"
  using NewRuntime_invar
  by (simp_all add: plain_host.host_ok_def empty_node_def placed_def rt_conts_def rt_sbs_def NewRuntime_def)

definition static_node :: "unit result \<times> ((Runtime \<times> nat) \<times> json)" where
  "static_node = ReconcileStaticPods plain_cri [example_pod ''etcd'', example_pod ''api''] empty_node"

lemma static_node_run:
  "ReconcileStaticPods plain_cri [example_pod ''etcd'', example_pod ''api''] empty_node = (Inr (), snd static_node)"
proof -
  have "fst static_node = Inr ()" unfolding static_node_def by code_simp
  then show ?thesis by (simp add: static_node_def [symmetric] prod_eq_iff)
qed



end
