(* ===== verification/Workloads.thy ===== *)
theory Workloads
  imports StaticPods Scheduler
begin

text \<open>
  What the kubelet's reconciliation of the Pods assigned to its node does, on both sides: the
  runtime, through \<open>cri_runtime_ids\<close>, and the API server, through \<open>cluster_api\<close>. The locale
  \<open>kubelet_node\<close> joins the two contracts.
\<close>

section \<open>Specification\<close>

text \<open>
  \<open>reported p r\<close>: \<open>r\<close> is what the API keeps of the Pod \<open>p\<close> after its status was set to Running.
  \<open>statuses node m m'\<close>: \<open>m'\<close> differs from \<open>m\<close> only in the status of Pods assigned to the node.
\<close>

definition with_status :: "string \<Rightarrow> Pod \<Rightarrow> Pod" where
  "with_status ip p = p\<lparr>podStatus := \<lparr>podPhase = PodRunning, PodIP = ip\<rparr>\<rparr>"

definition reported :: "string \<Rightarrow> Pod \<Rightarrow> Resource \<Rightarrow> bool" where
  "reported ip p r \<longleftrightarrow> (\<exists>v. r = norm_Resource (SetResourceVersion v (RPod (with_status ip p))))"

definition assigned_to :: "string \<Rightarrow> Pod \<Rightarrow> bool" where
  "assigned_to node p \<longleftrightarrow> NodeName (podSpec p) = node \<and> \<not> isMirrorPod p"

definition statuses :: "string \<Rightarrow> resources \<Rightarrow> resources \<Rightarrow> bool" where
  "statuses node m m' \<longleftrightarrow>
     (\<forall>kind. kind \<noteq> ''Pod'' \<longrightarrow> m' kind = m kind) \<and>
     (\<forall>name. m' ''Pod'' name = m ''Pod'' name \<or>
       (\<exists>p ip r. m ''Pod'' name = Some (RPod p) \<and> assigned_to node p \<and>
          m' ''Pod'' name = Some r \<and> reported ip p r))"

lemma statuses_refl [simp]: "statuses node m m"
  by (simp add: statuses_def)

lemma reported_RPod: "reported ip p r \<Longrightarrow> \<exists>q. r = RPod q \<and> podStatus q = \<lparr>podPhase = PodRunning, PodIP = ip\<rparr>"
  by (auto simp: reported_def with_status_def norm_Pod_def)

text \<open>The first loop touches each Pod once: a Pod it puts was as it was listed.\<close>

lemma statuses_put:
  assumes "statuses node m0 m" and "m0 ''Pod'' name = Some (RPod p)" and "assigned_to node p"
    and "reported ip p r"
  shows "statuses node m0 (put_resource ''Pod'' name (Some r) m)"
  using assms by (auto simp: statuses_def put_resource_apply)

lemma valid_with_status: "valid_Resource (RPod (with_status ip p)) = valid_Resource (RPod p)"
  by (simp add: with_status_def valid_PodSpec_def)

lemma GetName_with_status: "GetName (RPod (with_status ip p)) = Name (podMeta p)"
  by (simp add: with_status_def)

lemma updateStatus_eq:
  "updateStatus client pod PodRunning =
    andThen (ResourceClient_Update client Pods (Name (podMeta pod)) (with_status (PodIP (podStatus pod)) pod))
      (\<lambda>_. returning ())"
  by (cases "podStatus pod") (simp add: updateStatus_def with_status_def)

definition running :: "(string \<rightharpoonup> cri_Container) \<Rightarrow> string \<Rightarrow> bool" where
  "running m q \<longleftrightarrow> (\<exists>c. m q = Some c \<and> contState c = cri_Running)"

text \<open>
  \<open>hosted m0 m s r q\<close>: the Pod has a Running container and is reported Running; if the kubelet had
  to start it, the container is in a workload sandbox of the Pod, whose address is reported.
\<close>

definition hosted ::
    "(string \<rightharpoonup> cri_Container) \<Rightarrow> (string \<rightharpoonup> cri_Container) \<Rightarrow> (string \<rightharpoonup> cri_Sandbox) \<Rightarrow> resources \<Rightarrow> string \<Rightarrow> bool" where
  "hosted m0 m s r q \<longleftrightarrow>
     (\<exists>c p. m q = Some c \<and> contState c = cri_Running \<and> r ''Pod'' q = Some (RPod p) \<and>
        podPhase (podStatus p) = PodRunning \<and>
        (\<not> running m0 q \<longrightarrow> (\<exists>x. s (contSandbox c) = Some x \<and> sandPod x = q \<and> sandSource x = Workload \<and>
           PodIP (podStatus p) = sandIP x)))"

text \<open>Static sandboxes stay as they are, and so do their containers, but for the Pods \<open>D\<close>.\<close>

definition static_untouched ::
    "string set \<Rightarrow> (string \<rightharpoonup> cri_Container) \<Rightarrow> (string \<rightharpoonup> cri_Sandbox) \<Rightarrow>
     (string \<rightharpoonup> cri_Container) \<Rightarrow> (string \<rightharpoonup> cri_Sandbox) \<Rightarrow> bool" where
  "static_untouched D m0 s0 m s \<longleftrightarrow>
     (\<forall>i x. sandSource x = StaticPod \<longrightarrow> (s i = Some x \<longleftrightarrow> s0 i = Some x)) \<and>
     (\<forall>q c x. q \<notin> D \<longrightarrow> m0 q = Some c \<longrightarrow> s0 (contSandbox c) = Some x \<longrightarrow> sandSource x = StaticPod \<longrightarrow>
        m q = Some c)"

lemma static_untouchedI:
  assumes "\<And>i x. s0 i = Some x \<Longrightarrow> s i = Some x"
    and "\<And>i x. s i = Some x \<Longrightarrow> s0 i = Some x \<or> sandSource x \<noteq> StaticPod \<and> i \<notin> I"
    and "\<And>q. q \<notin> D \<Longrightarrow> m q = m0 q"
  shows "static_untouched D m0 s0 m s"
  unfolding static_untouched_def
proof (intro conjI allI impI)
  fix i and x :: cri_Sandbox assume "sandSource x = StaticPod"
  with assms(1,2) show "s i = Some x \<longleftrightarrow> s0 i = Some x" by blast
next
  fix q c assume "q \<notin> D" "m0 q = Some c"
  with assms(3) show "m q = Some c" by simp
qed

section \<open>The maps of the kubelet\<close>

lemma fmlookup_fold_keyed:
  "distinct (map k xs) \<Longrightarrow>
    fmlookup (fold (\<lambda>x. fmupd (k x) x) xs m) q =
      (case find (\<lambda>x. k x = q) xs of Some x \<Rightarrow> Some x | None \<Rightarrow> fmlookup m q)"
proof (induction xs arbitrary: m)
  case (Cons x xs)
  have "find (\<lambda>y. k y = q) xs = None" if "k x = q"
    using Cons.prems that unfolding find_None_iff list.map distinct.simps set_map by (metis imageI)
  with Cons show ?case by (auto split: option.splits)
qed simp

lemma find_keyed:
  assumes "distinct (map k xs)"
  shows "find (\<lambda>x. k x = q) xs = Some x \<longleftrightarrow> x \<in> set xs \<and> k x = q"
  using assms
proof (induction xs)
  case (Cons y xs)
  then show ?case by (auto simp: image_iff)
qed simp

lemma keyed_lookup:
  assumes "distinct (map k xs)"
  shows "fmlookup (fold (\<lambda>x. fmupd (k x) x) xs fmempty) q = Some x \<longleftrightarrow> x \<in> set xs \<and> k x = q"
  unfolding fmlookup_fold_keyed [OF assms] fmempty_lookup find_keyed [OF assms, symmetric]
  by (simp split: option.split)

lemma assignedPods_lookup:
  assumes "distinct (map (\<lambda>p. Name (podMeta p)) ps)"
  shows "fmlookup (assignedPods ps node) q = Some p \<longleftrightarrow>
    p \<in> set ps \<and> assigned_to node p \<and> Name (podMeta p) = q"
proof -
  have "distinct (map (\<lambda>p. Name (podMeta p)) (filter (\<lambda>p. assigned_to node p) ps))"
    using assms by (rule distinct_map_filter)
  from keyed_lookup [OF this, of q p] show ?thesis
    by (auto simp: assignedPods_def pods_by_name_def assigned_to_def)
qed

lemma containersByPod_lookup:
  assumes "distinct (map contPod cs)" and "set cs = ran m" and "\<And>q c. m q = Some c \<Longrightarrow> contPod c = q"
  shows "fmlookup (containersByPod cs) q = m q"
proof -
  have "fmlookup (containersByPod cs) q = Some c \<longleftrightarrow> m q = Some c" for c
    using keyed_lookup [OF assms(1), of q c] assms(2,3) by (auto simp: containersByPod_def ran_def)
  then show ?thesis by (metis option.exhaust)
qed

text \<open>Whatever order the map is visited in, each of its Pods is visited once.\<close>

lemma map_values_ok:
  assumes order: "\<And>xs. mset (order xs) = mset xs"
    and named: "\<And>q p. fmlookup m q = Some p \<Longrightarrow> Name (podMeta p) = q"
  shows "distinct (map (\<lambda>p. Name (podMeta p)) (map_values order m))"
    and "set (map_values order m) = {p. fmlookup m (Name (podMeta p)) = Some p}"
proof -
  let ?vs = "map snd (sorted_list_of_fmap m)"
  have keys: "map (\<lambda>p. Name (podMeta p)) ?vs = sorted_list_of_fset (fmdom m)"
    unfolding sorted_list_of_fmap_def map_map comp_def snd_conv
    by (rule map_idI) (auto simp: fmlookup_dom_iff dest: named)
  have "mset (map (\<lambda>p. Name (podMeta p)) (order ?vs)) = mset (map (\<lambda>p. Name (podMeta p)) ?vs)"
    unfolding mset_map order ..
  then show "distinct (map (\<lambda>p. Name (podMeta p)) (map_values order m))"
    unfolding keys map_values_def
    by (metis distinct_sorted_list_of_set mset_eq_imp_distinct_iff sorted_list_of_fset.rep_eq)
  have "set (map_values order m) = set ?vs" unfolding map_values_def using order by (metis set_mset_mset)
  also have "set ?vs = {p. fmlookup m (Name (podMeta p)) = Some p}"
    using named by (force simp: sorted_list_of_fmap_def fmlookup_dom_iff image_iff)
  finally show "set (map_values order m) = {p. fmlookup m (Name (podMeta p)) = Some p}" .
qed

locale kubelet_node =
  cluster_api client res api_ok + cri_runtime_ids cri conts sbs node_ok issued
  for client :: "'a Client" and res :: "'a \<Rightarrow> resources" and api_ok :: "'a \<Rightarrow> bool"
    and cri :: "'b CRI" and conts :: "'b \<Rightarrow> string \<rightharpoonup> cri_Container" and sbs :: "'b \<Rightarrow> string \<rightharpoonup> cri_Sandbox"
    and node_ok :: "'b \<Rightarrow> bool" and issued :: "'b \<Rightarrow> string set"

context kubelet_node begin

section \<open>The calls\<close>

lemma status_update:
  assumes "api_ok a" and "as_listed (res a) (p # ps)"
    and "updateStatus client (p\<lparr>podStatus := st\<rparr>) PodRunning a = (ans, a')"
  shows "api_ok a' \<and> (isl ans \<and> res a' = res a \<or>
    (\<exists>r. reported (PodIP st) p r \<and> res a' = put_resource ''Pod'' (Name (podMeta p)) (Some r) (res a)))"
proof -
  let ?x = "with_status (PodIP st) p"
  have x: "with_status (PodIP (podStatus (p\<lparr>podStatus := st\<rparr>))) (p\<lparr>podStatus := st\<rparr>) = ?x"
    by (simp add: with_status_def)
  obtain u a1 where update: "ResourceClient_Update client Pods (Name (podMeta p)) ?x a = (u, a1)" by fastforce
  with assms(3) have a1: "a1 = a'" "isl u = isl ans" unfolding updateStatus_eq x
    by (auto simp: andThen_def returning_def split: sum.splits)
  from assms(2) have listed: "res a ''Pod'' (Name (podMeta p)) = Some (RPod p)" "url_clean (Name (podMeta p))"
    by (auto simp: as_listed_def)
  have valid: "valid_Resource (RPod ?x)"
    using pods.named [OF assms(1) listed(1)] valid_with_status by simp
  have form: "reported (PodIP st) p (RPod y)" if "stored_form ''Pod'' (RPod ?x) (RPod y)" for y
    using that unfolding stored_form_def reported_def by blast
  show ?thesis
  proof (cases u)
    case (Inl e)
    from pods.update_error [OF assms(1) valid listed(2) update [unfolded Inl]] form Inl a1
    show ?thesis by (metis isl_def)
  next
    case (Inr y)
    from pods.update_ok [OF assms(1) valid listed(2) update [unfolded Inr]] form a1
    show ?thesis by blast
  qed
qed

section \<open>The desired Pods\<close>

text \<open>
  \<open>hosting node a0 b0 D (a, b)\<close>: since the listings in \<open>a0\<close> and \<open>b0\<close> the Pods \<open>D\<close> were handled.
\<close>

definition hosting :: "string \<Rightarrow> 'a \<Rightarrow> 'b \<Rightarrow> string set \<Rightarrow> 'a \<times> 'b \<Rightarrow> bool" where
  "hosting node a0 b0 D = (\<lambda>(a, b).
     api_ok a \<and> statuses node (res a0) (res a) \<and> node_ok b \<and> issued b0 \<subseteq> issued b \<and>
     placed (conts b) (sbs b) \<and>
     (\<forall>i x. sbs b0 i = Some x \<longrightarrow> sbs b i = Some x) \<and>
     (\<forall>i x. sbs b i = Some x \<longrightarrow> sbs b0 i = Some x \<or> sandSource x \<noteq> StaticPod \<and> i \<notin> issued b0) \<and>
     (\<forall>q. q \<notin> D \<longrightarrow> conts b q = conts b0 q) \<and> (\<forall>q\<in>D. hosted (conts b0) (conts b) (sbs b) (res a) q))"

text \<open>What holds on every path, for the Pods \<open>D\<close> of the node.\<close>

definition harmless :: "string \<Rightarrow> 'a \<Rightarrow> 'b \<Rightarrow> string set \<Rightarrow> 'a \<times> 'b \<Rightarrow> bool" where
  "harmless node a0 b0 D = (\<lambda>(a, b).
     api_ok a \<and> statuses node (res a0) (res a) \<and> node_ok b \<and> issued b0 \<subseteq> issued b \<and>
     placed (conts b) (sbs b) \<and> static_untouched D (conts b0) (sbs b0) (conts b) (sbs b))"

lemma hosting_harmless: "hosting node a0 b0 D (a, b) \<Longrightarrow> D \<subseteq> D' \<Longrightarrow> harmless node a0 b0 D' (a, b)"
  unfolding hosting_def harmless_def static_untouched_def by (auto; blast)

lemma source_differ [simp]: "Workload \<noteq> StaticPod" "StaticPod \<noteq> Workload"
  by (simp_all add: Workload_def StaticPod_def)

lemma hosted_put:
  assumes "hosted m0 m s r q" and "q \<noteq> name"
  shows "hosted m0 m s (put_resource ''Pod'' name x r) q"
  using assms by (simp add: hosted_def put_resource_apply)

lemma hosted_extend:
  assumes "hosted m0 m s r q" and "m' q = m q" and "\<And>i x. s i = Some x \<Longrightarrow> s' i = Some x"
  shows "hosted m0 m' s' r q"
  using assms unfolding hosted_def by (metis (no_types, lifting))

lemma hosting_status:
  assumes inv: "hosting node a0 b0 D (a, b)" and q: "Name (podMeta p) \<notin> D"
    and p: "res a0 ''Pod'' (Name (podMeta p)) = Some (RPod p)" "assigned_to node p"
    and r: "reported ip p r" "res a' = put_resource ''Pod'' (Name (podMeta p)) (Some r) (res a)" "api_ok a'"
    and run: "conts b (Name (podMeta p)) = Some c" "contState c = cri_Running" "running (conts b0) (Name (podMeta p))"
  shows "hosting node a0 b0 (insert (Name (podMeta p)) D) (a', b)"
proof -
  let ?q = "Name (podMeta p)"
  from reported_RPod [OF r(1)] obtain p' where p': "r = RPod p'" "podPhase (podStatus p') = PodRunning" by auto
  have "hosted (conts b0) (conts b) (sbs b) (res a') ?q"
    unfolding hosted_def using run p' by (simp add: r(2) put_resource_apply)
  moreover have "hosted (conts b0) (conts b) (sbs b) (res a') q" if "q \<in> D" for q
  proof -
    from that q have "q \<noteq> ?q" by metis
    with hosted_put [of _ _ _ _ q ?q] inv that show ?thesis by (simp add: hosting_def r(2))
  qed
  moreover have "statuses node (res a0) (res a')"
    unfolding r(2) by (rule statuses_put) (use inv p r(1) in \<open>simp_all add: hosting_def\<close>)
  ultimately show ?thesis using inv r(3) by (auto simp: hosting_def)
qed

lemma runPod_effect:
  assumes ok: "node_ok b" and placed: "placed (conts b) (sbs b)" and run: "runPod cri p b = (ans, b')"
  defines "q \<equiv> Name (podMeta p)"
  shows "node_ok b' \<and> issued b \<subseteq> issued b' \<and> placed (conts b') (sbs b') \<and>
    (\<forall>i x. sbs b i = Some x \<longrightarrow> sbs b' i = Some x) \<and>
    (\<forall>i x. sbs b' i = Some x \<longrightarrow> sbs b i = Some x \<or> sandSource x \<noteq> StaticPod \<and> i \<notin> issued b) \<and>
    (\<forall>r. r \<noteq> q \<longrightarrow> conts b' r = conts b r) \<and>
    (\<forall>s. ans = Inr s \<longrightarrow> sbs b' (sandID s) = Some s \<and> sandPod s = q \<and> sandSource s = Workload \<and>
       (\<exists>c. conts b' q = Some c \<and> contState c = cri_Running \<and> contSandbox c = sandID s))"
proof -
  obtain r b1 where call1: "criRunPodSandbox cri p Workload b = (r, b1)" by fastforce
  note e1 = run_sandbox_effect [OF ok call1]
  consider (same) "sbs b1 = sbs b" "isl r"
    | (new) s where "sandbox_started q Workload s (sbs b) (sbs b1)"
        "sbs b (sandID s) = Some s \<or> sandID s \<notin> issued b" "\<forall>x. r = Inr x \<longrightarrow> x = s"
    using e1 unfolding q_def by blast
  then show ?thesis
  proof cases
    case same
    with call1 run have "b' = b1" "isl ans" by (auto simp: runPod_def andThen_def split: sum.splits)
    with e1 same placed show ?thesis by auto
  next
    case (new s)
    note keep = started_static [OF ok new(1,2)]
    have placed1: "placed (conts b1) (sbs b1)" using placed_started [OF ok placed new(1,2)] e1 by simp
    have s: "sbs b1 (sandID s) = Some s" "sandPod s = q" "sandSource s = Workload"
      using new(1) by (simp_all add: sandbox_started_def)
    have fresh: "sbs b1 i = Some x \<Longrightarrow> sbs b i = Some x \<or> sandSource x \<noteq> StaticPod \<and> i \<notin> issued b" for i x
      using keep(2) [of i x] by auto
    have ok1: "node_ok b1" "conts b1 = conts b" "issued b \<subseteq> issued b1" using e1 by auto
    show ?thesis
    proof (cases r)
      case (Inl e)
      with call1 run have "b' = b1" "isl ans" by (auto simp: runPod_def andThen_def)
      with ok1 placed1 keep(1) fresh show ?thesis by auto
    next
      case (Inr x)
      with new(3) have x: "x = s" by simp
      obtain t b2 where call2: "criRunInSandbox cri p (sandID s) b1 = (t, b2)" by fastforce
      note e2 = run_container_effect [OF ok1(1) call2]
      from call1 call2 Inr x run have b2: "b2 = b'" and ans: "\<And>y. ans = Inr y \<longleftrightarrow> \<not> isl t \<and> y = s"
        by (auto simp: runPod_def andThen_def returning_def split: sum.splits)
      from e2 b2 have sbs2: "sbs b' = sbs b1" "node_ok b'" "issued b \<subseteq> issued b'" using ok1(3) by auto
      have "placed (conts b') (sbs b') \<and> (\<forall>r. r \<noteq> q \<longrightarrow> conts b' r = conts b r) \<and>
        (\<not> isl t \<longrightarrow> (\<exists>c. conts b' q = Some c \<and> contState c = cri_Running \<and> contSandbox c = sandID s))"
      proof (cases "conts b' = conts b1 \<and> isl t")
        case True
        with placed1 ok1 sbs2 show ?thesis by auto
      next
        case False
        with e2 b2 obtain c where c: "container_started q (sandID s) c (conts b1) (conts b')"
          unfolding q_def by auto
        have "placed (conts b') (sbs b1)"
          by (rule placed_container [OF placed1 c s(1,2)])
        with c ok1 sbs2 show ?thesis by (auto simp: container_started_def)
      qed
      with sbs2 keep(1) fresh s ans show ?thesis by auto
    qed
  qed
qed

lemma start_one:
  assumes inv: "hosting node a0 b0 D (a, b)" and q: "Name (podMeta p) \<notin> D"
    and p: "res a0 ''Pod'' (Name (podMeta p)) = Some (RPod p)" "assigned_to node p"
    and listed: "as_listed (res a) (p # ps)" and down: "\<not> running (conts b0) (Name (podMeta p))"
    and run: "runPod cri p b = (r, b')"
  shows "harmless node a0 b0 (insert (Name (podMeta p)) D) (a, b') \<and>
    (\<forall>s. r = Inr s \<longrightarrow>
      updateStatus client (p\<lparr>podStatus := (podStatus p)\<lparr>PodIP := sandIP s\<rparr>\<rparr>) PodRunning a = (u, a') \<longrightarrow>
      harmless node a0 b0 (insert (Name (podMeta p)) D) (a', b') \<and>
      (\<not> isl u \<longrightarrow> hosting node a0 b0 (insert (Name (podMeta p)) D) (a', b') \<and>
        (\<exists>x. res a' = put_resource ''Pod'' (Name (podMeta p)) x (res a))))"
proof -
  let ?q = "Name (podMeta p)"
  from inv have ok: "node_ok b" "placed (conts b) (sbs b)" "api_ok a" "statuses node (res a0) (res a)"
    and old: "issued b0 \<subseteq> issued b" "\<And>i x. sbs b0 i = Some x \<Longrightarrow> sbs b i = Some x"
      "\<And>i x. sbs b i = Some x \<Longrightarrow> sbs b0 i = Some x \<or> sandSource x \<noteq> StaticPod \<and> i \<notin> issued b0"
      "\<And>q. q \<notin> D \<Longrightarrow> conts b q = conts b0 q"
      "\<And>q. q \<in> D \<Longrightarrow> hosted (conts b0) (conts b) (sbs b) (res a) q"
    unfolding hosting_def by auto
  note e = runPod_effect [OF ok(1,2) run]
  from e have b': "node_ok b'" "issued b \<subseteq> issued b'" "placed (conts b') (sbs b')"
    and sb: "\<And>i x. sbs b i = Some x \<Longrightarrow> sbs b' i = Some x"
      "\<And>i x. sbs b' i = Some x \<Longrightarrow> sbs b i = Some x \<or> sandSource x \<noteq> StaticPod \<and> i \<notin> issued b"
    and co: "\<And>r. r \<noteq> ?q \<Longrightarrow> conts b' r = conts b r" by blast+
  have keep: "sbs b0 i = Some x \<Longrightarrow> sbs b' i = Some x"
    and fresh: "sbs b' i = Some x \<Longrightarrow> sbs b0 i = Some x \<or> sandSource x \<noteq> StaticPod \<and> i \<notin> issued b0" for i x
    using old(1-3) sb by (blast, blast)
  have others: "r \<notin> insert ?q D \<Longrightarrow> conts b' r = conts b0 r" for r using old(4) co by simp
  have static: "static_untouched (insert ?q D) (conts b0) (sbs b0) (conts b') (sbs b')"
    by (rule static_untouchedI [OF keep fresh others])
  have harmless: "harmless node a0 b0 (insert ?q D) (x, b')" if "api_ok x" "statuses node (res a0) (res x)" for x
    unfolding harmless_def using that b' old(1) static by auto
  show ?thesis
  proof (intro conjI allI impI)
    show "harmless node a0 b0 (insert ?q D) (a, b')" by (rule harmless [OF ok(3,4)])
  next
    fix s assume s: "r = Inr s" and u: "updateStatus client (p\<lparr>podStatus := (podStatus p)\<lparr>PodIP := sandIP s\<rparr>\<rparr>) PodRunning a = (u, a')"
    from status_update [OF ok(3) listed u]
    have a': "api_ok a'" and cases: "isl u \<and> res a' = res a \<or>
      (\<exists>r. reported (sandIP s) p r \<and> res a' = put_resource ''Pod'' ?q (Some r) (res a))" by auto
    have st: "statuses node (res a0) (res a')"
    proof (cases "isl u \<and> res a' = res a")
      case True
      with ok(4) show ?thesis by simp
    next
      case False
      with cases obtain r where "reported (sandIP s) p r" "res a' = put_resource ''Pod'' ?q (Some r) (res a)" by blast
      with statuses_put [OF ok(4) p] show ?thesis by simp
    qed
    show "harmless node a0 b0 (insert ?q D) (a', b')" by (rule harmless [OF a' st])
    assume "\<not> isl u"
    with cases obtain r' where r': "reported (sandIP s) p r'" "res a' = put_resource ''Pod'' ?q (Some r') (res a)" by auto
    then show "\<exists>x. res a' = put_resource ''Pod'' ?q x (res a)" by blast
    from reported_RPod [OF r'(1)] obtain p' where p': "r' = RPod p'"
      "podStatus p' = \<lparr>podPhase = PodRunning, PodIP = sandIP s\<rparr>" by auto
    from e s obtain c where c: "conts b' ?q = Some c" "contState c = cri_Running" "contSandbox c = sandID s"
      "sbs b' (sandID s) = Some s" "sandPod s = ?q" "sandSource s = Workload" by blast
    have "hosted (conts b0) (conts b') (sbs b') (res a') ?q"
      unfolding hosted_def using c p' by (simp add: r'(2) put_resource_apply)
    moreover have "hosted (conts b0) (conts b') (sbs b') (res a') d" if "d \<in> D" for d
    proof -
      from that q have d: "d \<noteq> ?q" by blast
      show ?thesis unfolding r'(2)
        by (rule hosted_extend [OF hosted_put [OF old(5) [OF that] d]]) (use co [OF d] sb(1) in simp_all)
    qed
    ultimately show "hosting node a0 b0 (insert ?q D) (a', b')"
      using a' st b' old(1) keep fresh others unfolding hosting_def by auto
  qed
qed

lemma hosting_running:
  assumes inv: "hosting node a0 b0 D (a, b)" and q: "q \<notin> D"
    and p: "res a ''Pod'' q = Some (RPod p)" "podPhase (podStatus p) = PodRunning"
    and run: "running (conts b0) q"
  shows "hosting node a0 b0 (insert q D) (a, b)"
proof -
  from inv q run have "hosted (conts b0) (conts b) (sbs b) (res a) q"
    using p by (auto simp: hosting_def hosted_def running_def)
  with inv show ?thesis by (auto simp: hosting_def)
qed

lemma run_desired_ok:
  assumes "hosting node a0 b0 D (a, b)" and "as_listed (res a) ps"
    and "\<forall>p\<in>set ps. res a0 ''Pod'' (Name (podMeta p)) = Some (RPod p) \<and> assigned_to node p \<and>
      Name (podMeta p) \<notin> D"
    and current: "\<And>q. fmlookup current q = conts b0 q"
    and "run_desired client cri current ps (a, b) = (ans, (a', b'))"
  shows "harmless node a0 b0 (D \<union> (\<lambda>p. Name (podMeta p)) ` set ps) (a', b') \<and>
    (\<not> isl ans \<longrightarrow> hosting node a0 b0 (D \<union> (\<lambda>p. Name (podMeta p)) ` set ps) (a', b'))"
  using assms(1-3,5)
proof (induction ps arbitrary: D a b)
  case Nil
  then show ?case using hosting_harmless [of node a0 b0 D a b D] by (auto simp: returning_def)
next
  case (Cons p ps)
  let ?q = "Name (podMeta p)" and ?names = "(\<lambda>p. Name (podMeta p)) ` set ps"
  from Cons.prems(3) have p: "res a0 ''Pod'' ?q = Some (RPod p)" "assigned_to node p" "?q \<notin> D" by auto
  have distinct: "?q \<notin> ?names" using Cons.prems(2) by (auto simp: as_listed_def)
  have grow: "insert ?q D \<union> ?names = D \<union> (\<lambda>p. Name (podMeta p)) ` set (p # ps)" by auto
  have rest: "\<forall>p\<in>set ps. res a0 ''Pod'' (Name (podMeta p)) = Some (RPod p) \<and> assigned_to node p \<and>
      Name (podMeta p) \<notin> insert ?q D"
  proof (intro ballI conjI)
    fix x assume x: "x \<in> set ps"
    then have "x \<in> set (p # ps)" by simp
    note bspec [OF Cons.prems(3) this]
    then show "res a0 ''Pod'' (Name (podMeta x)) = Some (RPod x)" "assigned_to node x" by blast+
    from bspec [OF Cons.prems(3) \<open>x \<in> set (p # ps)\<close>] have D: "Name (podMeta x) \<notin> D" by blast
    have "Name (podMeta x) \<noteq> ?q"
    proof
      assume "Name (podMeta x) = ?q"
      from this [symmetric] x have "?q \<in> ?names" by (rule image_eqI)
      with distinct show False by contradiction
    qed
    with D show "Name (podMeta x) \<notin> insert ?q D" by blast
  qed
  have go_on: "?case" if inv: "hosting node a0 b0 (insert ?q D) (a1, b1)" and l: "as_listed (res a1) ps"
      and run: "run_desired client cri current ps (a1, b1) = (ans, (a', b'))" for a1 b1
    using Cons.IH [OF inv l rest run] unfolding grow .
  have stop: "?case" if h: "harmless node a0 b0 (insert ?q D) (a', b')" and e: "isl ans"
  proof -
    have "static_untouched (insert ?q D) m s m' s' \<Longrightarrow>
        static_untouched (D \<union> (\<lambda>p. Name (podMeta p)) ` set (p # ps)) m s m' s'" for m s m' s'
      by (auto simp: static_untouched_def)
    with h e show ?thesis by (simp add: harmless_def)
  qed
  have run_eq: "is_running (fmlookup current ?q) \<longleftrightarrow> running (conts b0) ?q"
    by (auto simp: current is_running_def running_def split: option.splits)
  consider (down) "\<not> running (conts b0) ?q" | (unreported) "running (conts b0) ?q" "podPhase (podStatus p) \<noteq> PodRunning"
    | (fine) "running (conts b0) ?q" "podPhase (podStatus p) = PodRunning" by blast
  then show ?case
  proof cases
    case down
    obtain r b1 where pod: "runPod cri p b = (r, b1)" by fastforce
    show ?thesis
    proof (cases r)
      case (Inl e)
      with Cons.prems(4) down run_eq pod have "isl ans" "a' = a" "b' = b1"
        by (auto simp: andThen_def on_world_def)
      with start_one [OF Cons.prems(1) p(3,1,2) Cons.prems(2) down pod] show ?thesis by (intro stop) auto
    next
      case (Inr s)
      obtain u a1 where up: "updateStatus client (p\<lparr>podStatus := (podStatus p)\<lparr>PodIP := sandIP s\<rparr>\<rparr>) PodRunning a = (u, a1)"
        by fastforce
      note one = start_one [OF Cons.prems(1) p(3,1,2) Cons.prems(2) down pod, of u a1, THEN conjunct2, rule_format, OF Inr up]
      show ?thesis
      proof (cases u)
        case u: (Inl e)
        with Cons.prems(4) down run_eq pod Inr up have "isl ans" "a' = a1" "b' = b1"
          by (auto simp: andThen_def on_world_def on_api_def)
        with one show ?thesis by (intro stop) auto
      next
        case u: (Inr x)
        with Cons.prems(4) down run_eq pod Inr up have run: "run_desired client cri current ps (a1, b1) = (ans, (a', b'))"
          by (auto simp: andThen_def on_world_def on_api_def)
        from one u obtain y where "res a1 = put_resource ''Pod'' ?q y (res a)"
          "hosting node a0 b0 (insert ?q D) (a1, b1)" by auto
        with go_on [OF _ _ run] as_listed_put [OF Cons.prems(2)] show ?thesis by simp
      qed
    qed
  next
    case unreported
    obtain u a1 where up: "updateStatus client p PodRunning a = (u, a1)" by fastforce
    from Cons.prems(1) have ok: "api_ok a" "statuses node (res a0) (res a)" by (auto simp: hosting_def)
    from status_update [OF ok(1) Cons.prems(2), of "podStatus p" u a1] up
    have a1: "api_ok a1" and cases: "isl u \<and> res a1 = res a \<or>
      (\<exists>r. reported (PodIP (podStatus p)) p r \<and> res a1 = put_resource ''Pod'' ?q (Some r) (res a))" by auto
    from unreported(1) Cons.prems(1) p(3) obtain c where c: "conts b ?q = Some c" "contState c = cri_Running"
      by (auto simp: running_def hosting_def)
    have "isl u \<and> res a1 = res a \<Longrightarrow> hosting node a0 b0 D (a1, b)"
      using Cons.prems(1) a1 by (simp add: hosting_def)
    then have either: "isl u \<and> hosting node a0 b0 D (a1, b) \<or>
      hosting node a0 b0 (insert ?q D) (a1, b) \<and> (\<exists>r. res a1 = put_resource ''Pod'' ?q (Some r) (res a))"
      using cases hosting_status [OF Cons.prems(1) p(3,1,2) _ _ a1 c unreported(1)] by blast
    then have safe: "harmless node a0 b0 (insert ?q D) (a1, b)"
      using hosting_harmless [of node a0 b0 _ a1 b "insert ?q D"] by blast
    show ?thesis
    proof (cases u)
      case (Inl e)
      with Cons.prems(4) unreported run_eq up have "isl ans" "a' = a1" "b' = b"
        by (auto simp: andThen_def on_api_def)
      with safe show ?thesis by (intro stop) auto
    next
      case (Inr x)
      with Cons.prems(4) unreported run_eq up have run: "run_desired client cri current ps (a1, b) = (ans, (a', b'))"
        by (auto simp: andThen_def on_api_def)
      from either Inr obtain y where "res a1 = put_resource ''Pod'' ?q y (res a)"
        "hosting node a0 b0 (insert ?q D) (a1, b)" by auto
      with go_on [OF _ _ run] as_listed_put [OF Cons.prems(2)] show ?thesis by simp
    qed
  next
    case fine
    have now: "res a ''Pod'' ?q = Some (RPod p)" using Cons.prems(2) by (simp add: as_listed_def)
    from Cons.prems(4) fine run_eq have run: "run_desired client cri current ps (a, b) = (ans, (a', b'))" by simp
    from go_on [OF hosting_running [OF Cons.prems(1) p(3) now fine(2,1)] as_listed_Cons [OF Cons.prems(2)] run]
    show ?thesis .
  qed
qed

section \<open>The undesired Pods\<close>

text \<open>
  \<open>shrinks pod i b b'\<close>: at most the container of the Pod and those in the sandbox \<open>i\<close> were stopped,
  and the sandbox removed.
\<close>

definition shrinks :: "string \<Rightarrow> string \<Rightarrow> 'b \<Rightarrow> 'b \<Rightarrow> bool" where
  "shrinks pod i b b' \<longleftrightarrow> node_ok b' \<and> issued b \<subseteq> issued b' \<and>
     (sbs b' = sbs b \<or> sbs b' = (sbs b)(i := None)) \<and>
     (\<forall>q. conts b' q = conts b q \<or> (\<exists>c. conts b q = Some c \<and> (q = pod \<or> contSandbox c = i) \<and>
        conts b' q = Some (c\<lparr>contState := cri_Stopped\<rparr>)))"

lemma shrinks_at:
  assumes "shrinks pod i b b'" and "conts b q = Some c"
  shows "conts b' q = Some c \<or> (q = pod \<or> contSandbox c = i) \<and> conts b' q = Some (c\<lparr>contState := cri_Stopped\<rparr>)"
proof -
  from assms(1) have "conts b' q = conts b q \<or> (\<exists>c. conts b q = Some c \<and> (q = pod \<or> contSandbox c = i) \<and>
      conts b' q = Some (c\<lparr>contState := cri_Stopped\<rparr>))" unfolding shrinks_def by blast
  with assms(2) show ?thesis by auto
qed

lemma placed_shrinks:
  assumes "placed (conts b) (sbs b)" and "shrinks pod i b b'"
  shows "placed (conts b') (sbs b')"
  unfolding placed_def
proof (intro allI impI)
  fix q c x assume c: "conts b' q = Some c" and x: "sbs b' (contSandbox c) = Some x"
  from assms(2) have "conts b' q = conts b q \<or> (\<exists>c. conts b q = Some c \<and> conts b' q = Some (c\<lparr>contState := cri_Stopped\<rparr>))"
    unfolding shrinks_def by blast
  then obtain c' where "conts b q = Some c'" "contSandbox c' = contSandbox c" using c by force
  moreover from assms(2) x have "sbs b (contSandbox c) = Some x"
    unfolding shrinks_def by (auto split: if_splits)
  ultimately show "sandPod x = q" using assms(1) by (auto simp: placed_def)
qed

lemma stop_shrinks:
  assumes "node_ok b" and "criStop cri pod b = (ans, b')"
  shows "shrinks pod i b b'" and "\<not> isl ans \<Longrightarrow> \<not> running (conts b') pod"
    and "q \<noteq> pod \<Longrightarrow> conts b' q = conts b q" and "sbs b' = sbs b"
proof -
  have grown: "issued b \<subseteq> issued b'" using stop_issued [OF assms(1), of pod] assms(2) by simp
  have e: "node_ok b' \<and> sbs b' = sbs b \<and> (isl ans \<and> conts b' = conts b \<or> container_stopped pod (conts b) (conts b'))"
    using stop_ok [OF assms(1), of pod b'] stop_error [OF assms(1), of pod _ b'] assms(2) by (cases ans) auto
  with grown show "shrinks pod i b b'" by (auto simp: shrinks_def container_stopped_def)
  show "\<not> isl ans \<Longrightarrow> \<not> running (conts b') pod" and "q \<noteq> pod \<Longrightarrow> conts b' q = conts b q" and "sbs b' = sbs b"
    using e by (auto simp: container_stopped_def running_def)
qed

lemma stop_sandbox_shrinks:
  assumes "node_ok b" and "criStopPodSandbox cri i b = (ans, b')"
  shows "shrinks pod i b b'" and "\<not> isl ans \<Longrightarrow> sbs b i \<noteq> None"
    and "conts b' q = conts b q \<or> (\<exists>c. conts b q = Some c \<and> contSandbox c = i) \<and> \<not> running (conts b') q"
proof -
  note e = stop_pod_sandbox_effect [OF assms]
  then show "shrinks pod i b b'" by (auto simp: shrinks_def containers_of_stopped_def)
  show "\<not> isl ans \<Longrightarrow> sbs b i \<noteq> None"
    using stop_sandbox_ok [OF assms(1), of i b'] assms(2) by (cases ans) auto
  show "conts b' q = conts b q \<or> (\<exists>c. conts b q = Some c \<and> contSandbox c = i) \<and> \<not> running (conts b') q"
  proof -
    from e have "conts b' q = conts b q \<or> (\<exists>c. conts b q = Some c \<and> contSandbox c = i \<and>
        conts b' q = Some (c\<lparr>contState := cri_Stopped\<rparr>))"
      unfolding containers_of_stopped_def by auto
    then show ?thesis by (auto simp: running_def)
  qed
qed

text \<open>
  \<open>clearing b0 b1 D S K b\<close>: of the containers listed in \<open>b0\<close> those of \<open>K\<close> are still to be visited;
  \<open>D\<close> are the desired Pods, started by \<open>b1\<close>, and \<open>S\<close> the identifiers of the static sandboxes.
\<close>

definition safe :: "'b \<Rightarrow> string set \<Rightarrow> 'b \<Rightarrow> bool" where
  "safe b0 D b \<longleftrightarrow> node_ok b \<and> issued b0 \<subseteq> issued b \<and> placed (conts b) (sbs b) \<and>
     static_untouched D (conts b0) (sbs b0) (conts b) (sbs b)"

definition clearing :: "'b \<Rightarrow> 'b \<Rightarrow> string set \<Rightarrow> string set \<Rightarrow> cri_Container list \<Rightarrow> 'b \<Rightarrow> bool" where
  "clearing b0 b1 D S K b \<longleftrightarrow> safe b0 D b \<and>
     (\<forall>q\<in>D. conts b q = conts b1 q) \<and>
     (\<forall>q\<in>D. \<forall>c x. conts b1 q = Some c \<longrightarrow> sbs b1 (contSandbox c) = Some x \<longrightarrow> sbs b (contSandbox c) = Some x) \<and>
     (\<forall>c\<in>set K. contPod c \<notin> D \<longrightarrow> conts b (contPod c) = Some c) \<and>
     (\<forall>q c. q \<notin> D \<longrightarrow> conts b q = Some c \<longrightarrow> contState c = cri_Running \<longrightarrow> contSandbox c \<in> S \<or> c \<in> set K)"

definition static_ids :: "'b \<Rightarrow> string set \<Rightarrow> bool" where
  "static_ids b0 S \<longleftrightarrow> (\<forall>i. i \<in> S \<longleftrightarrow> (\<exists>x. sbs b0 i = Some x \<and> sandSource x = StaticPod))"

lemma safe_shrinks:
  assumes inv: "safe b0 D b" and S: "static_ids b0 S" and c: "conts b pod = Some c" "contSandbox c = i" "i \<notin> S"
    and step: "shrinks pod i b b'"
  shows "safe b0 D b'"
proof -
  from inv have untouched: "static_untouched D (conts b0) (sbs b0) (conts b) (sbs b)" by (simp add: safe_def)
  have sb: "sbs b' = sbs b \<or> sbs b' = (sbs b)(i := None)" using step by (simp add: shrinks_def)
  have "static_untouched D (conts b0) (sbs b0) (conts b') (sbs b')"
    unfolding static_untouched_def
  proof (intro conjI allI impI)
    fix j and x :: cri_Sandbox assume x: "sandSource x = StaticPod"
    with untouched have j: "sbs b j = Some x \<longleftrightarrow> sbs b0 j = Some x" by (simp add: static_untouched_def)
    moreover have "sbs b0 i \<noteq> Some x" using S c(3) x unfolding static_ids_def by blast
    ultimately show "sbs b' j = Some x \<longleftrightarrow> sbs b0 j = Some x" using sb by (auto split: if_splits)
  next
    fix q d x assume d: "q \<notin> D" "conts b0 q = Some d" "sbs b0 (contSandbox d) = Some x" "sandSource x = StaticPod"
    with untouched have now: "conts b q = Some d" unfolding static_untouched_def by blast
    from d S have "contSandbox d \<in> S" unfolding static_ids_def by blast
    with c(3) have "contSandbox d \<noteq> i" by blast
    moreover from this now c have "q \<noteq> pod" by auto
    ultimately show "conts b' q = Some d" using shrinks_at [OF step now] by blast
  qed
  with inv step placed_shrinks [OF _ step] show ?thesis by (auto simp: safe_def shrinks_def)
qed

lemma clearing_skip:
  assumes "clearing b0 b1 D S (c # K) b" and "contSandbox c \<in> S \<or> contPod c \<in> D \<or> contState c \<noteq> cri_Running"
  shows "clearing b0 b1 D S K b"
proof -
  from assms(1) have "node_ok b" by (simp add: clearing_def safe_def)
  then have "contPod d = q" if "conts b q = Some d" for q d using cont_named that by blast
  with assms show ?thesis unfolding clearing_def by fastforce
qed

lemma clearing_change:
  assumes inv: "clearing b0 b1 D S K' b" and safe: "safe b0 D b'"
    and K: "set K \<subseteq> set K'" "\<forall>d\<in>set K'. d \<in> set K \<or> contPod d = pod" "pod \<notin> contPod ` set K" "pod \<notin> D"
    and same: "\<And>q. q \<noteq> pod \<Longrightarrow> conts b' q = conts b q" and down: "\<not> running (conts b') pod"
    and sb: "\<And>q c x. q \<in> D \<Longrightarrow> conts b q = Some c \<Longrightarrow> sbs b (contSandbox c) = Some x \<Longrightarrow>
      sbs b' (contSandbox c) = Some x"
  shows "clearing b0 b1 D S K b'"
  unfolding clearing_def
proof (intro conjI ballI allI impI safe)
  fix q assume q: "q \<in> D"
  with K(4) have "q \<noteq> pod" by blast
  with same inv q show now: "conts b' q = conts b1 q" by (simp add: clearing_def)
  fix c x assume c: "conts b1 q = Some c" and x: "sbs b1 (contSandbox c) = Some x"
  from inv q c have "conts b q = Some c" by (simp add: clearing_def)
  moreover from inv q c x have "sbs b (contSandbox c) = Some x" unfolding clearing_def by blast
  ultimately show "sbs b' (contSandbox c) = Some x" by (rule sb [OF q])
next
  fix c assume c: "c \<in> set K" "contPod c \<notin> D"
  with K(3) have "contPod c \<noteq> pod" by (metis imageI)
  with same K(1) inv c show "conts b' (contPod c) = Some c" by (auto simp: clearing_def)
next
  fix q c assume q: "q \<notin> D" and c: "conts b' q = Some c" "contState c = cri_Running"
  with down have "q \<noteq> pod" by (auto simp: running_def)
  with same c have now: "conts b q = Some c" by simp
  from inv have "node_ok b" by (simp add: clearing_def safe_def)
  from cont_named [OF this now] \<open>q \<noteq> pod\<close> have "contPod c \<noteq> pod" by simp
  moreover from inv q now c(2) have "contSandbox c \<in> S \<or> c \<in> set K'" unfolding clearing_def by blast
  ultimately show "contSandbox c \<in> S \<or> c \<in> set K" using K(2) by blast
qed

lemma clear_one:
  assumes inv: "clearing b0 b1 D S (c # K) b" and S: "static_ids b0 S"
    and distinct: "contPod c \<notin> contPod ` set K"
    and c: "contPod c \<notin> D" "contSandbox c \<notin> S"
    and stop: "criStop cri (contPod c) b = (r, b2)"
    and stop2: "(if contSandbox c \<noteq> [] then criStopPodSandbox cri (contSandbox c) else returning ()) b2 = (t, b3)"
  shows "safe b0 D b2 \<and> safe b0 D b3 \<and> (\<not> isl r \<longrightarrow> \<not> isl t \<longrightarrow> clearing b0 b1 D S K b3)"
proof -
  let ?pod = "contPod c" and ?i = "contSandbox c"
  from inv have safe: "safe b0 D b" and now: "conts b ?pod = Some c" using c(1) by (auto simp: clearing_def)
  then have ok: "node_ok b" by (simp add: safe_def)
  note s1 = stop_shrinks [OF ok stop]
  from safe_shrinks [OF safe S now refl c(2) s1(1)] have safe2: "safe b0 D b2" .
  then have ok2: "node_ok b2" by (simp add: safe_def)
  from shrinks_at [OF s1(1) [of ?i] now]
  obtain c2 where c2: "conts b2 ?pod = Some c2" "contSandbox c2 = ?i" by auto
  have clear2: "clearing b0 b1 D S K b2" if "\<not> isl r"
    by (rule clearing_change [OF inv safe2, where pod = ?pod]) (use distinct c s1(2) that s1(3,4) in auto)
  show ?thesis
  proof (cases "?i = []")
    case True
    with stop2 have "b3 = b2" "\<not> isl t" by (auto simp: returning_def)
    with safe2 clear2 show ?thesis by simp
  next
    case False
    with stop2 have call: "criStopPodSandbox cri ?i b2 = (t, b3)" by simp
    note s2 = stop_sandbox_shrinks [OF ok2 call]
    from safe_shrinks [OF safe2 S c2 c(2) s2(1)] have safe3: "safe b0 D b3" .
    have "clearing b0 b1 D S K b3" if r: "\<not> isl r" and t: "\<not> isl t"
    proof (rule clearing_change [OF clear2 [OF r] safe3, where pod = ?pod])
      from s2(2) [OF t] obtain x where x: "sbs b2 ?i = Some x" by blast
      from safe2 have placed: "placed (conts b2) (sbs b2)" by (simp add: safe_def)
      then have x_pod: "sandPod x = ?pod" using c2 x by (auto simp: placed_def)
      have only: "q = ?pod" if "conts b2 q = Some d" "contSandbox d = ?i" for q d
        using placed that x x_pod by (auto simp: placed_def)
      show "conts b3 q = conts b2 q" if "q \<noteq> ?pod" for q using s2(3) [of q] only that by blast
      show "\<not> running (conts b3) ?pod" using s2(3) [of ?pod] s1(2) [OF r] by (auto simp: running_def)
      show "sbs b3 (contSandbox d) = Some y"
        if "q \<in> D" "conts b2 q = Some d" "sbs b2 (contSandbox d) = Some y" for q d y
      proof -
        have "q \<noteq> ?pod" using that(1) c(1) by blast
        with only that(2) have "contSandbox d \<noteq> ?i" by blast
        with s2(1) [of ?pod] that(3) show ?thesis by (auto simp: shrinks_def)
      qed
    qed (use distinct c in auto)
    with safe2 safe3 show ?thesis by blast
  qed
qed

lemma stop_undesired_ok:
  assumes "clearing b0 b1 D S K b" and S: "static_ids b0 S" and "distinct (map contPod K)"
    and D: "\<And>q. q \<in> D \<longleftrightarrow> fmlookup desired q \<noteq> None"
    and "stop_undesired cri S desired K b = (ans, b')"
  shows "safe b0 D b' \<and> (\<not> isl ans \<longrightarrow> clearing b0 b1 D S [] b')"
  using assms(1,3,5)
proof (induction K arbitrary: b)
  case Nil
  then show ?case by (auto simp: returning_def clearing_def)
next
  case (Cons c K)
  from Cons.prems(2) have distinct: "contPod c \<notin> contPod ` set K" "distinct (map contPod K)" by auto
  show ?case
  proof (cases "contSandbox c \<in> S \<or> contPod c \<in> D \<or> contState c \<noteq> cri_Running")
    case True
    then have "stop_undesired cri S desired (c # K) = stop_undesired cri S desired K"
      using D [of "contPod c"] by auto
    with Cons.prems(3) have "stop_undesired cri S desired K b = (ans, b')" by (simp only:)
    with Cons.IH [OF clearing_skip [OF Cons.prems(1) True] distinct(2)] show ?thesis by blast
  next
    case False
    obtain r b2 where stop: "criStop cri (contPod c) b = (r, b2)" by fastforce
    obtain t b3 where stop2: "(if contSandbox c \<noteq> [] then criStopPodSandbox cri (contSandbox c) else returning ()) b2 = (t, b3)"
      by fastforce
    have one: "safe b0 D b2" "safe b0 D b3" "\<not> isl r \<Longrightarrow> \<not> isl t \<Longrightarrow> clearing b0 b1 D S K b3"
      using clear_one [OF Cons.prems(1) S distinct(1) _ _ stop stop2] False by auto
    have step: "stop_undesired cri S desired (c # K) b =
        andThen (criStop cri (contPod c)) (\<lambda>_.
          andThen (if contSandbox c \<noteq> [] then criStopPodSandbox cri (contSandbox c) else returning ())
            (\<lambda>_. stop_undesired cri S desired K)) b"
      using False D [of "contPod c"] by simp
    show ?thesis
    proof (cases r)
      case (Inl e)
      with step Cons.prems(3) stop have "isl ans" "b' = b2" by (auto simp: andThen_def)
      with one show ?thesis by simp
    next
      case r: (Inr u)
      show ?thesis
      proof (cases t)
        case (Inl e)
        with r step Cons.prems(3) stop stop2 have "isl ans" "b' = b3" by (auto simp: andThen_def)
        with one show ?thesis by simp
      next
        case (Inr v)
        with r step Cons.prems(3) stop stop2 have "stop_undesired cri S desired K b3 = (ans, b')"
          by (auto simp: andThen_def)
        with Cons.IH [OF one(3) distinct(2)] r Inr show ?thesis by simp
      qed
    qed
  qed
qed

section \<open>The reconciliation\<close>

lemma lists_ok:
  assumes "node_ok b" and "criList cri b = (x, b1)" and "criListSandboxes cri b1 = (y, b2)"
  shows "node_ok b1" "conts b1 = conts b" "sbs b1 = sbs b" "node_ok b2" "conts b2 = conts b" "sbs b2 = sbs b"
    and "issued b \<subseteq> issued b1" "issued b \<subseteq> issued b2"
    and "x = Inr cs \<Longrightarrow> distinct (map contPod cs) \<and> set cs = ran (conts b)"
    and "y = Inr ss \<Longrightarrow> set ss = ran (sbs b)"
proof -
  note l = list_ok [OF assms(1,2)]
  then have ok1: "node_ok b1" by simp
  note s = sandboxes_ok [OF ok1 assms(3)]
  from l s show "node_ok b1" "conts b1 = conts b" "sbs b1 = sbs b" "node_ok b2" "conts b2 = conts b" "sbs b2 = sbs b"
    and "x = Inr cs \<Longrightarrow> distinct (map contPod cs) \<and> set cs = ran (conts b)"
    and "y = Inr ss \<Longrightarrow> set ss = ran (sbs b)" by simp_all
  show "issued b \<subseteq> issued b1" using list_issued [OF assms(1)] assms(2) by simp
  moreover have "issued b1 \<subseteq> issued b2" using sandboxes_issued [OF ok1] assms(3) by simp
  ultimately show "issued b \<subseteq> issued b2" by blast
qed

lemma hosted_clearing:
  assumes "clearing b0 b1 D S [] b" and "hosting node a0 b0 D (a, b1)" and "q \<in> D"
  shows "hosted (conts b0) (conts b) (sbs b) (res a) q"
proof -
  from assms(2,3) have "hosted (conts b0) (conts b1) (sbs b1) (res a) q" by (simp add: hosting_def)
  moreover from assms(1,3) have "conts b q = conts b1 q"
    "\<And>c x. conts b1 q = Some c \<Longrightarrow> sbs b1 (contSandbox c) = Some x \<Longrightarrow> sbs b (contSandbox c) = Some x"
    unfolding clearing_def by blast+
  ultimately show ?thesis unfolding hosted_def by metis
qed

lemma hosting_clearing:
  assumes inv: "hosting node a0 b0 D (a, b1)" and D: "D \<subseteq> D'" "D' \<subseteq> D" and ok0: "node_ok b0"
    and K: "set K = ran (conts b0)"
  shows "clearing b0 b1 D' S K b1"
  unfolding clearing_def
proof (intro conjI ballI allI impI)
  from D have D': "D' = D" by blast
  from hosting_harmless [OF inv D(1)] show "safe b0 D' b1" by (simp add: harmless_def safe_def)
  from inv have same: "\<And>q. q \<notin> D \<Longrightarrow> conts b1 q = conts b0 q" by (simp add: hosting_def)
  fix c assume c: "c \<in> set K" "contPod c \<notin> D'"
  then obtain q where "conts b0 q = Some c" by (auto simp: K ran_def)
  with cont_named [OF ok0 this] same c(2) D' show "conts b1 (contPod c) = Some c" by simp
next
  from D have D': "D' = D" by blast
  fix q c assume "q \<notin> D'" and c: "conts b1 q = Some c"
  with inv D' have "conts b0 q = Some c" by (simp add: hosting_def)
  then show "contSandbox c \<in> S \<or> c \<in> set K" by (auto simp: K ran_def)
qed simp_all

definition assigned_pods :: "'a \<Rightarrow> string \<Rightarrow> string set" where
  "assigned_pods a node = {q. \<exists>p. res a ''Pod'' q = Some (RPod p) \<and> assigned_to node p}"

lemma reconcile_workloads_ok:
  assumes ok: "api_ok a" "node_ok b" "placed (conts b) (sbs b)"
    and names: "\<And>name. name \<in> dom (res a ''Pod'') \<Longrightarrow> url_clean name"
    and order: "\<And>xs. mset (order xs) = mset xs"
    and run: "reconcile_workloads order client cri node (a, b) = (ans, (a', b'))"
  defines "D \<equiv> assigned_pods a node"
  shows "api_ok a' \<and> node_ok b' \<and> placed (conts b') (sbs b') \<and> statuses node (res a) (res a') \<and>
    static_untouched D (conts b) (sbs b) (conts b') (sbs b') \<and>
    (\<not> isl ans \<longrightarrow> (\<forall>q\<in>D. hosted (conts b) (conts b') (sbs b') (res a') q) \<and>
      (\<forall>q c. q \<notin> D \<longrightarrow> conts b' q = Some c \<longrightarrow> contState c = cri_Running \<longrightarrow>
        (\<exists>x. sbs b (contSandbox c) = Some x \<and> sandSource x = StaticPod)))"
proof -
  have untouched: "static_untouched D (conts b) (sbs b) (conts b) (sbs b)" by (simp add: static_untouched_def)
  obtain pl a1 where l: "ResourceClient_List client Pods a = (pl, a1)" by fastforce
  obtain cl b1 where c: "criList cri b = (cl, b1)" by fastforce
  obtain sl b2 where s: "criListSandboxes cri b1 = (sl, b2)" by fastforce
  note lists = lists_ok [OF ok(2) c s]
  show ?thesis
  proof (cases "isl pl \<or> isl cl \<or> isl sl")
    case True
    have a1: "api_ok a1" "res a1 = res a"
      using pods.list_error [OF ok(1), of _ a1] pods.list_items(1,2) [OF ok(1), of _ a1] l by (cases pl; force)+
    from True l c s run have "isl ans" "(a', b') = (a1, b) \<or> (a', b') = (a1, b1) \<or> (a', b') = (a1, b2)"
      by (auto simp: reconcile_workloads_def andThen_def on_api_def on_world_def split: sum.splits)
    with a1 ok(2,3) lists(1-6) untouched show ?thesis by auto
  next
    case False
    then obtain ps cs ss where r: "pl = Inr ps" "cl = Inr cs" "sl = Inr ss"
      by (metis isl_def sum.exhaust)
    note listed = pods.list_items [OF ok(1) l [unfolded r]]
    from lists(9) [of cs] lists(10) [of ss] r
    have cs: "distinct (map contPod cs)" "set cs = ran (conts b)" and ss: "set ss = ran (sbs b)" by auto
    define S where "S = sandID ` set (filter (\<lambda>s. sandSource s = StaticPod) ss)"
    define desired where "desired = assignedPods (elems (Items ps)) node"
    have distinct: "distinct (map (\<lambda>p. Name (podMeta p)) (elems (Items ps)))" using listed(3) by simp
    have desired: "fmlookup desired q = Some p \<longleftrightarrow> res a ''Pod'' q = Some (RPod p) \<and> assigned_to node p" for q p
    proof -
      have "p \<in> set (elems (Items ps)) \<and> Name (podMeta p) = q \<longleftrightarrow> res a ''Pod'' q = Some (RPod p)"
      proof
        assume "p \<in> set (elems (Items ps)) \<and> Name (podMeta p) = q"
        with listed(4) [of p] show "res a ''Pod'' q = Some (RPod p)" by auto
      next
        assume p: "res a ''Pod'' q = Some (RPod p)"
        from listed(5) [OF this] have "p \<in> set (elems (Items ps))" by auto
        with pods.named [OF ok(1) p] show "p \<in> set (elems (Items ps)) \<and> Name (podMeta p) = q" by simp
      qed
      then show ?thesis unfolding desired_def assignedPods_lookup [OF distinct] by blast
    qed
    have D: "q \<in> D \<longleftrightarrow> fmlookup desired q \<noteq> None" for q
      using desired by (auto simp: D_def assigned_pods_def)
    have named: "fmlookup desired q = Some p \<Longrightarrow> Name (podMeta p) = q" for q p
      using desired pods.named [OF ok(1)] by fastforce
    define vs where "vs = map_values order desired"
    note vals = map_values_ok [of order desired, OF order named, folded vs_def]
    have S: "static_ids b2 S"
      using ss lists(6) sandbox_named [OF ok(2)] by (fastforce simp: static_ids_def S_def ran_def)
    obtain x a2 b3 where go: "run_desired client cri (containersByPod cs) vs (a1, b2) = (x, (a2, b3))"
      by (metis prod.collapse)
    have vs: "as_listed (res a1) vs" "\<forall>p\<in>set vs. res a1 ''Pod'' (Name (podMeta p)) = Some (RPod p) \<and>
        assigned_to node p \<and> Name (podMeta p) \<notin> {}"
      using vals desired names [OF domI] by (auto simp: as_listed_def listed(2))
    have "hosting node a1 b2 {} (a1, b2)"
      using listed(1) lists(4) ok(3) by (simp add: hosting_def lists(5,6))
    from run_desired_ok [OF this vs _ go] containersByPod_lookup [OF cs cont_named [OF ok(2)]]
    have done1: "harmless node a1 b2 ((\<lambda>p. Name (podMeta p)) ` set vs) (a2, b3)"
      "\<not> isl x \<Longrightarrow> hosting node a1 b2 ((\<lambda>p. Name (podMeta p)) ` set vs) (a2, b3)"
      by (simp_all add: lists(5))
    have vsD: "(\<lambda>p. Name (podMeta p)) ` set vs = D"
    proof (rule set_eqI, rule iffI)
      fix q assume "q \<in> (\<lambda>p. Name (podMeta p)) ` set vs"
      then obtain p where p: "q = Name (podMeta p)" "p \<in> set vs" by blast
      from p(2) vals(2) have "fmlookup desired (Name (podMeta p)) = Some p" by (simp only: mem_Collect_eq)
      with p(1) have "fmlookup desired q = Some p" by (simp only:)
      then show "q \<in> D" unfolding D by simp
    next
      fix q assume "q \<in> D"
      then obtain p where p: "fmlookup desired q = Some p" unfolding D by blast
      from named [OF p] have q: "Name (podMeta p) = q" .
      with p have "fmlookup desired (Name (podMeta p)) = Some p" by (simp only:)
      with vals(2) have "p \<in> set vs" by (simp only: mem_Collect_eq)
      then have "Name (podMeta p) \<in> (\<lambda>p. Name (podMeta p)) ` set vs" by (rule imageI)
      then show "q \<in> (\<lambda>p. Name (podMeta p)) ` set vs" unfolding q .
    qed
    show ?thesis
    proof (cases x)
      case (Inl e)
      with go l c s r run have "isl ans" "a' = a2" "b' = b3"
        by (auto simp: reconcile_workloads_def andThen_def on_api_def on_world_def vs_def desired_def Let_def)
      with done1(1) show ?thesis unfolding vsD by (simp add: harmless_def lists(5,6) listed(2))
    next
      case (Inr u)
      with go l c s r run have stop: "stop_undesired cri S desired cs b3 = (ans, b')" and a': "a' = a2"
        by (auto simp: reconcile_workloads_def andThen_def on_api_def on_world_def vs_def desired_def S_def Let_def
            split: prod.splits)
      from done1(2) Inr have hosting: "hosting node a1 b2 D (a2, b3)" unfolding vsD by simp
      have "clearing b2 b3 D S cs b3"
        by (rule hosting_clearing [OF hosting subset_refl subset_refl lists(4)]) (simp add: cs(2) lists(5))
      from stop_undesired_ok [OF this S cs(1) D stop]
      have fin: "safe b2 D b'" "\<not> isl ans \<Longrightarrow> clearing b2 b3 D S [] b'" by auto
      have "\<exists>x. sbs b (contSandbox c) = Some x \<and> sandSource x = StaticPod"
        if "\<not> isl ans" "q \<notin> D" "conts b' q = Some c" "contState c = cri_Running" for q c
      proof -
        from fin(2) [OF that(1)] that(2-4) have "contSandbox c \<in> S" by (auto simp: clearing_def)
        with S show ?thesis by (simp add: static_ids_def lists(6))
      qed
      with fin hosted_clearing [OF fin(2) hosting] hosting show ?thesis
        by (simp add: safe_def hosting_def a' lists(5,6) listed(2))
    qed
  qed
qed

end

section \<open>Theorems\<close>

lemma node_contract:
  assumes "etcd_server client kvs revision invar" and "runtime_host link os network used"
  shows "kubelet_node (api_client (NewEtcdClient client)) (\<lambda>w. read_view (objects_of (kvs w)))
    (\<lambda>w. invar w \<and> objects_ok (objects_of (kvs w))) (cri_client (runtime_socket link os network))
    (behind rt_conts) (behind rt_sbs) (runtime_host.host_ok used) (\<lambda>s. runtime_host.issued_ids used (snd (fst s)))"
  by (rule kubelet_node.intro [OF etcd_server_cluster_api [OF assms(1)] runtime_host.host_contract [OF assms(2)]])

interpretation plain_node: kubelet_node mem_api mem_res "\<lambda>w. mem_invar w \<and> objects_ok (objects_of (mem_kvs w))"
  plain_cri "behind rt_conts" "behind rt_sbs" "runtime_host.host_ok counted"
  "\<lambda>s. runtime_host.issued_ids counted (snd (fst s))"
  by (rule node_contract [OF mem_etcd_server plain_host.runtime_host_axioms])

text \<open>The Pods a node has to run, and what is stored.\<close>

definition workloads_of :: "string \<Rightarrow> resources \<Rightarrow> string set" where
  "workloads_of node m = {q. \<exists>p. m ''Pod'' q = Some (RPod p) \<and> assigned_to node p}"


definition example_assigned :: mem_etcd where
  "example_assigned = mem_create Pods ((example_pod ''web'')\<lparr>podSpec := (podSpec (example_pod ''web''))\<lparr>NodeName := ''node-1''\<rparr>\<rparr>) mem_empty"

lemma example_assigned_clean: "mem_ok example_assigned \<and> names_clean example_assigned"
  unfolding example_assigned_def
  by (intro mem_create_pod mem_empty_clean) code_simp+


end
