(* ===== verification/TameStores.thy ===== *)
theory TameStores
  imports DeploymentController KubeProxy Workloads
begin

text \<open>
  What the components of the control plane need of a store, and why each of them keeps it: names
  fit into URLs, and no Pod belongs to two ReplicaSets.
\<close>

section \<open>Tame stores\<close>

text \<open>
  Names that a URL can carry, and no Pod with two ReplicaSets as owners: the other clients keep to
  this, and so do the components.
\<close>

definition single_owner :: "Pod \<Rightarrow> bool" where
  "single_owner p \<longleftrightarrow> (\<forall>a\<in>set (elems (OwnerReferences (podMeta p))).
     \<forall>b\<in>set (elems (OwnerReferences (podMeta p))).
     ownerKind a = ''ReplicaSet'' \<longrightarrow> ownerKind b = ''ReplicaSet'' \<longrightarrow> ownerName a = ownerName b)"

definition tame :: "resources \<Rightarrow> bool" where
  "tame m \<longleftrightarrow> (\<forall>kind name. name \<in> dom (m kind) \<longrightarrow> url_clean name) \<and>
     (\<forall>n p. m ''Pod'' n = Some (RPod p) \<longrightarrow> single_owner p)"

lemma tameD:
  assumes "tame m"
  shows "name \<in> dom (m kind) \<Longrightarrow> url_clean name" and "m ''Pod'' n = Some (RPod p) \<Longrightarrow> single_owner p"
  using assms unfolding tame_def by blast+

lemma single_ownerD:
  "single_owner p \<Longrightarrow> a \<in> set (elems (OwnerReferences (podMeta p))) \<Longrightarrow>
    b \<in> set (elems (OwnerReferences (podMeta p))) \<Longrightarrow>
    ownerKind a = ''ReplicaSet'' \<Longrightarrow> ownerKind b = ''ReplicaSet'' \<Longrightarrow> ownerName a = ownerName b"
  unfolding single_owner_def by blast

lemma single_owner_cong:
  "elems (OwnerReferences (podMeta p)) = elems (OwnerReferences (podMeta q)) \<Longrightarrow> single_owner p \<longleftrightarrow> single_owner q"
  unfolding single_owner_def by (erule ssubst) (rule refl)

lemma manages_owner:
  "manages rs p \<Longrightarrow> \<exists>a \<in> set (elems (OwnerReferences (podMeta p))).
    ownerKind a = ''ReplicaSet'' \<and> ownerName a = Name (rsMeta rs)"
  by (auto simp: manages_def hasOwner_def list_ex_iff)

lemma tame_disjoint:
  assumes "tame m" and "Name (rsMeta rs) \<noteq> Name (rsMeta rs')"
  shows "managed_names rs m \<inter> managed_names rs' m = {}"
proof -
  have False if "m ''Pod'' n = Some (RPod p)" "manages rs p" "manages rs' p" for n p
    using single_ownerD [OF tameD(2) [OF assms(1) that(1)]] manages_owner [OF that(2)] manages_owner [OF that(3)] assms(2)
    by metis
  then show ?thesis unfolding managed_names_def by fastforce
qed

lemma elems_norm_owners: "elems (norm_slice s) = elems s"
  by (cases s) (auto simp: norm_slice_def empty_slice_def)

lemma url_clean_append: "url_clean a \<Longrightarrow> url_clean b \<Longrightarrow> url_clean (a @ b)"
  by (simp add: url_clean_def)

lemma url_clean_indexed: "url_clean base \<Longrightarrow> url_clean (indexed_name base i)"
proof -
  have "c \<noteq> CHR ''/'' \<and> c \<noteq> CHR ''?'' \<and> c \<noteq> CHR ''#'' \<and> c \<noteq> CHR ''%'' \<and> \<not> is_control c"
    if "c \<in> set (strconv_Itoa j)" for c j
    using Itoa_chars [OF that] Itoa_clean [OF that] by (auto simp: is_digit_def)
  moreover have "\<not> is_control (CHR ''-'')" by code_simp
  ultimately show "url_clean base \<Longrightarrow> url_clean (indexed_name base i)"
    by (auto simp: url_clean_def indexed_name_def list_all_iff)
qed

lemma url_clean_rs_name: "url_clean (Name (deploymentMeta d)) \<Longrightarrow> url_clean (rs_name d)"
  unfolding rs_name_def by (rule url_clean_append) (simp, code_simp)

text \<open>A change of one kind of resources that adds clean names keeps a store tame.\<close>

lemma tame_step:
  assumes "tame m"
    and "\<And>kind name. m' kind name \<noteq> None \<Longrightarrow> m kind name = None \<Longrightarrow> url_clean name"
    and "\<And>n p. m' ''Pod'' n = Some (RPod p) \<Longrightarrow> m ''Pod'' n \<noteq> Some (RPod p) \<Longrightarrow> single_owner p"
  shows "tame m'"
  unfolding tame_def
proof (intro conjI allI impI)
  fix kind name assume "name \<in> dom (m' kind)"
  then show "url_clean name"
    using assms(2) [of kind name] tameD(1) [OF assms(1), of name kind] by (cases "m kind name") auto
next
  fix n p assume "m' ''Pod'' n = Some (RPod p)"
  then show "single_owner p"
    using assms(3) [of n p] tameD(2) [OF assms(1), of n p] by (cases "m ''Pod'' n = Some (RPod p)") auto
qed

lemma single_owner_read:
  "RPod q = norm_Resource (SetResourceVersion v (RPod p)) \<Longrightarrow> single_owner q \<longleftrightarrow> single_owner p"
  by (rule single_owner_cong) (simp add: norm_Pod_def norm_ObjectMeta_def elems_norm_owners)

lemma single_owner_newPod: "single_owner (newPod rs n)"
  by (simp add: single_owner_def newPod_def Let_def)

lemma tame_deploys:
  assumes "tame m" and "deploys DS m m'" and "\<And>d. d \<in> DS \<Longrightarrow> url_clean (Name (deploymentMeta d))"
  shows "tame m'"
proof (rule tame_step [OF assms(1)])
  have other: "m' kind = m kind" if "kind \<noteq> ''ReplicaSet''" for kind
    using assms(2) that by (simp add: deploys_def)
  show "url_clean name" if "m' kind name \<noteq> None" "m kind name = None" for kind name
    using that other [of kind] deploysD [OF assms(2), of name] url_clean_rs_name assms(3)
    by (cases "kind = ''ReplicaSet''") auto
  show "single_owner p" if "m' ''Pod'' n = Some (RPod p)" "m ''Pod'' n \<noteq> Some (RPod p)" for n p
    using that other [of "''Pod''"] by simp
qed

lemma tame_scales:
  assumes "tame m" and "scales RS m m'" and "\<And>rs. rs \<in> RS \<Longrightarrow> m ''ReplicaSet'' (Name (rsMeta rs)) \<noteq> None"
  shows "tame m'"
proof (rule tame_step [OF assms(1)])
  have clean: "url_clean (Name (rsMeta rs))" if "rs \<in> RS" for rs
    using tameD(1) [OF assms(1)] assms(3) [OF that] by blast
  have pod: "url_clean n \<and> (\<forall>p. r = RPod p \<longrightarrow> single_owner p)" if "rs \<in> RS" "created_for rs n r" for rs n r
  proof -
    have "''Pod'' \<noteq> ''Service''" by simp
    with that(2) obtain i v where n: "n = indexed_name (Name (rsMeta rs)) i"
      and r: "r = norm_Resource (SetResourceVersion v (RPod (newPod rs n)))"
      unfolding created_for_def stored_form_def by blast
    from url_clean_indexed [OF clean [OF that(1)]] n have "url_clean n" by simp
    moreover have "single_owner p" if "r = RPod p" for p
      using single_owner_read [of p v "newPod rs n"] that r single_owner_newPod by simp
    ultimately show ?thesis by simp
  qed
  show "url_clean name" if "m' kind name \<noteq> None" "m kind name = None" for kind name
  proof -
    consider "kind = ''Pod''" | "kind = ''ReplicaSet''" | "m' kind = m kind"
      using assms(2) unfolding scales_def by blast
    then show ?thesis
    proof cases
      case 1
      with that scales_podD [OF assms(2), of name] pod show ?thesis by auto
    next
      case 2
      with that scales_rsD [OF assms(2), of name] clean show ?thesis by auto
    qed (use that in simp)
  qed
  show "single_owner p" if "m' ''Pod'' n = Some (RPod p)" "m ''Pod'' n \<noteq> Some (RPod p)" for n p
    using that scales_podD [OF assms(2), of n] pod by auto
qed

lemma tame_scheduled:
  assumes "tame m" and "scheduled m m'"
  shows "tame m'"
proof (rule tame_step [OF assms(1)])
  have other: "m' kind = m kind" if "kind \<noteq> ''Pod''" for kind
    using assms(2) that by (simp add: scheduled_def)
  have pod: "m' ''Pod'' n = m ''Pod'' n \<or> (\<exists>p r k. m ''Pod'' n = Some (RPod p) \<and> m' ''Pod'' n = Some r \<and> bound_to k p r)" for n
    using assms(2) unfolding scheduled_def by metis
  show "url_clean name" if "m' kind name \<noteq> None" "m kind name = None" for kind name
    using that other [of kind] pod [of name] by (cases "kind = ''Pod''") auto
  show "single_owner q" if q: "m' ''Pod'' n = Some (RPod q)" "m ''Pod'' n \<noteq> Some (RPod q)" for n q
  proof -
    from pod [of n] q obtain p k where p: "m ''Pod'' n = Some (RPod p)" "bound_to k p (RPod q)" by auto
    then have "single_owner q \<longleftrightarrow> single_owner (bind_pod (Name (nodeMeta k)) p)"
      unfolding bound_to_def by (elim conjE exE) (rule single_owner_read)
    moreover have "single_owner (bind_pod (Name (nodeMeta k)) p) \<longleftrightarrow> single_owner p"
      by (rule single_owner_cong) (simp add: bind_pod_def)
    ultimately show ?thesis using tameD(2) [OF assms(1) p(1)] by simp
  qed
qed

lemma tame_statuses:
  assumes "tame m" and "statuses node m m'"
  shows "tame m'"
proof (rule tame_step [OF assms(1)])
  have other: "m' kind = m kind" if "kind \<noteq> ''Pod''" for kind
    using assms(2) that by (simp add: statuses_def)
  have pod: "m' ''Pod'' n = m ''Pod'' n \<or> (\<exists>p ip r. m ''Pod'' n = Some (RPod p) \<and> m' ''Pod'' n = Some r \<and> reported ip p r)" for n
    using assms(2) unfolding statuses_def by metis
  show "url_clean name" if "m' kind name \<noteq> None" "m kind name = None" for kind name
    using that other [of kind] pod [of name] by (cases "kind = ''Pod''") auto
  show "single_owner q" if q: "m' ''Pod'' n = Some (RPod q)" "m ''Pod'' n \<noteq> Some (RPod q)" for n q
  proof -
    from pod [of n] q obtain p ip where p: "m ''Pod'' n = Some (RPod p)" "reported ip p (RPod q)" by auto
    then have "single_owner q \<longleftrightarrow> single_owner (with_status ip p)"
      unfolding reported_def by (elim conjE exE) (rule single_owner_read)
    moreover have "single_owner (with_status ip p) \<longleftrightarrow> single_owner p"
      by (rule single_owner_cong) (simp add: with_status_def)
    ultimately show ?thesis using tameD(2) [OF assms(1) p(1)] by simp
  qed
qed

text \<open>Reporting a status does not move a Pod.\<close>

lemma map_has_key_read: "map_has_key (norm_map l) k \<longleftrightarrow> map_has_key l k"
  by (cases l) (auto simp: map_has_key_def norm_map_def empty_map_def fmdom_notD)

lemma isMirrorPod_read:
  "RPod q = norm_Resource (SetResourceVersion v (RPod p)) \<Longrightarrow> isMirrorPod q \<longleftrightarrow> isMirrorPod p"
  by (simp add: isMirrorPod_def norm_Pod_def norm_ObjectMeta_def map_has_key_read)

lemma assigned_to_reported: "reported ip p (RPod q) \<Longrightarrow> assigned_to node q \<longleftrightarrow> assigned_to node p"
  unfolding reported_def
  by (elim exE, frule isMirrorPod_read)
    (simp add: assigned_to_def with_status_def norm_Pod_def norm_PodSpec_def isMirrorPod_def)

lemma statuses_workloads:
  assumes "statuses node m m'"
  shows "workloads_of node' m' = workloads_of node' m"
proof -
  have "(\<exists>p. m' ''Pod'' q = Some (RPod p) \<and> assigned_to node' p) \<longleftrightarrow>
      (\<exists>p. m ''Pod'' q = Some (RPod p) \<and> assigned_to node' p)" for q
  proof -
    from assms have "m' ''Pod'' q = m ''Pod'' q \<or>
        (\<exists>p ip r. m ''Pod'' q = Some (RPod p) \<and> m' ''Pod'' q = Some r \<and> reported ip p r)"
      unfolding statuses_def by metis
    then show ?thesis
    proof (elim disjE exE conjE)
      fix p ip r assume p: "m ''Pod'' q = Some (RPod p)" "m' ''Pod'' q = Some r" "reported ip p r"
      from reported_RPod [OF p(3)] obtain p' where "r = RPod p'" by blast
      with p assigned_to_reported [of ip p p' node'] show ?thesis by simp
    qed simp
  qed
  then show ?thesis by (simp add: workloads_of_def)
qed

end
