(* ===== verification/ControlLoops.thy ===== *)
theory ControlLoops
  imports ReconcileLoop ClientStack
begin

text \<open>
  Several reconcilers on one world, each in its loop of \<^verbatim>\<open>api/reconcile.go\<close>. A step is the next
  answer of one loop, or a change somebody else makes. The locale \<open>control_loops\<close> states what a
  reconciler promises, and shows what holds of the world when a loop rests.
\<close>

section \<open>The loops\<close>

record watch_loop =
  loopControl :: loop_state
  loopWatching :: bool
  loopNotified :: bool

text \<open>
  The operations of each component, the things it watches, and what there is to see of each thing
  in a world.
\<close>

record ('i, 'p, 'k, 'v) reconcilers =
  opWatch :: "'i \<Rightarrow> ('p, goerror option list) operation"
  opReconcile :: "'i \<Rightarrow> ('p, unit) operation"
  watches :: "'i \<Rightarrow> 'k set"
  observes :: "'p \<Rightarrow> 'k \<Rightarrow> 'v"

record ('i, 'p) plane =
  planeWorld :: 'p
  planeLoops :: "'i \<Rightarrow> watch_loop"

definition plane_start :: "'p \<Rightarrow> ('i, 'p) plane" where
  "plane_start p = \<lparr>planeWorld = p, planeLoops = (\<lambda>i.
     \<lparr>loopControl = loop_start, loopWatching = False, loopNotified = False\<rparr>)\<rparr>"

text \<open>A new world: the loops whose watch is open are told of a change of what they watch.\<close>

definition moved :: "('i, 'p, 'k, 'v) reconcilers \<Rightarrow> 'p \<Rightarrow> ('i, 'p) plane \<Rightarrow> ('i, 'p) plane" where
  "moved R p' s = s\<lparr>planeWorld := p', planeLoops := (\<lambda>i. (planeLoops s i)\<lparr>loopNotified :=
     loopNotified (planeLoops s i) \<or> loopWatching (planeLoops s i) \<and>
       (\<exists>k\<in>watches R i. observes R p' k \<noteq> observes R (planeWorld s) k)\<rparr>)\<rparr>"

definition controlled :: "'i \<Rightarrow> loop_state \<Rightarrow> ('i, 'p) plane \<Rightarrow> ('i, 'p) plane" where
  "controlled i c s =
     s\<lparr>planeLoops := (planeLoops s)(i := (planeLoops s i)\<lparr>loopControl := c\<rparr>)\<rparr>"

definition watching_set :: "'i \<Rightarrow> bool \<Rightarrow> ('i, 'p) plane \<Rightarrow> ('i, 'p) plane" where
  "watching_set i b s = s\<lparr>planeLoops := (planeLoops s)(i :=
     (planeLoops s i)\<lparr>loopWatching := b, loopNotified := False\<rparr>)\<rparr>"

text \<open>
  \<open>env\<close> is what others may do to the world, \<open>own i\<close> what component \<open>i\<close> may do to its memory. A
  reconciliation takes effect at once as long as nothing it watches changes meanwhile; if something
  does, its writes are steps of \<open>others\<close>, and it ends in a step \<open>disturbed\<close>, with any result.
\<close>

inductive plane_step ::
    "('i, 'p, 'k, 'v) reconcilers \<Rightarrow> ('p \<Rightarrow> 'p \<Rightarrow> bool) \<Rightarrow> ('i \<Rightarrow> 'p \<Rightarrow> 'p \<Rightarrow> bool) \<Rightarrow>
      ('i, 'p) plane \<Rightarrow> ('i, 'p) plane \<Rightarrow> bool"
  for R env own where
  others: "env (planeWorld s) p' \<Longrightarrow> plane_step R env own s (moved R p' s)"
| opened: "opWatch R i (planeWorld s) = (Inr events, p') \<Longrightarrow>
    loop_step (loopControl (planeLoops s i)) WatchOpened = Some (c, out) \<Longrightarrow>
    plane_step R env own s (watching_set i True (controlled i c (moved R p' s)))"
| not_opened: "opWatch R i (planeWorld s) = (Inl e, p') \<Longrightarrow>
    loop_step (loopControl (planeLoops s i)) (WatchError e) = Some (c, out) \<Longrightarrow>
    plane_step R env own s (watching_set i False (controlled i c (moved R p' s)))"
| reconciled: "opReconcile R i (planeWorld s) = (Inr u, p') \<Longrightarrow>
    loop_step (loopControl (planeLoops s i)) Reconciled = Some (c, out) \<Longrightarrow>
    plane_step R env own s (controlled i c (moved R p' s))"
| failed: "opReconcile R i (planeWorld s) = (Inl e, p') \<Longrightarrow>
    loop_step (loopControl (planeLoops s i)) (ReconcileError e) = Some (c, out) \<Longrightarrow>
    plane_step R env own s (controlled i c (moved R p' s))"
| disturbed: "loopNotified (planeLoops s i) \<Longrightarrow> own i (planeWorld s) p' \<Longrightarrow>
    a = Reconciled \<or> a = ReconcileError e \<Longrightarrow>
    loop_step (loopControl (planeLoops s i)) a = Some (c, out) \<Longrightarrow>
    plane_step R env own s (controlled i c (moved R p' s))"
| answered: "a \<in> {TimerElapsed, WatchClosed} \<union> range EventReceived \<union> range ContextDone \<Longrightarrow>
    loop_step (loopControl (planeLoops s i)) a = Some (c, out) \<Longrightarrow>
    plane_step R env own s (controlled i c s)"

lemma plane_simps [simp]:
  "planeWorld (plane_start p) = p" "planeWorld (moved R p' s) = p'"
  "planeWorld (controlled i c s) = planeWorld s" "planeWorld (watching_set i b s) = planeWorld s"
  "loopControl (planeLoops (plane_start p) j) = loop_start"
  "loopControl (planeLoops (moved R p' s) j) = loopControl (planeLoops s j)"
  "loopControl (planeLoops (controlled i c s) j) = (if j = i then c else loopControl (planeLoops s j))"
  "loopControl (planeLoops (watching_set i b s) j) = loopControl (planeLoops s j)"
  "loopWatching (planeLoops (moved R p' s) j) = loopWatching (planeLoops s j)"
  "loopWatching (planeLoops (controlled i c s) j) = loopWatching (planeLoops s j)"
  "loopWatching (planeLoops (watching_set i b s) j) = (if j = i then b else loopWatching (planeLoops s j))"
  "loopNotified (planeLoops (controlled i c s) j) = loopNotified (planeLoops s j)"
  "loopNotified (planeLoops (watching_set i b s) j) = (j \<noteq> i \<and> loopNotified (planeLoops s j))"
  "loopNotified (planeLoops (moved R p' s) j) \<longleftrightarrow> loopNotified (planeLoops s j) \<or>
     loopWatching (planeLoops s j) \<and> (\<exists>k\<in>watches R j. observes R p' k \<noteq> observes R (planeWorld s) k)"
  by (auto simp: plane_start_def moved_def controlled_def watching_set_def)

text \<open>A loop whose reconciliation changes nothing to be seen comes to rest, and no other loop notices.\<close>

lemma moved_unseen:
  "observes R p' = observes R (planeWorld s) \<Longrightarrow> moved R p' s = s\<lparr>planeWorld := p'\<rparr>"
  by (simp add: moved_def)

lemma quiet_round:
  assumes "opWatch R i (planeWorld s) = (Inr events, p1)" and "observes R p1 = observes R (planeWorld s)"
    and "opReconcile R i p1 = (Inr u, p2)" and "observes R p2 = observes R p1"
    and "phase (loopControl (planeLoops s i)) = Opening"
  shows "\<exists>s'. (plane_step R env own)\<^sup>*\<^sup>* s s' \<and> planeWorld s' = p2 \<and>
    phase (loopControl (planeLoops s' i)) = Waiting \<and> \<not> loopNotified (planeLoops s' i) \<and>
    (\<forall>j. j \<noteq> i \<longrightarrow> planeLoops s' j = planeLoops s j)"
proof -
  obtain c out where open_step: "loop_step (loopControl (planeLoops s i)) WatchOpened = Some (c, out)"
    and c: "phase c = Reconciling"
    using assms(5) by (auto simp: loop_step_def)
  obtain c' out' where reconcile_step: "loop_step c Reconciled = Some (c', out')" and c': "phase c' = Waiting"
    using c by (auto simp: loop_step_def)
  define s1 where "s1 = watching_set i True (controlled i c (moved R p1 s))"
  have s1: "planeWorld s1 = p1" "loopControl (planeLoops s1 i) = c" "\<not> loopNotified (planeLoops s1 i)"
    by (simp_all add: s1_def)
  define s2 where "s2 = controlled i c' (moved R p2 s1)"
  have "plane_step R env own s s1" unfolding s1_def by (rule plane_step.opened [OF assms(1) open_step])
  moreover have "plane_step R env own s1 s2"
    unfolding s2_def
    by (rule plane_step.reconciled [where u = u and out = out']) (simp_all add: s1 assms(3) reconcile_step)
  ultimately have "(plane_step R env own)\<^sup>*\<^sup>* s s2" by (meson converse_rtranclp_into_rtranclp r_into_rtranclp)
  moreover have "planeLoops s2 j = planeLoops s j" if "j \<noteq> i" for j
    using that moved_unseen [of R p1 s] moved_unseen [of R p2 s1] assms(2,4) s1(1)
    by (simp add: s2_def s1_def controlled_def watching_set_def)
  moreover have "\<not> loopNotified (planeLoops s2 i)"
    using moved_unseen [of R p2 s1] assms(4) s1 by (simp add: s2_def)
  ultimately show ?thesis
    by (intro exI [of _ s2]) (simp add: s2_def c')
qed

text \<open>One round of each of the components \<open>is\<close>, in which nothing changes that one can see.\<close>

fun quiet :: "('i, 'p, 'k, 'v) reconcilers \<Rightarrow> 'i list \<Rightarrow> 'p \<Rightarrow> 'p \<Rightarrow> bool" where
  "quiet R [] p q \<longleftrightarrow> q = p"
| "quiet R (i # is) p q \<longleftrightarrow> (\<exists>events p1 u p2. opWatch R i p = (Inr events, p1) \<and> observes R p1 = observes R p \<and>
     opReconcile R i p1 = (Inr u, p2) \<and> observes R p2 = observes R p1 \<and> quiet R is p2 q)"

lemma quiet_rounds:
  assumes "quiet R is (planeWorld s) q" and "distinct is"
    and "\<And>i. i \<in> set is \<Longrightarrow> phase (loopControl (planeLoops s i)) = Opening"
  shows "\<exists>s'. (plane_step R env own)\<^sup>*\<^sup>* s s' \<and> planeWorld s' = q \<and>
    (\<forall>i\<in>set is. phase (loopControl (planeLoops s' i)) = Waiting \<and> \<not> loopNotified (planeLoops s' i)) \<and>
    (\<forall>j. j \<notin> set is \<longrightarrow> planeLoops s' j = planeLoops s j)"
  using assms
proof (induction "is" arbitrary: s)
  case Nil
  then show ?case by (intro exI [of _ s]) simp
next
  case (Cons i "is")
  from Cons.prems(1) obtain events p1 u p2 where run: "opWatch R i (planeWorld s) = (Inr events, p1)"
    "observes R p1 = observes R (planeWorld s)" "opReconcile R i p1 = (Inr u, p2)"
    "observes R p2 = observes R p1" and rest: "quiet R is p2 q" by auto
  have "phase (loopControl (planeLoops s i)) = Opening" using Cons.prems(3) by simp
  from quiet_round [OF run this] obtain s1 where s1: "(plane_step R env own)\<^sup>*\<^sup>* s s1" "planeWorld s1 = p2"
    "phase (loopControl (planeLoops s1 i)) = Waiting" "\<not> loopNotified (planeLoops s1 i)"
    "\<forall>j. j \<noteq> i \<longrightarrow> planeLoops s1 j = planeLoops s j" by blast
  have "phase (loopControl (planeLoops s1 j)) = Opening" if "j \<in> set is" for j
  proof -
    have "j \<noteq> i" using that Cons.prems(2) by auto
    with s1(5) Cons.prems(3) [of j] that show ?thesis by simp
  qed
  from Cons.IH [of s1, OF _ _ this] rest s1(2) Cons.prems(2) obtain s2 where s2: "(plane_step R env own)\<^sup>*\<^sup>* s1 s2"
    "planeWorld s2 = q"
    "\<forall>i\<in>set is. phase (loopControl (planeLoops s2 i)) = Waiting \<and> \<not> loopNotified (planeLoops s2 i)"
    "\<forall>j. j \<notin> set is \<longrightarrow> planeLoops s2 j = planeLoops s1 j" by auto
  with s1 Cons.prems(2) show ?case
    by (intro exI [of _ s2] conjI rtranclp_trans [OF s1(1) s2(1)] allI ballI impI) auto
qed

section \<open>The contract of a reconciler\<close>

text \<open>
  \<open>mem i\<close> is what component \<open>i\<close> remembers between reconciliations. A successful reconciliation
  reaches the goal of its component, and the goal depends on what the component watches and
  remembers only.
\<close>

locale control_loops =
  fixes R :: "('i, 'p, 'k, 'v) reconcilers" and env :: "'p \<Rightarrow> 'p \<Rightarrow> bool" and own :: "'i \<Rightarrow> 'p \<Rightarrow> 'p \<Rightarrow> bool"
    and ok :: "'p \<Rightarrow> bool" and mem :: "'i \<Rightarrow> 'p \<Rightarrow> 'm" and goal :: "'i \<Rightarrow> 'p \<Rightarrow> bool"
  assumes env_keeps: "ok p \<Longrightarrow> env p p' \<Longrightarrow> ok p' \<and> mem i p' = mem i p"
    and own_keeps: "ok p \<Longrightarrow> own i p p' \<Longrightarrow>
      ok p' \<and> observes R p' = observes R p \<and> (j \<noteq> i \<longrightarrow> mem j p' = mem j p)"
    and watch_keeps: "ok p \<Longrightarrow> opWatch R i p = (events, p') \<Longrightarrow>
      ok p' \<and> observes R p' = observes R p \<and> mem j p' = mem j p"
    and reconcile_keeps: "ok p \<Longrightarrow> opReconcile R i p = (ans, p') \<Longrightarrow>
      ok p' \<and> (j \<noteq> i \<longrightarrow> mem j p' = mem j p)"
    and reconcile_goal: "ok p \<Longrightarrow> opReconcile R i p = (Inr u, p') \<Longrightarrow> goal i p'"
    and goal_local: "ok p \<Longrightarrow> ok p' \<Longrightarrow> goal i p \<Longrightarrow> mem i p' = mem i p \<Longrightarrow>
      (\<And>k. k \<in> watches R i \<Longrightarrow> observes R p' k = observes R p k) \<Longrightarrow> goal i p'"

context control_loops begin

definition rests :: "'i \<Rightarrow> ('i, 'p) plane \<Rightarrow> bool" where
  "rests i s \<longleftrightarrow>
     (phase (loopControl (planeLoops s i)) \<in> {Reconciling, Waiting} \<longrightarrow> loopWatching (planeLoops s i)) \<and>
     (phase (loopControl (planeLoops s i)) = Waiting \<longrightarrow>
       loopNotified (planeLoops s i) \<or> goal i (planeWorld s))"

lemma rests_moved:
  assumes "rests i s" and "ok (planeWorld s)" and "ok p'" and "mem i p' = mem i (planeWorld s)"
  shows "rests i (moved R p' s)"
  using assms goal_local [of "planeWorld s" p' i] by (auto simp: rests_def)

lemma rests_controlled:
  "rests i s \<Longrightarrow> i = j \<longrightarrow> phase c \<notin> {Reconciling, Waiting} \<Longrightarrow> rests i (controlled j c s)"
  by (auto simp: rests_def)

lemma plane_step_rests:
  assumes "plane_step R env own s s'" and "ok (planeWorld s)" and "\<And>i. rests i s"
  shows "ok (planeWorld s') \<and> (\<forall>i. rests i s')"
  using assms
proof (induction rule: plane_step.induct)
  case (others s p')
  with env_keeps [OF others(2,1)] show ?case by (auto intro: rests_moved)
next
  case (opened i s events p' c out)
  from watch_keeps [OF opened(3,1)] have p': "ok p'" "observes R p' = observes R (planeWorld s)"
    "\<And>j. mem j p' = mem j (planeWorld s)" by simp_all
  have "rests j (watching_set i True (controlled i c (moved R p' s)))" for j
    using rests_moved [OF opened(4) [of j] opened(3) p'(1,3)] opened(2)
    by (auto simp: rests_def loop_step_iff)
  with p'(1) show ?case by simp
next
  case (not_opened i s e p' c out)
  from watch_keeps [OF not_opened(3,1)] have p': "ok p'" "\<And>j. mem j p' = mem j (planeWorld s)" by simp_all
  have "rests j (watching_set i False (controlled i c (moved R p' s)))" for j
    using rests_moved [OF not_opened(4) [of j] not_opened(3) p'] not_opened(2)
    by (auto simp: rests_def loop_step_iff)
  with p'(1) show ?case by simp
next
  case (reconciled i s u p' c out)
  from reconcile_keeps [OF reconciled(3,1)] have p': "ok p'" "\<And>j. j \<noteq> i \<Longrightarrow> mem j p' = mem j (planeWorld s)"
    by simp_all
  have "rests j (controlled i c (moved R p' s))" for j
  proof (cases "j = i")
    case True
    with reconcile_goal [OF reconciled(3,1)] reconciled(2) reconciled(4) [of i] show ?thesis
      by (auto simp: rests_def loop_step_iff)
  next
    case False
    with rests_moved [OF reconciled(4) reconciled(3) p'(1) p'(2) [OF False]] show ?thesis
      by (auto intro: rests_controlled)
  qed
  with p'(1) show ?case by simp
next
  case (failed i s e p' c out)
  from reconcile_keeps [OF failed(3,1)] have p': "ok p'" "\<And>j. j \<noteq> i \<Longrightarrow> mem j p' = mem j (planeWorld s)"
    by simp_all
  have "rests j (controlled i c (moved R p' s))" for j
  proof (cases "j = i")
    case True
    with failed(2) show ?thesis by (auto simp: rests_def loop_step_iff)
  next
    case False
    with rests_moved [OF failed(4) failed(3) p'(1) p'(2) [OF False]] show ?thesis
      by (auto intro: rests_controlled)
  qed
  with p'(1) show ?case by simp
next
  case (disturbed s i p' a e c out)
  from own_keeps [OF disturbed(5,2)] have p': "ok p'" "\<And>j. j \<noteq> i \<Longrightarrow> mem j p' = mem j (planeWorld s)"
    by simp_all
  have "rests j (controlled i c (moved R p' s))" for j
  proof (cases "j = i")
    case True
    with disturbed(1,3,4) disturbed(6) [of i] show ?thesis by (auto simp: rests_def loop_step_iff)
  next
    case False
    with rests_moved [OF disturbed(6) disturbed(5) p'(1) p'(2) [OF False]] show ?thesis
      by (auto intro: rests_controlled)
  qed
  with p'(1) show ?case by simp
next
  case (answered a s i c out)
  have "rests j (controlled i c s)" for j
    using answered(1,2) by (intro rests_controlled answered(4)) (auto simp: loop_step_iff)
  with answered(3) show ?case by simp
qed

text \<open>
  Whenever a loop waits and nothing is on its way, its goal is reached, whatever the others have
  done and are doing.
\<close>

lemma resting_goal:
  assumes "(plane_step R env own)\<^sup>*\<^sup>* (plane_start p) s" and "ok p"
    and "phase (loopControl (planeLoops s i)) = Waiting" and "\<not> loopNotified (planeLoops s i)"
  shows "ok (planeWorld s) \<and> goal i (planeWorld s)"
proof -
  from assms(1) have "ok (planeWorld s) \<and> (\<forall>i. rests i s)"
  proof (induction rule: rtranclp_induct)
    case base
    from assms(2) show ?case by (simp add: rests_def loop_start_def)
  next
    case (step s s')
    with plane_step_rests show ?case by blast
  qed
  with assms(3,4) show ?thesis by (auto simp: rests_def)
qed

end

end
