(* ===== verification/ControlPlane.thy ===== *)
theory ControlPlane
  imports TameStores ControlLoops
begin

text \<open>
  The cluster at work: the two controllers, the scheduler, and on every node the service proxy and
  the kubelet, each in its loop, all on one API server. The theorems are about a cluster that
  rests, reached in any interleaving of their steps with those of others.
\<close>

section \<open>The components and their loops\<close>

text \<open>The \<^verbatim>\<open>Run\<close> of a component: what it hands to \<^verbatim>\<open>api.Run\<close>, the reconciliation and the watch.\<close>

type_synonym 'p run_arguments = "('p, unit) operation \<times> ('p, goerror option list) operation"

definition DeploymentController_Run :: "'w Client \<Rightarrow> 'w run_arguments" where
  "DeploymentController_Run client = (DeploymentController_Reconcile client, DeploymentController_watch client)"

definition ReplicaSetController_Run :: "'w Client \<Rightarrow> 'w run_arguments" where
  "ReplicaSetController_Run client = (ReplicaSetController_Reconcile client, ReplicaSetController_watch client)"

definition Scheduler_Run :: "'w Client \<Rightarrow> (nat \<times> 'w) run_arguments" where
  "Scheduler_Run client = (Scheduler_Reconcile client, on_world (Scheduler_watch client))"

definition KubeProxy_Run ::
    "'w Client \<Rightarrow> (Rule list \<Rightarrow> ('w, unit) operation) \<Rightarrow> (KubeProxy \<times> 'w) run_arguments" where
  "KubeProxy_Run client forward = (KubeProxy_Reconcile client forward, on_world (KubeProxy_watch client))"

text \<open>The kubelet enters its loop after \<open>Kubelet_start\<close>.\<close>

definition Kubelet_Run ::
    "(Pod list \<Rightarrow> Pod list) \<Rightarrow> 'b manifests \<Rightarrow> (string \<Rightarrow> ('b, unit list) operation) \<Rightarrow> ('w, 'b) Kubelet \<Rightarrow>
      ('w \<times> 'b) run_arguments" where
  "Kubelet_Run order files watchDirectory kubelet =
     (Kubelet_Reconcile order files kubelet, Kubelet_watch watchDirectory kubelet)"

text \<open>A kubelet without static Pods, as on a worker node.\<close>

definition worker ::
    "(Pod list \<Rightarrow> Pod list) \<Rightarrow> 'b manifests \<Rightarrow> (string \<Rightarrow> ('b, unit list) operation) \<Rightarrow> 'w Client \<Rightarrow> 'b CRI \<Rightarrow>
      string \<Rightarrow> string \<Rightarrow> ('w \<times> 'b) run_arguments" where
  "worker order files watchDirectory client cri node cidr =
     Kubelet_Run order files watchDirectory (NewWithManifestDirAndPodCIDR (Some client) cri node [] cidr)"

text \<open>
  \<^verbatim>\<open>Run\<close> of the controller manager starts both loops and takes their results as they arrive: it
  answers the first error, or nil after two results; \<open>None\<close> while it waits.
\<close>

fun controllers_result :: "goerror option list \<Rightarrow> goerror option option" where
  "controllers_result [] = None"
| "controllers_result (Some err # _) = Some (Some err)"
| "controllers_result [None] = None"
| "controllers_result (None # result # _) = Some result"

text \<open>\<open>'n\<close> are the nodes.\<close>

datatype 'n component = DeploymentLoop | ReplicaSetLoop | SchedulerLoop | ProxyLoop 'n | KubeletLoop 'n

instantiation component :: (enum) enum
begin

definition enum_component :: "'a component list" where
  "enum_component = [DeploymentLoop, ReplicaSetLoop, SchedulerLoop] @ map ProxyLoop enum_class.enum @
     map KubeletLoop enum_class.enum"

definition enum_all_component :: "('a component \<Rightarrow> bool) \<Rightarrow> bool" where
  "enum_all_component P \<longleftrightarrow> list_all P enum_class.enum"

definition enum_ex_component :: "('a component \<Rightarrow> bool) \<Rightarrow> bool" where
  "enum_ex_component P \<longleftrightarrow> list_ex P enum_class.enum"

instance
proof
  show all: "(UNIV :: 'a component set) = set enum_class.enum"
  proof (rule set_eqI)
    fix i :: "'a component"
    show "i \<in> UNIV \<longleftrightarrow> i \<in> set enum_class.enum"
      by (cases i) (simp_all add: enum_component_def enum_UNIV)
  qed
  show "distinct (enum_class.enum :: 'a component list)"
    by (auto simp: enum_component_def distinct_map enum_distinct inj_on_def)
  show "enum_class.enum_all P \<longleftrightarrow> Ball (UNIV :: 'a component set) P" for P
    using all by (simp add: enum_all_component_def list_all_iff)
  show "enum_class.enum_ex P \<longleftrightarrow> Bex (UNIV :: 'a component set) P" for P
    using all by (simp add: enum_ex_component_def list_ex_iff)
qed

end

text \<open>
  The store, the memory of the components that have one, and the runtimes of the nodes. \<open>'w\<close> is the
  world of the API, with all there is outside the runtimes.
\<close>

record ('n, 'w, 'b) cluster =
  clusterStore :: 'w
  nextNode :: nat
  kubeProxies :: "'n \<Rightarrow> KubeProxy"
  nodeRuntimes :: "'n \<Rightarrow> 'b"

definition on_store :: "('w, 'a) operation \<Rightarrow> (('n, 'w, 'b) cluster, 'a) operation" where
  "on_store m p = (case m (clusterStore p) of (r, w) \<Rightarrow> (r, p\<lparr>clusterStore := w\<rparr>))"

definition with_nextNode :: "(nat \<times> 'w, 'a) operation \<Rightarrow> (('n, 'w, 'b) cluster, 'a) operation" where
  "with_nextNode m p =
     (case m (nextNode p, clusterStore p) of (r, (k, w)) \<Rightarrow> (r, p\<lparr>nextNode := k, clusterStore := w\<rparr>))"

definition with_proxy :: "'n \<Rightarrow> (KubeProxy \<times> 'w, 'a) operation \<Rightarrow> (('n, 'w, 'b) cluster, 'a) operation" where
  "with_proxy n m p =
     (case m (kubeProxies p n, clusterStore p) of
        (r, (k, w)) \<Rightarrow> (r, p\<lparr>kubeProxies := (kubeProxies p)(n := k), clusterStore := w\<rparr>))"

definition with_runtime :: "'n \<Rightarrow> ('w \<times> 'b, 'a) operation \<Rightarrow> (('n, 'w, 'b) cluster, 'a) operation" where
  "with_runtime n m p =
     (case m (clusterStore p, nodeRuntimes p n) of
        (r, (w, b)) \<Rightarrow> (r, p\<lparr>clusterStore := w, nodeRuntimes := (nodeRuntimes p)(n := b)\<rparr>))"

fun component_run ::
    "'w Client \<Rightarrow> ('n \<Rightarrow> Rule list \<Rightarrow> ('w, unit) operation) \<Rightarrow> ('n \<Rightarrow> ('w \<times> 'b) run_arguments) \<Rightarrow>
      'n component \<Rightarrow> ('n, 'w, 'b) cluster run_arguments" where
  "component_run client forward kubelets DeploymentLoop = map_prod on_store on_store (DeploymentController_Run client)"
| "component_run client forward kubelets ReplicaSetLoop = map_prod on_store on_store (ReplicaSetController_Run client)"
| "component_run client forward kubelets SchedulerLoop = map_prod with_nextNode with_nextNode (Scheduler_Run client)"
| "component_run client forward kubelets (ProxyLoop n) =
     map_prod (with_proxy n) (with_proxy n) (KubeProxy_Run client (forward n))"
| "component_run client forward kubelets (KubeletLoop n) = map_prod (with_runtime n) (with_runtime n) (kubelets n)"

text \<open>What each component watches: kinds of resources, and the kubelet the runtime of its node.\<close>

datatype 'n watched = Stored string | RuntimeOf 'n

fun component_watches :: "'n component \<Rightarrow> 'n watched set" where
  "component_watches DeploymentLoop = {Stored ''Deployment'', Stored ''ReplicaSet''}"
| "component_watches ReplicaSetLoop = {Stored ''ReplicaSet'', Stored ''Pod''}"
| "component_watches SchedulerLoop = {Stored ''Node'', Stored ''Pod''}"
| "component_watches (ProxyLoop n) = {Stored ''Service'', Stored ''Pod''}"
| "component_watches (KubeletLoop n) = {Stored ''Pod'', RuntimeOf n}"

type_synonym runtime_view = "(string \<rightharpoonup> cri_Container) \<times> (string \<rightharpoonup> cri_Sandbox)"

fun cluster_view ::
    "('w \<Rightarrow> resources) \<Rightarrow> ('b \<Rightarrow> runtime_view) \<Rightarrow> ('n, 'w, 'b) cluster \<Rightarrow> 'n watched \<Rightarrow>
      (string \<rightharpoonup> Resource) + runtime_view" where
  "cluster_view res view p (Stored kind) = Inl (res (clusterStore p) kind)"
| "cluster_view res view p (RuntimeOf n) = Inr (view (nodeRuntimes p n))"

definition control_plane ::
    "'w Client \<Rightarrow> ('n \<Rightarrow> Rule list \<Rightarrow> ('w, unit) operation) \<Rightarrow> ('n \<Rightarrow> ('w \<times> 'b) run_arguments) \<Rightarrow>
      ('w \<Rightarrow> resources) \<Rightarrow> ('b \<Rightarrow> runtime_view) \<Rightarrow>
      ('n component, ('n, 'w, 'b) cluster, 'n watched, (string \<rightharpoonup> Resource) + runtime_view) reconcilers" where
  "control_plane client forward kubelets res view =
     \<lparr>opWatch = (\<lambda>i. snd (component_run client forward kubelets i)),
      opReconcile = (\<lambda>i. fst (component_run client forward kubelets i)),
      watches = component_watches, observes = cluster_view res view\<rparr>"

lemma control_plane_fields [simp]:
  "opWatch (control_plane client forward kubelets res view) i = snd (component_run client forward kubelets i)"
  "opReconcile (control_plane client forward kubelets res view) i = fst (component_run client forward kubelets i)"
  "watches (control_plane client forward kubelets res view) = component_watches"
  "observes (control_plane client forward kubelets res view) = cluster_view res view"
  by (simp_all add: control_plane_def)

lemma cluster_view_cong:
  assumes "res (clusterStore p') = res (clusterStore p)"
    and "\<And>n. view (nodeRuntimes p' n) = view (nodeRuntimes p n)"
  shows "cluster_view res view p' = cluster_view res view p"
proof
  fix k
  show "cluster_view res view p' k = cluster_view res view p k" by (cases k) (simp_all add: assms)
qed

section \<open>What a component reaches\<close>

text \<open>
  Every Pod assigned to the node has a Running container there and is reported Running, and no
  other container runs outside the static sandboxes.
\<close>

definition runs_workloads :: "string \<Rightarrow> resources \<Rightarrow> runtime_view \<Rightarrow> bool" where
  "runs_workloads node m v \<longleftrightarrow>
     (\<forall>q\<in>workloads_of node m. running (fst v) q \<and>
        (\<exists>p. m ''Pod'' q = Some (RPod p) \<and> podPhase (podStatus p) = PodRunning)) \<and>
     (\<forall>q c. q \<notin> workloads_of node m \<longrightarrow> fst v q = Some c \<longrightarrow> contState c = cri_Running \<longrightarrow>
        (\<exists>x. snd v (contSandbox c) = Some x \<and> sandSource x = StaticPod))"

fun component_goal ::
    "('n \<Rightarrow> string) \<Rightarrow> 'n component \<Rightarrow> resources \<Rightarrow> ('n \<Rightarrow> KubeProxy) \<Rightarrow> ('n \<Rightarrow> runtime_view) \<Rightarrow> bool" where
  "component_goal name DeploymentLoop m proxies nodes \<longleftrightarrow> (\<forall>d\<in>deployments_of m. deployed m d)"
| "component_goal name ReplicaSetLoop m proxies nodes \<longleftrightarrow>
     (\<forall>rs\<in>replicaSets_of m. template_matches rs \<longrightarrow> satisfied rs m)"
| "component_goal name SchedulerLoop m proxies nodes \<longleftrightarrow>
     (\<exists>n node. m ''Node'' n = Some (RNode node) \<and> ready node) \<longrightarrow> (\<forall>q\<in>dom (m ''Pod''). assigned m q)"
| "component_goal name (ProxyLoop n) m proxies nodes \<longleftrightarrow>
     (\<exists>rules. lastRules (proxies n) = Some rules \<and> forwarded m rules)"
| "component_goal name (KubeletLoop n) m proxies nodes \<longleftrightarrow> runs_workloads (name n) m (nodes n)"

text \<open>A goal is about what is watched only.\<close>

lemma workloads_of_cong: "m' ''Pod'' = m ''Pod'' \<Longrightarrow> workloads_of node m' = workloads_of node m"
  by (simp add: workloads_of_def)

lemma component_goal_local:
  assumes "component_goal name i m proxies nodes"
    and "\<And>kind. Stored kind \<in> component_watches i \<Longrightarrow> m' kind = m kind"
    and "\<And>n. RuntimeOf n \<in> component_watches i \<Longrightarrow> nodes' n = nodes n"
    and "\<And>n. i = ProxyLoop n \<Longrightarrow> proxies' n = proxies n"
  shows "component_goal name i m' proxies' nodes'"
proof (cases i)
  case (KubeletLoop n)
  with assms(2,3) have "m' ''Pod'' = m ''Pod''" "nodes' n = nodes n" by simp_all
  with assms(1) workloads_of_cong [of m' m] KubeletLoop show ?thesis by (simp add: runs_workloads_def)
qed (use assms in \<open>simp_all add: deployments_of_def deployed_def replicaSets_of_def satisfied_def managed_names_def
      assigned_def forwarded_def routes_ipv4_def wanted_rules_def stored_service_def stored_pod_def\<close>)

text \<open>Counting a ReplicaSet does not change what it wants.\<close>

lemma counted_same:
  assumes "counted_set rs (RReplicaSet rs')"
  shows "template_matches rs' \<longleftrightarrow> template_matches rs" and "satisfied rs' m \<longleftrightarrow> satisfied rs m"
proof -
  from assms obtain v where rs': "rs' = norm_ReplicaSet (ReplicaSet_SetResourceVersion v
      (rs\<lparr>rsStatus := \<lparr>rsStatusReplicas = int (desired_replicas rs)\<rparr>\<rparr>))"
    by (auto simp: counted_set_def stored_form_def)
  show "template_matches rs' \<longleftrightarrow> template_matches rs"
    by (simp add: rs' template_matches_def norm_ReplicaSet_def norm_PodTemplateSpec_def norm_ObjectMeta_def)
  have "manages rs' p \<longleftrightarrow> manages rs p" for p
    by (simp add: rs' manages_def norm_ReplicaSet_def norm_ObjectMeta_def)
  moreover have "desired_replicas rs' = desired_replicas rs"
    by (simp add: rs' desired_replicas_def norm_ReplicaSet_def)
  ultimately show "satisfied rs' m \<longleftrightarrow> satisfied rs m"
    by (simp add: satisfied_def managed_names_def)
qed

lemma scales_goal:
  assumes "scales (replicaSets_of m) m m'"
    and "\<forall>rs\<in>replicaSets_of m. template_matches rs \<longrightarrow> satisfied rs m'"
  shows "component_goal name ReplicaSetLoop m' proxies nodes"
  unfolding component_goal.simps
proof (intro ballI impI)
  fix rs assume rs: "rs \<in> replicaSets_of m'" "template_matches rs"
  then obtain n where n: "m' ''ReplicaSet'' n = Some (RReplicaSet rs)" by (auto simp: replicaSets_of_def)
  from scales_rsD [OF assms(1), of n] show "satisfied rs m'"
  proof
    assume "m' ''ReplicaSet'' n = m ''ReplicaSet'' n"
    with n rs(2) assms(2) show ?thesis by (auto simp: replicaSets_of_def)
  next
    assume "\<exists>rs\<in>replicaSets_of m. Name (rsMeta rs) = n \<and> (\<exists>r. m' ''ReplicaSet'' n = Some r \<and> counted_set rs r)"
    with n obtain old where "old \<in> replicaSets_of m" "counted_set old (RReplicaSet rs)" by auto
    with rs(2) assms(2) counted_same [of old rs] show ?thesis by simp
  qed
qed

lemma deploys_goal:
  assumes "deploys DS m m'" and "\<forall>d\<in>deployments_of m. deployed m' d"
  shows "component_goal name DeploymentLoop m' proxies nodes"
proof -
  have "m' ''Deployment'' = m ''Deployment''" using assms(1) by (simp add: deploys_def)
  with assms(2) show ?thesis by (simp add: deployments_of_def)
qed

lemma scheduled_goal:
  assumes "scheduled m m'" and "(\<exists>n node. m ''Node'' n = Some (RNode node) \<and> ready node) \<longrightarrow>
    (\<forall>name\<in>dom (m ''Pod''). assigned m' name)"
  shows "component_goal name SchedulerLoop m' proxies nodes"
proof -
  have "m' ''Node'' = m ''Node''" using assms(1) by (simp add: scheduled_def)
  moreover have "dom (m' ''Pod'') \<subseteq> dom (m ''Pod'')"
  proof
    fix name assume "name \<in> dom (m' ''Pod'')"
    moreover have "m' ''Pod'' name = m ''Pod'' name \<or> m ''Pod'' name \<noteq> None"
      using assms(1) unfolding scheduled_def by (elim conjE allE [of _ name]) auto
    ultimately show "name \<in> dom (m ''Pod'')" by auto
  qed
  ultimately show ?thesis using assms(2) unfolding component_goal.simps by (simp only: subset_iff) blast
qed

section \<open>The components keep the contract\<close>

text \<open>What others may do, and what a component may do to its memory.\<close>

definition cluster_ok :: "('w \<Rightarrow> bool) \<Rightarrow> ('w \<Rightarrow> resources) \<Rightarrow> ('b \<Rightarrow> bool) \<Rightarrow> ('n, 'w, 'b) cluster \<Rightarrow> bool" where
  "cluster_ok ok res node_ok p \<longleftrightarrow>
     ok (clusterStore p) \<and> tame (res (clusterStore p)) \<and> (\<forall>n. node_ok (nodeRuntimes p n))"

definition others_change ::
    "('w \<Rightarrow> bool) \<Rightarrow> ('w \<Rightarrow> resources) \<Rightarrow> ('b \<Rightarrow> bool) \<Rightarrow> ('n, 'w, 'b) cluster \<Rightarrow> ('n, 'w, 'b) cluster \<Rightarrow> bool" where
  "others_change ok res node_ok p p' \<longleftrightarrow>
     cluster_ok ok res node_ok p' \<and> nextNode p' = nextNode p \<and> kubeProxies p' = kubeProxies p"

fun own_memory :: "'n component \<Rightarrow> ('n, 'w, 'b) cluster \<Rightarrow> ('n, 'w, 'b) cluster \<Rightarrow> bool" where
  "own_memory SchedulerLoop p p' \<longleftrightarrow> (\<exists>k. p' = p\<lparr>nextNode := k\<rparr>)"
| "own_memory (ProxyLoop n) p p' \<longleftrightarrow> (\<exists>proxy. p' = p\<lparr>kubeProxies := (kubeProxies p)(n := proxy)\<rparr>)"
| "own_memory _ p p' \<longleftrightarrow> p' = p"

fun remembered :: "'n component \<Rightarrow> ('n, 'w, 'b) cluster \<Rightarrow> KubeProxy option" where
  "remembered (ProxyLoop n) p = Some (kubeProxies p n)"
| "remembered _ p = None"

text \<open>The store and the memory after an operation.\<close>

lemma on_store_run:
  "on_store m p = (a, p') \<Longrightarrow> \<exists>w'. m (clusterStore p) = (a, w') \<and> p' = p\<lparr>clusterStore := w'\<rparr>"
  by (cases "m (clusterStore p)") (simp add: on_store_def)

lemma with_nextNode_run:
  "with_nextNode m p = (a, p') \<Longrightarrow>
    \<exists>k w'. m (nextNode p, clusterStore p) = (a, (k, w')) \<and> p' = p\<lparr>nextNode := k, clusterStore := w'\<rparr>"
  by (cases "m (nextNode p, clusterStore p)") (auto simp: with_nextNode_def split: prod.splits)

lemma with_proxy_run:
  "with_proxy n m p = (a, p') \<Longrightarrow>
    \<exists>k w'. m (kubeProxies p n, clusterStore p) = (a, (k, w')) \<and>
      p' = p\<lparr>kubeProxies := (kubeProxies p)(n := k), clusterStore := w'\<rparr>"
  by (cases "m (kubeProxies p n, clusterStore p)") (auto simp: with_proxy_def split: prod.splits)

lemma with_runtime_run:
  "with_runtime n m p = (a, p') \<Longrightarrow>
    \<exists>w' b. m (clusterStore p, nodeRuntimes p n) = (a, (w', b)) \<and>
      p' = p\<lparr>clusterStore := w', nodeRuntimes := (nodeRuntimes p)(n := b)\<rparr>"
  by (cases "m (clusterStore p, nodeRuntimes p n)") (auto simp: with_runtime_def split: prod.splits)

context typed_api begin

lemma list_and_watch_frame:
  assumes "ok w" and "list_and_watch client rc w = (a, w')"
  shows "ok w' \<and> res w' = res w"
proof -
  obtain l w1 where list: "ResourceClient_List client rc w = (l, w1)" by fastforce
  show ?thesis
  proof (cases l)
    case (Inl e)
    with list_error [OF assms(1) list [unfolded Inl]] assms(2) list show ?thesis
      by (simp add: list_and_watch_def andThen_def)
  next
    case (Inr x)
    note w1 = list_items(1,2) [OF assms(1) list [unfolded Inr]]
    obtain e w2 where watch: "ResourceClient_Watch client rc (listVersion x) w1 = (e, w2)" by fastforce
    with assms(2) list Inr have "w' = w2"
      by (cases e) (simp_all add: list_and_watch_def andThen_def returning_def)
    with watch_frame [OF w1(1) watch] w1(2) show ?thesis by simp
  qed
qed

end

lemma CombineWatches_frame:
  assumes "\<And>m w a w'. m \<in> set ms \<Longrightarrow> I w \<Longrightarrow> m w = (a, w') \<Longrightarrow> I w'"
  shows "I w \<Longrightarrow> CombineWatches ms w = (a, w') \<Longrightarrow> I w'"
  using assms
proof (induction ms arbitrary: w a w')
  case Nil
  then show ?case by (simp add: returning_def)
next
  case (Cons m ms)
  obtain x w1 where m: "m w = (x, w1)" by fastforce
  from Cons.prems(3) [OF list.set_intros(1) Cons.prems(1) m] have w1: "I w1" .
  obtain y w2 where ms: "CombineWatches ms w1 = (y, w2)" by fastforce
  have "I v'" if "n \<in> set ms" "I v" "n v = (b, v')" for n v b v'
    using Cons.prems(3) [of n v b v'] that by simp
  from Cons.IH [OF w1 ms this] have "I w2" .
  with w1 Cons.prems(2) m ms show ?case
    by (cases x; cases y) (auto simp: andThen_def returning_def)
qed

context cluster_api begin

lemma watches_frame:
  assumes "ok w"
  shows "DeploymentController_watch client w = (a, w') \<Longrightarrow> ok w' \<and> res w' = res w"
    and "ReplicaSetController_watch client w = (a, w') \<Longrightarrow> ok w' \<and> res w' = res w"
    and "Scheduler_watch client w = (a, w') \<Longrightarrow> ok w' \<and> res w' = res w"
    and "KubeProxy_watch client w = (a, w') \<Longrightarrow> ok w' \<and> res w' = res w"
proof -
  have two: "ok w' \<and> res w' = res w" if "CombineWatches [m, n] w = (a, w')"
    "\<And>v b v'. ok v \<Longrightarrow> m v = (b, v') \<Longrightarrow> ok v' \<and> res v' = res v"
    "\<And>v b v'. ok v \<Longrightarrow> n v = (b, v') \<Longrightarrow> ok v' \<and> res v' = res v" for m n
  proof (rule CombineWatches_frame [where I = "\<lambda>v. ok v \<and> res v = res w", OF _ _ that(1)])
    fix k v b v' assume "k \<in> set [m, n]" "ok v \<and> res v = res w" "k v = (b, v')"
    then show "ok v' \<and> res v' = res w" using that(2,3) [of v b v'] by auto
  qed (simp add: assms)
  show "DeploymentController_watch client w = (a, w') \<Longrightarrow> ok w' \<and> res w' = res w"
    unfolding DeploymentController_watch_def
    by (erule two) (rule deployments.list_and_watch_frame replicaSets.list_and_watch_frame, assumption+)+
  show "ReplicaSetController_watch client w = (a, w') \<Longrightarrow> ok w' \<and> res w' = res w"
    unfolding ReplicaSetController_watch_def
    by (erule two) (rule replicaSets.list_and_watch_frame pods.list_and_watch_frame, assumption+)+
  show "Scheduler_watch client w = (a, w') \<Longrightarrow> ok w' \<and> res w' = res w"
    unfolding Scheduler_watch_def
    by (erule two) (rule nodes.list_and_watch_frame pods.list_and_watch_frame, assumption+)+
  show "KubeProxy_watch client w = (a, w') \<Longrightarrow> ok w' \<and> res w' = res w"
    unfolding KubeProxy_watch_def
    by (erule two) (rule services.list_and_watch_frame pods.list_and_watch_frame, assumption+)+
qed


end

text \<open>The kubelet of a worker watches the Pods and its runtime, and reconciles the assigned Pods.\<close>

lemma watchPods_eq: "watchPods client = list_and_watch client Pods"
  by (simp add: watchPods_def list_and_watch_def)

lemma worker_parts:
  "fst (worker order files watchDirectory client cri node cidr) = reconcile_workloads order client cri node"
  "snd (worker order files watchDirectory client cri node cidr) =
    CombineWatches [on_api (list_and_watch client Pods), on_world (watchRuntime cri)]"
proof -
  have "andThen (returning ()) (\<lambda>_. m) = m" for m :: "('p, 'q) operation"
    by (rule ext) (simp add: andThen_def returning_def)
  then show "fst (worker order files watchDirectory client cri node cidr) = reconcile_workloads order client cri node"
    by (simp add: worker_def Kubelet_Run_def Kubelet_Reconcile_def NewWithManifestDirAndPodCIDR_def
        NewWithManifestDir_def NewKubelet_def)
  show "snd (worker order files watchDirectory client cri node cidr) =
      CombineWatches [on_api (list_and_watch client Pods), on_world (watchRuntime cri)]"
    by (simp add: worker_def Kubelet_Run_def Kubelet_watch_def watchPods_eq NewWithManifestDirAndPodCIDR_def
        NewWithManifestDir_def NewKubelet_def)
qed

context kubelet_node begin

abbreviation sound :: "'b \<Rightarrow> bool" where
  "sound b \<equiv> node_ok b \<and> placed (conts b) (sbs b)"

abbreviation seen :: "'b \<Rightarrow> runtime_view" where
  "seen b \<equiv> (conts b, sbs b)"

lemma worker_watch_frame:
  assumes "api_ok a" and "sound b"
    and "snd (worker order files watchDirectory client cri node cidr) (a, b) = (events, (a', b'))"
  shows "api_ok a' \<and> res a' = res a \<and> sound b' \<and> seen b' = seen b"
proof -
  let ?I = "\<lambda>(a', b'). api_ok a' \<and> res a' = res a \<and> sound b' \<and> seen b' = seen b"
  have "?I (a', b')"
  proof (rule CombineWatches_frame [where I = ?I, OF _ _ assms(3) [unfolded worker_parts]])
    fix m :: "('a \<times> 'b, goerror option list) operation" and v r v'
    assume m: "m \<in> set [on_api (list_and_watch client Pods), on_world (watchRuntime cri)]" and v: "?I v" "m v = (r, v')"
    obtain x y where [simp]: "v = (x, y)" by fastforce
    from m consider "m = on_api (list_and_watch client Pods)" | "m = on_world (watchRuntime cri)" by auto
    then show "?I v'"
    proof cases
      case 1
      with v pods.list_and_watch_frame [of x r "fst v'"] show ?thesis
        by (auto simp: on_api_def split: prod.splits)
    next
      case 2
      obtain e y' where watch: "criWatch cri y = (e, y')" by fastforce
      with 2 v(2) have "v' = (x, y')"
        by (cases e) (auto simp: on_world_def watchRuntime_def andThen_def returning_def)
      with v(1) watch_ok [of y e y'] watch show ?thesis by auto
    qed
  qed (use assms in simp)
  with assms(2) show ?thesis by simp
qed

lemma worker_effect:
  assumes "api_ok a" and "sound b" and "tame (res a)" and "\<And>xs. mset (order xs) = mset xs"
    and "fst (worker order files watchDirectory client cri node cidr) (a, b) = (ans, (a', b'))"
  shows "api_ok a' \<and> sound b' \<and> tame (res a') \<and> (\<not> isl ans \<longrightarrow> runs_workloads node (res a') (seen b'))"
proof -
  have D: "assigned_pods a node = workloads_of node (res a)"
    by (simp add: assigned_pods_def workloads_of_def)
  have "api_ok a' \<and> node_ok b' \<and> placed (conts b') (sbs b') \<and> statuses node (res a) (res a') \<and>
    static_untouched (assigned_pods a node) (conts b) (sbs b) (conts b') (sbs b') \<and>
    (\<not> isl ans \<longrightarrow> (\<forall>q\<in>assigned_pods a node. hosted (conts b) (conts b') (sbs b') (res a') q) \<and>
      (\<forall>q c. q \<notin> assigned_pods a node \<longrightarrow> conts b' q = Some c \<longrightarrow> contState c = cri_Running \<longrightarrow>
        (\<exists>x. sbs b (contSandbox c) = Some x \<and> sandSource x = StaticPod)))"
    by (rule reconcile_workloads_ok [OF assms(1) _ _ _ assms(4) assms(5) [unfolded worker_parts]])
      (use assms(2) tameD(1) [OF assms(3)] in auto)
  then have ok: "api_ok a'" "sound b'" and changed: "statuses node (res a) (res a')"
    and static: "static_untouched (workloads_of node (res a)) (conts b) (sbs b) (conts b') (sbs b')"
    and goal: "\<not> isl ans \<Longrightarrow> \<forall>q\<in>workloads_of node (res a). hosted (conts b) (conts b') (sbs b') (res a') q"
      "\<not> isl ans \<Longrightarrow> \<forall>q c. q \<notin> workloads_of node (res a) \<longrightarrow> conts b' q = Some c \<longrightarrow> contState c = cri_Running \<longrightarrow>
        (\<exists>x. sbs b (contSandbox c) = Some x \<and> sandSource x = StaticPod)"
    unfolding D by blast+
  have same: "sbs b i = Some x \<Longrightarrow> sandSource x = StaticPod \<Longrightarrow> sbs b' i = Some x" for i x
    using static unfolding static_untouched_def by blast
  have "runs_workloads node (res a') (seen b')" if "\<not> isl ans"
    unfolding runs_workloads_def statuses_workloads [OF changed] fst_conv snd_conv
  proof (intro conjI ballI allI impI)
    fix q assume "q \<in> workloads_of node (res a)"
    with goal(1) [OF that] have "hosted (conts b) (conts b') (sbs b') (res a') q" by blast
    then show "running (conts b') q" "\<exists>p. res a' ''Pod'' q = Some (RPod p) \<and> podPhase (podStatus p) = PodRunning"
      by (auto simp: hosted_def running_def)
  next
    fix q c assume "q \<notin> workloads_of node (res a)" "conts b' q = Some c" "contState c = cri_Running"
    with goal(2) [OF that] same show "\<exists>x. sbs b' (contSandbox c) = Some x \<and> sandSource x = StaticPod" by blast
  qed
  with ok tame_statuses [OF assms(3) changed] show ?thesis by blast
qed


abbreviation fine :: "('n, 'a, 'b) cluster \<Rightarrow> bool" where
  "fine \<equiv> cluster_ok api_ok res sound"

abbreviation goal_at :: "('n \<Rightarrow> string) \<Rightarrow> 'n component \<Rightarrow> ('n, 'a, 'b) cluster \<Rightarrow> bool" where
  "goal_at name i p \<equiv> component_goal name i (res (clusterStore p)) (kubeProxies p) (\<lambda>n. seen (nodeRuntimes p n))"

lemma fineD:
  assumes "fine p"
  shows "api_ok (clusterStore p)" and "tame (res (clusterStore p))" and "sound (nodeRuntimes p n)"
  using assms by (simp_all add: cluster_ok_def)

text \<open>A watch changes nothing a component can see.\<close>

lemma component_watch_frame:
  fixes p :: "('n, 'a, 'b) cluster"
  assumes workers: "\<And>n. kubelets n = worker order files watchDirectory client cri (name n) (cidr n)"
    and fine: "fine p" and run: "snd (component_run client forward kubelets i) p = (a, p')"
  shows "fine p' \<and> cluster_view res seen p' = cluster_view res seen p \<and> kubeProxies p' = kubeProxies p"
proof -
  note ok = fineD(1,2) [OF fine]
  note frames = watches_frame [OF ok(1)]
  have keep: ?thesis if "api_ok w \<and> res w = res (clusterStore p)" "p' = p\<lparr>clusterStore := w\<rparr>" for w
    using that fine cluster_view_cong [of res p' p seen] by (simp add: cluster_ok_def)
  show ?thesis
  proof (cases i)
    case DeploymentLoop
    with run on_store_run [of "DeploymentController_watch client" p a p'] obtain w where
      w: "DeploymentController_watch client (clusterStore p) = (a, w)" "p' = p\<lparr>clusterStore := w\<rparr>"
      by (auto simp: DeploymentController_Run_def)
    with frames(1) [OF w(1)] show ?thesis by (intro keep)
  next
    case ReplicaSetLoop
    with run on_store_run [of "ReplicaSetController_watch client" p a p'] obtain w where
      w: "ReplicaSetController_watch client (clusterStore p) = (a, w)" "p' = p\<lparr>clusterStore := w\<rparr>"
      by (auto simp: ReplicaSetController_Run_def)
    with frames(2) [OF w(1)] show ?thesis by (intro keep)
  next
    case SchedulerLoop
    with run with_nextNode_run [of "on_world (Scheduler_watch client)" p a p'] obtain w where
      w: "Scheduler_watch client (clusterStore p) = (a, w)" "p' = p\<lparr>clusterStore := w\<rparr>"
      by (auto simp: Scheduler_Run_def on_world_def split: prod.splits)
    with frames(3) [OF w(1)] show ?thesis by (intro keep)
  next
    case (ProxyLoop n)
    with run with_proxy_run [of n "on_world (KubeProxy_watch client)" p a p'] obtain w where
      w: "KubeProxy_watch client (clusterStore p) = (a, w)" "p' = p\<lparr>clusterStore := w\<rparr>"
      by (auto simp: KubeProxy_Run_def on_world_def split: prod.splits)
    with frames(4) [OF w(1)] show ?thesis by (intro keep)
  next
    case (KubeletLoop n)
    with run with_runtime_run [of n "snd (worker order files watchDirectory client cri (name n) (cidr n))" p a p']
    obtain w b where watch: "snd (worker order files watchDirectory client cri (name n) (cidr n))
        (clusterStore p, nodeRuntimes p n) = (a, (w, b))"
      and p': "p' = p\<lparr>clusterStore := w, nodeRuntimes := (nodeRuntimes p)(n := b)\<rparr>"
      by (auto simp: workers)
    from worker_watch_frame [OF ok(1) fineD(3) [OF fine] watch] have w: "api_ok w" "res w = res (clusterStore p)"
      "sound b" "seen b = seen (nodeRuntimes p n)" by blast+
    have "cluster_view res seen p' = cluster_view res seen p"
      by (rule cluster_view_cong) (use w p' in auto)
    with w fine show ?thesis by (simp add: p' cluster_ok_def)
  qed
qed


text \<open>A reconciliation keeps the cluster in order, and reaches the goal when it succeeds.\<close>

definition reconciles_to ::
    "('n \<Rightarrow> string) \<Rightarrow> 'n component \<Rightarrow> ('n, 'a, 'b) cluster \<Rightarrow> unit result \<Rightarrow> ('n, 'a, 'b) cluster \<Rightarrow> bool" where
  "reconciles_to name i p a p' \<longleftrightarrow> fine p' \<and> (\<forall>j. j \<noteq> i \<longrightarrow> remembered j p' = remembered j p) \<and>
     (\<not> isl a \<longrightarrow> goal_at name i p')"

lemma reconciles_to_store:
  assumes "fine p" and "p' = p\<lparr>clusterStore := w\<rparr>" and "api_ok w" and "tame (res w)"
    and "\<not> isl a \<Longrightarrow> goal_at name i p'"
  shows "reconciles_to name i p a p'"
proof -
  have "remembered j p' = remembered j p" for j by (cases j) (simp_all add: assms(2))
  with assms show ?thesis by (simp add: reconciles_to_def cluster_ok_def)
qed

lemma deployment_reconciles:
  assumes "fine p" and "fst (component_run client forward kubelets DeploymentLoop) p = (a, p')"
  shows "reconciles_to name DeploymentLoop p a p'"
proof -
  note ok = fineD(1) [OF assms(1)] and tame = fineD(2) [OF assms(1)]
  from assms(2) on_store_run [of "DeploymentController_Reconcile client" p a p'] obtain w where
    run: "DeploymentController_Reconcile client (clusterStore p) = (a, w)" and p': "p' = p\<lparr>clusterStore := w\<rparr>"
    by (auto simp: DeploymentController_Run_def)
  have "api_ok w \<and> deploys (deployments_of (res (clusterStore p))) (res (clusterStore p)) (res w) \<and>
    (\<not> isl a \<longrightarrow> (\<forall>d\<in>deployments_of (res (clusterStore p)). deployed (res w) d))"
    unfolding deployments_of_def
    by (rule DeploymentController_effect [OF ok _ run]) (rule tameD(1) [OF tame], assumption)
  then have w: "api_ok w" "deploys (deployments_of (res (clusterStore p))) (res (clusterStore p)) (res w)"
    "\<not> isl a \<Longrightarrow> \<forall>d\<in>deployments_of (res (clusterStore p)). deployed (res w) d" by blast+
  have "url_clean (Name (deploymentMeta d))" if d: "d \<in> deployments_of (res (clusterStore p))" for d
  proof -
    from d obtain n where n: "res (clusterStore p) ''Deployment'' n = Some (RDeployment d)"
      by (auto simp: deployments_of_def)
    with deployments.named [OF ok n] tameD(1) [OF tame, of n "''Deployment''"] show ?thesis by auto
  qed
  note tame' = tame_deploys [OF tame w(2) this]
  have "goal_at name DeploymentLoop p'" if "\<not> isl a"
    using deploys_goal [OF w(2) w(3) [OF that]] by (simp add: p' del: component_goal.simps)
  from reconciles_to_store [OF assms(1) p' w(1) tame' this] show ?thesis .
qed

lemma replicaSet_reconciles:
  assumes "fine p" and "fst (component_run client forward kubelets ReplicaSetLoop) p = (a, p')"
  shows "reconciles_to name ReplicaSetLoop p a p'"
proof -
  note ok = fineD(1) [OF assms(1)] and tame = fineD(2) [OF assms(1)]
  from assms(2) on_store_run [of "ReplicaSetController_Reconcile client" p a p'] obtain w where
    run: "ReplicaSetController_Reconcile client (clusterStore p) = (a, w)" and p': "p' = p\<lparr>clusterStore := w\<rparr>"
    by (auto simp: ReplicaSetController_Run_def)
  have "api_ok w \<and> scales (replicaSets_of (res (clusterStore p))) (res (clusterStore p)) (res w) \<and>
    (\<not> isl a \<longrightarrow> (\<forall>rs\<in>replicaSets_of (res (clusterStore p)). template_matches rs \<longrightarrow> satisfied rs (res w)))"
    by (rule ReplicaSetController_effect [OF ok _ _ run])
      (rule tameD(1) [OF tame], assumption, rule tame_disjoint [OF tame], assumption)
  then have w: "api_ok w" "scales (replicaSets_of (res (clusterStore p))) (res (clusterStore p)) (res w)"
    "\<not> isl a \<Longrightarrow> \<forall>rs\<in>replicaSets_of (res (clusterStore p)). template_matches rs \<longrightarrow> satisfied rs (res w)"
    by blast+
  have "res (clusterStore p) ''ReplicaSet'' (Name (rsMeta rs)) \<noteq> None"
    if rs: "rs \<in> replicaSets_of (res (clusterStore p))" for rs
  proof -
    from rs obtain n where n: "res (clusterStore p) ''ReplicaSet'' n = Some (RReplicaSet rs)"
      by (auto simp: replicaSets_of_def)
    with replicaSets.named [OF ok n] show ?thesis by auto
  qed
  note tame' = tame_scales [OF tame w(2) this]
  have "goal_at name ReplicaSetLoop p'" if "\<not> isl a"
    using scales_goal [OF w(2) w(3) [OF that]] by (simp add: p' del: component_goal.simps)
  from reconciles_to_store [OF assms(1) p' w(1) tame' this] show ?thesis .
qed

lemma scheduler_reconciles_to:
  assumes "fine p" and "fst (component_run client forward kubelets SchedulerLoop) p = (a, p')"
  shows "reconciles_to name SchedulerLoop p a p'"
proof -
  note ok = fineD(1) [OF assms(1)] and tame = fineD(2) [OF assms(1)]
  from assms(2) with_nextNode_run [of "Scheduler_Reconcile client" p a p'] obtain k w where
    run: "Scheduler_Reconcile client (nextNode p, clusterStore p) = (a, (k, w))"
    and p': "p' = p\<lparr>nextNode := k, clusterStore := w\<rparr>"
    by (auto simp: Scheduler_Run_def)
  have "api_ok w \<and> scheduled (res (clusterStore p)) (res w) \<and>
    (\<not> isl a \<longrightarrow> (\<exists>n node. res (clusterStore p) ''Node'' n = Some (RNode node) \<and> ready node) \<longrightarrow>
      (\<forall>q \<in> dom (res (clusterStore p) ''Pod''). assigned (res w) q))"
    by (rule Scheduler_Reconcile_effect [OF ok _ run]) (rule tameD(1) [OF tame], assumption)
  then have w: "api_ok w" "scheduled (res (clusterStore p)) (res w)"
    "\<not> isl a \<Longrightarrow> (\<exists>n node. res (clusterStore p) ''Node'' n = Some (RNode node) \<and> ready node) \<longrightarrow>
      (\<forall>q \<in> dom (res (clusterStore p) ''Pod''). assigned (res w) q)" by blast+
  have "remembered j p' = remembered j p" for j by (cases j) (simp_all add: p')
  moreover have "goal_at name SchedulerLoop p'" if "\<not> isl a"
    using scheduled_goal [OF w(2) w(3) [OF that]] by (simp add: p' del: component_goal.simps)
  moreover have "fine p'" using w(1) tame_scheduled [OF tame w(2)] assms(1) by (simp add: p' cluster_ok_def)
  ultimately show ?thesis by (simp add: reconciles_to_def del: component_goal.simps)
qed

text \<open>The forwarder works on the node, not on the store of the API.\<close>

lemma proxy_reconciles:
  assumes "\<And>rules w. api_ok w \<Longrightarrow> api_ok (snd (forward n rules w)) \<and> res (snd (forward n rules w)) = res w"
    and "fine p" and "fst (component_run client forward kubelets (ProxyLoop n)) p = (a, p')"
  shows "reconciles_to name (ProxyLoop n) p a p'"
proof -
  note ok = fineD(1) [OF assms(2)] and tame = fineD(2) [OF assms(2)]
  from assms(3) with_proxy_run [of n "KubeProxy_Reconcile client (forward n)" p a p'] obtain proxy w where
    run: "KubeProxy_Reconcile client (forward n) (kubeProxies p n, clusterStore p) = (a, (proxy, w))"
    and p': "p' = p\<lparr>kubeProxies := (kubeProxies p)(n := proxy), clusterStore := w\<rparr>"
    by (auto simp: KubeProxy_Run_def)
  have memory: "remembered j p' = remembered j p" if "j \<noteq> ProxyLoop n" for j
    using that by (cases j) (simp_all add: p')
  show ?thesis
  proof (rule KubeProxy_Reconcile_effect [OF ok run], goal_cases)
    case 1
    with tame assms(2) memory show ?case by (simp add: reconciles_to_def cluster_ok_def p')
  next
    case (2 rules w1)
    with tame assms(1) [of w1 rules] assms(2) memory show ?case by (auto simp: reconciles_to_def cluster_ok_def p')
  qed
qed

lemma kubelet_reconciles:
  assumes "kubelets n = worker order files watchDirectory client cri (name n) (cidr n)"
    and "\<And>xs. mset (order xs) = mset xs"
    and "fine p" and "fst (component_run client forward kubelets (KubeletLoop n)) p = (a, p')"
  shows "reconciles_to name (KubeletLoop n) p a p'"
proof -
  from assms(4) with_runtime_run [of n "fst (kubelets n)" p a p'] obtain w b where
    run: "fst (kubelets n) (clusterStore p, nodeRuntimes p n) = (a, (w, b))"
    and p': "p' = p\<lparr>clusterStore := w, nodeRuntimes := (nodeRuntimes p)(n := b)\<rparr>"
    by auto
  from worker_effect [OF fineD(1,3,2) [OF assms(3)] assms(2) run [unfolded assms(1)]] have w: "api_ok w" "sound b"
    "tame (res w)" "\<not> isl a \<longrightarrow> runs_workloads (name n) (res w) (seen b)" by simp_all
  moreover have "remembered j p' = remembered j p" for j by (cases j) (simp_all add: p')
  ultimately show ?thesis using assms(3) by (simp add: reconciles_to_def cluster_ok_def p')
qed

lemma component_reconciles:
  assumes workers: "\<And>n. kubelets n = worker order files watchDirectory client cri (name n) (cidr n)"
    and order: "\<And>xs. mset (order xs) = mset xs"
    and forward: "\<And>n rules w. api_ok w \<Longrightarrow> api_ok (snd (forward n rules w)) \<and> res (snd (forward n rules w)) = res w"
    and fine: "fine p" and run: "fst (component_run client forward kubelets i) p = (a, p')"
  shows "reconciles_to name i p a p'"
proof (cases i)
  case DeploymentLoop
  with deployment_reconciles [OF fine] run show ?thesis by blast
next
  case ReplicaSetLoop
  with replicaSet_reconciles [OF fine] run show ?thesis by blast
next
  case SchedulerLoop
  with scheduler_reconciles_to [OF fine] run show ?thesis by blast
next
  case (ProxyLoop n)
  show ?thesis unfolding ProxyLoop
    by (rule proxy_reconciles [OF forward fine run [unfolded ProxyLoop]])
next
  case (KubeletLoop n)
  show ?thesis unfolding KubeletLoop
    by (rule kubelet_reconciles, rule workers, rule order, rule fine, rule run [unfolded KubeletLoop])
qed


lemma control_plane_loops:
  assumes workers: "\<And>n. kubelets n = worker order files watchDirectory client cri (name n) (cidr n)"
    and order: "\<And>xs. mset (order xs) = mset xs"
    and forward: "\<And>n rules w. api_ok w \<Longrightarrow> api_ok (snd (forward n rules w)) \<and> res (snd (forward n rules w)) = res w"
  shows "control_loops (control_plane client forward kubelets res seen) (others_change api_ok res sound) own_memory
    fine remembered (goal_at name)"
proof (unfold_locales, goal_cases)
  case (1 p p' i)
  then show ?case by (cases i) (simp_all add: others_change_def)
next
  case (2 p i p' j)
  have "fine p'" using 2 by (cases i) (auto simp: cluster_ok_def)
  moreover have "cluster_view res seen p' = cluster_view res seen p"
    by (rule cluster_view_cong; cases i) (use 2 in auto)
  moreover have "remembered j p' = remembered j p" if "j \<noteq> i" using 2 that by (cases i; cases j) auto
  ultimately show ?case by simp
next
  case (3 p i a p' j)
  from component_watch_frame [of kubelets order files watchDirectory name cidr p forward i a p', OF workers 3(1)] 3(2)
  have "fine p' \<and> cluster_view res seen p' = cluster_view res seen p \<and> kubeProxies p' = kubeProxies p" by simp
  then show ?case by (cases j) auto
next
  case (4 p i a p' j)
  have "reconciles_to name i p a p'"
    by (rule component_reconciles, rule workers, rule order, erule forward, rule 4(1)) (use 4(2) in simp)
  then show ?case by (simp add: reconciles_to_def)
next
  case (5 p i u p')
  have "reconciles_to name i p (Inr u) p'"
    by (rule component_reconciles, rule workers, rule order, erule forward, rule 5(1)) (use 5(2) in simp)
  then show ?case by (simp add: reconciles_to_def)
next
  case (6 p p' i)
  show ?case
  proof (rule component_goal_local [OF 6(3)])
    fix kind assume "Stored kind \<in> component_watches i"
    with 6(5) [of "Stored kind"] show "res (clusterStore p') kind = res (clusterStore p) kind" by simp
  next
    fix n assume "RuntimeOf n \<in> component_watches i"
    with 6(5) [of "RuntimeOf n"] show "seen (nodeRuntimes p' n) = seen (nodeRuntimes p n)" by simp
  next
    fix n assume "i = ProxyLoop n"
    with 6(4) show "kubeProxies p' n = kubeProxies p n" by simp
  qed
qed

end

section \<open>A site\<close>

text \<open>
  An etcd server, and nodes with their \<^verbatim>\<open>nft\<close>, their runtime behind its socket, their name and Pod
  network; the last three are the order in which Go visits a map and what the kubelets do not use.
\<close>

record ('n, 'w, 'b) site =
  siteEtcd :: "'w Clientv3"
  siteNft :: "'n \<Rightarrow> 'w exec"
  siteTable :: string
  siteCri :: "'b CRI"
  siteName :: "'n \<Rightarrow> string"
  siteCidr :: "'n \<Rightarrow> string"
  siteOrder :: "Pod list \<Rightarrow> Pod list"
  siteFiles :: "'b manifests"
  siteWatch :: "string \<Rightarrow> ('b, unit list) operation"

abbreviation store_view :: "('w \<Rightarrow> string \<rightharpoonup> KeyValue) \<Rightarrow> 'w \<Rightarrow> resources" where
  "store_view kvs w \<equiv> read_view (objects_of (kvs w))"

abbreviation store_ok :: "('w \<Rightarrow> bool) \<Rightarrow> ('w \<Rightarrow> string \<rightharpoonup> KeyValue) \<Rightarrow> 'w \<Rightarrow> bool" where
  "store_ok invar kvs w \<equiv> invar w \<and> objects_ok (objects_of (kvs w))"

abbreviation host_view :: "(Runtime \<times> 'h) \<times> json \<Rightarrow> runtime_view" where
  "host_view b \<equiv> (behind rt_conts b, behind rt_sbs b)"

abbreviation host_sound :: "('h \<Rightarrow> int set) \<Rightarrow> (Runtime \<times> 'h) \<times> json \<Rightarrow> bool" where
  "host_sound used b \<equiv> runtime_host.host_ok used b \<and> placed (behind rt_conts b) (behind rt_sbs b)"

definition site_plane where
  "site_plane site kvs =
     control_plane (api_client (NewEtcdClient (siteEtcd site)))
       (\<lambda>n. NftablesForwarder_Replace (siteNft site n) (siteTable site))
       (\<lambda>n. worker (siteOrder site) (siteFiles site) (siteWatch site) (api_client (NewEtcdClient (siteEtcd site)))
          (siteCri site) (siteName site n) (siteCidr site n))
       (store_view kvs) host_view"

text \<open>A step of the cluster: of one of the loops, or of others on the store and in the runtimes.\<close>

definition site_step where
  "site_step site kvs invar used =
     plane_step (site_plane site kvs) (others_change (store_ok invar kvs) (store_view kvs) (host_sound used)) own_memory"

lemma NftablesForwarder_frame:
  assumes "\<And>args input w. I w \<Longrightarrow> I (snd (run args input w))"
  shows "I w \<Longrightarrow> I (snd (NftablesForwarder_Replace run table rules w))"
proof -
  have step: "I w'" if "I w" "run args input w = (r, w')" for args input w r w'
    using assms [OF that(1), of args input] that(2) by simp
  show "I w \<Longrightarrow> I (snd (NftablesForwarder_Replace run table rules w))"
    unfolding NftablesForwarder_Replace_def Let_def
    by (simp split: prod.splits option.splits) (blast intro: step)
qed

text \<open>What is assumed of the outside: the server, the hosts, \<^verbatim>\<open>nft\<close> and Go's maps.\<close>

definition site_ok ::
    "('n, 'w, (Runtime \<times> 'h) \<times> json) site \<Rightarrow> ('w \<Rightarrow> string \<rightharpoonup> KeyValue) \<Rightarrow> ('w \<Rightarrow> int) \<Rightarrow> ('w \<Rightarrow> bool) \<Rightarrow>
      'h link \<Rightarrow> 'h runtime_os \<Rightarrow> 'h CNI option \<Rightarrow> ('h \<Rightarrow> int set) \<Rightarrow> bool" where
  "site_ok site kvs revision invar link os network used \<longleftrightarrow>
     etcd_server (siteEtcd site) kvs revision invar \<and> runtime_host link os network used \<and>
     siteCri site = cri_client (runtime_socket link os network) \<and>
     (\<forall>n args input w. invar w \<longrightarrow>
        invar (snd (siteNft site n args input w)) \<and> kvs (snd (siteNft site n args input w)) = kvs w) \<and>
     (\<forall>xs. mset (siteOrder site xs) = mset xs)"

lemma site_loops:
  assumes "site_ok site kvs revision invar link os network used"
  shows "control_loops (site_plane site kvs)
    (others_change (store_ok invar kvs) (store_view kvs) (host_sound used)) own_memory
    (cluster_ok (store_ok invar kvs) (store_view kvs) (host_sound used)) remembered
    (\<lambda>i p. component_goal (siteName site) i (store_view kvs (clusterStore p)) (kubeProxies p)
       (\<lambda>n. host_view (nodeRuntimes p n)))"
proof -
  from assms have server: "etcd_server (siteEtcd site) kvs revision invar"
    and host: "runtime_host link os network used"
    and cri: "siteCri site = cri_client (runtime_socket link os network)"
    and nft: "\<And>n args input w. invar w \<Longrightarrow>
      invar (snd (siteNft site n args input w)) \<and> kvs (snd (siteNft site n args input w)) = kvs w"
    and order: "\<And>xs. mset (siteOrder site xs) = mset xs"
    unfolding site_ok_def by blast+
  show ?thesis
    unfolding site_plane_def cri
  proof (rule kubelet_node.control_plane_loops [OF node_contract [OF server host]])
    fix n rules w assume "store_ok invar kvs w"
    then show "store_ok invar kvs (snd (NftablesForwarder_Replace (siteNft site n) (siteTable site) rules w)) \<and>
        store_view kvs (snd (NftablesForwarder_Replace (siteNft site n) (siteTable site) rules w)) = store_view kvs w"
      using NftablesForwarder_frame [where I = "\<lambda>v. invar v \<and> kvs v = kvs w" and run = "siteNft site n" and w = w] nft
      by simp
  qed (rule refl order)+
qed

lemmas site_rest = control_loops.resting_goal [OF site_loops]

section \<open>Theorems\<close>


text \<open>What a Deployment asks for.\<close>

definition selects_template :: "Deployment \<Rightarrow> bool" where
  "selects_template d \<longleftrightarrow> LabelsMatch (deploymentSelector (deploymentSpec d))
     (Labels (templateMeta (deploymentTemplate (deploymentSpec d))))"

text \<open>The Pods of a Deployment: those its ReplicaSet manages.\<close>

definition provided :: "resources \<Rightarrow> Deployment \<Rightarrow> string set \<Rightarrow> bool" where
  "provided m d pods \<longleftrightarrow> (\<exists>rs\<in>replicaSets_of m. fits d rs \<and> pods = managed_names rs m) \<and>
     finite pods \<and> card pods = nat (deploymentReplicas (deploymentSpec d))"

lemma fits_template:
  assumes "fits d rs"
  shows "desired_replicas rs = nat (deploymentReplicas (deploymentSpec d))"
    and "template_matches rs \<longleftrightarrow> selects_template d"
proof -
  from assms have spec: "norm_rs_spec (rsSpec rs) = norm_rs_spec (rsSpec (newReplicaSet d))" by (simp add: fits_def)
  have parts: "rsReplicas (norm_rs_spec x) = rsReplicas x" "rsSelector (norm_rs_spec x) = rsSelector x"
    "Labels (templateMeta (rsTemplate (norm_rs_spec x))) = norm_map (Labels (templateMeta (rsTemplate x)))" for x
    by (simp_all add: norm_rs_spec_def norm_PodTemplateSpec_def norm_ObjectMeta_def)
  from arg_cong [OF spec, of rsReplicas] show "desired_replicas rs = nat (deploymentReplicas (deploymentSpec d))"
    unfolding parts by (simp add: desired_replicas_def newReplicaSet_def)
  from arg_cong [OF spec, of rsSelector] arg_cong [OF spec, of "\<lambda>x. Labels (templateMeta (rsTemplate x))"]
  have "rsSelector (rsSpec rs) = rsSelector (rsSpec (newReplicaSet d))"
    "norm_map (Labels (templateMeta (rsTemplate (rsSpec rs)))) =
      norm_map (Labels (templateMeta (rsTemplate (rsSpec (newReplicaSet d)))))"
    unfolding parts .
  then have "template_matches rs \<longleftrightarrow> LabelsMatch (rsSelector (rsSpec (newReplicaSet d)))
      (Labels (templateMeta (rsTemplate (rsSpec (newReplicaSet d)))))"
    unfolding template_matches_def by (metis LabelsMatch_norm)
  then show "template_matches rs \<longleftrightarrow> selects_template d"
    by (simp add: selects_template_def newReplicaSet_def)
qed

lemma goals_provide:
  assumes "component_goal name DeploymentLoop m proxies nodes" and "component_goal name ReplicaSetLoop m proxies nodes"
    and "d \<in> deployments_of m" and "selects_template d"
  shows "\<exists>pods. provided m d pods"
proof -
  from assms(1,3) have "deployed m d" by simp
  then obtain rs where rs: "rs \<in> replicaSets_of m" "fits d rs"
    unfolding deployed_def fitting_def replicaSets_of_def by blast
  with assms(2,4) fits_template [OF rs(2)] have "satisfied rs m" by simp
  with rs fits_template(1) [OF rs(2)] show ?thesis
    unfolding provided_def satisfied_def by (intro exI [of _ "managed_names rs m"]) auto
qed


section \<open>An example\<close>

text \<open>A node where \<^verbatim>\<open>nft\<close> succeeds and does not touch the store.\<close>

definition quiet_nft :: "mem_etcd exec" where
  "quiet_nft args input w = (([], None), w)"

definition no_manifests :: "'b manifests" where
  "no_manifests = \<lparr>manifestReadDir = (\<lambda>_. returning []), manifestReadFile = (\<lambda>_. returning []),
     yamlDecode = (\<lambda>_. [])\<rparr>"

type_synonym plain_runtime = "(Runtime \<times> nat) \<times> json"

definition mem_site :: "(unit, mem_etcd, plain_runtime) site" where
  "mem_site = \<lparr>siteEtcd = mem_client, siteNft = (\<lambda>_. quiet_nft), siteTable = ''toy_kube_proxy'',
     siteCri = plain_cri, siteName = (\<lambda>_. ''n''), siteCidr = (\<lambda>_. ''10.244.1.0/24''), siteOrder = (\<lambda>ps. ps),
     siteFiles = no_manifests, siteWatch = (\<lambda>_. returning [])\<rparr>"

abbreviation mem_plane where
  "mem_plane \<equiv> site_plane mem_site mem_kvs"

lemma mem_site_ok: "site_ok mem_site mem_kvs memRevision mem_invar perfect_link plain_os None counted"
  using mem_etcd_server plain_host.runtime_host_axioms by (simp add: site_ok_def mem_site_def quiet_nft_def)

interpretation mem_plane: control_loops mem_plane
  "others_change (store_ok mem_invar mem_kvs) mem_res (host_sound counted)" own_memory
  "cluster_ok (store_ok mem_invar mem_kvs) mem_res (host_sound counted)" remembered
  "\<lambda>i p. component_goal (siteName mem_site) i (mem_res (clusterStore p)) (kubeProxies p)
     (\<lambda>n. host_view (nodeRuntimes p n))"
  by (rule site_loops [OF mem_site_ok])

text \<open>A Deployment of two Pods and a Ready node without Pods, before any component has run.\<close>

definition example_start :: mem_etcd where
  "example_start = mem_create Nodes (example_node ''n'' NodeReady) example_deployed"

type_synonym mem_cluster = "(unit, mem_etcd, plain_runtime) cluster"

definition example_cluster :: mem_cluster where
  "example_cluster = \<lparr>clusterStore = example_start, nextNode = 0,
     kubeProxies = (\<lambda>_. \<lparr>lastRules = None\<rparr>), nodeRuntimes = (\<lambda>_. empty_node)\<rparr>"

text \<open>The cluster after every component has reconciled once.\<close>

definition example_converged :: mem_cluster where
  "example_converged = fold (\<lambda>i p. snd (opReconcile mem_plane i p)) enum_class.enum example_cluster"

text \<open>A watch and a reconciliation succeed and change nothing that is compared.\<close>

definition round_keeps :: "(mem_cluster \<Rightarrow> 'v) \<Rightarrow> unit component \<Rightarrow> mem_cluster \<Rightarrow> bool" where
  "round_keeps view i p \<longleftrightarrow>
     (case opWatch mem_plane i p of (a, p1) \<Rightarrow> \<not> isl a \<and> view p1 = view p \<and>
       (case opReconcile mem_plane i p1 of (b, p2) \<Rightarrow> \<not> isl b \<and> view p2 = view p))"

definition control_state :: "mem_cluster \<Rightarrow> mem_etcd \<times> nat \<times> KubeProxy" where
  "control_state p = (clusterStore p, nextNode p, kubeProxies p ())"

definition node_state :: "mem_cluster \<Rightarrow> mem_etcd \<times> (string, managedContainer) fmap \<times> (string, managedSandbox) fmap" where
  "node_state p = (clusterStore p, containers (fst (fst (nodeRuntimes p ()))), sandboxes (fst (fst (nodeRuntimes p ()))))"

lemma example_control_settled:
  "list_all (\<lambda>i. round_keeps control_state i example_converged)
     [DeploymentLoop, ReplicaSetLoop, SchedulerLoop, ProxyLoop ()]"
  by code_simp

lemma example_node_settled: "round_keeps node_state (KubeletLoop ()) example_converged"
  by code_simp

text \<open>What the loops other than the kubelet's leave alone, and what the kubelet's does.\<close>

lemma control_runtimes:
  assumes "\<And>n. i \<noteq> KubeletLoop n"
  shows "nodeRuntimes (snd (opWatch mem_plane i p)) = nodeRuntimes p"
    and "nodeRuntimes (snd (opReconcile mem_plane i p)) = nodeRuntimes p"
  using assms
  by (cases i; simp add: site_plane_def DeploymentController_Run_def ReplicaSetController_Run_def Scheduler_Run_def
      KubeProxy_Run_def on_store_def with_nextNode_def with_proxy_def split: prod.split)+

lemma kubelet_proxies:
  "kubeProxies (snd (opWatch mem_plane (KubeletLoop n) p)) = kubeProxies p"
  "kubeProxies (snd (opReconcile mem_plane (KubeletLoop n) p)) = kubeProxies p"
  by (simp_all add: site_plane_def with_runtime_def split: prod.split)

lemma control_round:
  assumes "round_keeps control_state i p" and "\<And>n. i \<noteq> KubeletLoop n"
  shows "\<exists>events u. opWatch mem_plane i p = (Inr events, p) \<and> opReconcile mem_plane i p = (Inr u, p)"
proof -
  have same: "p' = p" if "control_state p' = control_state p" "nodeRuntimes p' = nodeRuntimes p" for p' p :: mem_cluster
    using that by (cases p; cases p') (simp add: control_state_def fun_eq_iff)
  obtain a p1 where watch: "opWatch mem_plane i p = (a, p1)" by fastforce
  obtain b p2 where run: "opReconcile mem_plane i p1 = (b, p2)" by fastforce
  from assms(1) have ok: "\<not> isl a" "control_state p1 = control_state p" "\<not> isl b" "control_state p2 = control_state p"
    by (simp_all add: round_keeps_def watch run)
  have p1: "p1 = p" using same [OF ok(2)] control_runtimes(1) [of i p] assms(2) watch by simp
  have "p2 = p" using same [OF ok(4)] control_runtimes(2) [of i p] assms(2) run p1 by simp
  with watch run p1 ok(1,3) show ?thesis by (cases a; cases b) simp_all
qed

lemma node_state_view:
  assumes "node_state p' = node_state p"
  shows "observes mem_plane p' = observes mem_plane p" and "clusterStore p' = clusterStore p"
    and "host_view (nodeRuntimes p' n) = host_view (nodeRuntimes p n)"
proof -
  from assms show store: "clusterStore p' = clusterStore p" by (simp add: node_state_def)
  from assms show view: "host_view (nodeRuntimes p' n) = host_view (nodeRuntimes p n)" for n
    by (simp add: node_state_def behind_def rt_conts_def [abs_def] rt_sbs_def [abs_def])
  show "observes mem_plane p' = observes mem_plane p"
    unfolding site_plane_def control_plane_fields by (rule cluster_view_cong) (simp_all add: store view del: prod.inject)
qed

lemma example_rests:
  "\<exists>s. (site_step mem_site mem_kvs mem_invar counted)\<^sup>*\<^sup>* (plane_start example_converged) s \<and>
    clusterStore (planeWorld s) = clusterStore example_converged \<and>
    kubeProxies (planeWorld s) = kubeProxies example_converged \<and>
    (\<lambda>n. host_view (nodeRuntimes (planeWorld s) n)) = (\<lambda>n. host_view (nodeRuntimes example_converged n)) \<and>
    (\<forall>i. phase (loopControl (planeLoops s i)) = Waiting \<and> \<not> loopNotified (planeLoops s i))"
proof -
  let ?all = "enum_class.enum :: unit component list" and ?p = example_converged
  have settled: "\<exists>events u. opWatch mem_plane i ?p = (Inr events, ?p) \<and> opReconcile mem_plane i ?p = (Inr u, ?p)"
    if "i \<in> {DeploymentLoop, ReplicaSetLoop, SchedulerLoop, ProxyLoop ()}" for i
    by (rule control_round) (use that example_control_settled in auto)
  obtain a p1 where watch: "opWatch mem_plane (KubeletLoop ()) ?p = (a, p1)" by fastforce
  obtain b p2 where run: "opReconcile mem_plane (KubeletLoop ()) p1 = (b, p2)" by fastforce
  from example_node_settled have ok: "\<not> isl a" "node_state p1 = node_state ?p" "\<not> isl b" "node_state p2 = node_state ?p"
    by (simp_all add: round_keeps_def watch run)
  then have views: "observes mem_plane p1 = observes mem_plane ?p" "observes mem_plane p2 = observes mem_plane p1"
    using node_state_view(1) [of p1 ?p] node_state_view(1) [of p2 ?p] by simp_all
  obtain events u where "a = Inr events" "b = Inr u" using ok(1,3) by (cases a; cases b) auto
  with watch run views have "quiet mem_plane [KubeletLoop ()] ?p p2" by auto
  with settled have quiet: "quiet mem_plane ?all ?p p2"
    by (simp add: enum_component_def enum_unit_def) metis
  have "quiet mem_plane ?all (planeWorld (plane_start ?p)) p2"
    and "phase (loopControl (planeLoops (plane_start ?p) i)) = Opening" for i
    using quiet by (simp_all add: loop_start_def)
  from quiet_rounds [OF this(1) enum_distinct this(2)]
  obtain s where s: "(site_step mem_site mem_kvs mem_invar counted)\<^sup>*\<^sup>* (plane_start ?p) s" "planeWorld s = p2"
    "\<forall>i\<in>set ?all. phase (loopControl (planeLoops s i)) = Waiting \<and> \<not> loopNotified (planeLoops s i)"
    unfolding site_step_def by blast
  have "kubeProxies p2 = kubeProxies ?p"
    using kubelet_proxies(1) [of "()" ?p] kubelet_proxies(2) [of "()" p1] watch run by simp
  moreover have "i \<in> set ?all" for i by (simp add: enum_UNIV)
  moreover have "(\<lambda>n. host_view (nodeRuntimes p2 n)) = (\<lambda>n. host_view (nodeRuntimes ?p n))"
    by (rule ext) (rule node_state_view(3) [OF ok(4)])
  ultimately show ?thesis
    using s node_state_view(2) [OF ok(4)] by blast
qed

text \<open>The store of the example is tame, from its first objects on.\<close>

context typed_api begin

lemma create_other:
  assumes "ok w" and "valid_Resource (wrap x)" and "k \<noteq> kind"
  shows "res (snd (ResourceClient_Create client rc x w)) k = res w k"
proof -
  obtain ans w' where run: "ResourceClient_Create client rc x w = (ans, w')" by fastforce
  show ?thesis
    using create_ok [OF assms(1,2), of _ w'] create_error [OF assms(1,2), of _ w'] run assms(3)
    by (cases ans) (auto simp: put_resource_def)
qed

end

lemma example_start_clean: "mem_ok example_start \<and> names_clean example_start"
  unfolding example_start_def
  by (intro mem_create_node example_deployed_clean) code_simp+

lemma example_start_no_pods: "mem_res example_start ''Pod'' = Map.empty"
proof -
  have "mem_res example_start ''Pod'' = mem_res example_deployed ''Pod''"
    unfolding example_start_def mem_create_def
    by (rule typed_api.create_other [OF mem_typed_clients(1)])
      (use example_deployed_clean in \<open>simp add: mem_ok_def\<close>, code_simp, simp)
  also have "\<dots> = mem_res mem_empty ''Pod''"
    unfolding example_deployed_def mem_create_def
    by (rule typed_api.create_other [OF mem_typed_clients(3)])
      (use mem_empty_clean in \<open>simp add: mem_ok_def\<close>, code_simp, simp)
  also have "\<dots> = Map.empty" by (simp add: fun_eq_iff read_view_def objects_of_def mem_empty_def)
  finally show ?thesis .
qed

lemma example_converged_ok: "cluster_ok (store_ok mem_invar mem_kvs) mem_res (host_sound counted) example_converged"
proof -
  let ?ok = "cluster_ok (store_ok mem_invar mem_kvs) mem_res (host_sound counted)"
  have "?ok example_cluster"
    using mem_cleanD [OF example_start_clean] example_start_no_pods empty_node_ok
    by (simp add: cluster_ok_def tame_def example_cluster_def)
  moreover have "?ok (snd (opReconcile mem_plane i p))" if "?ok p" for i p
    using mem_plane.reconcile_keeps [OF that, of i] by (simp add: prod_eq_iff)
  ultimately show ?thesis unfolding example_converged_def by (simp add: enum_component_def enum_unit_def)
qed


lemma example_web:
  "case mem_res (clusterStore example_converged) ''Deployment'' ''web'' of
     Some (RDeployment d) \<Rightarrow> deploymentReplicas (deploymentSpec d) = 2 \<and> selects_template d | _ \<Rightarrow> False"
  by code_simp

lemma example_web_pod:
  "case mem_res (clusterStore example_converged) ''Pod'' ''web-rs-1'' of Some (RPod p) \<Rightarrow> assigned_to ''n'' p | _ \<Rightarrow> False"
  by code_simp


end
