(* ===== verification/KubeletApi.thy ===== *)
theory KubeletApi
  imports Workloads
begin

text \<open>
  What the kubelet does to the API for its own sake: \<open>reconcileMirrorPods\<close> shows the static Pods of
  the node as mirror Pods, \<open>registerNode\<close> stores the Node.
\<close>

section \<open>Mirror Pods\<close>

definition mirror_name :: "string \<Rightarrow> Pod \<Rightarrow> string" where
  "mirror_name node p = Name (podMeta p) @ ''-'' @ node"

text \<open>A stored Pod mirrors a static Pod: its spec and annotations are those of the mirror.\<close>

definition mirrored :: "string \<Rightarrow> Pod \<Rightarrow> Resource option \<Rightarrow> bool" where
  "mirrored node p r \<longleftrightarrow> (\<exists>q. r = Some (RPod q) \<and>
     norm_PodSpec (podSpec q) = norm_PodSpec (podSpec (mirrorPod p node)) \<and>
     norm_map (Annotations (podMeta q)) = norm_map (Annotations (podMeta (mirrorPod p node))))"

definition mirror_at :: "resources \<Rightarrow> string \<Rightarrow> bool" where
  "mirror_at m n \<longleftrightarrow> (\<exists>q. m ''Pod'' n = Some (RPod q) \<and> isMirrorPod q)"

text \<open>Only mirror Pods change; a Pod that appears mirrors one of the static Pods.\<close>

definition mirrors_only :: "string \<Rightarrow> Pod set \<Rightarrow> resources \<Rightarrow> resources \<Rightarrow> bool" where
  "mirrors_only node S m m' \<longleftrightarrow>
     (\<forall>kind. kind \<noteq> ''Pod'' \<longrightarrow> m' kind = m kind) \<and>
     (\<forall>n. m' ''Pod'' n = m ''Pod'' n \<or>
        (m ''Pod'' n = None \<or> mirror_at m n) \<and>
        (m' ''Pod'' n = None \<or> (\<exists>p\<in>S. n = mirror_name node p \<and> mirrored node p (m' ''Pod'' n))))"

lemma mirror_fields [simp]:
  "Name (podMeta (mirrorPod p node)) = mirror_name node p"
  "NodeName (podSpec (mirrorPod p node)) = node"
  by (simp_all add: mirrorPod_def mirror_name_def)

lemma mirror_name_inject [simp]: "mirror_name node p = mirror_name node q \<longleftrightarrow> Name (podMeta p) = Name (podMeta q)"
  by (simp add: mirror_name_def)

lemma map_has_key_norm: "norm_map l = norm_map l' \<Longrightarrow> map_has_key l k = map_has_key l' k"
proof -
  have "map_has_key (norm_map l) k = map_has_key l k" for l
    by (cases l) (auto simp: norm_map_def map_has_key_def empty_map_def)
  then show "norm_map l = norm_map l' \<Longrightarrow> map_has_key l k = map_has_key l' k" by metis
qed

lemma mirrored_at: "mirrored node p (m ''Pod'' n) \<Longrightarrow> mirror_at m n"
proof -
  have "map_has_key (Annotations (podMeta (mirrorPod p node))) mirrorAnnotation"
    by (simp add: mirrorPod_def map_has_key_def sourceAnnotation_def mirrorAnnotation_def)
  then show "mirrored node p (m ''Pod'' n) \<Longrightarrow> mirror_at m n"
    by (auto simp: mirrored_def mirror_at_def isMirrorPod_def dest: map_has_key_norm)
qed

lemma valid_mirror: "valid_Resource (RPod p) \<Longrightarrow> valid_Resource (RPod (mirrorPod p node))"
  by (simp add: mirrorPod_def valid_ObjectMeta_def valid_PodSpec_def)

text \<open>A mirror, with any version, as the API stores it.\<close>

lemma stored_mirror:
  assumes "stored_form ''Pod'' (RPod ((mirrorPod p node)\<lparr>podMeta := (podMeta (mirrorPod p node))\<lparr>ResourceVersion := v\<rparr>\<rparr>)) (RPod q)"
  shows "mirrored node p (Some (RPod q))"
proof -
  from assms obtain u where "q = norm_Pod ((mirrorPod p node)\<lparr>podMeta := (podMeta (mirrorPod p node))\<lparr>ResourceVersion := u\<rparr>\<rparr>)"
    by (auto simp: stored_form_def)
  then show ?thesis by (simp add: mirrored_def norm_Pod_def norm_ObjectMeta_def)
qed

text \<open>What one round of the first loop does.\<close>

definition mirror_step :: "string \<Rightarrow> Pod \<Rightarrow> resources \<Rightarrow> resources \<Rightarrow> bool" where
  "mirror_step node p m m' \<longleftrightarrow> m' = m \<or>
     (\<exists>r. mirrored node p (Some r) \<and> m' = put_resource ''Pod'' (mirror_name node p) (Some r) m)"


context cluster_api begin

lemma mirror_round:
  assumes "ok w" and "valid_Resource (RPod p)" and "mirror_name node p \<in> dom (res w ''Pod'') \<Longrightarrow> url_clean (mirror_name node p)"
    and "\<And>q. fmlookup current (mirror_name node p) = Some q \<Longrightarrow>
      res w ''Pod'' (mirror_name node p) = Some (RPod q)"
    and "apply_mirrors client node current [p] w = (ans, w')"
  shows "ok w' \<and> mirror_step node p (res w) (res w') \<and>
    (res w' \<noteq> res w \<longrightarrow> res w ''Pod'' (mirror_name node p) = None \<or> mirror_name node p |\<in>| fmdom current) \<and>
    (\<not> isl ans \<longrightarrow> mirrored node p (res w' ''Pod'' (mirror_name node p)))"
proof (cases "fmlookup current (mirror_name node p)")
  case None
  have valid: "valid_Resource (RPod (mirrorPod p node))" using assms(2) by (rule valid_mirror)
  obtain a w1 where call: "ResourceClient_Create client Pods (mirrorPod p node) w = (a, w1)" by fastforce
  have w': "w' = w1" "isl ans = isl a"
    using assms(5) None call by (cases a; auto simp: andThen_def wrapping_def returning_def)+
  have form: "mirrored node p (Some (RPod y))" if "stored_form ''Pod'' (RPod (mirrorPod p node)) (RPod y)" for y
    using stored_mirror [where p = p and node = node and q = y and v = "ResourceVersion (podMeta (mirrorPod p node))"] that by simp
  show ?thesis
  proof (cases a)
    case (Inl e)
    from pods.create_error [OF assms(1) valid call [unfolded Inl]] form w' Inl
    show ?thesis by (auto simp: mirror_step_def)
  next
    case (Inr y)
    from pods.create_ok [OF assms(1) valid call [unfolded Inr]] form w' Inr
    show ?thesis by (auto simp: mirror_step_def put_resource_apply)
  qed
next
  case (Some q)
  from assms(4) [OF Some] have q: "res w ''Pod'' (mirror_name node p) = Some (RPod q)" .
  from pods.named [OF assms(1) q] have name: "Name (podMeta q) = mirror_name node p"
    and v: "in_int64 (ResourceVersion (podMeta q))" by (auto simp: valid_ObjectMeta_def)
  show ?thesis
  proof (cases "podSpec q = podSpec (mirrorPod p node) \<and> Annotations (podMeta q) = Annotations (podMeta (mirrorPod p node))")
    case True
    with assms(5) Some have "w' = w" by (simp add: returning_def Let_def)
    with q True assms(1) show ?thesis by (simp add: mirror_step_def mirrored_def)
  next
    case False
    let ?new = "(mirrorPod p node)\<lparr>podMeta := (podMeta (mirrorPod p node))\<lparr>ResourceVersion := ResourceVersion (podMeta q)\<rparr>\<rparr>"
    have valid: "valid_Resource (RPod ?new)" using valid_mirror [OF assms(2)] v by (simp add: valid_ObjectMeta_def)
    have form: "mirrored node p (Some (RPod y))" if "stored_form ''Pod'' (RPod ?new) (RPod y)" for y
      using that by (rule stored_mirror)
    have clean: "url_clean (mirror_name node p)" using assms(3) q by blast
    obtain a w1 where call: "ResourceClient_Update client Pods (mirror_name node p) ?new w = (a, w1)" by fastforce
    have w': "w' = w1" "isl ans = isl a"
      using assms(5) Some False call name by (cases a; auto simp: andThen_def wrapping_def returning_def Let_def)+
    show ?thesis
    proof (cases a)
      case (Inl e)
      from pods.update_error [OF assms(1) valid clean call [unfolded Inl]] form w' Inl
      show ?thesis using Some by (auto simp: mirror_step_def fmlookup_dom_iff)
    next
      case (Inr y)
      from pods.update_ok [OF assms(1) valid clean call [unfolded Inr]] form w' Inr
      show ?thesis using Some by (auto simp: mirror_step_def put_resource_apply fmlookup_dom_iff)
    qed
  qed
qed

lemma apply_mirrors_Cons:
  "apply_mirrors client node current (p # ps) =
    andThen (apply_mirrors client node current [p]) (\<lambda>_. apply_mirrors client node current ps)"
  by (rule ext) (simp add: Let_def andThen_def returning_def split: option.splits sum.splits prod.splits)

text \<open>The first loop: every round is a \<open>mirror_step\<close> of its own Pod.\<close>

definition mirroring :: "string \<Rightarrow> Pod set \<Rightarrow> string set \<Rightarrow> resources \<Rightarrow> resources \<Rightarrow> bool" where
  "mirroring node S C m m' \<longleftrightarrow>
     (\<forall>kind. kind \<noteq> ''Pod'' \<longrightarrow> m' kind = m kind) \<and>
     (\<forall>n. m' ''Pod'' n = m ''Pod'' n \<or> (m ''Pod'' n = None \<or> n \<in> C) \<and>
       (\<exists>p\<in>S. n = mirror_name node p \<and> mirrored node p (m' ''Pod'' n)))"

lemma apply_mirrors_effect:
  assumes "ok w" and "\<And>p. p \<in> set ps \<Longrightarrow> valid_Resource (RPod p)" and "distinct (map (\<lambda>p. Name (podMeta p)) ps)"
    and "\<And>n. n \<in> mirror_name node ` set ps \<Longrightarrow> n \<in> dom (res w ''Pod'') \<Longrightarrow> url_clean n"
    and "\<And>n q. n \<in> mirror_name node ` set ps \<Longrightarrow> fmlookup current n = Some q \<Longrightarrow> res w ''Pod'' n = Some (RPod q)"
    and "apply_mirrors client node current ps w = (ans, w')"
  shows "ok w' \<and> mirroring node (set ps) (fset (fmdom current)) (res w) (res w') \<and>
    (\<not> isl ans \<longrightarrow> (\<forall>p\<in>set ps. mirrored node p (res w' ''Pod'' (mirror_name node p))))"
  using assms
proof (induction ps arbitrary: w)
  case Nil
  then show ?case by (simp add: returning_def mirroring_def)
next
  case (Cons p ps)
  obtain a w1 where head: "apply_mirrors client node current [p] w = (a, w1)" by fastforce
  have "ok w1 \<and> mirror_step node p (res w) (res w1) \<and>
    (res w1 \<noteq> res w \<longrightarrow> res w ''Pod'' (mirror_name node p) = None \<or> mirror_name node p |\<in>| fmdom current) \<and>
    (\<not> isl a \<longrightarrow> mirrored node p (res w1 ''Pod'' (mirror_name node p)))"
    by (rule mirror_round [OF Cons.prems(1) Cons.prems(2) Cons.prems(4) Cons.prems(5) head]) auto
  then have w1: "ok w1" and step: "mirror_step node p (res w) (res w1)"
    and free: "res w1 \<noteq> res w \<Longrightarrow> res w ''Pod'' (mirror_name node p) = None \<or> mirror_name node p |\<in>| fmdom current"
    and own: "\<not> isl a \<Longrightarrow> mirrored node p (res w1 ''Pod'' (mirror_name node p))" by simp_all
  have other: "res w1 ''Pod'' n = res w ''Pod'' n" if "n \<noteq> mirror_name node p" for n
    using step that by (auto simp: mirror_step_def put_resource_apply)
  have kinds: "res w1 kind = res w kind" if "kind \<noteq> ''Pod''" for kind
    using step that by (auto simp: mirror_step_def put_resource_def)
  have mine: "res w1 ''Pod'' (mirror_name node p) = res w ''Pod'' (mirror_name node p) \<or>
      (res w ''Pod'' (mirror_name node p) = None \<or> mirror_name node p |\<in>| fmdom current) \<and>
      mirrored node p (res w1 ''Pod'' (mirror_name node p))"
  proof (cases "res w1 = res w")
    case False
    with step free show ?thesis by (auto simp: mirror_step_def put_resource_apply)
  qed simp
  have one: "mirroring node (set (p # ps)) (fset (fmdom current)) (res w) (res w1)"
    unfolding mirroring_def
  proof (intro conjI allI impI)
    fix n
    show "res w1 ''Pod'' n = res w ''Pod'' n \<or> (res w ''Pod'' n = None \<or> n \<in> fset (fmdom current)) \<and>
        (\<exists>q\<in>set (p # ps). n = mirror_name node q \<and> mirrored node q (res w1 ''Pod'' n))"
      using mine other by (cases "n = mirror_name node p") auto
  qed (rule kinds)
  show ?case
  proof (cases a)
    case (Inl e)
    with Cons.prems(6) head have "isl ans" "w' = w1"
      unfolding apply_mirrors_Cons [of node current p ps] by (auto simp: andThen_def)
    with w1 one show ?thesis by simp
  next
    case (Inr u)
    with Cons.prems(6) head have rest: "apply_mirrors client node current ps w1 = (ans, w')"
      unfolding apply_mirrors_Cons [of node current p ps] by (simp add: andThen_def)
    have apart: "mirror_name node p \<notin> mirror_name node ` set ps"
      using Cons.prems(3) by auto
    have clean: "url_clean n" if "n \<in> mirror_name node ` set ps" "n \<in> dom (res w1 ''Pod'')" for n
    proof -
      have "n \<noteq> mirror_name node p" using that(1) apart by blast
      then have "n \<in> dom (res w ''Pod'')" using that(2) other by (simp add: domIff)
      with Cons.prems(4) [of n] that(1) show ?thesis by simp
    qed
    have listed: "res w1 ''Pod'' n = Some (RPod q)" if "n \<in> mirror_name node ` set ps" "fmlookup current n = Some q" for n q
    proof -
      have "n \<noteq> mirror_name node p" using that(1) apart by blast
      then show ?thesis using Cons.prems(5) [of n q] that other by simp
    qed
    have "ok w' \<and> mirroring node (set ps) (fset (fmdom current)) (res w1) (res w') \<and>
      (\<not> isl ans \<longrightarrow> (\<forall>p\<in>set ps. mirrored node p (res w' ''Pod'' (mirror_name node p))))"
    proof (rule Cons.IH [OF w1 _ _ _ _ rest], goal_cases)
      case (1 q) then show ?case by (intro Cons.prems(2)) simp
    next
      case 2 show ?case using Cons.prems(3) by simp
    next
      case (3 n) then show ?case by (rule clean)
    next
      case (4 n q) then show ?case by (rule listed)
    qed
    then have tail: "ok w'" "mirroring node (set ps) (fset (fmdom current)) (res w1) (res w')"
      "\<not> isl ans \<longrightarrow> (\<forall>p\<in>set ps. mirrored node p (res w' ''Pod'' (mirror_name node p)))" by blast+
    have kept: "res w' ''Pod'' (mirror_name node p) = res w1 ''Pod'' (mirror_name node p)"
      using tail(2) apart unfolding mirroring_def by blast
    have "mirroring node (set (p # ps)) (fset (fmdom current)) (res w) (res w')"
      unfolding mirroring_def
    proof (intro conjI allI impI)
      fix kind :: string assume "kind \<noteq> ''Pod''"
      with kinds tail(2) show "res w' kind = res w kind" by (simp add: mirroring_def)
    next
      fix n
      show "res w' ''Pod'' n = res w ''Pod'' n \<or> (res w ''Pod'' n = None \<or> n \<in> fset (fmdom current)) \<and>
          (\<exists>q\<in>set (p # ps). n = mirror_name node q \<and> mirrored node q (res w' ''Pod'' n))"
      proof (cases "n = mirror_name node p")
        case True
        with kept mine show ?thesis by auto
      next
        case False
        from tail(2) have "res w' ''Pod'' n = res w1 ''Pod'' n \<or> (res w1 ''Pod'' n = None \<or> n \<in> fset (fmdom current)) \<and>
          (\<exists>q\<in>set ps. n = mirror_name node q \<and> mirrored node q (res w' ''Pod'' n))" by (simp add: mirroring_def)
        with other [OF False] show ?thesis by auto
      qed
    qed
    with tail own Inr kept show ?thesis by simp
  qed
qed

text \<open>The second loop. A mirror that is there is deleted, or the deletion failed.\<close>

lemma delete_mirrors_effect:
  assumes "ok w" and "distinct (map (\<lambda>p. Name (podMeta p)) ps)"
    and "\<And>p. p \<in> set ps \<Longrightarrow> Name (podMeta p) \<notin> set desired \<Longrightarrow>
      url_clean (Name (podMeta p)) \<and> res w ''Pod'' (Name (podMeta p)) = Some (RPod p)"
    and "delete_mirrors client desired ps w = (ans, w')"
  shows "ok w' \<and> (\<exists>N \<subseteq> (\<lambda>p. Name (podMeta p)) ` set ps - set desired. res w' = without N (res w) \<and>
    (\<not> isl ans \<longrightarrow> N = (\<lambda>p. Name (podMeta p)) ` set ps - set desired))"
  using assms
proof (induction ps arbitrary: w)
  case Nil
  then show ?case by (auto simp: returning_def)
next
  case (Cons p ps)
  show ?case
  proof (cases "Name (podMeta p) \<in> set desired")
    case True
    with Cons show ?thesis by auto
  next
    case False
    define n where "n = Name (podMeta p)"
    from Cons.prems(3) [of p] False have p: "url_clean n" "res w ''Pod'' n = Some (RPod p)" by (simp_all add: n_def)
    from pods.named [OF Cons.prems(1) p(2)] have v: "in_int64 (ResourceVersion (podMeta p))"
      by (auto simp: valid_ObjectMeta_def)
    obtain a w1 where call: "ResourceClient_Delete client Pods n (ResourceVersion (podMeta p)) w = (a, w1)" by fastforce
    show ?thesis
    proof (cases a)
      case (Inl e)
      have "\<not> IsNotFound e"
        using pods.delete_not_found [OF Cons.prems(1) p(1) v call [unfolded Inl] _ p(2)] by auto
      with Cons.prems(4) False call Inl have ans: "isl ans" "w' = w1" by (auto simp: n_def)
      from pods.delete_error [OF Cons.prems(1) p(1) v call [unfolded Inl]]
      have "ok w1 \<and> (res w1 = without {} (res w) \<or> res w1 = without {n} (res w))"
        using without_simps(1) [of "put_resource ''Pod'' n None (res w)"] without_simps(1) [of "res w"]
          without_simps(2) [of "{}" n "res w"] by metis
      with ans False show ?thesis unfolding n_def by (intro conjI) auto
    next
      case (Inr u)
      with Cons.prems(4) False call have rest: "delete_mirrors client desired ps w1 = (ans, w')"
        by (simp add: n_def)
      from pods.delete_ok [OF Cons.prems(1) p(1) v, of w1] call Inr
      have w1: "ok w1" "res w1 = put_resource ''Pod'' n None (res w)" by simp_all
      have "url_clean (Name (podMeta q)) \<and> res w1 ''Pod'' (Name (podMeta q)) = Some (RPod q)"
        if "q \<in> set ps" "Name (podMeta q) \<notin> set desired" for q
      proof -
        have "Name (podMeta q) \<noteq> n" using Cons.prems(2) that(1) by (auto simp: n_def image_iff)
        with Cons.prems(3) [of q] that show ?thesis by (simp add: w1(2) put_resource_apply)
      qed
      from Cons.IH [OF w1(1) _ this rest] Cons.prems(2) obtain N where N: "ok w'"
        "N \<subseteq> (\<lambda>p. Name (podMeta p)) ` set ps - set desired" "res w' = without N (res w1)"
        "\<not> isl ans \<longrightarrow> N = (\<lambda>p. Name (podMeta p)) ` set ps - set desired" by auto
      show ?thesis
        by (intro conjI exI [of _ "insert n N"]) (use N w1(2) False in \<open>auto simp: n_def\<close>)
    qed
  qed
qed

lemma reconcileMirrorPods_effect:
  assumes "ok w" and "\<And>p. p \<in> set ps \<Longrightarrow> valid_Resource (RPod p)" and "distinct (map (\<lambda>p. Name (podMeta p)) ps)"
    and "\<And>n. n \<in> dom (res w ''Pod'') \<Longrightarrow> url_clean n" and "\<And>xs. mset (order xs) = mset xs"
    and "reconcileMirrorPods order client node ps w = (ans, w')"
  shows "ok w' \<and> mirrors_only node (set ps) (res w) (res w') \<and>
    (\<not> isl ans \<longrightarrow> (\<forall>p\<in>set ps. mirrored node p (res w' ''Pod'' (mirror_name node p))) \<and>
      (\<forall>n. mirror_at (res w') n \<longrightarrow> n \<in> mirror_name node ` set ps))"
proof -
  obtain a w1 where list: "ResourceClient_List client Pods w = (a, w1)" by fastforce
  show ?thesis
  proof (cases a)
    case (Inl e)
    with assms(6) list have "isl ans" "w' = w1"
      by (auto simp: reconcileMirrorPods_def andThen_def wrapping_def)
    with pods.list_error [OF assms(1) list [unfolded Inl]] show ?thesis by (simp add: mirrors_only_def)
  next
    case (Inr l)
    note P = pods.list_items [OF assms(1) list [unfolded Inr]]
    define current where "current = pods_by_name (filter isMirrorPod (elems (Items l)))"
    have dist: "distinct (map (\<lambda>p. Name (podMeta p)) (filter isMirrorPod (elems (Items l))))"
      using P(3) distinct_map_filter by fastforce
    have current: "fmlookup current n = Some q \<longleftrightarrow> res w ''Pod'' n = Some (RPod q) \<and> isMirrorPod q" for n q
      using keyed_lookup [OF dist, of n q] P(4) [of q] P(5) [of n "RPod q"] pods.named [OF assms(1), of n "RPod q"]
      by (auto simp: current_def pods_by_name_def)
    have at: "n \<in> fset (fmdom current) \<longleftrightarrow> mirror_at (res w) n" for n
      using current by (auto simp: mirror_at_def fmlookup_dom_iff)
    obtain b w2 where apply_run: "apply_mirrors client node current ps w1 = (b, w2)" by fastforce
    have "ok w2 \<and> mirroring node (set ps) (fset (fmdom current)) (res w1) (res w2) \<and>
      (\<not> isl b \<longrightarrow> (\<forall>p\<in>set ps. mirrored node p (res w2 ''Pod'' (mirror_name node p))))"
      by (rule apply_mirrors_effect [OF P(1) assms(2,3) _ _ apply_run]) (use assms(4) current P(2) in auto)
    then have w2: "ok w2" "mirroring node (set ps) (fset (fmdom current)) (res w) (res w2)"
      "\<not> isl b \<longrightarrow> (\<forall>p\<in>set ps. mirrored node p (res w2 ''Pod'' (mirror_name node p)))"
      using P(2) by simp_all
    have only2: "mirrors_only node (set ps) (res w) (res w2)"
      using w2(2) at unfolding mirrors_only_def mirroring_def by blast
    show ?thesis
    proof (cases b)
      case (Inl e)
      with assms(6) list apply_run \<open>a = Inr l\<close> have "isl ans" "w' = w2"
        by (auto simp: reconcileMirrorPods_def andThen_def wrapping_def Let_def current_def)
      with w2(1) only2 show ?thesis by blast
    next
      case (Inr u)
      let ?desired = "map (\<lambda>p. Name (podMeta (mirrorPod p node))) ps"
      have desired: "set ?desired = mirror_name node ` set ps" by auto
      from assms(6) list apply_run \<open>a = Inr l\<close> Inr
      have rest: "delete_mirrors client ?desired (map_values order current) w2 = (ans, w')"
        by (simp add: reconcileMirrorPods_def andThen_def wrapping_def Let_def current_def)
      have named: "Name (podMeta p) = q" if "fmlookup current q = Some p" for q p
        using that pods.named [OF assms(1), of q "RPod p"] by (auto simp: current)
      have vals: "distinct (map (\<lambda>p. Name (podMeta p)) (map_values order current))"
        "set (map_values order current) = {p. fmlookup current (Name (podMeta p)) = Some p}"
        by (rule map_values_ok [where order = order]; use assms(5) named in blast)+
      have names: "(\<lambda>p. Name (podMeta p)) ` set (map_values order current) = {n. mirror_at (res w) n}"
      proof (intro set_eqI iffI)
        fix n assume "n \<in> (\<lambda>p. Name (podMeta p)) ` set (map_values order current)"
        then show "n \<in> {n. mirror_at (res w) n}"
          unfolding vals(2) by (auto simp: current mirror_at_def)
      next
        fix n assume "n \<in> {n. mirror_at (res w) n}"
        then obtain q where q: "fmlookup current n = Some q" by (auto simp: current mirror_at_def)
        with named [OF q] show "n \<in> (\<lambda>p. Name (podMeta p)) ` set (map_values order current)"
          unfolding vals(2) by (intro image_eqI [of _ _ q]) simp_all
      qed
      have "ok w' \<and> (\<exists>N \<subseteq> (\<lambda>p. Name (podMeta p)) ` set (map_values order current) - set ?desired.
        res w' = without N (res w2) \<and>
        (\<not> isl ans \<longrightarrow> N = (\<lambda>p. Name (podMeta p)) ` set (map_values order current) - set ?desired))"
      proof (rule delete_mirrors_effect [OF w2(1) vals(1) _ rest])
        fix p assume "p \<in> set (map_values order current)" "Name (podMeta p) \<notin> set ?desired"
        moreover from this(1) have "res w ''Pod'' (Name (podMeta p)) = Some (RPod p)"
          unfolding vals(2) by (simp add: current)
        moreover have "res w2 ''Pod'' n = res w ''Pod'' n" if "n \<notin> mirror_name node ` set ps" for n
          using w2(2) that unfolding mirroring_def by blast
        ultimately show "url_clean (Name (podMeta p)) \<and> res w2 ''Pod'' (Name (podMeta p)) = Some (RPod p)"
          using assms(4) [of "Name (podMeta p)"] unfolding desired by auto
      qed
      then obtain N where N: "ok w'" "N \<subseteq> {n. mirror_at (res w) n} - mirror_name node ` set ps"
        "res w' = without N (res w2)" "\<not> isl ans \<longrightarrow> N = {n. mirror_at (res w) n} - mirror_name node ` set ps"
        unfolding names desired by blast
      have only: "mirrors_only node (set ps) (res w) (res w')"
        using only2 N(2) unfolding N(3) mirrors_only_def by auto
      have kept: "mirrored node p (res w' ''Pod'' (mirror_name node p))" if "p \<in> set ps" for p
        using w2(3) Inr N(2) that unfolding N(3) by auto
      have "n \<in> mirror_name node ` set ps" if "\<not> isl ans" "mirror_at (res w') n" for n
      proof (rule ccontr)
        assume n: "n \<notin> mirror_name node ` set ps"
        with w2(2) have "res w2 ''Pod'' n = res w ''Pod'' n" unfolding mirroring_def by blast
        with that n N(3,4) show False by (auto simp: mirror_at_def split: if_splits)
      qed
      with N(1) only kept show ?thesis by blast
    qed
  qed
qed

end

text \<open>
  C11: a reconciliation of the mirror Pods, on every path and in whatever order Go visits the map,
  changes nothing but mirror Pods and names that were free, where it puts mirrors of the static
  Pods; when it succeeds every static Pod is mirrored, and there is no other mirror Pod.
\<close>

theorem static_pods_mirrored:
  assumes "etcd_server client kvs revision invar" and "invar w" and "objects_ok (objects_of (kvs w))"
    and "\<And>name. name \<in> dom (read_view (objects_of (kvs w)) ''Pod'') \<Longrightarrow> url_clean name"
    and "\<And>p. p \<in> set staticPods \<Longrightarrow> valid_Resource (RPod p)"
    and "distinct (map (\<lambda>p. Name (podMeta p)) staticPods)" and "\<And>xs. mset (order xs) = mset xs"
    and "reconcileMirrorPods order (api_client (NewEtcdClient client)) node staticPods w = (ans, w')"
  shows "mirrors_only node (set staticPods) (read_view (objects_of (kvs w))) (read_view (objects_of (kvs w'))) \<and>
    (\<not> isl ans \<longrightarrow>
      (\<forall>p \<in> set staticPods. mirrored node p (read_view (objects_of (kvs w')) ''Pod'' (mirror_name node p))) \<and>
      (\<forall>n. mirror_at (read_view (objects_of (kvs w'))) n \<longrightarrow> n \<in> mirror_name node ` set staticPods))"
proof -
  have ok: "invar w \<and> objects_ok (objects_of (kvs w))" using assms(2,3) by simp
  show ?thesis
    by (rule conjunct2 [OF cluster_api.reconcileMirrorPods_effect [OF etcd_server_cluster_api [OF assms(1)] ok]])
      (rule assms(5), assumption, rule assms(6), rule assms(4), assumption, rule assms(7), rule assms(8))
qed

definition example_mirrored :: mem_etcd where
  "example_mirrored = mem_create Pods (mirrorPod (example_pod ''old'') ''node-1'') mem_empty"

lemma example_mirrored_clean: "mem_ok example_mirrored \<and> names_clean example_mirrored"
  unfolding example_mirrored_def
  by (intro mem_create_pod mem_empty_clean) code_simp+

lemma static_pods_mirrored_witness:
  "\<not> mirror_at (mem_res (snd (reconcileMirrorPods (\<lambda>ps. ps) mem_api ''node-1'' [example_pod ''web''] example_mirrored)))
     ''old-node-1'' \<and>
   mirror_at (mem_res (snd (reconcileMirrorPods (\<lambda>ps. ps) mem_api ''node-1'' [example_pod ''web''] example_mirrored)))
     ''web-node-1''"
proof -
  note clean = mem_cleanD [OF example_mirrored_clean]
  let ?run = "reconcileMirrorPods (\<lambda>ps. ps) mem_api ''node-1'' [example_pod ''web''] example_mirrored"
  have ok: "\<not> isl (fst ?run)" by code_simp
  obtain ans w where run: "?run = (ans, w)" by fastforce
  have "valid_Resource (RPod (example_pod ''web''))" by code_simp
  then have pods: "valid_Resource (RPod p)" if "p \<in> set [example_pod ''web'']" for p using that by simp
  have distinct: "distinct (map (\<lambda>p. Name (podMeta p)) [example_pod ''web''])" by simp
  have "\<not> isl ans \<longrightarrow>
      (\<forall>p \<in> set [example_pod ''web'']. mirrored ''node-1'' p (mem_res w ''Pod'' (mirror_name ''node-1'' p))) \<and>
      (\<forall>n. mirror_at (mem_res w) n \<longrightarrow> n \<in> mirror_name ''node-1'' ` set [example_pod ''web''])"
    by (rule conjunct2 [OF static_pods_mirrored [OF mem_etcd_server clean(1,2)]])
      (rule clean(3), assumption, erule pods, rule distinct, rule refl, rule run)
  moreover have "mirror_name ''node-1'' (example_pod ''web'') = ''web-node-1''"
    by (simp add: mirror_name_def example_pod_def named_meta_def)
  ultimately have "mirrored ''node-1'' (example_pod ''web'') (mem_res w ''Pod'' ''web-node-1'')"
    and "\<forall>n. mirror_at (mem_res w) n \<longrightarrow> n = ''web-node-1''"
    using ok unfolding run by simp_all
  then show ?thesis unfolding run using mirrored_at by fastforce
qed

section \<open>The Node\<close>

definition registered_as :: "string \<Rightarrow> string \<Rightarrow> Resource option \<Rightarrow> bool" where
  "registered_as name cidr r \<longleftrightarrow> (\<exists>x. r = Some (RNode x) \<and> Name (nodeMeta x) = name \<and>
     PodCIDR (nodeSpec x) = cidr \<and> nodePhase (nodeStatus x) = NodeReady)"

definition versioned_node :: "string \<Rightarrow> string \<Rightarrow> int \<Rightarrow> Node" where
  "versioned_node name cidr v =
     (node_to_register name cidr)\<lparr>nodeMeta := (nodeMeta (node_to_register name cidr))\<lparr>ResourceVersion := v\<rparr>\<rparr>"

lemma versioned_node_fields [simp]:
  "Name (nodeMeta (versioned_node name cidr v)) = name"
  "(versioned_node name cidr v)\<lparr>nodeMeta := (nodeMeta (versioned_node name cidr v))\<lparr>ResourceVersion := v'\<rparr>\<rparr> =
    versioned_node name cidr v'"
  by (simp_all add: versioned_node_def node_to_register_def)

lemma node_to_register_versioned: "node_to_register name cidr = versioned_node name cidr 0"
  by (simp add: versioned_node_def node_to_register_def zero_ObjectMeta_def zero_Node_def)

lemma stored_node:
  assumes "stored_form ''Node'' (RNode (versioned_node name cidr v)) (RNode y)"
  shows "registered_as name cidr (Some (RNode y))"
proof -
  from assms obtain u where "y = norm_Node (Node_SetResourceVersion u (versioned_node name cidr v))"
    by (auto simp: stored_form_def)
  then show ?thesis
    by (simp add: registered_as_def norm_Node_def norm_ObjectMeta_def versioned_node_def node_to_register_def)
qed

text \<open>The Node is left alone, or stored as the kubelet describes it.\<close>

definition registering :: "string \<Rightarrow> string \<Rightarrow> resources \<Rightarrow> resources \<Rightarrow> bool" where
  "registering name cidr m m' \<longleftrightarrow>
     m' = m \<or> (\<exists>r. registered_as name cidr (Some r) \<and> m' = put_resource ''Node'' name (Some r) m)"

lemma registering_trans:
  "registering name cidr m m1 \<Longrightarrow> registering name cidr m1 m2 \<Longrightarrow> registering name cidr m m2"
  unfolding registering_def put_resource_def by auto

context cluster_api begin

lemma register_attempt_effect:
  assumes "ok w" and "in_int64 v" and "url_clean name"
    and "register_attempt client (versioned_node name cidr v) w = ((reg, node'), w')"
  shows "ok w' \<and> registering name cidr (res w) (res w') \<and>
    (reg \<longrightarrow> registered_as name cidr (res w' ''Node'' name)) \<and>
    (\<exists>v'. in_int64 v' \<and> node' = versioned_node name cidr v')"
proof -
  have valid: "valid_Resource (RNode (versioned_node name cidr u))" if "in_int64 u" for u
    using that by (simp add: versioned_node_def valid_ObjectMeta_def)
  have form: "registered_as name cidr (Some (RNode y))"
    if "stored_form ''Node'' (RNode (versioned_node name cidr u)) (RNode y)" for u y
    using that by (rule stored_node)
  obtain a w1 where get: "ResourceClient_Get client Nodes name w = (a, w1)" by fastforce
  show ?thesis
  proof (cases a)
    case (Inl e)
    from nodes.get_error [OF assms(1,3) get [unfolded Inl]] have w1: "ok w1" "res w1 = res w" by simp_all
    obtain b w2 where create: "ResourceClient_Create client Nodes (versioned_node name cidr v) w1 = (b, w2)" by fastforce
    from assms(4) get Inl create have ends: "node' = versioned_node name cidr v" "w' = w2" "reg = (\<not> isl b)"
      by (auto simp: register_attempt_def split: sum.splits)
    show ?thesis
    proof (cases b)
      case (Inl e)
      from nodes.create_error [OF w1(1) valid [OF assms(2)] create [unfolded Inl]] w1(2) form
      show ?thesis unfolding registering_def ends using assms(2) Inl by auto
    next
      case (Inr y)
      from nodes.create_ok [OF w1(1) valid [OF assms(2)] create [unfolded Inr]] w1(2) form
      show ?thesis unfolding registering_def ends using assms(2) by (auto simp: put_resource_apply)
    qed
  next
    case (Inr current)
    from nodes.get_ok [OF assms(1,3) get [unfolded Inr]] have w1: "ok w1" "res w1 = res w"
      and stored: "res w ''Node'' name = Some (RNode current)" by simp_all
    from nodes.named [OF assms(1) stored] have v': "in_int64 (ResourceVersion (nodeMeta current))"
      by (auto simp: valid_ObjectMeta_def)
    let ?new = "versioned_node name cidr (ResourceVersion (nodeMeta current))"
    obtain b w2 where update: "ResourceClient_Update client Nodes name ?new w1 = (b, w2)" by fastforce
    from assms(4) get Inr update have ends: "node' = ?new" "w' = w2" "reg = (\<not> isl b)"
      by (auto simp: register_attempt_def Let_def split: sum.splits)
    show ?thesis
    proof (cases b)
      case (Inl e)
      from nodes.update_error [OF w1(1) valid [OF v'] assms(3) update [unfolded Inl]] w1(2) form
      show ?thesis unfolding registering_def ends using v' Inl by auto
    next
      case (Inr y)
      from nodes.update_ok [OF w1(1) valid [OF v'] assms(3) update [unfolded Inr]] w1(2) form
      show ?thesis unfolding registering_def ends using v' by (auto simp: put_resource_apply)
    qed
  qed
qed

lemma register_loop_effect:
  assumes "ok w" and "in_int64 v" and "url_clean name"
    and "register_loop client (versioned_node name cidr v) waits w = (ans, w')"
  shows "ok w' \<and> registering name cidr (res w) (res w') \<and>
    (case ans of None \<Rightarrow> set waits \<subseteq> {None}
     | Some (Inl e) \<Rightarrow> Some e \<in> set waits
     | Some (Inr _) \<Rightarrow> registered_as name cidr (res w' ''Node'' name))"
  using assms
proof (induction waits arbitrary: w v)
  case Nil
  obtain reg node' w1 where attempt: "register_attempt client (versioned_node name cidr v) w = ((reg, node'), w1)"
    by (metis prod.collapse)
  from register_attempt_effect [OF Nil.prems(1-3) attempt] Nil.prems(4) attempt show ?case by (cases reg) auto
next
  case (Cons wait waits)
  obtain reg node' w1 where attempt: "register_attempt client (versioned_node name cidr v) w = ((reg, node'), w1)"
    by (metis prod.collapse)
  from register_attempt_effect [OF Cons.prems(1-3) attempt] obtain v' where w1: "ok w1"
    "registering name cidr (res w) (res w1)" "reg \<longrightarrow> registered_as name cidr (res w1 ''Node'' name)"
    "in_int64 v'" "node' = versioned_node name cidr v'" by blast
  show ?case
  proof (cases "reg \<or> wait \<noteq> None")
    case True
    with Cons.prems(4) attempt w1 show ?thesis by (cases reg) auto
  next
    case False
    with Cons.prems(4) attempt w1(5) have rest: "register_loop client (versioned_node name cidr v') waits w1 = (ans, w')"
      by simp
    from Cons.IH [OF w1(1,4) Cons.prems(3) rest] registering_trans [OF w1(2)] False
    show ?thesis by (auto split: option.splits sum.splits)
  qed
qed

end

text \<open>
  C25: registering the Node touches no other resource, and the Node only to store it Ready with the
  kubelet's network. The loop ends only when this is done, or with the error of the context when it
  was done while the loop waited; it goes on only as long as each wait was the timer's.
\<close>

theorem node_registered:
  assumes "etcd_server client kvs revision invar" and "invar w" and "objects_ok (objects_of (kvs w))"
    and "url_clean (nodeName kubelet)" and "apiClient kubelet = Some (api_client (NewEtcdClient client))"
    and "register kubelet" and "podCIDR kubelet \<noteq> []"
    and "registerNode kubelet waits w = (ans, w')"
  shows "registering (nodeName kubelet) (podCIDR kubelet)
      (read_view (objects_of (kvs w))) (read_view (objects_of (kvs w'))) \<and>
    (case ans of None \<Rightarrow> set waits \<subseteq> {None}
     | Some (Inl e) \<Rightarrow> Some e \<in> set waits
     | Some (Inr _) \<Rightarrow> registered_as (nodeName kubelet) (podCIDR kubelet)
         (read_view (objects_of (kvs w')) ''Node'' (nodeName kubelet)))"
proof -
  have ok: "invar w \<and> objects_ok (objects_of (kvs w))" using assms(2,3) by simp
  have zero: "in_int64 0" by (simp add: in_int64_def int64_min_def int64_max_def)
  have "register_loop (api_client (NewEtcdClient client)) (versioned_node (nodeName kubelet) (podCIDR kubelet) 0) waits w = (ans, w')"
    using assms(5-8) unfolding registerNode_def node_to_register_versioned by simp
  from conjunct2 [OF cluster_api.register_loop_effect [OF etcd_server_cluster_api [OF assms(1)] ok zero assms(4) this]]
  show ?thesis .
qed

lemma node_registered_witness:
  "registered_as ''node-1'' ''10.244.1.0/24''
     (mem_res (snd (registerNode (NewWithManifestDirAndPodCIDR (Some mem_api) plain_cri ''node-1'' [] ''10.244.1.0/24'')
       [] mem_empty)) ''Node'' ''node-1'')"
proof -
  note clean = mem_cleanD [OF mem_empty_clean]
  let ?kubelet = "NewWithManifestDirAndPodCIDR (Some mem_api) plain_cri ''node-1'' [] ''10.244.1.0/24''"
  have ran: "case fst (registerNode ?kubelet [] mem_empty) of Some (Inr _) \<Rightarrow> True | _ \<Rightarrow> False" by code_simp
  obtain ans w where run: "registerNode ?kubelet [] mem_empty = (ans, w)" by fastforce
  have fields: "url_clean (nodeName ?kubelet)" "apiClient ?kubelet = Some mem_api" "register ?kubelet"
    "podCIDR ?kubelet \<noteq> []"
    by (simp_all add: NewWithManifestDirAndPodCIDR_def NewWithManifestDir_def NewKubelet_def) code_simp
  from node_registered [OF mem_etcd_server clean(1,2) fields run] ran run show ?thesis
    by (auto simp: NewWithManifestDirAndPodCIDR_def NewWithManifestDir_def NewKubelet_def split: option.splits sum.splits)
qed

end
