(* ===== verification/Flags.thy ===== *)
theory Flags
  imports Prelude "HOL-Library.AList"
begin

text \<open>
  The package \<^verbatim>\<open>flag\<close> of the standard library, as the commands use it: flag sets with string,
  integer and boolean flags, parsed from the arguments of the process. \<open>ParseInt0\<close> is
  \<^verbatim>\<open>strconv.ParseInt(s, 0, 64)\<close>, which reads integer flags.
\<close>

section \<open>Integers\<close>

definition lower :: "char \<Rightarrow> char" where
  "lower c = to_lower_char c"

definition is_underscore :: "char \<Rightarrow> bool" where
  "is_underscore c \<longleftrightarrow> c = CHR ''_''"

text \<open>A digit, or a letter counted from 10 on; \<open>None\<close> for another character.\<close>

definition digit36 :: "char \<Rightarrow> nat option" where
  "digit36 c =
     (let n = of_char (lower c) :: nat in
      if is_digit c then Some (digit_value c) else if 97 \<le> n \<and> n \<le> 122 then Some (n - 87) else None)"

fun digits_in :: "nat \<Rightarrow> nat \<Rightarrow> string \<Rightarrow> nat option" where
  "digits_in base n [] = Some n"
| "digits_in base n (c # cs) =
     (if is_underscore c then digits_in base n cs
      else (case digit36 c of
          None \<Rightarrow> None
        | Some d \<Rightarrow> if d \<ge> base then None else digits_in base (n * base + d) cs))"

text \<open>The base and the digits after its prefix.\<close>

definition base_of :: "string \<Rightarrow> nat \<times> string" where
  "base_of s =
     (case s of
        c # d # e # rest \<Rightarrow>
          if c = CHR ''0'' \<and> lower d = CHR ''b'' then (2, e # rest)
          else if c = CHR ''0'' \<and> lower d = CHR ''o'' then (8, e # rest)
          else if c = CHR ''0'' \<and> lower d = CHR ''x'' then (16, e # rest)
          else if c = CHR ''0'' then (8, d # e # rest)
          else (10, s)
      | c # rest \<Rightarrow> if c = CHR ''0'' then (8, rest) else (10, s)
      | [] \<Rightarrow> (10, []))"

text \<open>Underscores separate digits; the prefix of the base counts as a digit.\<close>

datatype scanned = Start | Digit | Underscore | Other

fun underscores :: "bool \<Rightarrow> scanned \<Rightarrow> string \<Rightarrow> bool" where
  "underscores hex i [] \<longleftrightarrow> i \<noteq> Underscore"
| "underscores hex i (c # cs) \<longleftrightarrow>
     (if is_digit c \<or> hex \<and> hex_value c \<noteq> None then underscores hex Digit cs
      else if is_underscore c then i = Digit \<and> underscores hex Underscore cs
      else i \<noteq> Underscore \<and> underscores hex Other cs)"

definition underscoreOK :: "string \<Rightarrow> bool" where
  "underscoreOK s =
     (case s of
        c # d # rest \<Rightarrow>
          if c = CHR ''0'' \<and> (lower d = CHR ''b'' \<or> lower d = CHR ''o'' \<or> lower d = CHR ''x'')
          then underscores (lower d = CHR ''x'') Digit rest
          else underscores False Start s
      | _ \<Rightarrow> underscores False Start s)"

definition ParseUint0 :: "string \<Rightarrow> nat option" where
  "ParseUint0 s =
     (if s = [] then None
      else case base_of s of (base, digits) \<Rightarrow>
        if list_ex is_underscore s \<and> \<not> underscoreOK s then None else digits_in base 0 digits)"

definition ParseInt0 :: "string \<Rightarrow> int option" where
  "ParseInt0 s =
     (let (neg, digits) =
        (case s of c # cs \<Rightarrow>
           if c = CHR ''-'' then (True, cs) else if c = CHR ''+'' then (False, cs) else (False, s)
         | [] \<Rightarrow> (False, s))
      in case ParseUint0 digits of
           None \<Rightarrow> None
         | Some n \<Rightarrow>
             let i = (if neg then - int n else int n)
             in if in_int64 i then Some i else None)"

definition ParseBool :: "string \<Rightarrow> bool option" where
  "ParseBool s =
     (if s \<in> {''1'', ''t'', ''T'', ''TRUE'', ''true'', ''True''} then Some True
      else if s \<in> {''0'', ''f'', ''F'', ''FALSE'', ''false'', ''False''} then Some False else None)"

section \<open>Flag sets\<close>

text \<open>A flag set holds the flags with their present values.\<close>

datatype flag_value = StringFlag string | IntFlag int | BoolFlag bool

type_synonym flag_set = "(string \<times> flag_value) list"

text \<open>What an argument is: not a flag, \<^verbatim>\<open>--\<close>, a malformed flag, or a flag with its value.\<close>

datatype flag_arg = NoFlag | EndOfFlags | BadSyntax | IsFlag string "string option"

definition flag_arg :: "string \<Rightarrow> flag_arg" where
  "flag_arg s =
     (case s of
        c # d # rest \<Rightarrow>
          if c \<noteq> CHR ''-'' then NoFlag
          else if d = CHR ''-'' \<and> rest = [] then EndOfFlags
          else
            let name = (if d = CHR ''-'' then rest else d # rest) in
            if hd name = CHR ''-'' \<or> hd name = CHR ''='' then BadSyntax
            else
              let k = takeWhile (\<lambda>x. x \<noteq> CHR ''='') name; v = dropWhile (\<lambda>x. x \<noteq> CHR ''='') name in
              IsFlag k (if v = [] then None else Some (tl v))
      | _ \<Rightarrow> NoFlag)"

definition flag_Set :: "flag_value \<Rightarrow> string \<Rightarrow> flag_value option" where
  "flag_Set f s =
     (case f of
        StringFlag _ \<Rightarrow> Some (StringFlag s)
      | IntFlag _ \<Rightarrow> map_option IntFlag (ParseInt0 s)
      | BoolFlag _ \<Rightarrow> map_option BoolFlag (ParseBool s))"

definition ErrHelp :: goerror where "ErrHelp = NewError ''flag: help requested''"

definition flag_update :: "flag_set \<Rightarrow> string \<Rightarrow> string \<Rightarrow> flag_set result" where
  "flag_update flags name text =
     (case map_of flags name of
        None \<Rightarrow>
          Inl (if name = ''help'' \<or> name = ''h'' then ErrHelp
               else NewError (''flag provided but not defined: -'' @ name))
      | Some f \<Rightarrow>
          (case flag_Set f text of
             None \<Rightarrow> Inl (NewError (''invalid value '' @ quoted text @ '' for flag -'' @ name @ '': parse error''))
           | Some f' \<Rightarrow> Inr (AList.update name f' flags)))"

definition is_bool :: "flag_value option \<Rightarrow> bool" where
  "is_bool f = (case f of Some (BoolFlag _) \<Rightarrow> True | _ \<Rightarrow> False)"

text \<open>The flag set after the parse, and the arguments that are left.\<close>

fun flag_Parse :: "flag_set \<Rightarrow> string list \<Rightarrow> (flag_set \<times> string list) result" where
  "flag_Parse flags [] = Inr (flags, [])"
| "flag_Parse flags (s # args) =
     (case flag_arg s of
        NoFlag \<Rightarrow> Inr (flags, s # args)
      | EndOfFlags \<Rightarrow> Inr (flags, args)
      | BadSyntax \<Rightarrow> Inl (NewError (''bad flag syntax: '' @ s))
      | IsFlag name text \<Rightarrow>
          (case (map_of flags name, text, args) of
             (None, _, _) \<Rightarrow> (case flag_update flags name [] of Inl e \<Rightarrow> Inl e | Inr _ \<Rightarrow> Inr (flags, args))
           | (Some _, Some v, _) \<Rightarrow>
               (case flag_update flags name v of Inl e \<Rightarrow> Inl e | Inr flags' \<Rightarrow> flag_Parse flags' args)
           | (Some (BoolFlag _), None, _) \<Rightarrow>
               (case flag_update flags name ''true'' of Inl e \<Rightarrow> Inl e | Inr flags' \<Rightarrow> flag_Parse flags' args)
           | (Some _, None, []) \<Rightarrow> Inl (NewError (''flag needs an argument: -'' @ name))
           | (Some _, None, v # args') \<Rightarrow>
               (case flag_update flags name v of Inl e \<Rightarrow> Inl e | Inr flags' \<Rightarrow> flag_Parse flags' args')))"

definition string_flag :: "flag_set \<Rightarrow> string \<Rightarrow> string" where
  "string_flag flags name = (case map_of flags name of Some (StringFlag s) \<Rightarrow> s | _ \<Rightarrow> [])"

definition int_flag :: "flag_set \<Rightarrow> string \<Rightarrow> int" where
  "int_flag flags name = (case map_of flags name of Some (IntFlag i) \<Rightarrow> i | _ \<Rightarrow> 0)"

definition bool_flag :: "flag_set \<Rightarrow> string \<Rightarrow> bool" where
  "bool_flag flags name = (case map_of flags name of Some (BoolFlag b) \<Rightarrow> b | _ \<Rightarrow> False)"

section \<open>Arguments that are parsed back\<close>

definition plain_flag :: "string \<Rightarrow> bool" where
  "plain_flag name \<longleftrightarrow> name \<noteq> [] \<and> CHR ''='' \<notin> set name \<and> hd name \<noteq> CHR ''-''"

lemma cut_at:
  "c \<notin> set s \<Longrightarrow> takeWhile (\<lambda>x. x \<noteq> c) (s @ c # t) = s"
  "c \<notin> set s \<Longrightarrow> dropWhile (\<lambda>x. x \<noteq> c) (s @ c # t) = c # t"
  by (induction s) auto

lemma flag_arg_plain:
  assumes "plain_flag name"
  shows "flag_arg (CHR ''-'' # name) = IsFlag name None"
    and "flag_arg (CHR ''-'' # name @ CHR ''='' # v) = IsFlag name (Some v)"
proof -
  obtain c cs where name: "name = c # cs" using assms by (cases name) (auto simp: plain_flag_def)
  have c: "c \<noteq> CHR ''-''" "c \<noteq> CHR ''=''" using assms by (auto simp: plain_flag_def name)
  have w: "takeWhile (\<lambda>x. x \<noteq> CHR ''='') (c # cs) = c # cs" "dropWhile (\<lambda>x. x \<noteq> CHR ''='') (c # cs) = []"
    "takeWhile (\<lambda>x. x \<noteq> CHR ''='') (c # cs @ CHR ''='' # v) = c # cs"
    "dropWhile (\<lambda>x. x \<noteq> CHR ''='') (c # cs @ CHR ''='' # v) = CHR ''='' # v"
    using assms cut_at [of "CHR ''=''" cs v]
    by (auto simp: plain_flag_def name takeWhile_eq_all_conv dropWhile_eq_Nil_conv)
  show "flag_arg (CHR ''-'' # name) = IsFlag name None"
    unfolding flag_arg_def name by (simp only: list.case Let_def w c if_False if_True simp_thms list.sel split: if_split)
  show "flag_arg (CHR ''-'' # name @ CHR ''='' # v) = IsFlag name (Some v)"
    unfolding flag_arg_def name append_Cons
    by (simp only: list.case Let_def w c if_False if_True simp_thms list.sel split: if_split) simp
qed

text \<open>A string flag takes the next argument whatever it looks like.\<close>

lemma parse_string_flag [simp]:
  assumes "plain_flag name" and "map_of flags name = Some (StringFlag old)"
  shows "flag_Parse flags ((CHR ''-'' # name) # v # args) = flag_Parse (AList.update name (StringFlag v) flags) args"
  using assms by (simp add: flag_arg_plain flag_update_def flag_Set_def)

lemma parse_flag_equals [simp]:
  assumes "plain_flag name" and "map_of flags name = Some f" and "flag_Set f v = Some f'"
  shows "flag_Parse flags ((CHR ''-'' # name @ CHR ''='' # v) # args) = flag_Parse (AList.update name f' flags) args"
  using assms by (cases f) (simp_all add: flag_arg_plain flag_update_def)

end
