(* ===== verification/Toyctl.thy ===== *)
theory Toyctl
  imports ExampleCluster Flags
begin

text \<open>
  The command line tool of \<^verbatim>\<open>cmd/toyctl/main.go\<close>. The state of a run is the text it has
  printed and the world. The YAML library and the files are arguments: a manifest is the list of
  the results of decoding its documents, each a map whose values are strings or something else.
\<close>

section \<open>The arguments of the model\<close>

datatype 'y any = AnyString string | AnyOther 'y

record ('w, 'y) toyctl_files =
  openManifest :: "string \<Rightarrow> ('w, (string, 'y any) fmap result list) operation"
  yamlMarshalMap :: "(string, 'y any) fmap \<Rightarrow> string result"
  yamlUnmarshal :: "string \<Rightarrow> Resource \<Rightarrow> Resource result"
  yamlMarshal :: "Resource \<Rightarrow> string result"

type_synonym ('w, 'a) printing = "(string \<times> 'w, 'a) operation"

definition print_out :: "string \<Rightarrow> ('w, unit) printing" where
  "print_out text = (\<lambda>(out, w). (Inr (), (out @ text, w)))"

definition newline :: string where "newline = [CHR 0x0A]"

section \<open>Names\<close>

definition plural_kinds :: "(string \<times> string) list" where
  "plural_kinds = [(''nodes'', ''Node''), (''pods'', ''Pod''), (''deployments'', ''Deployment''),
     (''replicasets'', ''ReplicaSet''), (''services'', ''Service'')]"

definition kindForResourceName :: "string \<Rightarrow> string result" where
  "kindForResourceName text =
     (case map_of plural_kinds (strings_ToLower text) of
        None \<Rightarrow> Inl (NewError (''unsupported resource '' @ quoted text))
      | Some kind \<Rightarrow> Inr kind)"

definition splitResource :: "string \<Rightarrow> (string \<times> string) result" where
  "splitResource text =
     (case strings_Split text (CHR ''/'') of
        [resource, name] \<Rightarrow>
          if resource = [] \<or> name = [] then Inl (NewError ''resource must be RESOURCE/NAME'')
          else (case kindForResourceName resource of Inl e \<Rightarrow> Inl e | Inr kind \<Rightarrow> Inr (kind, name))
      | _ \<Rightarrow> Inl (NewError ''resource must be RESOURCE/NAME''))"

definition resourceKind :: "Resource \<Rightarrow> string" where
  "resourceKind object =
     (case object of RNode _ \<Rightarrow> ''Node'' | RPod _ \<Rightarrow> ''Pod'' | RDeployment _ \<Rightarrow> ''Deployment''
      | RReplicaSet _ \<Rightarrow> ''ReplicaSet'' | RService _ \<Rightarrow> ''Service'')"

section \<open>Manifests\<close>

definition zero_of_kind :: "string \<Rightarrow> Resource option" where
  "zero_of_kind kind =
     (if kind = ''Node'' then Some (RNode zero_Node) else if kind = ''Pod'' then Some (RPod zero_Pod)
      else if kind = ''Deployment'' then Some (RDeployment zero_Deployment)
      else if kind = ''ReplicaSet'' then Some (RReplicaSet zero_ReplicaSet)
      else if kind = ''Service'' then Some (RService zero_Service) else None)"

definition decodeManifest :: "('w, 'y) toyctl_files \<Rightarrow> (string, 'y any) fmap \<Rightarrow> Resource result" where
  "decodeManifest files m =
     (case fmlookup m ''kind'' of
        Some (AnyString kind) \<Rightarrow>
          if kind = [] then Inl (NewError ''kind is required'')
          else (case yamlMarshalMap files m of
              Inl e \<Rightarrow> Inl e
            | Inr data \<Rightarrow>
                (case zero_of_kind kind of
                   None \<Rightarrow> Inl (NewError (''unsupported kind '' @ quoted kind))
                 | Some zero \<Rightarrow>
                     (case yamlUnmarshal files data zero of
                        Inl e \<Rightarrow> Inl e
                      | Inr object \<Rightarrow>
                          if GetName object = [] then Inl (NewError ''metadata.name is required'')
                          else Inr object)))
      | _ \<Rightarrow> Inl (NewError ''kind is required''))"

text \<open>
  The branches of \<open>applyResource\<close> are the same code but for what they take over from the stored
  object: \<open>keep_Node\<close> and the others are these lines.
\<close>

definition keep_Node :: "Node \<Rightarrow> Node \<Rightarrow> Node" where
  "keep_Node current object = object\<lparr>nodeStatus := nodeStatus current,
     nodeMeta := (nodeMeta object)\<lparr>ResourceVersion := ResourceVersion (nodeMeta current)\<rparr>\<rparr>"

definition keep_Pod :: "Pod \<Rightarrow> Pod \<Rightarrow> Pod" where
  "keep_Pod current object = object
     \<lparr>podSpec := (if NodeName (podSpec object) = []
        then (podSpec object)\<lparr>NodeName := NodeName (podSpec current)\<rparr> else podSpec object),
      podStatus := podStatus current,
      podMeta := (podMeta object)\<lparr>ResourceVersion := ResourceVersion (podMeta current)\<rparr>\<rparr>"

definition keep_Deployment :: "Deployment \<Rightarrow> Deployment \<Rightarrow> Deployment" where
  "keep_Deployment current object = object\<lparr>deploymentStatus := deploymentStatus current,
     deploymentMeta := (deploymentMeta object)\<lparr>ResourceVersion := ResourceVersion (deploymentMeta current)\<rparr>\<rparr>"

definition keep_ReplicaSet :: "ReplicaSet \<Rightarrow> ReplicaSet \<Rightarrow> ReplicaSet" where
  "keep_ReplicaSet current object = object\<lparr>rsStatus := rsStatus current,
     rsMeta := (rsMeta object)\<lparr>ResourceVersion := ResourceVersion (rsMeta current)\<rparr>\<rparr>"

definition keep_Service :: "Service \<Rightarrow> Service \<Rightarrow> Service" where
  "keep_Service current object =
     (let spec = svcSpec object;
          spec1 = (if ClusterIP spec = [] then spec\<lparr>ClusterIP := ClusterIP (svcSpec current)\<rparr> else spec);
          spec2 = (if svcNodePort spec1 = 0 then spec1\<lparr>svcNodePort := svcNodePort (svcSpec current)\<rparr> else spec1)
      in object\<lparr>svcSpec := spec2,
           svcMeta := (svcMeta object)\<lparr>ResourceVersion := ResourceVersion (svcMeta current)\<rparr>\<rparr>)"

text \<open>
  One branch: the answer is whether the object is reported as created, which the code returns
  together with the error.
\<close>

definition apply_object ::
    "'w Client \<Rightarrow> 'a ResourceClient \<Rightarrow> ('a \<Rightarrow> 'a \<Rightarrow> 'a) \<Rightarrow> string \<Rightarrow> 'a \<Rightarrow> ('w, bool) operation" where
  "apply_object client rc keep name object w =
     (case ResourceClient_Get client rc name w of
        (Inr current, w1) \<Rightarrow>
          andThen (ResourceClient_Update client rc name (keep current object)) (\<lambda>_. returning False) w1
      | (Inl _, w1) \<Rightarrow>
          andThen (ResourceClient_Create client rc object) (\<lambda>_. returning True) w1)"

definition applyResource :: "'w Client \<Rightarrow> Resource \<Rightarrow> ('w, bool) operation" where
  "applyResource client object =
     (case object of
        RNode x \<Rightarrow> apply_object client Nodes keep_Node (Name (nodeMeta x)) x
      | RPod x \<Rightarrow> apply_object client Pods keep_Pod (Name (podMeta x)) x
      | RDeployment x \<Rightarrow> apply_object client Deployments keep_Deployment (Name (deploymentMeta x)) x
      | RReplicaSet x \<Rightarrow> apply_object client ReplicaSets keep_ReplicaSet (Name (rsMeta x)) x
      | RService x \<Rightarrow> apply_object client Services keep_Service (Name (svcMeta x)) x)"

fun apply_documents ::
    "('w, 'y) toyctl_files \<Rightarrow> 'w Client \<Rightarrow> nat \<Rightarrow> (string, 'y any) fmap result list \<Rightarrow> ('w, unit) printing" where
  "apply_documents files client document [] = returning ()"
| "apply_documents files client document (Inl err # rest) =
     failing (WrapError (''decode document '' @ show_nat document) err)"
| "apply_documents files client document (Inr m # rest) =
     (if m = fmempty then apply_documents files client (document + 1) rest
      else case decodeManifest files m of
          Inl err \<Rightarrow> failing (WrapError (''document '' @ show_nat document) err)
        | Inr object \<Rightarrow>
            andThen (on_world (applyResource client object)) (\<lambda>created.
            andThen (print_out (resourceKind object @ ''/'' @ GetName object @ '' '' @
              (if created then ''created'' else ''configured'') @ newline)) (\<lambda>_.
            apply_documents files client (document + 1) rest)))"

definition toyctl_apply :: "('w, 'y) toyctl_files \<Rightarrow> 'w Client \<Rightarrow> string list \<Rightarrow> ('w, unit) printing" where
  "toyctl_apply files client args =
     (case flag_Parse [(''f'', StringFlag [])] args of
        Inl e \<Rightarrow> failing e
      | Inr (flags, _) \<Rightarrow>
          if string_flag flags ''f'' = [] then failing (NewError ''apply requires -f FILE'')
          else andThen (on_world (openManifest files (string_flag flags ''f''))) (\<lambda>documents.
            apply_documents files client 1 documents))"

section \<open>Reading and deleting\<close>

definition list_of :: "'w Client \<Rightarrow> 'a ResourceClient \<Rightarrow> ('a \<Rightarrow> Resource) \<Rightarrow> ('w, Resource list) operation" where
  "list_of client rc toResource =
     andThen (ResourceClient_List client rc) (\<lambda>objects. returning (map toResource (elems (Items objects))))"

definition listResources :: "'w Client \<Rightarrow> string \<Rightarrow> ('w, Resource list) operation" where
  "listResources client kind =
     (if kind = ''Node'' then list_of client Nodes RNode
      else if kind = ''Pod'' then list_of client Pods RPod
      else if kind = ''Deployment'' then list_of client Deployments RDeployment
      else if kind = ''ReplicaSet'' then list_of client ReplicaSets RReplicaSet
      else if kind = ''Service'' then list_of client Services RService
      else failing (NewError (''unsupported kind '' @ quoted kind)))"

definition get_of :: "'w Client \<Rightarrow> 'a ResourceClient \<Rightarrow> ('a \<Rightarrow> Resource) \<Rightarrow> string \<Rightarrow> ('w, Resource) operation" where
  "get_of client rc toResource name =
     andThen (ResourceClient_Get client rc name) (\<lambda>object. returning (toResource object))"

definition getResource :: "'w Client \<Rightarrow> string \<Rightarrow> string \<Rightarrow> ('w, Resource) operation" where
  "getResource client kind name =
     (if kind = ''Node'' then get_of client Nodes RNode name
      else if kind = ''Pod'' then get_of client Pods RPod name
      else if kind = ''Deployment'' then get_of client Deployments RDeployment name
      else if kind = ''ReplicaSet'' then get_of client ReplicaSets RReplicaSet name
      else if kind = ''Service'' then get_of client Services RService name
      else failing (NewError (''unsupported kind '' @ quoted kind)))"

definition deleteObject :: "'w Client \<Rightarrow> string \<Rightarrow> string \<Rightarrow> int \<Rightarrow> ('w, unit) operation" where
  "deleteObject client kind name version =
     (if kind = ''Node'' then ResourceClient_Delete client Nodes name version
      else if kind = ''Pod'' then ResourceClient_Delete client Pods name version
      else if kind = ''Deployment'' then ResourceClient_Delete client Deployments name version
      else if kind = ''ReplicaSet'' then ResourceClient_Delete client ReplicaSets name version
      else if kind = ''Service'' then ResourceClient_Delete client Services name version
      else failing (NewError (''unsupported kind '' @ quoted kind)))"

definition lifting :: "'a result \<Rightarrow> ('w, 'a) operation" where
  "lifting r = (case r of Inl e \<Rightarrow> failing e | Inr x \<Rightarrow> returning x)"

definition toyctl_get :: "'w Client \<Rightarrow> string list \<Rightarrow> ('w, unit) printing" where
  "toyctl_get client args =
     (case args of
        [arg] \<Rightarrow>
          if CHR ''/'' \<notin> set arg then
            andThen (lifting (kindForResourceName arg)) (\<lambda>kind.
            andThen (on_world (listResources client kind)) (\<lambda>objects.
            print_out (concat (map (\<lambda>object. kind @ ''/'' @ GetName object @ newline) objects))))
          else
            andThen (lifting (splitResource arg)) (\<lambda>(kind, name).
            andThen (on_world (getResource client kind name)) (\<lambda>object.
            print_out (kind @ ''/'' @ GetName object @ newline)))
      | _ \<Rightarrow> failing (NewError ''get requires RESOURCE or RESOURCE/NAME''))"

definition toyctl_describe :: "('w, 'y) toyctl_files \<Rightarrow> 'w Client \<Rightarrow> string list \<Rightarrow> ('w, unit) printing" where
  "toyctl_describe files client args =
     (case args of
        [arg] \<Rightarrow>
          andThen (lifting (splitResource arg)) (\<lambda>(kind, name).
          andThen (on_world (getResource client kind name)) (\<lambda>object.
          andThen (lifting (yamlMarshal files object)) (\<lambda>data. print_out data)))
      | _ \<Rightarrow> failing (NewError ''describe requires RESOURCE/NAME''))"

definition deleteResource :: "'w Client \<Rightarrow> string list \<Rightarrow> ('w, unit) printing" where
  "deleteResource client args =
     (case args of
        [arg] \<Rightarrow>
          andThen (lifting (splitResource arg)) (\<lambda>(kind, name).
          andThen (on_world (getResource client kind name)) (\<lambda>object.
          andThen (on_world (deleteObject client kind name (GetResourceVersion object))) (\<lambda>_.
          print_out (kind @ ''/'' @ name @ '' deleted'' @ newline))))
      | _ \<Rightarrow> failing (NewError ''delete requires RESOURCE/NAME''))"

definition toyctl_run ::
    "('w, 'y) toyctl_files \<Rightarrow> (string \<Rightarrow> Request \<Rightarrow> ('w, HttpResponse) operation) \<Rightarrow> string list \<Rightarrow> ('w, unit) printing" where
  "toyctl_run files httpClient args =
     (let client = NewClient httpClient APIServerURL in
      if args = [] then failing (NewError ''usage: toyctl <apply|get|describe|delete>'')
      else case flag_Parse [] args of
          Inl e \<Rightarrow> failing e
        | Inr (_, []) \<Rightarrow> failing (NewError ''command is required'')
        | Inr (_, command # rest) \<Rightarrow>
            if command = ''apply'' then toyctl_apply files client rest
            else if command = ''get'' then toyctl_get client rest
            else if command = ''describe'' then toyctl_describe files client rest
            else if command = ''delete'' then deleteResource client rest
            else failing (NewError (''unknown command '' @ quoted command)))"

section \<open>What they do\<close>

context typed_api begin

text \<open>One branch of \<open>applyResource\<close>, for whatever it keeps of the stored object.\<close>

lemma apply_object_effect:
  assumes ok: "ok w" and valid: "valid_Resource (wrap x)" and name: "url_clean (GetName (wrap x))"
    and keep: "\<And>c. valid_Resource (wrap c) \<Longrightarrow> GetName (wrap (keep c x)) = GetName (wrap x) \<and> valid_Resource (wrap (keep c x))"
    and run: "apply_object client rc keep (GetName (wrap x)) x w = (ans, w')"
  defines "n \<equiv> GetName (wrap x)"
  shows "ok w' \<and> (\<exists>r. res w' = put_resource kind n r (res w)) \<and>
    (\<forall>created. ans = Inr created \<longrightarrow> (\<exists>y. res w' kind n = Some (wrap y) \<and>
      (if created then res w kind n = None \<and> stored_form kind (wrap x) (wrap y)
       else \<exists>c. res w kind n = Some (wrap c) \<and> stored_form kind (wrap (keep c x)) (wrap y))))"
proof -
  have same: "res w = put_resource kind n (res w kind n) (res w)"
    by (intro ext) (auto simp: put_resource_apply)
  obtain g w1 where get: "ResourceClient_Get client rc n w = (g, w1)" by fastforce
  show ?thesis
  proof (cases g)
    case (Inl e)
    from get_error [OF ok _ get [unfolded Inl]] name have w1: "ok w1" "res w1 = res w" by (simp_all add: n_def)
    obtain c w2 where create: "ResourceClient_Create client rc x w1 = (c, w2)" by fastforce
    with run get Inl have w2: "w2 = w'" and ans: "\<And>b. ans = Inr b \<longleftrightarrow> b \<and> \<not> isl c"
      by (auto simp: apply_object_def n_def andThen_def returning_def split: sum.splits)
    show ?thesis
    proof (cases c)
      case (Inl e')
      from create_error [OF w1(1) valid create [unfolded Inl]] w1 w2 same ans Inl show ?thesis
        unfolding n_def by auto
    next
      case (Inr y)
      from create_ok [OF w1(1) valid create [unfolded Inr]] w1 w2 ans show ?thesis
        by (auto simp: n_def put_resource_apply)
    qed
  next
    case (Inr c)
    from get_ok [OF ok _ get [unfolded Inr]] name have w1: "ok w1" "res w1 = res w" "res w kind n = Some (wrap c)"
      by (simp_all add: n_def)
    have "valid_Resource (wrap c)" using named [OF ok w1(3)] by simp
    note kept = keep [OF this]
    obtain u w2 where update: "ResourceClient_Update client rc n (keep c x) w1 = (u, w2)" by fastforce
    with run get Inr have w2: "w2 = w'" and ans: "\<And>b. ans = Inr b \<longleftrightarrow> \<not> b \<and> \<not> isl u"
      by (auto simp: apply_object_def n_def andThen_def returning_def split: sum.splits)
    have clean: "url_clean n" using name by (simp add: n_def)
    show ?thesis
    proof (cases u)
      case (Inl e')
      from update_error [OF w1(1) conjunct2 [OF kept] clean update [unfolded Inl]] w1 w2 same ans Inl show ?thesis
        by auto
    next
      case (Inr y)
      from update_ok [OF w1(1) conjunct2 [OF kept] clean update [unfolded Inr]] w1 w2 ans show ?thesis
        by (auto simp: put_resource_apply)
    qed
  qed
qed

end

context typed_api begin

lemma get_effect:
  assumes "ok w" and "url_clean name" and "get_of client rc wrap name w = (ans, w')"
  shows "ok w' \<and> res w' = res w \<and> (\<forall>x. ans = Inr x \<longrightarrow> res w kind name = Some x)"
proof -
  obtain g w1 where get: "ResourceClient_Get client rc name w = (g, w1)" by fastforce
  with assms(3) show ?thesis
    using get_ok [OF assms(1,2), of _ w1] get_error [OF assms(1,2), of _ w1]
    by (cases g) (auto simp: get_of_def andThen_def returning_def)
qed

lemma delete_effect:
  assumes "ok w" and "url_clean name" and "res w kind name = Some x"
    and "ResourceClient_Delete client rc name (GetResourceVersion x) w = (ans, w')"
  shows "ok w' \<and> (res w' = res w \<and> isl ans \<or> res w' = put_resource kind name None (res w))"
proof -
  have version: "in_int64 (GetResourceVersion x)"
    using named [OF assms(1,3)] by (cases x) (auto simp: valid_ObjectMeta_def)
  show ?thesis
    using delete_ok [OF assms(1,2) version, of w'] delete_error [OF assms(1,2) version, of _ w'] assms(4)
    by (cases ans) auto
qed

end

text \<open>
  \<open>merged c x k\<close>: \<open>k\<close> is the object \<open>x\<close> of the manifest with the version and the status of the stored
  object \<open>c\<close>, and with what the manifest leaves open (the node of a Pod, the addresses of a Service)
  taken from \<open>c\<close>.
\<close>

definition or_else :: "'a \<Rightarrow> 'a \<Rightarrow> 'a \<Rightarrow> 'a" where
  "or_else zero x y = (if x = zero then y else x)"

fun merged :: "Resource \<Rightarrow> Resource \<Rightarrow> Resource \<Rightarrow> bool" where
  "merged (RNode c) (RNode x) (RNode k) \<longleftrightarrow>
     nodeStatus k = nodeStatus c \<and> nodeSpec k = nodeSpec x \<and> nodeTypeMeta k = nodeTypeMeta x \<and>
     nodeMeta k = (nodeMeta x)\<lparr>ResourceVersion := ResourceVersion (nodeMeta c)\<rparr>"
| "merged (RPod c) (RPod x) (RPod k) \<longleftrightarrow>
     podStatus k = podStatus c \<and> Containers (podSpec k) = Containers (podSpec x) \<and>
     HostNetwork (podSpec k) = HostNetwork (podSpec x) \<and>
     NodeName (podSpec k) = or_else [] (NodeName (podSpec x)) (NodeName (podSpec c)) \<and>
     podTypeMeta k = podTypeMeta x \<and>
     podMeta k = (podMeta x)\<lparr>ResourceVersion := ResourceVersion (podMeta c)\<rparr>"
| "merged (RDeployment c) (RDeployment x) (RDeployment k) \<longleftrightarrow>
     deploymentStatus k = deploymentStatus c \<and> deploymentSpec k = deploymentSpec x \<and>
     deploymentTypeMeta k = deploymentTypeMeta x \<and>
     deploymentMeta k = (deploymentMeta x)\<lparr>ResourceVersion := ResourceVersion (deploymentMeta c)\<rparr>"
| "merged (RReplicaSet c) (RReplicaSet x) (RReplicaSet k) \<longleftrightarrow>
     rsStatus k = rsStatus c \<and> rsSpec k = rsSpec x \<and> rsTypeMeta k = rsTypeMeta x \<and>
     rsMeta k = (rsMeta x)\<lparr>ResourceVersion := ResourceVersion (rsMeta c)\<rparr>"
| "merged (RService c) (RService x) (RService k) \<longleftrightarrow>
     svcSpec k = (svcSpec x)\<lparr>ClusterIP := or_else [] (ClusterIP (svcSpec x)) (ClusterIP (svcSpec c)),
       svcNodePort := or_else 0 (svcNodePort (svcSpec x)) (svcNodePort (svcSpec c))\<rparr> \<and>
     svcTypeMeta k = svcTypeMeta x \<and>
     svcMeta k = (svcMeta x)\<lparr>ResourceVersion := ResourceVersion (svcMeta c)\<rparr>"
| "merged c x k \<longleftrightarrow> False"

definition applied :: "bool \<Rightarrow> Resource \<Rightarrow> resources \<Rightarrow> resources \<Rightarrow> bool" where
  "applied created object m m' \<longleftrightarrow>
     (let kind = resourceKind object; name = GetName object in
      \<exists>y. m' kind name = Some y \<and>
        (if created then m kind name = None \<and> stored_form kind object y
         else \<exists>c k. m kind name = Some c \<and> merged c object k \<and> stored_form kind k y))"

lemma keep_merged:
  "merged (RNode c) (RNode x) (RNode (keep_Node c x))"
  "merged (RPod p) (RPod q) (RPod (keep_Pod p q))"
  "merged (RDeployment d) (RDeployment e) (RDeployment (keep_Deployment d e))"
  "merged (RReplicaSet r) (RReplicaSet t) (RReplicaSet (keep_ReplicaSet r t))"
  "merged (RService s) (RService v) (RService (keep_Service s v))"
  by (simp_all add: keep_Node_def keep_Pod_def keep_Deployment_def keep_ReplicaSet_def keep_Service_def
      or_else_def Let_def)

lemma applied_wrap:
  assumes "\<And>c. merged (wrap c) (wrap x) (wrap (keep c x))"
    and "\<forall>created. ans = Inr created \<longrightarrow> (\<exists>y. m' (resourceKind (wrap x)) (GetName (wrap x)) = Some (wrap y) \<and>
      (if created then m (resourceKind (wrap x)) (GetName (wrap x)) = None \<and>
         stored_form (resourceKind (wrap x)) (wrap x) (wrap y)
       else \<exists>c. m (resourceKind (wrap x)) (GetName (wrap x)) = Some (wrap c) \<and>
         stored_form (resourceKind (wrap x)) (wrap (keep c x)) (wrap y)))"
  shows "\<forall>created. ans = Inr created \<longrightarrow> applied created (wrap x) m m'"
proof (intro allI impI)
  fix created assume "ans = Inr created"
  with assms(2) obtain y where y: "m' (resourceKind (wrap x)) (GetName (wrap x)) = Some (wrap y)"
    "if created then m (resourceKind (wrap x)) (GetName (wrap x)) = None \<and>
       stored_form (resourceKind (wrap x)) (wrap x) (wrap y)
     else \<exists>c. m (resourceKind (wrap x)) (GetName (wrap x)) = Some (wrap c) \<and>
       stored_form (resourceKind (wrap x)) (wrap (keep c x)) (wrap y)" by blast
  show "applied created (wrap x) m m'"
  proof (cases created)
    case True
    with y show ?thesis unfolding applied_def Let_def by (simp only: if_True) blast
  next
    case False
    with y obtain c where "m (resourceKind (wrap x)) (GetName (wrap x)) = Some (wrap c)"
      "stored_form (resourceKind (wrap x)) (wrap (keep c x)) (wrap y)" by (simp only: if_False) blast
    with False y(1) assms(1) [of c] show ?thesis unfolding applied_def Let_def by (simp only: if_False) blast
  qed
qed

lemma valid_keep:
  "valid_Resource (RNode c) \<Longrightarrow> valid_Resource (RNode x) \<Longrightarrow> valid_Resource (RNode (keep_Node c x))"
  "valid_Resource (RPod p) \<Longrightarrow> valid_Resource (RPod q) \<Longrightarrow> valid_Resource (RPod (keep_Pod p q))"
  "valid_Resource (RDeployment d) \<Longrightarrow> valid_Resource (RDeployment e) \<Longrightarrow> valid_Resource (RDeployment (keep_Deployment d e))"
  "valid_Resource (RReplicaSet r) \<Longrightarrow> valid_Resource (RReplicaSet t) \<Longrightarrow> valid_Resource (RReplicaSet (keep_ReplicaSet r t))"
  "valid_Resource (RService s) \<Longrightarrow> valid_Resource (RService v) \<Longrightarrow> valid_Resource (RService (keep_Service s v))"
  by (simp_all add: keep_Node_def keep_Pod_def keep_Deployment_def keep_ReplicaSet_def keep_Service_def
      valid_ObjectMeta_def valid_PodSpec_def Let_def)

lemma name_keep:
  "Name (nodeMeta (keep_Node c x)) = Name (nodeMeta x)" "Name (podMeta (keep_Pod p q)) = Name (podMeta q)"
  "Name (deploymentMeta (keep_Deployment d e)) = Name (deploymentMeta e)"
  "Name (rsMeta (keep_ReplicaSet r t)) = Name (rsMeta t)" "Name (svcMeta (keep_Service s v)) = Name (svcMeta v)"
  by (simp_all add: keep_Node_def keep_Pod_def keep_Deployment_def keep_ReplicaSet_def keep_Service_def Let_def)

context cluster_api begin

lemma applyResource_effect:
  assumes ok: "ok w" and valid: "valid_Resource object" and name: "url_clean (GetName object)"
    and run: "applyResource client object w = (ans, w')"
  shows "ok w' \<and> (\<exists>r. res w' = put_resource (resourceKind object) (GetName object) r (res w)) \<and>
    (\<forall>created. ans = Inr created \<longrightarrow> applied created object (res w) (res w'))"
proof (cases object)
  case (RNode x)
  with run have "apply_object client Nodes keep_Node (GetName (RNode x)) x w = (ans, w')"
    by (simp add: applyResource_def)
  note run' = this
  have keep: "GetName (RNode (keep_Node c x)) = GetName (RNode x) \<and> valid_Resource (RNode (keep_Node c x))"
    if "valid_Resource (RNode c)" for c
    using valid_keep(1) [OF that valid [unfolded RNode]] name_keep(1) [of c x] by simp
  have kind: "resourceKind (RNode x) = ''Node''" by (simp add: resourceKind_def)
  note E = nodes.apply_object_effect [OF ok valid [unfolded RNode] name [unfolded RNode] keep run', folded kind]
  from E applied_wrap [where wrap = RNode and keep = keep_Node and x = x and m = "res w" and m' = "res w'" and ans = ans, OF keep_merged(1)] show ?thesis unfolding RNode by blast
next
  case (RPod x)
  with run have "apply_object client Pods keep_Pod (GetName (RPod x)) x w = (ans, w')"
    by (simp add: applyResource_def)
  note run' = this
  have keep: "GetName (RPod (keep_Pod c x)) = GetName (RPod x) \<and> valid_Resource (RPod (keep_Pod c x))"
    if "valid_Resource (RPod c)" for c
    using valid_keep(2) [OF that valid [unfolded RPod]] name_keep(2) [of c x] by simp
  have kind: "resourceKind (RPod x) = ''Pod''" by (simp add: resourceKind_def)
  note E = pods.apply_object_effect [OF ok valid [unfolded RPod] name [unfolded RPod] keep run', folded kind]
  from E applied_wrap [where wrap = RPod and keep = keep_Pod and x = x and m = "res w" and m' = "res w'" and ans = ans, OF keep_merged(2)] show ?thesis unfolding RPod by blast
next
  case (RDeployment x)
  with run have "apply_object client Deployments keep_Deployment (GetName (RDeployment x)) x w = (ans, w')"
    by (simp add: applyResource_def)
  note run' = this
  have keep: "GetName (RDeployment (keep_Deployment c x)) = GetName (RDeployment x) \<and> valid_Resource (RDeployment (keep_Deployment c x))"
    if "valid_Resource (RDeployment c)" for c
    using valid_keep(3) [OF that valid [unfolded RDeployment]] name_keep(3) [of c x] by simp
  have kind: "resourceKind (RDeployment x) = ''Deployment''" by (simp add: resourceKind_def)
  note E = deployments.apply_object_effect [OF ok valid [unfolded RDeployment] name [unfolded RDeployment] keep run', folded kind]
  from E applied_wrap [where wrap = RDeployment and keep = keep_Deployment and x = x and m = "res w" and m' = "res w'" and ans = ans, OF keep_merged(3)] show ?thesis unfolding RDeployment by blast
next
  case (RReplicaSet x)
  with run have "apply_object client ReplicaSets keep_ReplicaSet (GetName (RReplicaSet x)) x w = (ans, w')"
    by (simp add: applyResource_def)
  note run' = this
  have keep: "GetName (RReplicaSet (keep_ReplicaSet c x)) = GetName (RReplicaSet x) \<and> valid_Resource (RReplicaSet (keep_ReplicaSet c x))"
    if "valid_Resource (RReplicaSet c)" for c
    using valid_keep(4) [OF that valid [unfolded RReplicaSet]] name_keep(4) [of c x] by simp
  have kind: "resourceKind (RReplicaSet x) = ''ReplicaSet''" by (simp add: resourceKind_def)
  note E = replicaSets.apply_object_effect [OF ok valid [unfolded RReplicaSet] name [unfolded RReplicaSet] keep run', folded kind]
  from E applied_wrap [where wrap = RReplicaSet and keep = keep_ReplicaSet and x = x and m = "res w" and m' = "res w'" and ans = ans, OF keep_merged(4)] show ?thesis unfolding RReplicaSet by blast
next
  case (RService x)
  with run have "apply_object client Services keep_Service (GetName (RService x)) x w = (ans, w')"
    by (simp add: applyResource_def)
  note run' = this
  have keep: "GetName (RService (keep_Service c x)) = GetName (RService x) \<and> valid_Resource (RService (keep_Service c x))"
    if "valid_Resource (RService c)" for c
    using valid_keep(5) [OF that valid [unfolded RService]] name_keep(5) [of c x] by simp
  have kind: "resourceKind (RService x) = ''Service''" by (simp add: resourceKind_def)
  note E = services.apply_object_effect [OF ok valid [unfolded RService] name [unfolded RService] keep run', folded kind]
  from E applied_wrap [where wrap = RService and keep = keep_Service and x = x and m = "res w" and m' = "res w'" and ans = ans, OF keep_merged(5)] show ?thesis unfolding RService by blast
qed

lemma getResource_effect:
  assumes ok: "ok w" and name: "url_clean name" and run: "getResource client kind name w = (ans, w')"
  shows "ok w' \<and> res w' = res w \<and> (\<forall>x. ans = Inr x \<longrightarrow> res w kind name = Some x)"
proof -
  note g = nodes.get_effect [OF ok name] pods.get_effect [OF ok name] deployments.get_effect [OF ok name]
    replicaSets.get_effect [OF ok name] services.get_effect [OF ok name]
  from ok run g show ?thesis
    unfolding getResource_def by (auto simp: failing_def split: if_splits)
qed

lemma deleteObject_effect:
  assumes ok: "ok w" and name: "url_clean name" and old: "res w kind name = Some x"
    and run: "deleteObject client kind name (GetResourceVersion x) w = (ans, w')"
  shows "ok w' \<and> (res w' = res w \<and> isl ans \<or> res w' = put_resource kind name None (res w))"
proof -
  note d = nodes.delete_effect [OF ok name] pods.delete_effect [OF ok name] deployments.delete_effect [OF ok name]
    replicaSets.delete_effect [OF ok name] services.delete_effect [OF ok name]
  from ok run d old show ?thesis
    unfolding deleteObject_def by (auto simp: failing_def split: if_splits)
qed

text \<open>What the deletion of the named resource does to the API and the terminal.\<close>

lemma deleteResource_effect:
  assumes ok: "ok w" and split: "splitResource arg = Inr (kind, name)" and name: "url_clean name"
    and run: "deleteResource client [arg] (out, w) = (ans, (out', w'))"
  shows "ok w' \<and> (res w' = res w \<or> res w kind name \<noteq> None \<and> res w' = put_resource kind name None (res w)) \<and>
    (\<not> isl ans \<longrightarrow> res w kind name \<noteq> None \<and> res w' = put_resource kind name None (res w)) \<and>
    out' = (if isl ans then out else out @ kind @ ''/'' @ name @ '' deleted'' @ newline)"
proof -
  obtain g w1 where get: "getResource client kind name w = (g, w1)" by fastforce
  note g = getResource_effect [OF ok name get]
  show ?thesis
  proof (cases g)
    case (Inl e)
    with get run split g show ?thesis
      by (auto simp: deleteResource_def lifting_def andThen_def returning_def on_world_def)
  next
    case (Inr x)
    with g have w1: "ok w1" "res w1 = res w" "res w kind name = Some x" by auto
    obtain d w2 where del: "deleteObject client kind name (GetResourceVersion x) w1 = (d, w2)" by fastforce
    have "res w1 kind name = Some x" using w1 by simp
    note d = deleteObject_effect [OF w1(1) name this del]
    from run split get Inr del d w1 show ?thesis
      by (cases d) (auto simp: deleteResource_def lifting_def andThen_def returning_def on_world_def print_out_def)
  qed
qed

end

section \<open>Theorems\<close>

text \<open>
  \<^verbatim>\<open>toyctl\<close> reads RESOURCE/NAME as the kind whose plural, in any case, stands before the
  only slash, and the name behind it; every other text is refused.
\<close>

lemma toyctl_names:
  "splitResource arg = Inr (kind, name) \<longleftrightarrow>
    (\<exists>plural. arg = plural @ ''/'' @ name \<and> CHR ''/'' \<notin> set plural \<and> CHR ''/'' \<notin> set name \<and> name \<noteq> [] \<and>
      (strings_ToLower plural, kind) \<in> set plural_kinds)"
proof -
  have keys: "distinct (map fst plural_kinds)" by code_simp
  have kinds: "kindForResourceName r = Inr k \<longleftrightarrow> (strings_ToLower r, k) \<in> set plural_kinds" for r k
    unfolding map_of_eq_Some_iff [OF keys, symmetric]
    by (simp add: kindForResourceName_def split: option.splits)
  have "list_all (\<lambda>(p, k). p \<noteq> []) plural_kinds" by code_simp
  then have nonempty: "kindForResourceName r = Inr k \<Longrightarrow> r \<noteq> []" for r k
    unfolding kinds by (auto simp: list_all_iff strings_ToLower_def)
  show ?thesis
  proof
    assume split: "splitResource arg = Inr (kind, name)"
    then obtain plural where parts: "strings_Split arg (CHR ''/'') = [plural, name]"
      and k: "kindForResourceName plural = Inr kind" "name \<noteq> []"
      by (auto simp: splitResource_def split: list.splits sum.splits if_splits)
    have "arg = plural @ ''/'' @ name" using strings_Split_Join [of arg "CHR ''/''"] by (simp add: parts)
    moreover have "CHR ''/'' \<notin> set plural" "CHR ''/'' \<notin> set name"
      using strings_Split_parts [of _ arg "CHR ''/''"] by (simp_all add: parts)
    ultimately show "\<exists>plural. arg = plural @ ''/'' @ name \<and> CHR ''/'' \<notin> set plural \<and> CHR ''/'' \<notin> set name \<and>
        name \<noteq> [] \<and> (strings_ToLower plural, kind) \<in> set plural_kinds"
      using k unfolding kinds by blast
  next
    assume "\<exists>plural. arg = plural @ ''/'' @ name \<and> CHR ''/'' \<notin> set plural \<and> CHR ''/'' \<notin> set name \<and>
        name \<noteq> [] \<and> (strings_ToLower plural, kind) \<in> set plural_kinds"
    then obtain plural where t: "arg = plural @ ''/'' @ name" "CHR ''/'' \<notin> set plural" "CHR ''/'' \<notin> set name" "name \<noteq> []"
      and k: "kindForResourceName plural = Inr kind" unfolding kinds by blast
    have "strings_Split arg (CHR ''/'') = [plural, name]"
      using t strings_Split_append [of "CHR ''/''" plural name] by (simp add: strings_Split_no_sep)
    with nonempty [OF k] k t(4) show "splitResource arg = Inr (kind, name)" by (simp add: splitResource_def)
  qed
qed

text \<open>
  C16: applying a manifest touches no other resource. When it succeeds and answers "created", the
  resource was not stored before and is stored now as the manifest has it; when it answers
  "configured", it was stored, and what is stored now is the manifest with the status and the fields
  the manifest leaves open taken from what was stored.
\<close>

theorem toyctl_applies:
  assumes "etcd_server client kvs revision invar" and "invar w" and "objects_ok (objects_of (kvs w))"
    and "valid_Resource object" and "url_clean (GetName object)"
    and "applyResource (api_client (NewEtcdClient client)) object w = (ans, w')"
  shows "(\<exists>r. read_view (objects_of (kvs w')) =
      put_resource (resourceKind object) (GetName object) r (read_view (objects_of (kvs w)))) \<and>
    (\<forall>created. ans = Inr created \<longrightarrow>
      applied created object (read_view (objects_of (kvs w))) (read_view (objects_of (kvs w'))))"
  using cluster_api.applyResource_effect [OF etcd_server_cluster_api [OF assms(1)] _ assms(4-6)] assms(2,3)
  by blast

lemma toyctl_applies_witness:
  "mem_res (snd (applyResource mem_api (RPod (example_pod ''a'')) mem_empty)) ''Pod'' ''a'' \<noteq> None"
proof -
  note clean = mem_cleanD [OF mem_empty_clean]
  have ok: "fst (applyResource mem_api (RPod (example_pod ''a'')) mem_empty) = Inr True" by code_simp
  obtain ans w where run: "applyResource mem_api (RPod (example_pod ''a'')) mem_empty = (ans, w)" by fastforce
  have object: "valid_Resource (RPod (example_pod ''a''))" "url_clean (GetName (RPod (example_pod ''a'')))" by code_simp+
  from ok run have "ans = Inr True" by simp
  with conjunct2 [OF toyctl_applies [OF mem_etcd_server clean(1,2) object run]]
  have "applied True (RPod (example_pod ''a'')) (mem_res mem_empty) (mem_res w)" by blast
  then show ?thesis unfolding run snd_conv by (auto simp: applied_def resourceKind_def example_pod_def named_meta_def Let_def)
qed



end
