(* ===== verification/ManifestWatch.thy ===== *)
theory ManifestWatch
  imports Kubelet Exec
begin

text \<open>
  The watch on the manifest directory, \<^verbatim>\<open>WatchStaticPods\<close> of \<^verbatim>\<open>kubelet/static_pods.go\<close>: how it is
  opened, and its goroutine as a state machine between the inotify queue of the kernel and the
  channel of changes.
\<close>

section \<open>Opening\<close>

record 'w inotify =
  inotifyInit :: "('w, int) operation"
  inotifyAddWatch :: "int \<Rightarrow> string \<Rightarrow> ('w, unit) operation"
  inotifyClose :: "int \<Rightarrow> 'w \<Rightarrow> 'w"

definition WatchStaticPods :: "'w inotify \<Rightarrow> string \<Rightarrow> ('w, int) operation" where
  "WatchStaticPods ino directory =
     andThen (wrapping ''watch static Pod directory'' (inotifyInit ino)) (\<lambda>fd.
     andThen (cleaning_up (\<lambda>w. (Inr (), inotifyClose ino fd w))
       (wrapping ''watch static Pod directory'' (inotifyAddWatch ino fd directory))) (\<lambda>_.
     returning fd))"

text \<open>When the watch cannot be added the descriptor is closed again.\<close>

lemma WatchStaticPods_cases:
  assumes "WatchStaticPods ino directory w = (ans, w')"
  obtains (no_descriptor) e where "inotifyInit ino w = (Inl e, w')"
      and "ans = Inl (WrapError ''watch static Pod directory'' e)"
    | (no_watch) fd w1 e w2 where "inotifyInit ino w = (Inr fd, w1)" and "inotifyAddWatch ino fd directory w1 = (Inl e, w2)"
      and "w' = inotifyClose ino fd w2" and "ans = Inl (WrapError ''watch static Pod directory'' e)"
    | (watching) fd w1 where "inotifyInit ino w = (Inr fd, w1)" and "inotifyAddWatch ino fd directory w1 = (Inr (), w')"
      and "ans = Inr fd"
proof (cases "inotifyInit ino w")
  case (Pair r w1)
  show ?thesis
  proof (cases r)
    case (Inl e)
    with assms Pair no_descriptor show ?thesis by (simp add: WatchStaticPods_def andThen_def wrapping_def)
  next
    case (Inr fd)
    obtain a w2 where add: "inotifyAddWatch ino fd directory w1 = (a, w2)" by fastforce
    with assms Pair Inr no_watch watching show ?thesis
      by (cases a) (simp_all add: WatchStaticPods_def andThen_def wrapping_def cleaning_up_def returning_def)
  qed
qed

section \<open>The goroutine\<close>

text \<open>
  \<open>Polling\<close> is the look at the context at the head of the loop, \<open>Reading\<close> the read, \<open>Napping\<close> the
  ten milliseconds after an empty queue, \<open>Sending\<close> the select on the channel.
\<close>

datatype watcher_phase = Polling | Reading | Napping | Sending | Ended

text \<open>
  \<open>queued\<close> counts the events in the kernel, \<open>message\<close> says that the channel, which holds one
  message, is full; \<open>directory\<close> counts the changes of the directory, and \<open>loadable\<close> is the count
  the receiver's next reading of the manifests will see at least.
\<close>

record manifest_watch =
  watcher :: watcher_phase
  cancelled :: bool
  queued :: nat
  message :: bool
  directory :: nat
  loadable :: nat

datatype watcher_event =
    ManifestChanged
  | ContextCancelled
  | MessageReceived
  | ContextChecked
  | EventsRead nat
  | NothingRead
  | QueueEmpty
  | ReadFailed
  | NapOver
  | NapCancelled
  | ChangeSent

definition watcher_start :: manifest_watch where
  "watcher_start = \<lparr>watcher = Polling, cancelled = False, queued = 0, message = False,
     directory = 0, loadable = 0\<rparr>"

text \<open>\<open>None\<close> is an event that cannot happen in the state.\<close>

fun watcher_step :: "manifest_watch \<Rightarrow> watcher_event \<Rightarrow> manifest_watch option" where
  "watcher_step s ManifestChanged = Some (s\<lparr>queued := queued s + 1, directory := directory s + 1\<rparr>)"
| "watcher_step s ContextCancelled = Some (s\<lparr>cancelled := True\<rparr>)"
| "watcher_step s MessageReceived =
     (if message s then Some (s\<lparr>message := False, loadable := directory s\<rparr>) else None)"
| "watcher_step s ContextChecked =
     (if watcher s = Polling then Some (s\<lparr>watcher := (if cancelled s then Ended else Reading)\<rparr>) else None)"
| "watcher_step s (EventsRead n) =
     (if watcher s = Reading \<and> 0 < n \<and> n \<le> queued s
      then Some (s\<lparr>watcher := Sending, queued := queued s - n\<rparr>) else None)"
| "watcher_step s NothingRead =
     (if watcher s = Reading then Some (s\<lparr>watcher := Polling\<rparr>) else None)"
| "watcher_step s QueueEmpty =
     (if watcher s = Reading \<and> queued s = 0 then Some (s\<lparr>watcher := Napping\<rparr>) else None)"
| "watcher_step s ReadFailed =
     (if watcher s = Reading then Some (s\<lparr>watcher := Ended\<rparr>) else None)"
| "watcher_step s NapOver =
     (if watcher s = Napping then Some (s\<lparr>watcher := Polling\<rparr>) else None)"
| "watcher_step s NapCancelled =
     (if watcher s = Napping \<and> cancelled s then Some (s\<lparr>watcher := Ended\<rparr>) else None)"
| "watcher_step s ChangeSent =
     (if watcher s = Sending then Some (s\<lparr>watcher := Polling, message := True\<rparr>) else None)"

fun watcher_run :: "manifest_watch \<Rightarrow> watcher_event list \<Rightarrow> manifest_watch option" where
  "watcher_run s [] = Some s"
| "watcher_run s (e # es) = Option.bind (watcher_step s e) (\<lambda>s'. watcher_run s' es)"

fun_cases watcher_stepE: "watcher_step s e = Some s'"

section \<open>What the watch promises\<close>

text \<open>A change the receiver does not know is still on its way to it.\<close>

definition underway :: "manifest_watch \<Rightarrow> bool" where
  "underway s \<longleftrightarrow> 0 < queued s \<or> watcher s = Sending \<or> message s"

definition nothing_lost :: "manifest_watch \<Rightarrow> bool" where
  "nothing_lost s \<longleftrightarrow> loadable s \<le> directory s \<and>
     (watcher s \<noteq> Ended \<longrightarrow> loadable s = directory s \<or> underway s)"

text \<open>Steps of the goroutine itself.\<close>

definition own_event :: "watcher_event \<Rightarrow> bool" where
  "own_event e \<longleftrightarrow> e \<notin> {ManifestChanged, ContextCancelled, MessageReceived}"

text \<open>How many steps the goroutine can still make once the context is done.\<close>

fun steps_left :: "watcher_phase \<Rightarrow> nat" where
  "steps_left Polling = 1"
| "steps_left Reading = 3"
| "steps_left Napping = 2"
| "steps_left Sending = 2"
| "steps_left Ended = 0"

lemma watcher_step_promises:
  assumes "watcher_step s e = Some s'"
  shows "nothing_lost s \<Longrightarrow> nothing_lost s'"
    and "watcher s' = Ended \<longrightarrow> watcher s = Ended \<or> cancelled s \<or> e = ReadFailed"
    and "cancelled s' \<longleftrightarrow> cancelled s \<or> e = ContextCancelled"
    and "cancelled s \<Longrightarrow> own_event e \<Longrightarrow> steps_left (watcher s') < steps_left (watcher s)"
    and "cancelled s \<Longrightarrow> steps_left (watcher s') \<le> steps_left (watcher s)"
  using assms by (auto elim!: watcher_stepE simp: nothing_lost_def underway_def own_event_def split: if_splits)

lemma watcher_run_step:
  "watcher_run s (e # es) = Some s'' \<Longrightarrow> \<exists>s'. watcher_step s e = Some s' \<and> watcher_run s' es = Some s''"
  by (simp add: bind_eq_Some_conv)

lemma watcher_run_nothing_lost:
  "watcher_run s es = Some s' \<Longrightarrow> nothing_lost s \<Longrightarrow> nothing_lost s'"
proof (induction es arbitrary: s)
  case (Cons e es)
  from watcher_run_step [OF Cons.prems(1)] obtain t where "watcher_step s e = Some t" "watcher_run t es = Some s'"
    by blast
  with Cons.IH watcher_step_promises(1) Cons.prems(2) show ?case by blast
qed simp

lemma watcher_run_ends:
  "watcher_run s es = Some s' \<Longrightarrow> watcher s' = Ended \<Longrightarrow> watcher s \<noteq> Ended \<Longrightarrow>
    cancelled s \<or> ContextCancelled \<in> set es \<or> ReadFailed \<in> set es"
proof (induction es arbitrary: s)
  case (Cons e es)
  from watcher_run_step [OF Cons.prems(1)] obtain t where t: "watcher_step s e = Some t" "watcher_run t es = Some s'"
    by blast
  with Cons.IH [OF t(2) Cons.prems(2)] watcher_step_promises(2,3) [OF t(1)] Cons.prems(3)
  show ?case by auto
qed simp

lemma watcher_run_bound:
  "watcher_run s es = Some s' \<Longrightarrow> cancelled s \<Longrightarrow>
    length (filter own_event es) + steps_left (watcher s') \<le> steps_left (watcher s)"
proof (induction es arbitrary: s)
  case (Cons e es)
  from watcher_run_step [OF Cons.prems(1)] obtain t where t: "watcher_step s e = Some t" "watcher_run t es = Some s'"
    by blast
  from watcher_step_promises(3-5) [OF t(1)] Cons.prems(2) Cons.IH [OF t(2)] show ?case
    by (cases "own_event e") auto
qed simp



end
