(* ===== verification/NodeSetup.thy ===== *)
theory NodeSetup
  imports Exec Bootstrap
begin

text \<open>
  The network of a node, \<^verbatim>\<open>node/network.go\<close>: its address on the underlay and a route to the
  Pod network of every other node. The commands are executed by an argument.
\<close>

definition route_to :: "'w exec \<Rightarrow> int \<Rightarrow> ('w, unit) operation" where
  "route_to run targetIndex =
     (case NodeNetwork targetIndex of
        Inl e \<Rightarrow> failing e
      | Inr (podCIDR, _) \<Rightarrow>
          (case NodeUnderlayAddress targetIndex of
             Inl e \<Rightarrow> failing e
           | Inr nextHop \<Rightarrow>
               wrapping (''route Pod CIDR '' @ prefix_String podCIDR)
                 (exec_run run ''ip'' [''route'', ''add'', prefix_String podCIDR, ''via'', addr_String nextHop,
                   ''dev'', UnderlayInterface])))"

fun add_routes :: "'w exec \<Rightarrow> int \<Rightarrow> int list \<Rightarrow> ('w, unit) operation" where
  "add_routes run nodeIndex [] = returning ()"
| "add_routes run nodeIndex (targetIndex # targets) =
     (if targetIndex = nodeIndex then add_routes run nodeIndex targets
      else andThen (route_to run targetIndex) (\<lambda>_. add_routes run nodeIndex targets))"

definition ConfigureNetwork :: "'w exec \<Rightarrow> int \<Rightarrow> int \<Rightarrow> ('w, unit) operation" where
  "ConfigureNetwork run nodeIndex nodeCount =
     (if nodeCount < 1 \<or> nodeIndex < 0 \<or> nodeIndex \<ge> nodeCount
      then failing (NewError (''invalid node index '' @ strconv_Itoa nodeIndex @ '' for ''
             @ strconv_Itoa nodeCount @ '' nodes''))
      else case NodeUnderlayAddress nodeIndex of
          Inl e \<Rightarrow> failing e
        | Inr underlayAddress \<Rightarrow>
            (case ParsePrefix UnderlayCIDR of
               None \<Rightarrow> failing (WrapError ''parse underlay CIDR'' (NewError ''netip''))
             | Some underlayPrefix \<Rightarrow>
                 andThen (wrapping ''assign node underlay address''
                   (exec_run run ''ip'' [''addr'', ''add'',
                     addr_String underlayAddress @ ''/'' @ strconv_Itoa (prefixBits underlayPrefix),
                     ''dev'', UnderlayInterface])) (\<lambda>_.
                 andThen (wrapping ''enable node underlay interface''
                   (exec_run run ''ip'' [''link'', ''set'', UnderlayInterface, ''up''])) (\<lambda>_.
                 andThen (wrapping ''enable node loopback''
                   (exec_run run ''ip'' [''link'', ''set'', ''lo'', ''up''])) (\<lambda>_.
                 andThen (wrapping ''enable node forwarding''
                   (exec_run run ''sysctl'' [''-q'', ''-w'', ''net.ipv4.ip_forward=1''])) (\<lambda>_.
                 add_routes run nodeIndex [0..nodeCount - 1]))))))"

section \<open>The commands\<close>

text \<open>The address a node gives itself, and the route the other nodes have to it.\<close>

definition address_command :: "int \<Rightarrow> string list" where
  "address_command i = [''ip'', ''addr'', ''add'', addr_String (Addr4 10 200 0 (word_of_int (i + 2))) @ ''/24'',
     ''dev'', UnderlayInterface]"

definition route_command :: "int \<Rightarrow> string list" where
  "route_command j = [''ip'', ''route'', ''add'',
     prefix_String \<lparr>prefixAddr = Addr4 10 244 (word_of_int j) 0, prefixBits = 24\<rparr>, ''via'',
     addr_String (Addr4 10 200 0 (word_of_int (j + 2))), ''dev'', UnderlayInterface]"

definition setup_commands :: "int \<Rightarrow> string list list" where
  "setup_commands i = [address_command i, [''ip'', ''link'', ''set'', UnderlayInterface, ''up''],
     [''ip'', ''link'', ''set'', ''lo'', ''up''], [''sysctl'', ''-q'', ''-w'', ''net.ipv4.ip_forward=1'']]"

lemma small_int64: "0 \<le> j \<Longrightarrow> j \<le> 255 \<Longrightarrow> in_int64 j"
  by (simp add: in_int64_def int64_min_def int64_max_def)

lemma route_to_run:
  assumes "0 \<le> j" and "j \<le> 253"
  shows "route_to (recording fails) j log =
    (if fails log (route_command j)
     then Inl (WrapError (''route Pod CIDR '' @ route_command j ! 3)
       (WrapErrorDetail ''ip'' (NewError ''exit status 1'') []))
     else Inr (), log @ [route_command j])"
  using assms NodeNetwork_eq [OF small_int64, of j] NodeUnderlayAddress_ok [of j]
  by (simp add: route_to_def wrapping_def exec_run_recording route_command_def)

lemma add_routes_run:
  "\<forall>j\<in>set js. 0 \<le> j \<and> j \<le> 253 \<Longrightarrow>
    add_routes (recording (\<lambda>_ _. False)) i js log = (Inr (), log @ map route_command (filter (\<lambda>j. j \<noteq> i) js))"
  by (induction js arbitrary: log) (auto simp: returning_def andThen_def route_to_run)

text \<open>A target without an address ends the loop with an error.\<close>

lemma add_routes_error:
  assumes "j \<in> set js" and "j \<noteq> i" and "isl (NodeUnderlayAddress j)"
  shows "isl (fst (add_routes run i js w))"
  using assms
proof (induction js arbitrary: w)
  case (Cons k js)
  show ?case
  proof (cases "j \<in> set js")
    case True
    then show ?thesis using Cons by (auto simp: andThen_def split: sum.splits prod.splits)
  next
    case False
    then have "k = j" using Cons.prems(1) by simp
    then have "isl (fst (route_to run k w))"
      using Cons.prems(3) by (auto simp: route_to_def failing_def isl_def split: sum.splits)
    with Cons.prems(2) \<open>k = j\<close> show ?thesis by (auto simp: andThen_def split: sum.splits prod.splits)
  qed
qed simp

lemma ConfigureNetwork_cases:
  assumes "0 \<le> i" and "i < n"
  shows "ConfigureNetwork run i n =
    (case NodeUnderlayAddress i of
       Inl e \<Rightarrow> failing e
     | Inr a \<Rightarrow>
         andThen (wrapping ''assign node underlay address''
           (exec_run run ''ip'' [''addr'', ''add'', addr_String a @ ''/24'', ''dev'', UnderlayInterface])) (\<lambda>_.
         andThen (wrapping ''enable node underlay interface''
           (exec_run run ''ip'' [''link'', ''set'', UnderlayInterface, ''up''])) (\<lambda>_.
         andThen (wrapping ''enable node loopback'' (exec_run run ''ip'' [''link'', ''set'', ''lo'', ''up''])) (\<lambda>_.
         andThen (wrapping ''enable node forwarding''
           (exec_run run ''sysctl'' [''-q'', ''-w'', ''net.ipv4.ip_forward=1''])) (\<lambda>_.
         add_routes run i [0..n - 1])))))"
proof -
  have "strconv_Itoa 24 = ''24''" by code_simp
  with assms show ?thesis by (simp add: ConfigureNetwork_def parse_UnderlayCIDR cong: sum.case_cong)
qed

lemma ConfigureNetwork_ok:
  assumes "0 \<le> i" and "i < n" and "n \<le> 254"
  shows "ConfigureNetwork (recording (\<lambda>_ _. False)) i n log =
    (Inr (), log @ setup_commands i @ map route_command (filter (\<lambda>j. j \<noteq> i) [0..n - 1]))"
  using assms NodeUnderlayAddress_ok [of i]
  by (simp add: ConfigureNetwork_cases andThen_def wrapping_def exec_run_recording add_routes_run
      setup_commands_def address_command_def)

lemma ConfigureNetwork_error:
  assumes "\<not> (0 \<le> i \<and> i < n \<and> n \<le> 254)"
  shows "isl (fst (ConfigureNetwork run i n w))"
proof (cases "0 \<le> i \<and> i < n")
  case False
  then show ?thesis by (auto simp: ConfigureNetwork_def failing_def)
next
  case True
  with assms have n: "n > 254" by simp
  have none: "isl (NodeUnderlayAddress 254)" by (rule NodeUnderlayAddress_error) simp_all
  show ?thesis
  proof (cases "i = 254")
    case i: True
    with none True show ?thesis
      by (auto simp: ConfigureNetwork_cases failing_def isl_def)
  next
    case False
    have "isl (fst (add_routes run i [0..n - 1] w'))" for w'
      by (rule add_routes_error [OF _ _ none]) (use n False in auto)
    then show ?thesis using True
      by (auto simp: ConfigureNetwork_cases andThen_def failing_def split: sum.splits prod.splits)
  qed
qed

section \<open>Theorems\<close>


end
