(* ===== verification/Supervisor.thy ===== *)
theory Supervisor
  imports Prelude
begin

text \<open>
  The supervisor of the processes of a node, \<^verbatim>\<open>node/supervisor.go\<close>, as a state machine: the
  events are what it learns of the outside, the start of a process, a look at a path, the end of a
  process, the context and the timers; a step is what it does then. The processes started, the
  signals sent and the processes whose end was received are recorded in the state.
\<close>

section \<open>The state machine\<close>

record Unit =
  unitName :: string
  unitPath :: string
  unitArgs :: "string list"
  ReadyPath :: string

datatype signal = SIGTERM | SIGKILL

datatype supervisor_phase =
    Starting Unit "Unit list"
  | Awaiting string "Unit list"
  | Supervising
  | Reaping nat "unit result"
  | Returned "unit result"

record Supervisor =
  procs :: "int list"
  signals :: "(int \<times> signal) list"
  collected :: "int list"
  phase :: supervisor_phase

datatype supervisor_event =
    Started int
  | StartFailed goerror
  | PathFound
  | PathMissing
  | ContextDone
  | TimerFired
  | Exited int "goerror option"

text \<open>The loop over the units goes on to the next one, or to the wait for an exit.\<close>

definition next_unit :: "Unit list \<Rightarrow> supervisor_phase" where
  "next_unit us = (case us of [] \<Rightarrow> Supervising | u # us' \<Rightarrow> Starting u us')"

definition NewSupervisor :: "Unit list \<Rightarrow> Supervisor" where
  "NewSupervisor us = \<lparr>procs = [], signals = [], collected = [], phase = next_unit us\<rparr>"

text \<open>\<open>Stop\<close> signals the process group of every process.\<close>

definition Supervisor_Stop :: "Supervisor \<Rightarrow> Supervisor" where
  "Supervisor_Stop s = s\<lparr>signals := signals s @ map (\<lambda>pid. (- pid, SIGTERM)) (procs s)\<rparr>"

definition kill_all :: "Supervisor \<Rightarrow> Supervisor" where
  "kill_all s = s\<lparr>signals := signals s @ map (\<lambda>pid. (pid, SIGKILL)) (procs s)\<rparr>"

text \<open>The loop of \<open>waitForExit\<close> with \<open>n\<close> processes to wait for.\<close>

definition waiting_for :: "nat \<Rightarrow> unit result \<Rightarrow> supervisor_phase" where
  "waiting_for n r = (if n = 0 then Returned r else Reaping n r)"

definition stop_with :: "goerror \<Rightarrow> Supervisor \<Rightarrow> Supervisor" where
  "stop_with e s = (Supervisor_Stop s)\<lparr>phase := Returned (Inl e)\<rparr>"

definition exit_result :: "goerror option \<Rightarrow> unit result" where
  "exit_result err = (case err of None \<Rightarrow> Inr () | Some e \<Rightarrow> Inl (WrapError ''supervised process exited'' e))"

text \<open>
  No process is waited for before all units have started, so the number of a new process is not
  that of an older one; every process ends once.
\<close>

inductive supervisor_step :: "Supervisor \<Rightarrow> supervisor_event \<Rightarrow> Supervisor \<Rightarrow> bool" where
  started: "phase s = Starting u us \<Longrightarrow> pid \<notin> set (procs s) \<Longrightarrow>
    supervisor_step s (Started pid)
      (s\<lparr>procs := procs s @ [pid],
         phase := (if ReadyPath u \<noteq> [] then Awaiting (ReadyPath u) us else next_unit us)\<rparr>)"
| start_failed: "phase s = Starting u us \<Longrightarrow>
    supervisor_step s (StartFailed e) (stop_with (WrapError (''start '' @ unitName u) e) s)"
| path_found: "phase s = Awaiting path us \<Longrightarrow>
    supervisor_step s PathFound (s\<lparr>phase := next_unit us\<rparr>)"
| path_missing: "phase s = Awaiting path us \<Longrightarrow> supervisor_step s PathMissing s"
| path_cancelled: "phase s = Awaiting path us \<Longrightarrow>
    supervisor_step s ContextDone (stop_with ContextCanceled s)"
| path_deadline: "phase s = Awaiting path us \<Longrightarrow>
    supervisor_step s TimerFired (stop_with (NewError (''wait for '' @ path)) s)"
| cancelled: "phase s = Supervising \<Longrightarrow>
    supervisor_step s ContextDone
      ((Supervisor_Stop s)\<lparr>phase := waiting_for (length (procs s)) (Inr ())\<rparr>)"
| exited: "phase s = Supervising \<Longrightarrow> pid \<in> set (procs s) \<Longrightarrow> pid \<notin> set (collected s) \<Longrightarrow>
    supervisor_step s (Exited pid err)
      ((Supervisor_Stop s)\<lparr>collected := collected s @ [pid],
         phase := waiting_for (length (procs s) - 1) (exit_result err)\<rparr>)"
| reaped: "phase s = Reaping n r \<Longrightarrow> pid \<in> set (procs s) \<Longrightarrow> pid \<notin> set (collected s) \<Longrightarrow>
    supervisor_step s (Exited pid err)
      (s\<lparr>collected := collected s @ [pid], phase := waiting_for (n - 1) r\<rparr>)"
| reap_deadline: "phase s = Reaping n r \<Longrightarrow>
    supervisor_step s TimerFired ((kill_all s)\<lparr>phase := Returned r\<rparr>)"

inductive_cases start_events [elim]: "supervisor_step s (Started pid) s'"
inductive_cases exit_events [elim]: "supervisor_step s (Exited pid err) s'"
inductive_cases timer_events [elim]: "supervisor_step s TimerFired s'"
inductive_cases done_events [elim]: "supervisor_step s ContextDone s'"

inductive_simps step_exited: "supervisor_step s (Exited pid err) s'"

inductive supervisor_run :: "Supervisor \<Rightarrow> supervisor_event list \<Rightarrow> Supervisor \<Rightarrow> bool" where
  run_Nil: "supervisor_run s [] s"
| run_snoc: "supervisor_run s es s' \<Longrightarrow> supervisor_step s' e s'' \<Longrightarrow> supervisor_run s (es @ [e]) s''"

section \<open>The invariant\<close>

definition terminated :: "Supervisor \<Rightarrow> bool" where
  "terminated s \<longleftrightarrow> (\<forall>pid\<in>set (procs s). (- pid, SIGTERM) \<in> set (signals s))"

definition ended :: "Supervisor \<Rightarrow> bool" where
  "ended s \<longleftrightarrow> (\<forall>pid\<in>set (procs s). pid \<in> set (collected s) \<or> (pid, SIGKILL) \<in> set (signals s))"

definition startup_error :: "Unit list \<Rightarrow> goerror \<Rightarrow> bool" where
  "startup_error us e \<longleftrightarrow> e = ContextCanceled \<or>
     (\<exists>u\<in>set us. e = NewError (''wait for '' @ ReadyPath u) \<or> (\<exists>e'. e = WrapError (''start '' @ unitName u) e'))"

fun phase_ok :: "Unit list \<Rightarrow> Supervisor \<Rightarrow> supervisor_phase \<Rightarrow> bool" where
  "phase_ok us s (Starting u rest) \<longleftrightarrow> signals s = [] \<and> collected s = [] \<and>
     (\<exists>before. us = before @ u # rest \<and> length before = length (procs s))"
| "phase_ok us s (Awaiting path rest) \<longleftrightarrow> signals s = [] \<and> collected s = [] \<and>
     (\<exists>before u. us = before @ u # rest \<and> path = ReadyPath u \<and> length before + 1 = length (procs s))"
| "phase_ok us s Supervising \<longleftrightarrow> signals s = [] \<and> collected s = [] \<and> length us = length (procs s)"
| "phase_ok us s (Reaping n r) \<longleftrightarrow> terminated s \<and> length us = length (procs s) \<and>
     n + length (collected s) = length (procs s) \<and> (\<exists>err. r = exit_result err)"
| "phase_ok us s (Returned r) \<longleftrightarrow> terminated s \<and>
     ((\<exists>e. r = Inl e \<and> startup_error us e) \<or>
      length us = length (procs s) \<and> ended s \<and> (\<exists>err. r = exit_result err))"

definition supervisor_ok :: "Unit list \<Rightarrow> Supervisor \<Rightarrow> bool" where
  "supervisor_ok us s \<longleftrightarrow> distinct (procs s) \<and> distinct (collected s) \<and>
     set (collected s) \<subseteq> set (procs s) \<and> phase_ok us s (phase s)"

lemma phase_ok_next:
  assumes "signals s = []" and "collected s = []" and "us = before @ rest" and "length before = length (procs s)"
  shows "phase_ok us s (next_unit rest)"
  using assms by (cases rest) (auto simp: next_unit_def)

lemma terminated_Stop: "terminated (Supervisor_Stop s)"
  by (auto simp: terminated_def Supervisor_Stop_def)

lemma all_collected:
  assumes "distinct (collected s)" and "set (collected s) \<subseteq> set (procs s)" and "distinct (procs s)"
    and "length (collected s) = length (procs s)"
  shows "ended s"
proof -
  have "card (set (collected s)) = card (set (procs s))" using assms by (simp add: distinct_card)
  with assms(2) have "set (collected s) = set (procs s)" by (simp add: card_subset_eq)
  then show ?thesis by (simp add: ended_def)
qed

lemma phase_ok_waiting:
  assumes "distinct (collected s)" and "set (collected s) \<subseteq> set (procs s)" and "distinct (procs s)"
    and "terminated s" and "length us = length (procs s)" and "n + length (collected s) = length (procs s)"
  shows "phase_ok us s (waiting_for n (exit_result err))"
proof (cases "n = 0")
  case True
  with all_collected [OF assms(1-3)] assms(4-6) show ?thesis by (auto simp: waiting_for_def)
next
  case False
  with assms show ?thesis by (auto simp: waiting_for_def)
qed

lemma supervisor_step_ok:
  assumes "supervisor_step s e s'" and "supervisor_ok us s"
  shows "supervisor_ok us s'"
  using assms
proof cases
  case (started u rest pid)
  with assms(2) obtain before where b: "us = before @ u # rest" "length before = length (procs s)"
    "signals s = []" "collected s = []" "distinct (procs s)" by (auto simp: supervisor_ok_def)
  from phase_ok_next [of s' us "before @ [u]" rest] b started show ?thesis
    by (auto simp: supervisor_ok_def)
next
  case (start_failed u rest err)
  with assms(2) show ?thesis using terminated_Stop [of s]
    by (auto simp: supervisor_ok_def stop_with_def startup_error_def terminated_def Supervisor_Stop_def)
next
  case (path_found path rest)
  with assms(2) obtain before u where b: "us = before @ u # rest" "length before + 1 = length (procs s)"
    "signals s = []" "collected s = []" by (auto simp: supervisor_ok_def)
  from phase_ok_next [of s' us "before @ [u]" rest] b path_found assms(2) show ?thesis
    by (auto simp: supervisor_ok_def)
next
  case (path_cancelled path rest)
  with assms(2) show ?thesis
    by (auto simp: supervisor_ok_def stop_with_def startup_error_def terminated_def Supervisor_Stop_def)
next
  case (path_deadline path rest)
  with assms(2) show ?thesis
    by (auto simp: supervisor_ok_def stop_with_def startup_error_def terminated_def Supervisor_Stop_def)
next
  case cancelled
  with assms(2) have "phase_ok us s' (waiting_for (length (procs s)) (exit_result None))"
    by (intro phase_ok_waiting) (auto simp: supervisor_ok_def terminated_def Supervisor_Stop_def)
  with cancelled assms(2) show ?thesis by (auto simp: supervisor_ok_def exit_result_def Supervisor_Stop_def)
next
  case (exited pid err)
  then have "length (procs s) > 0" by (cases "procs s") auto
  with exited assms(2) have "phase_ok us s' (waiting_for (length (procs s) - 1) (exit_result err))"
    by (intro phase_ok_waiting) (auto simp: supervisor_ok_def terminated_def Supervisor_Stop_def)
  with exited assms(2) show ?thesis by (auto simp: supervisor_ok_def Supervisor_Stop_def)
next
  case (reaped n r pid err)
  with assms(2) have r: "n + length (collected s) = length (procs s)" "\<exists>err. r = exit_result err"
    by (auto simp: supervisor_ok_def)
  from reaped assms(2) have less: "length (collected s) < length (procs s)"
    using distinct_card [of "collected s"] distinct_card [of "procs s"] psubset_card_mono [of "set (procs s)" "set (collected s)"]
    by (auto simp: supervisor_ok_def)
  from r obtain err' where r': "r = exit_result err'" by blast
  have "phase_ok us s' (waiting_for (n - 1) (exit_result err'))"
    using reaped assms(2) r(1) less by (intro phase_ok_waiting) (auto simp: supervisor_ok_def terminated_def)
  with reaped assms(2) r' show ?thesis by (auto simp: supervisor_ok_def)
next
  case (reap_deadline n r)
  with assms(2) show ?thesis by (auto simp: supervisor_ok_def terminated_def ended_def kill_all_def)
qed simp_all

lemma supervisor_run_ok:
  "supervisor_run s es s' \<Longrightarrow> supervisor_ok us s \<Longrightarrow> supervisor_ok us s'"
  by (induction rule: supervisor_run.induct) (auto intro: supervisor_step_ok)

lemma NewSupervisor_ok: "supervisor_ok us (NewSupervisor us)"
  using phase_ok_next [of "NewSupervisor us" us "[]" us] by (simp add: supervisor_ok_def NewSupervisor_def)

text \<open>The error of a process that ended is the one it reported.\<close>

definition reported_by :: "supervisor_event list \<Rightarrow> unit result \<Rightarrow> bool" where
  "reported_by es r \<longleftrightarrow> (\<forall>e. r = Inl (WrapError ''supervised process exited'' e) \<longrightarrow>
     (\<exists>pid. Exited pid (Some e) \<in> set es))"

definition phase_result :: "supervisor_phase \<Rightarrow> unit result option" where
  "phase_result p = (case p of Reaping n r \<Rightarrow> Some r | Returned r \<Rightarrow> Some r | _ \<Rightarrow> None)"

lemma phase_result_simps [simp]:
  "phase_result (waiting_for n r) = Some r" "phase_result (Returned r) = Some r"
  "phase_result (Reaping n r) = Some r" "phase_result (next_unit us) = None"
  "phase_result (Starting u us) = None" "phase_result (Awaiting path us) = None" "phase_result Supervising = None"
  by (auto simp: phase_result_def waiting_for_def next_unit_def split: list.splits)

lemma supervisor_reports:
  "supervisor_run s es s' \<Longrightarrow> phase_result (phase s) = None \<Longrightarrow> phase_result (phase s') = Some r \<Longrightarrow> reported_by es r"
proof (induction arbitrary: r rule: supervisor_run.induct)
  case (run_snoc s es s' e s'')
  from run_snoc.hyps(2) show ?case
  proof cases
    case (exited pid err)
    with run_snoc.prems(2) show ?thesis
      by (auto simp: reported_by_def exit_result_def split: option.splits)
  next
    case (start_failed u us e)
    with run_snoc.prems(2) show ?thesis by (auto simp: reported_by_def stop_with_def)
  next
    case (reaped n r' pid err)
    with run_snoc.IH [OF run_snoc.prems(1), of r'] run_snoc.prems(2) show ?thesis by (auto simp: reported_by_def)
  next
    case (reap_deadline n r')
    with run_snoc.IH [OF run_snoc.prems(1), of r'] run_snoc.prems(2) show ?thesis by (auto simp: reported_by_def)
  qed (use run_snoc.prems(2) in \<open>auto simp: reported_by_def stop_with_def split: if_splits\<close>)
qed simp

section \<open>The end\<close>

lemma reaping_step:
  assumes "supervisor_step s e s'" and "phase s = Reaping n r" and "n > 0"
  shows "phase s' = Returned r \<or> n > 1 \<and> phase s' = Reaping (n - 1) r"
  using assms by cases (auto simp: waiting_for_def)

lemma returned_stuck: "supervisor_step s e s' \<Longrightarrow> phase s \<noteq> Returned r"
  by (cases rule: supervisor_step.cases) auto

lemma reaping_run:
  assumes "supervisor_run s es s'" and "phase s = Reaping n r" and "n > 0"
  shows "length es \<le> n \<and> (phase s' = Returned r \<or> (phase s' = Reaping (n - length es) r \<and> length es < n))"
  using assms
proof (induction rule: supervisor_run.induct)
  case (run_snoc s es s' e s'')
  then have IH: "length es \<le> n" "phase s' = Returned r \<or> phase s' = Reaping (n - length es) r \<and> length es < n" by auto
  with returned_stuck [OF run_snoc.hyps(2)] have "phase s' = Reaping (n - length es) r" "length es < n" by auto
  with reaping_step [OF run_snoc.hyps(2) this(1)] show ?case by (auto simp: Suc_diff_Suc)
qed simp

section \<open>Theorems\<close>

text \<open>
  C15: the supervisor leaves no process behind unnoticed. When it returns, every process it started
  was sent SIGTERM; unless it returns because a unit did not start or did not become ready, all the
  units had started, and the end of every process was received or the process was killed. The error
  of a process it returns is one that a process ended with.
\<close>

theorem supervisor_stops_all:
  assumes "supervisor_run (NewSupervisor us) es s" and "phase s = Returned r"
  shows "(\<forall>pid\<in>set (procs s). (- pid, SIGTERM) \<in> set (signals s)) \<and>
    ((\<exists>e. r = Inl e \<and> startup_error us e) \<or>
     length us = length (procs s) \<and>
     (\<forall>pid\<in>set (procs s). pid \<in> set (collected s) \<or> (pid, SIGKILL) \<in> set (signals s)) \<and>
     (r = Inr () \<or> (\<exists>pid e. Exited pid (Some e) \<in> set es \<and> r = exit_result (Some e))))"
proof -
  have ok: "phase_ok us s (Returned r)"
    using supervisor_run_ok [OF assms(1) NewSupervisor_ok] assms(2) by (simp add: supervisor_ok_def)
  have rep: "reported_by es r"
    by (rule supervisor_reports [OF assms(1)]) (simp_all add: NewSupervisor_def assms(2))
  have "r = Inr () \<or> (\<exists>pid e. Exited pid (Some e) \<in> set es \<and> r = exit_result (Some e))" if "r = exit_result err" for err
    using rep that by (cases err) (auto simp: reported_by_def exit_result_def)
  with ok show ?thesis by (auto simp: terminated_def ended_def)
qed

definition plain_unit :: "string \<Rightarrow> Unit" where
  "plain_unit name = \<lparr>unitName = name, unitPath = name, unitArgs = [], ReadyPath = []\<rparr>"

definition two_started :: Supervisor where
  "two_started = \<lparr>procs = [10, 11], signals = [], collected = [], phase = Supervising\<rparr>"

lemma two_started_run:
  "supervisor_run (NewSupervisor [plain_unit ''runtime'', plain_unit ''kubelet'']) [Started 10, Started 11] two_started"
proof -
  let ?s0 = "NewSupervisor [plain_unit ''runtime'', plain_unit ''kubelet'']"
  let ?s1 = "\<lparr>procs = [10], signals = [], collected = [], phase = Starting (plain_unit ''kubelet'') []\<rparr>"
  have "supervisor_step ?s0 (Started 10) ?s1"
    using started [of ?s0 "plain_unit ''runtime''" "[plain_unit ''kubelet'']" 10]
    by (simp add: NewSupervisor_def next_unit_def plain_unit_def)
  moreover have "supervisor_step ?s1 (Started 11) two_started"
    using started [of ?s1 "plain_unit ''kubelet''" "[]" 11]
    by (simp add: next_unit_def plain_unit_def two_started_def)
  ultimately show ?thesis
    using run_snoc [OF run_snoc [OF run_Nil]] by fastforce
qed

lemma two_started_exits:
  "supervisor_run (NewSupervisor [plain_unit ''runtime'', plain_unit ''kubelet''])
    [Started 10, Started 11, Exited 10 (Some ErrConflict)]
    ((Supervisor_Stop two_started)\<lparr>collected := [10], phase := Reaping 1 (exit_result (Some ErrConflict))\<rparr>)"
  using run_snoc [OF two_started_run exited [of two_started 10 "Some ErrConflict"]]
  by (simp add: two_started_def waiting_for_def Supervisor_Stop_def)

lemma supervisor_stops_all_witness:
  "\<exists>s. supervisor_run (NewSupervisor [plain_unit ''runtime'', plain_unit ''kubelet''])
      [Started 10, Started 11, Exited 10 (Some ErrConflict), TimerFired] s \<and>
    (- 10, SIGTERM) \<in> set (signals s) \<and> (- 11, SIGTERM) \<in> set (signals s)"
proof -
  let ?s = "(Supervisor_Stop two_started)\<lparr>collected := [10], phase := Reaping 1 (exit_result (Some ErrConflict))\<rparr>"
  let ?t = "(kill_all ?s)\<lparr>phase := Returned (exit_result (Some ErrConflict))\<rparr>"
  have run: "supervisor_run (NewSupervisor [plain_unit ''runtime'', plain_unit ''kubelet''])
      [Started 10, Started 11, Exited 10 (Some ErrConflict), TimerFired] ?t"
    using run_snoc [OF two_started_exits reap_deadline [of ?s 1 "exit_result (Some ErrConflict)"]] by simp
  from supervisor_stops_all [OF run, of "exit_result (Some ErrConflict)"]
  have "\<forall>pid\<in>set (procs ?t). (- pid, SIGTERM) \<in> set (signals ?t)" by simp
  moreover have "procs ?t = [10, 11]" by (simp add: kill_all_def Supervisor_Stop_def two_started_def)
  ultimately have "(- 10, SIGTERM) \<in> set (signals ?t) \<and> (- 11, SIGTERM) \<in> set (signals ?t)"
    by (simp only: list.set) blast
  with run show ?thesis by blast
qed

text \<open>
  Once the supervisor waits for its processes to end, it returns within as many steps as there
  are processes, whatever happens, and the timer can always end the wait.
\<close>

lemma supervisor_ends:
  assumes "supervisor_run (NewSupervisor us) es s" and "phase s = Reaping n r"
  shows "n \<le> length us \<and> supervisor_step s TimerFired ((kill_all s)\<lparr>phase := Returned r\<rparr>) \<and>
    (\<forall>es' s'. supervisor_run s es' s' \<longrightarrow> length es' \<le> n \<and> (length es' = n \<longrightarrow> phase s' = Returned r))"
proof -
  have "phase_ok us s (Reaping n r)"
    using supervisor_run_ok [OF assms(1) NewSupervisor_ok] assms(2) by (simp add: supervisor_ok_def)
  moreover have "n > 0"
    using assms by (cases rule: supervisor_run.cases)
      (auto simp: NewSupervisor_def next_unit_def waiting_for_def stop_with_def elim!: supervisor_step.cases split: list.splits if_splits)
  ultimately show ?thesis using reaping_run [OF _ assms(2)] reap_deadline [OF assms(2)] by fastforce
qed

lemma supervisor_ends_witness:
  "\<exists>s. supervisor_run (NewSupervisor [plain_unit ''runtime'', plain_unit ''kubelet''])
      [Started 10, Started 11, Exited 10 (Some ErrConflict)] s \<and>
    (\<forall>es' s'. supervisor_run s es' s' \<longrightarrow> length es' \<le> 1)"
proof -
  let ?s = "(Supervisor_Stop two_started)\<lparr>collected := [10], phase := Reaping 1 (exit_result (Some ErrConflict))\<rparr>"
  have "phase ?s = Reaping 1 (exit_result (Some ErrConflict))" by simp
  from supervisor_ends [OF two_started_exits this] two_started_exits show ?thesis by blast
qed

end
