(* ===== verification/ContainerChild.thy ===== *)
theory ContainerChild
  imports Runtime
begin

text \<open>
  The child process of \<^verbatim>\<open>cri/runtime/runtime.go\<close> that becomes the container: it waits for the
  network, joins the network namespace of the sandbox, enters the root file system and executes the
  command it finds there. The system calls are an argument.
\<close>

record 'w child_os =
  childEnviron :: "string list"
  childStat :: "string \<Rightarrow> ('w, bool) operation"
  childMount :: "string \<Rightarrow> string \<Rightarrow> string \<Rightarrow> bool \<Rightarrow> ('w, unit) operation"
  childChroot :: "string \<Rightarrow> ('w, unit) operation"
  childChdir :: "string \<Rightarrow> ('w, unit) operation"
  childExec :: "string \<Rightarrow> string list \<Rightarrow> string list \<Rightarrow> ('w, unit) operation"
  childFile :: "int \<Rightarrow> bool"
  childReadByte :: "int \<Rightarrow> ('w, unit) operation"
  childSetns :: "int \<Rightarrow> ('w, unit) operation"

definition command_directories :: "string list" where
  "command_directories = strings_Split ''/usr/local/sbin:/usr/local/bin:/usr/sbin:/usr/bin:/sbin:/bin'' (CHR '':'')"

text \<open>\<open>childStat\<close> answers whether the file is a directory, or the error of \<^verbatim>\<open>os.Stat\<close>.\<close>

fun find_command :: "'w child_os \<Rightarrow> string \<Rightarrow> string \<Rightarrow> string list \<Rightarrow> ('w, string) operation" where
  "find_command os rootfs command [] w =
     (Inl (NewError (''container command is unavailable: '' @ command)), w)"
| "find_command os rootfs command (directory # directories) w =
     (case childStat os (filepath_Join [rootfs, directory, command]) w of
        (Inr False, w') \<Rightarrow> (Inr (filepath_Join [directory, command]), w')
      | (_, w') \<Rightarrow> find_command os rootfs command directories w')"

definition resolveCommand :: "'w child_os \<Rightarrow> string \<Rightarrow> string \<Rightarrow> ('w, string) operation" where
  "resolveCommand os rootfs command =
     (if strings_HasPrefix command ''/''
      then andThen (wrapping ''container command is unavailable''
             (childStat os (filepath_Join [rootfs, command]))) (\<lambda>_. returning command)
      else find_command os rootfs command command_directories)"

definition containerEnvironment :: "string list \<Rightarrow> string list" where
  "containerEnvironment environ =
     filter (\<lambda>v. \<not> strings_HasPrefix v ''PATH='') environ
     @ [''PATH=/usr/local/sbin:/usr/local/bin:/usr/sbin:/usr/bin:/sbin:/bin'']"

definition RunContainerChild :: "'w child_os \<Rightarrow> string \<Rightarrow> string list \<Rightarrow> ('w, unit) operation" where
  "RunContainerChild os rootfs processArgs =
     (case processArgs of
        [] \<Rightarrow> failing (NewError ''container process command is empty'')
      | command # args \<Rightarrow>
          andThen (resolveCommand os rootfs command) (\<lambda>commandPath.
          andThen (wrapping ''make container mounts private'' (childMount os [] ''/'' [] True)) (\<lambda>_.
          andThen (wrapping ''enter container rootfs'' (childChroot os rootfs)) (\<lambda>_.
          andThen (wrapping ''change to container root'' (childChdir os ''/'')) (\<lambda>_.
          andThen (wrapping ''mount container proc'' (childMount os ''proc'' ''/proc'' ''proc'' False)) (\<lambda>_.
          childExec os commandPath (commandPath # args) (containerEnvironment (childEnviron os))))))))"

definition WaitForNetwork :: "'w child_os \<Rightarrow> int \<Rightarrow> ('w, unit) operation" where
  "WaitForNetwork os fd =
     (if \<not> childFile os fd then failing (NewError ''network readiness file descriptor is invalid'')
      else wrapping ''wait for CNI setup'' (childReadByte os fd))"

definition JoinNetworkNamespaceFD :: "'w child_os \<Rightarrow> int \<Rightarrow> ('w, unit) operation" where
  "JoinNetworkNamespaceFD os fd = wrapping ''join Pod network namespace'' (childSetns os fd)"

section \<open>Theorems\<close>

lemma find_command_cases:
  assumes "\<And>p w. childStat os p w = (st p, w)"
  shows "find_command os rootfs command ds w =
    (case find (\<lambda>d. st (filepath_Join [rootfs, d, command]) = Inr False) ds of
       None \<Rightarrow> Inl (NewError (''container command is unavailable: '' @ command))
     | Some d \<Rightarrow> Inr (filepath_Join [d, command]), w)"
  by (induction ds) (auto simp: assms split: sum.splits bool.splits)

text \<open>
  The program a container starts. A command with a slash in front is itself, if it exists in the
  root file system; any other is taken from the first directory of the search path that has a file
  of its name; there is none exactly when no directory has one. Nothing is executed then.
\<close>

lemma container_command:
  assumes "\<And>p w. childStat os p w = (st p, w)"
  shows "resolveCommand os rootfs command w =
      (if strings_HasPrefix command ''/''
       then case st (filepath_Join [rootfs, command]) of
              Inl e \<Rightarrow> Inl (WrapError ''container command is unavailable'' e) | Inr _ \<Rightarrow> Inr command
       else case find (\<lambda>d. st (filepath_Join [rootfs, d, command]) = Inr False) command_directories of
              None \<Rightarrow> Inl (NewError (''container command is unavailable: '' @ command))
            | Some d \<Rightarrow> Inr (filepath_Join [d, command]), w) \<and>
    (\<forall>e. fst (resolveCommand os rootfs command w) = Inl e \<longrightarrow>
       RunContainerChild os rootfs (command # args) w = (Inl e, w)) \<and>
    command_directories =
      [''/usr/local/sbin'', ''/usr/local/bin'', ''/usr/sbin'', ''/usr/bin'', ''/sbin'', ''/bin'']"
proof (intro conjI)
  show resolve: "resolveCommand os rootfs command w =
      (if strings_HasPrefix command ''/''
       then case st (filepath_Join [rootfs, command]) of
              Inl e \<Rightarrow> Inl (WrapError ''container command is unavailable'' e) | Inr _ \<Rightarrow> Inr command
       else case find (\<lambda>d. st (filepath_Join [rootfs, d, command]) = Inr False) command_directories of
              None \<Rightarrow> Inl (NewError (''container command is unavailable: '' @ command))
            | Some d \<Rightarrow> Inr (filepath_Join [d, command]), w)"
    by (simp add: resolveCommand_def find_command_cases [OF assms] andThen_def wrapping_def returning_def
        assms split: sum.splits)
  show "\<forall>e. fst (resolveCommand os rootfs command w) = Inl e \<longrightarrow>
      RunContainerChild os rootfs (command # args) w = (Inl e, w)"
    using resolve by (auto simp: RunContainerChild_def andThen_def)
  show "command_directories =
      [''/usr/local/sbin'', ''/usr/local/bin'', ''/usr/sbin'', ''/usr/bin'', ''/sbin'', ''/bin'']"
    by code_simp
qed

definition example_child :: "string list child_os" where
  "example_child = \<lparr>childEnviron = [''PATH=/root'', ''HOME=/''],
     childStat = (\<lambda>p w. (if p = ''/tmp/r/usr/bin/serve'' then Inr False
        else if p = ''/tmp/r/usr/sbin/serve'' then Inr True else Inl (NewError ''not found''), w)),
     childMount = (\<lambda>_ _ _ _. returning ()), childChroot = (\<lambda>_. returning ()),
     childChdir = (\<lambda>_. returning ()), childExec = (\<lambda>p args env w. (Inr (), args @ env)),
     childFile = (\<lambda>_. True), childReadByte = (\<lambda>_. returning ()), childSetns = (\<lambda>_. returning ())\<rparr>"

lemma container_command_witness:
  "resolveCommand example_child ''/tmp/r'' ''serve'' [] = (Inr ''/usr/bin/serve'', [])"
proof -
  let ?st = "\<lambda>p. if p = ''/tmp/r/usr/bin/serve'' then Inr False
        else if p = ''/tmp/r/usr/sbin/serve'' then Inr True else Inl (NewError ''not found'')"
  have "childStat example_child p w = (?st p, w)" for p w by (simp add: example_child_def)
  note container_command [OF this, of "''/tmp/r''" "''serve''" "[]"]
  moreover have "(if strings_HasPrefix ''serve'' ''/''
       then case ?st (filepath_Join [''/tmp/r'', ''serve'']) of
              Inl e \<Rightarrow> Inl (WrapError ''container command is unavailable'' e) | Inr _ \<Rightarrow> Inr ''serve''
       else case find (\<lambda>d. ?st (filepath_Join [''/tmp/r'', d, ''serve'']) = Inr False) command_directories of
              None \<Rightarrow> Inl (NewError (''container command is unavailable: '' @ ''serve''))
            | Some d \<Rightarrow> Inr (filepath_Join [d, ''serve''])) = Inr ''/usr/bin/serve''" by code_simp
  ultimately show ?thesis by simp
qed

text \<open>
  A container gets the environment of the runtime with one search path, its own, in place of every
  search path the runtime had.
\<close>

lemma container_environment:
  "filter (\<lambda>v. strings_HasPrefix v ''PATH='') (containerEnvironment environ) =
     [''PATH=/usr/local/sbin:/usr/local/bin:/usr/sbin:/usr/bin:/sbin:/bin''] \<and>
   filter (\<lambda>v. \<not> strings_HasPrefix v ''PATH='') (containerEnvironment environ) =
     filter (\<lambda>v. \<not> strings_HasPrefix v ''PATH='') environ"
  by (simp add: containerEnvironment_def strings_HasPrefix_def)

end
