(* ===== verification/Commands.thy ===== *)
theory Commands
  imports Flags NodeSetup Supervisor ContainerChild Kubelet Cni
begin

text \<open>
  The processes of \<^verbatim>\<open>cmd/\<close>: how each reads its arguments and what it makes of them. A
  \<^verbatim>\<open>log.Fatal\<close> or an error that ends the process is an error here. Signals, and the servers and
  loops the processes then enter, are those of the other theories.
\<close>

section \<open>runtime\<close>

definition runtime_flags :: flag_set where
  "runtime_flags =
     [(''container-child'', BoolFlag False), (''sandbox-child'', BoolFlag False), (''rootfs'', StringFlag []),
      (''network-ready-fd'', IntFlag (-1)), (''network-fd'', IntFlag (-1)), (''socket'', StringFlag []),
      (''bundle-dir'', StringFlag BundleDir), (''bridge'', StringFlag []), (''pod-cidr'', StringFlag []),
      (''gateway'', StringFlag [])]"

datatype runtime_mode =
    ContainerChildMode string "string list" int int
  | SandboxChildMode int
  | ServeMode string string "LinuxCNI option"

definition runtime_choice :: "flag_set \<Rightarrow> string list \<Rightarrow> runtime_mode result" where
  "runtime_choice flags args =
     (if bool_flag flags ''container-child''
      then Inr (ContainerChildMode (string_flag flags ''rootfs'') args (int_flag flags ''network-ready-fd'')
             (int_flag flags ''network-fd''))
      else if bool_flag flags ''sandbox-child'' then Inr (SandboxChildMode (int_flag flags ''network-ready-fd''))
      else if string_flag flags ''socket'' = [] then Inl (NewError ''socket is required'')
      else
        let socket = string_flag flags ''socket''; dir = string_flag flags ''bundle-dir'';
            bridge = string_flag flags ''bridge''; cidr = string_flag flags ''pod-cidr'';
            gateway = string_flag flags ''gateway'' in
        if bridge \<noteq> [] \<or> cidr \<noteq> [] \<or> gateway \<noteq> [] then
          if bridge = [] \<or> cidr = [] \<or> gateway = []
          then Inl (NewError ''bridge, pod-cidr and gateway must be provided together'')
          else (case NewLinuxCNI bridge cidr gateway of
              Inl e \<Rightarrow> Inl e
            | Inr network \<Rightarrow> Inr (ServeMode socket dir (Some network)))
        else Inr (ServeMode socket dir None))"

definition runtime_main :: "string list \<Rightarrow> runtime_mode result" where
  "runtime_main args =
     (case flag_Parse runtime_flags args of Inl e \<Rightarrow> Inl e | Inr (flags, rest) \<Rightarrow> runtime_choice flags rest)"

text \<open>The two kinds of children; a sandbox then waits for a signal.\<close>

definition run_child :: "'w child_os \<Rightarrow> runtime_mode \<Rightarrow> ('w, unit) operation" where
  "run_child os mode =
     (case mode of
        ContainerChildMode rootfs args readyFD networkFD \<Rightarrow>
          andThen (if readyFD \<ge> 0 then WaitForNetwork os readyFD else returning ()) (\<lambda>_.
          andThen (if networkFD \<ge> 0 then JoinNetworkNamespaceFD os networkFD else returning ()) (\<lambda>_.
          RunContainerChild os rootfs args))
      | SandboxChildMode readyFD \<Rightarrow> if readyFD \<ge> 0 then WaitForNetwork os readyFD else returning ()
      | ServeMode _ _ _ \<Rightarrow> returning ())"

section \<open>kubelet\<close>

definition kubelet_flags :: flag_set where
  "kubelet_flags =
     [(''node'', StringFlag []), (''manifests'', StringFlag []), (''pod-cidr'', StringFlag []),
      (''socket'', StringFlag []), (''api-server'', StringFlag []), (''register-node'', BoolFlag True)]"

definition kubelet_main ::
    "(string \<Rightarrow> Request \<Rightarrow> ('a, HttpResponse) operation) \<Rightarrow> (string \<Rightarrow> 'b CRI) \<Rightarrow> string list
      \<Rightarrow> ('a, 'b) Kubelet result" where
  "kubelet_main httpClient criClient args =
     (case flag_Parse kubelet_flags args of
        Inl e \<Rightarrow> Inl e
      | Inr (flags, _) \<Rightarrow>
          if string_flag flags ''node'' = [] \<or> string_flag flags ''socket'' = []
          then Inl (NewError ''node and socket are required'')
          else
            let server = string_flag flags ''api-server'';
                client = (if server \<noteq> [] then Some (NewClient httpClient server) else None)
            in Inr (SetRegisterNode (bool_flag flags ''register-node'')
                 (NewWithManifestDirAndPodCIDR client (criClient (string_flag flags ''socket''))
                   (string_flag flags ''node'') (string_flag flags ''manifests'') (string_flag flags ''pod-cidr''))))"

section \<open>kube-proxy, scheduler, controller-manager and apiserver\<close>

definition proxy_main ::
    "(string \<Rightarrow> Request \<Rightarrow> ('a, HttpResponse) operation) \<Rightarrow> string list \<Rightarrow> ('a Client \<times> string) result" where
  "proxy_main httpClient args =
     (case flag_Parse [(''api-server'', StringFlag []), (''table'', StringFlag KubeProxyTable)] args of
        Inl e \<Rightarrow> Inl e
      | Inr (flags, _) \<Rightarrow>
          if string_flag flags ''api-server'' = [] then Inl (NewError ''api-server is required'')
          else Inr (NewClient httpClient (string_flag flags ''api-server''), string_flag flags ''table''))"

definition scheduler_main ::
    "(string \<Rightarrow> Request \<Rightarrow> ('a, HttpResponse) operation) \<Rightarrow> string list \<Rightarrow> 'a Client result" where
  "scheduler_main httpClient args =
     (case flag_Parse [(''api-server'', StringFlag [])] args of
        Inl e \<Rightarrow> Inl e
      | Inr (flags, _) \<Rightarrow>
          if string_flag flags ''api-server'' = [] then Inl (NewError ''api-server is required'')
          else Inr (NewClient httpClient (string_flag flags ''api-server'')))"

definition controller_main ::
    "(string \<Rightarrow> Request \<Rightarrow> ('a, HttpResponse) operation) \<Rightarrow> string list \<Rightarrow> 'a Client result" where
  "controller_main httpClient args =
     (case flag_Parse [(''api-server'', StringFlag [])] args of
        Inl e \<Rightarrow> Inl e
      | Inr (flags, _) \<Rightarrow>
          if string_flag flags ''api-server'' = [] then Inl (NewError ''api-server is required'')
          else Inr (NewClient httpClient (string_flag flags ''api-server'')))"

text \<open>The address to listen on and the etcd endpoint.\<close>

definition apiserver_main :: "string list \<Rightarrow> (string \<times> string) result" where
  "apiserver_main args =
     (case flag_Parse [(''listen'', StringFlag ''0.0.0.0:8080''),
         (''etcd-endpoint'', StringFlag ''http://127.0.0.1:2379'')] args of
        Inl e \<Rightarrow> Inl e
      | Inr (flags, _) \<Rightarrow> Inr (string_flag flags ''listen'', string_flag flags ''etcd-endpoint''))"

section \<open>node-supervisor\<close>

definition node_flags :: flag_set where
  "node_flags =
     [(''node'', StringFlag []), (''runtime'', StringFlag RuntimeBinary), (''kubelet'', StringFlag KubeletBinary),
      (''kube-proxy'', StringFlag KubeProxyBinary), (''socket'', StringFlag []), (''bundle-dir'', StringFlag BundleDir),
      (''node-index'', IntFlag (-1)), (''node-count'', IntFlag 0), (''manifests'', StringFlag []),
      (''api-server'', StringFlag []), (''register-node'', BoolFlag True)]"

definition strconv_FormatBool :: "bool \<Rightarrow> string" where
  "strconv_FormatBool b = (if b then ''true'' else ''false'')"

definition runtime_unit :: "flag_set \<Rightarrow> netip_Prefix \<Rightarrow> netip_Addr \<Rightarrow> Unit" where
  "runtime_unit flags cidr gateway =
     \<lparr>unitName = ''runtime'', unitPath = string_flag flags ''runtime'',
      unitArgs = [''-socket'', string_flag flags ''socket'',
        ''-bundle-dir'', filepath_Clean (string_flag flags ''bundle-dir''), ''-bridge'', BridgeName,
        ''-pod-cidr'', prefix_String cidr, ''-gateway'', addr_String gateway],
      ReadyPath = string_flag flags ''socket''\<rparr>"

definition kubelet_unit :: "flag_set \<Rightarrow> netip_Prefix \<Rightarrow> Unit" where
  "kubelet_unit flags cidr =
     \<lparr>unitName = ''kubelet'', unitPath = string_flag flags ''kubelet'',
      unitArgs = [''-node'', string_flag flags ''node'', ''-manifests'', string_flag flags ''manifests'',
        ''-socket'', string_flag flags ''socket'', ''-api-server'', string_flag flags ''api-server'',
        ''-pod-cidr'', prefix_String cidr,
        ''-register-node='' @ strconv_FormatBool (bool_flag flags ''register-node'')],
      ReadyPath = []\<rparr>"

definition proxy_unit :: "flag_set \<Rightarrow> Unit" where
  "proxy_unit flags =
     \<lparr>unitName = ''kube-proxy'', unitPath = string_flag flags ''kube-proxy'',
      unitArgs = [''-api-server'', string_flag flags ''api-server'', ''-table'', KubeProxyTable],
      ReadyPath = []\<rparr>"

definition node_units :: "flag_set \<Rightarrow> netip_Prefix \<Rightarrow> netip_Addr \<Rightarrow> Unit list" where
  "node_units flags cidr gateway =
     [runtime_unit flags cidr gateway, kubelet_unit flags cidr] @
     (if string_flag flags ''api-server'' \<noteq> [] \<and> int_flag flags ''node-index'' > 0 then [proxy_unit flags] else [])"

text \<open>The answer is the supervisor that is then run.\<close>

definition node_supervisor_main :: "'w exec \<Rightarrow> string list \<Rightarrow> ('w, Supervisor) operation" where
  "node_supervisor_main run args =
     (case flag_Parse node_flags args of
        Inl e \<Rightarrow> failing e
      | Inr (flags, _) \<Rightarrow>
          if string_flag flags ''node'' = [] \<or> int_flag flags ''node-index'' < 0 \<or> int_flag flags ''node-count'' < 1
            \<or> string_flag flags ''socket'' = [] \<or> string_flag flags ''kube-proxy'' = []
          then failing (NewError ''node, node-index, node-count, socket and kube-proxy are required'')
          else (case NodeNetwork (int_flag flags ''node-index'') of
              Inl e \<Rightarrow> failing (WrapError ''calculate node network'' e)
            | Inr (cidr, gateway) \<Rightarrow>
                andThen (ConfigureNetwork run (int_flag flags ''node-index'') (int_flag flags ''node-count'')) (\<lambda>_.
                returning (NewSupervisor (node_units flags cidr gateway)))))"

section \<open>How the processes end\<close>

text \<open>\<^verbatim>\<open>main\<close> prints the error of \<^verbatim>\<open>run\<close>: the lines on the standard error and the exit status.\<close>

definition process_exit :: "'a result \<Rightarrow> string list \<times> int" where
  "process_exit r = (case r of Inl err \<Rightarrow> ([err_Error err], 1) | Inr _ \<Rightarrow> ([], 0))"

definition ErrServerClosed :: goerror where
  "ErrServerClosed = NewError ''http: Server closed''"

text \<open>\<^verbatim>\<open>ListenAndServe\<close> always returns an error, \<open>ErrServerClosed\<close> after a shutdown.\<close>

definition apiserver_end :: "goerror \<Rightarrow> unit result" where
  "apiserver_end err =
     (if \<not> errors_Is err ErrServerClosed then Inl (WrapError ''serve API server'' err) else Inr ())"

text \<open>The kubelet logs the error of its run unless it was cancelled, and returns none.\<close>

definition kubelet_end :: "goerror option \<Rightarrow> bool \<Rightarrow> string list \<times> unit result" where
  "kubelet_end err cancelled =
     (case err of
        Some e \<Rightarrow> (if \<not> cancelled then [''run: '' @ err_Error e] else [], Inr ())
      | None \<Rightarrow> ([], Inr ()))"

text \<open>So the supervisor, which looks at the exit status, takes a kubelet that failed for one that is done.\<close>

lemma kubelet_failure_unreported: "process_exit (snd (kubelet_end err cancelled)) = ([], 0)"
  by (simp add: process_exit_def kubelet_end_def split: option.splits)

lemma apiserver_exit:
  "snd (process_exit (apiserver_end err)) = 0 \<longleftrightarrow> errors_Is err ErrServerClosed"
  by (simp add: process_exit_def apiserver_end_def)

section \<open>What the processes make of the arguments they are given\<close>

lemma parse_value:
  assumes "flag_arg s = IsFlag name None" and "map_of flags name = Some f" and "\<not> is_bool (Some f)"
    and "flag_Set f v = Some f'"
  shows "flag_Parse flags (s # v # args) = flag_Parse (AList.update name f' flags) args"
  using assms by (cases f) (simp_all add: flag_update_def is_bool_def)

lemma parse_bool:
  assumes "flag_arg s = IsFlag name None" and "is_bool (map_of flags name)"
  shows "flag_Parse flags (s # args) = flag_Parse (AList.update name (BoolFlag True) flags) args"
proof -
  from assms(2) obtain b where "map_of flags name = Some (BoolFlag b)"
    by (auto simp: is_bool_def split: option.splits flag_value.splits)
  moreover have "ParseBool ''true'' = Some True" by code_simp
  ultimately show ?thesis using assms(1) by (simp add: flag_update_def flag_Set_def)
qed

lemma parse_equals:
  assumes "flag_arg s = IsFlag name (Some v)" and "map_of flags name = Some f" and "flag_Set f v = Some f'"
  shows "flag_Parse flags (s # args) = flag_Parse (AList.update name f' flags) args"
  using assms by (cases f) (simp_all add: flag_update_def)

lemma parse_end: "flag_Parse flags (''--'' # args) = Inr (flags, args)"
proof -
  have "flag_arg ''--'' = EndOfFlags" by code_simp
  then show ?thesis by simp
qed

lemmas flag_lookup = string_flag_def int_flag_def bool_flag_def is_bool_def flag_Set_def update_conv'

lemma runtime_unit_parse:
  "flag_Parse runtime_flags (unitArgs (runtime_unit flags cidr gateway)) =
    Inr ([(''container-child'', BoolFlag False), (''sandbox-child'', BoolFlag False), (''rootfs'', StringFlag []),
      (''network-ready-fd'', IntFlag (-1)), (''network-fd'', IntFlag (-1)),
      (''socket'', StringFlag (string_flag flags ''socket'')),
      (''bundle-dir'', StringFlag (filepath_Clean (string_flag flags ''bundle-dir''))),
      (''bridge'', StringFlag BridgeName), (''pod-cidr'', StringFlag (prefix_String cidr)),
      (''gateway'', StringFlag (addr_String gateway))], [])"
proof -
  have args: "flag_arg ''-socket'' = IsFlag ''socket'' None" "flag_arg ''-bundle-dir'' = IsFlag ''bundle-dir'' None"
    "flag_arg ''-bridge'' = IsFlag ''bridge'' None" "flag_arg ''-pod-cidr'' = IsFlag ''pod-cidr'' None"
    "flag_arg ''-gateway'' = IsFlag ''gateway'' None" by code_simp+
  show ?thesis
    by (simp add: runtime_unit_def runtime_flags_def parse_value [OF args(1)] parse_value [OF args(2)]
        parse_value [OF args(3)] parse_value [OF args(4)] parse_value [OF args(5)] flag_Set_def is_bool_def
        del: flag_Parse.simps(2))
qed

lemma register_args:
  "flag_arg ''-register-node=true'' = IsFlag ''register-node'' (Some ''true'')"
  "flag_arg ''-register-node=false'' = IsFlag ''register-node'' (Some ''false'')"
  "ParseBool ''true'' = Some True" "ParseBool ''false'' = Some False"
  by code_simp+

lemma kubelet_unit_parse:
  "flag_Parse kubelet_flags (unitArgs (kubelet_unit flags cidr)) =
    Inr ([(''node'', StringFlag (string_flag flags ''node'')), (''manifests'', StringFlag (string_flag flags ''manifests'')),
      (''pod-cidr'', StringFlag (prefix_String cidr)), (''socket'', StringFlag (string_flag flags ''socket'')),
      (''api-server'', StringFlag (string_flag flags ''api-server'')),
      (''register-node'', BoolFlag (bool_flag flags ''register-node''))], [])"
proof -
  have args: "flag_arg ''-node'' = IsFlag ''node'' None" "flag_arg ''-manifests'' = IsFlag ''manifests'' None"
    "flag_arg ''-socket'' = IsFlag ''socket'' None" "flag_arg ''-api-server'' = IsFlag ''api-server'' None"
    "flag_arg ''-pod-cidr'' = IsFlag ''pod-cidr'' None" by code_simp+
  define b where "b = bool_flag flags ''register-node''"
  define last where "last = ''-register-node='' @ strconv_FormatBool b"
  have last: "flag_arg last = IsFlag ''register-node'' (Some (strconv_FormatBool b))"
    and bit: "ParseBool (strconv_FormatBool b) = Some b"
    using register_args by (cases b; simp add: last_def strconv_FormatBool_def)+
  show ?thesis
    unfolding kubelet_unit_def b_def [symmetric] last_def [symmetric]
    by (simp add: kubelet_flags_def parse_value [OF args(1)] parse_value [OF args(2)]
        parse_value [OF args(3)] parse_value [OF args(4)] parse_value [OF args(5)] parse_equals [OF last]
        flag_Set_def is_bool_def bit del: flag_Parse.simps(2))
qed

lemma proxy_unit_parse:
  "flag_Parse [(''api-server'', StringFlag []), (''table'', StringFlag KubeProxyTable)] (unitArgs (proxy_unit flags)) =
    Inr ([(''api-server'', StringFlag (string_flag flags ''api-server'')), (''table'', StringFlag KubeProxyTable)], [])"
proof -
  have args: "flag_arg ''-api-server'' = IsFlag ''api-server'' None" "flag_arg ''-table'' = IsFlag ''table'' None"
    by code_simp+
  show ?thesis
    by (simp add: proxy_unit_def parse_value [OF args(1)] parse_value [OF args(2)] flag_Set_def is_bool_def
        del: flag_Parse.simps(2))
qed

lemma container_child_parse:
  "flag_Parse runtime_flags ([''--container-child'', ''--rootfs'', rootfs, ''--network-fd'', ''3'',
     ''--network-ready-fd'', ''4'', ''--''] @ processArgs) =
    Inr ([(''container-child'', BoolFlag True), (''sandbox-child'', BoolFlag False), (''rootfs'', StringFlag rootfs),
      (''network-ready-fd'', IntFlag 4), (''network-fd'', IntFlag 3), (''socket'', StringFlag []),
      (''bundle-dir'', StringFlag BundleDir), (''bridge'', StringFlag []), (''pod-cidr'', StringFlag []),
      (''gateway'', StringFlag [])], processArgs)"
proof -
  have args: "flag_arg ''--container-child'' = IsFlag ''container-child'' None"
    "flag_arg ''--rootfs'' = IsFlag ''rootfs'' None" "flag_arg ''--network-fd'' = IsFlag ''network-fd'' None"
    "flag_arg ''--network-ready-fd'' = IsFlag ''network-ready-fd'' None" by code_simp+
  have ints: "ParseInt0 ''3'' = Some 3" "ParseInt0 ''4'' = Some 4" by code_simp+
  show ?thesis
    by (simp add: runtime_flags_def parse_bool [OF args(1)] parse_value [OF args(2)] parse_value [OF args(3)]
        parse_value [OF args(4)] parse_end ints flag_Set_def is_bool_def del: flag_Parse.simps(2))
qed

lemma runtime_main_container:
  "runtime_main ([''--container-child'', ''--rootfs'', rootfs, ''--network-fd'', ''3'',
     ''--network-ready-fd'', ''4'', ''--''] @ processArgs) = Inr (ContainerChildMode rootfs processArgs 4 3)"
  unfolding runtime_main_def container_child_parse
  by (simp add: runtime_choice_def bool_flag_def string_flag_def int_flag_def)

lemma runtime_main_sandbox: "runtime_main [''--sandbox-child'', ''--network-ready-fd'', ''3''] = Inr (SandboxChildMode 3)"
  by code_simp

section \<open>Theorems\<close>

text \<open>
  C34: what the node supervisor starts understands its arguments, whatever the values are: the
  runtime serves the socket with the cleaned bundle directory and a network plugin for the Pod
  network of the node, the kubelet gets the name, manifests, Pod network, registration, runtime and
  API server of the node, and the proxy the API server and its table.
\<close>

theorem node_arguments:
  assumes "in_int64 (int_flag flags ''node-index'')"
    and "NodeNetwork (int_flag flags ''node-index'') = Inr (cidr, gateway)"
    and "string_flag flags ''node'' \<noteq> []" and "string_flag flags ''socket'' \<noteq> []"
  shows "runtime_main (unitArgs (node_units flags cidr gateway ! 0)) =
      Inr (ServeMode (string_flag flags ''socket'') (filepath_Clean (string_flag flags ''bundle-dir''))
        (Some \<lparr>cniBridge = BridgeName,
           podNet = \<lparr>netIP = [10, 244, word_of_int (int_flag flags ''node-index''), 0], maskOnes = 24, maskBits = 32\<rparr>,
           cniGateway = (10, 244, word_of_int (int_flag flags ''node-index''), 1), cniPods = fmempty\<rparr>)) \<and>
    kubelet_main httpClient criClient (unitArgs (node_units flags cidr gateway ! 1)) =
      Inr (SetRegisterNode (bool_flag flags ''register-node'')
        (NewWithManifestDirAndPodCIDR
          (if string_flag flags ''api-server'' = [] then None
           else Some (NewClient httpClient (string_flag flags ''api-server'')))
          (criClient (string_flag flags ''socket'')) (string_flag flags ''node'')
          (string_flag flags ''manifests'') (prefix_String cidr))) \<and>
    (string_flag flags ''api-server'' \<noteq> [] \<and> int_flag flags ''node-index'' > 0 \<longrightarrow>
      proxy_main httpClient (unitArgs (node_units flags cidr gateway ! 2)) =
        Inr (NewClient httpClient (string_flag flags ''api-server''), KubeProxyTable))"
proof (intro conjI impI)
  note plugin = node_plugin [OF assms(2,1), of BridgeName, THEN conjunct2, THEN conjunct2]
  have texts: "prefix_String cidr \<noteq> []" "addr_String gateway \<noteq> []" "BridgeName \<noteq> []"
    using assms(1,2) by (auto simp: NodeNetwork_eq prefix_String_def BridgeName_def split: if_splits)
  show "runtime_main (unitArgs (node_units flags cidr gateway ! 0)) =
      Inr (ServeMode (string_flag flags ''socket'') (filepath_Clean (string_flag flags ''bundle-dir''))
        (Some \<lparr>cniBridge = BridgeName,
           podNet = \<lparr>netIP = [10, 244, word_of_int (int_flag flags ''node-index''), 0], maskOnes = 24, maskBits = 32\<rparr>,
           cniGateway = (10, 244, word_of_int (int_flag flags ''node-index''), 1), cniPods = fmempty\<rparr>))"
    using assms(4) texts plugin
    by (simp add: node_units_def runtime_main_def runtime_unit_parse runtime_choice_def Let_def
        string_flag_def [of "_ # _"] bool_flag_def [of "_ # _"])
  show "kubelet_main httpClient criClient (unitArgs (node_units flags cidr gateway ! 1)) =
      Inr (SetRegisterNode (bool_flag flags ''register-node'')
        (NewWithManifestDirAndPodCIDR
          (if string_flag flags ''api-server'' = [] then None
           else Some (NewClient httpClient (string_flag flags ''api-server'')))
          (criClient (string_flag flags ''socket'')) (string_flag flags ''node'')
          (string_flag flags ''manifests'') (prefix_String cidr)))"
    using assms(3,4)
    by (simp add: node_units_def kubelet_main_def kubelet_unit_parse Let_def
        string_flag_def [of "_ # _"] bool_flag_def [of "_ # _"])
next
  assume "string_flag flags ''api-server'' \<noteq> [] \<and> int_flag flags ''node-index'' > 0"
  then show "proxy_main httpClient (unitArgs (node_units flags cidr gateway ! 2)) =
      Inr (NewClient httpClient (string_flag flags ''api-server''), KubeProxyTable)"
    by (simp add: node_units_def proxy_main_def proxy_unit_parse string_flag_def [of "_ # _"])
qed

definition example_flags :: flag_set where
  "example_flags = [(''node'', StringFlag ''worker-1''), (''runtime'', StringFlag RuntimeBinary),
     (''kubelet'', StringFlag KubeletBinary), (''kube-proxy'', StringFlag KubeProxyBinary),
     (''socket'', StringFlag ''/run/cri.sock''), (''bundle-dir'', StringFlag ''bundles/''),
     (''node-index'', IntFlag 1), (''node-count'', IntFlag 3), (''manifests'', StringFlag ''-x''),
     (''api-server'', StringFlag APIServerURL), (''register-node'', BoolFlag False)]"

lemma node_arguments_witness:
  "\<exists>plugin. runtime_main [''-socket'', ''/run/cri.sock'', ''-bundle-dir'', ''bundles'', ''-bridge'', ''cni0'',
     ''-pod-cidr'', ''10.244.1.0/24'', ''-gateway'', ''10.244.1.1''] = Inr (ServeMode ''/run/cri.sock'' ''bundles'' (Some plugin))"
proof -
  have flags: "in_int64 (int_flag example_flags ''node-index'')" "string_flag example_flags ''node'' \<noteq> []"
    "string_flag example_flags ''socket'' \<noteq> []" by code_simp+
  have net: "NodeNetwork (int_flag example_flags ''node-index'') =
      Inr (\<lparr>prefixAddr = Addr4 10 244 1 0, prefixBits = 24\<rparr>, Addr4 10 244 1 1)" by code_simp
  have "unitArgs (node_units example_flags \<lparr>prefixAddr = Addr4 10 244 1 0, prefixBits = 24\<rparr> (Addr4 10 244 1 1) ! 0) =
      [''-socket'', ''/run/cri.sock'', ''-bundle-dir'', ''bundles'', ''-bridge'', ''cni0'',
       ''-pod-cidr'', ''10.244.1.0/24'', ''-gateway'', ''10.244.1.1'']"
    "string_flag example_flags ''socket'' = ''/run/cri.sock''"
    "filepath_Clean (string_flag example_flags ''bundle-dir'') = ''bundles''" by code_simp+
  with conjunct1 [OF node_arguments [OF flags(1) net flags(2,3)]] show ?thesis by auto
qed

text \<open>The machine that starts only processes that read their arguments as given.\<close>

definition starting_only :: "runtime_mode \<Rightarrow> 'w runtime_os \<Rightarrow> 'w runtime_os" where
  "starting_only mode os = os\<lparr>osStart := (\<lambda>args netns.
     if runtime_main (tl args) = Inr mode then osStart os args netns
     else failing (NewError ''refused''))\<rparr>"

text \<open>
  C35: the children the runtime starts, for containers and for sandboxes, read back from their
  arguments what they were started for: on a machine that refuses every other start the runtime
  behaves as it does on the machine itself.
\<close>

theorem children_understood:
  "startContainerInSandbox (starting_only (ContainerChildMode rootfs processArgs 4 3) os) rootfs processArgs pid =
     startContainerInSandbox os rootfs processArgs pid \<and>
   runPodSandbox (starting_only (SandboxChildMode 3) os) network pod source host =
     runPodSandbox os network pod source host"
proof
  show "startContainerInSandbox (starting_only (ContainerChildMode rootfs processArgs 4 3) os) rootfs processArgs pid =
     startContainerInSandbox os rootfs processArgs pid"
    using runtime_main_container [of rootfs processArgs]
    by (simp add: startContainerInSandbox_def starting_only_def killing_def)
  show "runPodSandbox (starting_only (SandboxChildMode 3) os) network pod source host =
     runPodSandbox os network pod source host"
    using runtime_main_sandbox
    by (simp add: runPodSandbox_def starting_only_def killing_def [abs_def] cong: option.case_cong)
qed

end
