(* ===== verification/RuntimeServe.thy ===== *)
theory RuntimeServe
  imports RuntimeSocket Commands
begin

text \<open>
  The life of the runtime process: \<^verbatim>\<open>Serve\<close> of \<^verbatim>\<open>cri/runtime/runtime.go\<close> and the end of
  \<^verbatim>\<open>cmd/runtime/main.go\<close>.
\<close>

section \<open>Serving\<close>

text \<open>What happens at the socket's path.\<close>

record 'w socket_os =
  sockRemove :: "string \<Rightarrow> ('w, unit) operation"
  sockListen :: "string \<Rightarrow> ('w, unit) operation"

definition ErrNotExist :: goerror where
  "ErrNotExist = NewError ''file does not exist''"

text \<open>
  What the process meets while it serves: a connection that is accepted, or another input of the
  runtime; the signal that ends the context, after which the listener is closed; \<^verbatim>\<open>Accept\<close> failing.
\<close>

datatype serve_event =
    Served runtime_input
  | SignalReceived
  | AcceptFailed goerror

text \<open>The loop of \<^verbatim>\<open>Serve\<close>; the result is \<open>None\<close> while it has not returned.\<close>

fun accept_loop :: "'w runtime_os \<Rightarrow> 'w CNI option \<Rightarrow> bool \<Rightarrow> serve_event list \<Rightarrow> Runtime \<times> 'w \<Rightarrow>
    unit result option \<times> (Runtime \<times> 'w)" where
  "accept_loop os network closing [] s = (None, s)"
| "accept_loop os network closing (Served input # events) s =
     accept_loop os network closing events (runtime_step os network s input)"
| "accept_loop os network closing (SignalReceived # events) s = accept_loop os network True events s"
| "accept_loop os network closing (AcceptFailed err # events) s =
     (Some (if closing then Inr () else Inl (WrapError ''accept CRI connection'' err)), s)"

definition serve_listening :: "'w runtime_os \<Rightarrow> 'w CNI option \<Rightarrow> 'w socket_os \<Rightarrow> string \<Rightarrow> serve_event list \<Rightarrow>
    Runtime \<times> 'w \<Rightarrow> unit result option \<times> (Runtime \<times> 'w)" where
  "serve_listening os network sock path events = (\<lambda>(rt, w).
     case sockListen sock path w of
       (Inl err, w1) \<Rightarrow> (Some (Inl (WrapError ''listen on CRI socket'' err)), (rt, w1))
     | (Inr _, w1) \<Rightarrow>
         (case accept_loop os network False events (rt, w1) of
            (None, s) \<Rightarrow> (None, s)
          | (Some r, (rt', w2)) \<Rightarrow> (Some r, (rt', snd (sockRemove sock path w2)))))"

definition Runtime_Serve :: "'w runtime_os \<Rightarrow> 'w CNI option \<Rightarrow> 'w socket_os \<Rightarrow> string \<Rightarrow> serve_event list \<Rightarrow>
    Runtime \<times> 'w \<Rightarrow> unit result option \<times> (Runtime \<times> 'w)" where
  "Runtime_Serve os network sock path events = (\<lambda>(rt, w).
     case sockRemove sock path w of
       (Inl err, w1) \<Rightarrow>
         if \<not> errors_Is err ErrNotExist
         then (Some (Inl (WrapError ''remove CRI socket'' err)), (rt, w1))
         else serve_listening os network sock path events (rt, w1)
     | (Inr _, w1) \<Rightarrow> serve_listening os network sock path events (rt, w1))"

text \<open>The end of the process: an error is fatal at once, otherwise the containers are stopped.\<close>

datatype process_end = StillServing | Fatal goerror | Finished

definition runtime_process :: "'w runtime_os \<Rightarrow> 'w CNI option \<Rightarrow> 'w socket_os \<Rightarrow> string \<Rightarrow> serve_event list \<Rightarrow>
    Runtime \<times> 'w \<Rightarrow> process_end \<times> (Runtime \<times> 'w)" where
  "runtime_process os network sock path events s =
     (case Runtime_Serve os network sock path events s of
        (None, s') \<Rightarrow> (StillServing, s')
      | (Some (Inl err), s') \<Rightarrow> (Fatal err, s')
      | (Some (Inr _), s') \<Rightarrow> (Finished, StopAll os s'))"

section \<open>What was served\<close>

fun served_inputs :: "serve_event list \<Rightarrow> runtime_input list" where
  "served_inputs [] = []"
| "served_inputs (Served input # events) = input # served_inputs events"
| "served_inputs (SignalReceived # events) = served_inputs events"
| "served_inputs (AcceptFailed err # events) = []"

lemma accept_loop_state:
  "snd (accept_loop os network closing events s) = runtime_run os network (served_inputs events) s"
  by (induction os network closing events s rule: accept_loop.induct) (simp_all add: runtime_run_def)

lemma accept_loop_signal:
  "fst (accept_loop os network closing events s) = Some (Inr ()) \<Longrightarrow> closing \<or> SignalReceived \<in> set events"
  by (induction os network closing events s rule: accept_loop.induct) (auto split: if_splits)

lemma accept_loop_error:
  "fst (accept_loop os network closing events s) = Some (Inl e) \<Longrightarrow>
    \<not> closing \<and> (\<exists>err. AcceptFailed err \<in> set events \<and> e = WrapError ''accept CRI connection'' err)"
  by (induction os network closing events s rule: accept_loop.induct) (auto split: if_splits)

text \<open>\<^verbatim>\<open>Serve\<close> either fails before the first connection or is the loop.\<close>

lemma Runtime_Serve_cases:
  assumes "Runtime_Serve os network sock path events (rt, w) = (r, (rt', w'))"
  obtains (failed) e where "r = Some (Inl e)" and "rt' = rt"
    | (served) w1 where "rt' = fst (runtime_run os network (served_inputs events) (rt, w1))"
        and "r = fst (accept_loop os network False events (rt, w1))"
proof -
  have listening: thesis if run: "serve_listening os network sock path events (rt, w1) = (r, (rt', w'))" for w1
  proof -
    obtain l w2 where l: "sockListen sock path w1 = (l, w2)" by fastforce
    obtain a rt2 w3 where loop: "accept_loop os network False events (rt, w2) = (a, (rt2, w3))"
      by (metis prod.collapse)
    have rt2: "rt2 = fst (runtime_run os network (served_inputs events) (rt, w2))"
      using accept_loop_state [of os network False events "(rt, w2)"] loop by (metis fst_conv snd_conv)
    show thesis
    proof (cases l)
      case (Inl e)
      with run l failed show thesis by (auto simp: serve_listening_def)
    next
      case (Inr u)
      with run l loop have "rt' = rt2" "r = a" by (auto simp: serve_listening_def split: option.splits)
      with rt2 loop show thesis by (intro served [of w2]) simp_all
    qed
  qed
  obtain a w1 where remove: "sockRemove sock path w = (a, w1)" by fastforce
  with assms listening [of w1] failed show thesis
    by (auto simp: Runtime_Serve_def split: sum.splits if_splits)
qed

lemma StopAll_stopped:
  assumes "rt_invar rt" and "StopAll os (rt, w) = (rt', w')"
    and "\<And>pid w. \<exists>w1. osTerminate os pid w = (Inr (), w1)"
  shows "rt_conts rt' pod = map_option (\<lambda>c. c\<lparr>contState := cri_Stopped\<rparr>) (rt_conts rt pod)"
    and "rt_sbs rt' = rt_sbs rt"
proof -
  let ?pods = "map fst (sorted_list_of_fmap (containers rt))"
  have all: "stop_all os ?pods (rt, w) = (rt', w')" using assms(2) by (simp add: StopAll_def)
  from stop_all_ok [OF assms(1) all] have rt': "sandboxes rt' = sandboxes rt"
    "some_stopped (set ?pods) (rt_conts rt) (rt_conts rt')" by auto
  show "rt_sbs rt' = rt_sbs rt" by (rule rt_sbs_cong [OF rt'(1)])
  show "rt_conts rt' pod = map_option (\<lambda>c. c\<lparr>contState := cri_Stopped\<rparr>) (rt_conts rt pod)"
  proof (cases "rt_conts rt pod")
    case None
    with rt'(2) show ?thesis by (auto simp: some_stopped_def dest!: spec [of _ pod])
  next
    case (Some c)
    then obtain m where "fmlookup (containers rt) pod = Some m" by (auto simp: rt_conts_def)
    then have "pod \<in> set ?pods" by (force simp: set_sorted_fmap)
    from stop_all_signalled [OF assms(1) all assms(3) this Some] Some show ?thesis by simp
  qed
qed



text \<open>A socket nobody has used yet; the file is not there when it is removed first.\<close>

definition plain_socket :: "nat socket_os" where
  "plain_socket = \<lparr>sockRemove = (\<lambda>path. failing ErrNotExist), sockListen = (\<lambda>path. returning ())\<rparr>"

definition plain_events :: "serve_event list" where
  "plain_events = map Served plain_inputs @ [SignalReceived, AcceptFailed (NewError ''use of closed network connection'')]"


end
