(* ===== verification/Spec2Isabelle.thy ===== *)
theory Spec2Isabelle
  imports ControlPlane Bootstrap Cni KubeletApi Toyctl ManifestWatch RuntimeServe
begin

text \<open>
  A verification of the Go program in this repository, a small Kubernetes: an API server over etcd,
  a scheduler, controllers, a kubelet and a service proxy on every node, a container runtime with
  its network plugin, and the command line tool \<^verbatim>\<open>toyctl\<close>.

  \<^bold>\<open>How the parts interact.\<close> All state of the cluster is in etcd, behind the API server. Every other
  part is a client of the server over HTTP and a reconciler: it opens a watch, lists resources,
  compares them with what there should be, writes the difference, and waits for an event. The
  scheduler binds Pods to nodes, the controllers derive ReplicaSets from Deployments and Pods from
  ReplicaSets, the service proxy derives forwarding rules from Services and Pods. On a node the
  kubelet talks to the container runtime over a socket; the runtime keeps sandboxes and containers,
  which are processes, and asks the network plugin for their addresses.

  \<^bold>\<open>Theories.\<close>
  \<^item> \<open>Prelude\<close>: errors, results and state-passing operations with early return; the parts of Go's
    \<^verbatim>\<open>strings\<close>, \<^verbatim>\<open>strconv\<close>, \<^verbatim>\<open>fmt\<close> and \<^verbatim>\<open>sort\<close> that are used. \<open>Config\<close>: \<^verbatim>\<open>config/const.go\<close>. \<open>NetAddr\<close>,
    \<open>NetIP\<close>: the parts of \<^verbatim>\<open>net/netip\<close> and \<^verbatim>\<open>net\<close> that are used, on 32-bit words and bytes. \<open>Exec\<close>:
    commands. \<open>Flags\<close>: the package \<^verbatim>\<open>flag\<close>.
  \<^item> \<open>ApiTypes\<close>, \<open>JsonCodec\<close>: \<^verbatim>\<open>api/types.go\<close> and \<^verbatim>\<open>api/common.go\<close>, a record per struct, an encoder and a
    decoder per struct tag list. Round trips up to empty maps and slices, which \<^verbatim>\<open>omitempty\<close> drops.
  \<^item> \<open>Etcd\<close>: \<^verbatim>\<open>etcd/etcd.go\<close> over an etcd server. \<open>ApiServer\<close>: \<^verbatim>\<open>apiserver/server.go\<close>, one definition per
    handler. \<open>ServiceAllocation\<close>: the allocation of addresses and ports. \<open>StoreInvariant\<close>: the
    abstract server, a step relation on the stored objects, and the well-formed store.
    \<open>ApiTheorems\<close>: the handlers refine the abstract server.
  \<^item> \<open>ApiClient\<close>: \<^verbatim>\<open>apiserver/client.go\<close>. \<open>ClientStack\<close>: the client over HTTP over the handlers over
    etcd, and what a typed client may rely on. \<open>ExampleCluster\<close>: stores for the examples.
  \<^item> \<open>ReconcileLoop\<close>: \<^verbatim>\<open>api/reconcile.go\<close> as a state machine whose answers and events are inputs.
  \<^item> \<open>Scheduler\<close>: \<^verbatim>\<open>scheduler/scheduler.go\<close>. \<open>ControllerManager\<close>: \<^verbatim>\<open>controller-manager/controllers.go\<close>;
    \<open>ReplicaSetController\<close>, \<open>DeploymentController\<close>: what its two controllers do. \<open>KubeProxy\<close>:
    \<^verbatim>\<open>kube-proxy/proxy.go\<close>.
  \<^item> \<open>ControlLoops\<close>: several reconcilers in their loops on one world, a step relation, and the contract
    under which a loop that rests has reached its goal. \<open>TameStores\<close>: stores whose names and owners
    are as the reconciliations need them, and that they keep so. \<open>ControlPlane\<close>: the \<^verbatim>\<open>Run\<close> methods;
    the controllers, the scheduler, and the service proxies and kubelets of any nodes keep that
    contract together on the API server and on the runtimes of the nodes.
  \<^item> \<open>Bootstrap\<close>: \<^verbatim>\<open>bootstrap/bootstrap.go\<close>. \<open>Cni\<close>: \<^verbatim>\<open>cni/cni.go\<close>. \<open>NodeSetup\<close>, \<open>Supervisor\<close>:
    \<^verbatim>\<open>node/network.go\<close> and \<^verbatim>\<open>node/supervisor.go\<close>, the latter as a step relation.
  \<^item> \<open>Cri\<close>: \<^verbatim>\<open>cri/cri.go\<close>, its JSON protocol and the contract of a runtime. \<open>Runtime\<close>: the handlers of
    \<^verbatim>\<open>cri/runtime/runtime.go\<close>. \<open>RuntimeContract\<close>, \<open>RuntimeSocket\<close>, \<open>RuntimeHost\<close>: the runtime keeps its
    invariant, behind its socket it keeps the contract, and on a host that does not reuse process
    numbers an identifier stands for one sandbox. \<open>RuntimeServe\<close>: \<^verbatim>\<open>Serve\<close> and the end of the process.
    \<open>ContainerChild\<close>: the process that becomes the container.
  \<^item> \<open>Kubelet\<close>: \<^verbatim>\<open>kubelet/kubelet.go\<close>, \<^verbatim>\<open>static_pods.go\<close> and \<^verbatim>\<open>mirror_pods.go\<close>. \<open>StaticPods\<close>, \<open>Workloads\<close>,
    \<open>KubeletApi\<close>: what its reconciliation does to the runtime, to both sides, and to the API.
    \<open>ManifestWatch\<close>: the goroutine of \<^verbatim>\<open>WatchStaticPods\<close> as a state machine.
  \<^item> \<open>Toyctl\<close>: \<^verbatim>\<open>cmd/toyctl/main.go\<close>. \<open>Commands\<close>: the other mains under \<^verbatim>\<open>cmd/\<close>.

  \<^bold>\<open>State and operations.\<close> A struct is a record, a map a finite map or a function to options, an
  operation that may fail a function \<open>('w, 'a) operation\<close> from a world to an error or a value and
  the next world. The world is a type variable: a component is verified for every world its
  environment may have. \<open>andThen\<close> is the sequence with the return on an error. Go's \<open>int\<close> and
  \<open>int64\<close> are integers with the range checked where a value enters (\<open>valid_Resource\<close>); where the code
  truncates or shifts, words are used. A slice that may be nil is an option, which DeepEqual and JSON
  tell apart. Whatever Go leaves open is an argument: the order in which a map is visited, the
  messages of a channel, the answer of a \<^verbatim>\<open>select\<close>, the random bytes of a name.

  \<^bold>\<open>Interfaces.\<close> \<open>etcd_server\<close> states what an etcd server does on each call, errors included, and
  \<open>etcd_interface\<close> what \<open>EtcdClient\<close> makes of it; \<open>typed_api\<close> and \<open>cluster_api\<close> state what a client of
  the API sees. Sublocales carry each to the next, so that the theorems on scheduler, controllers,
  proxy, kubelet and \<^verbatim>\<open>toyctl\<close> hold for the real handlers over any such server. \<open>cri_runtime\<close> and
  \<open>cri_runtime_ids\<close> do the same for the runtime, \<open>runtime_host\<close> for the system calls below it,
  \<open>cni_network\<close> for the plugin, \<open>kubelet_node\<close> joins both sides. Each has an interpretation on the
  definitions of the model; an etcd server in memory and a plain host show that the assumptions on
  outside code can hold, and the witnesses compute on them.

  \<^bold>\<open>What the theorems show.\<close> The store stays well formed under every sequence of requests, and a
  version is accepted once. A reconciliation, on every path and whatever fails in it, changes only
  what it is about, and one that succeeds reaches its goal: Pods are bound to Ready nodes, each
  ReplicaSet has the Pods it wants, each assigned or static Pod runs, static Pods are mirrored, the
  proxy forwards exactly the rules of the listing. The loop around it misses no change, and returns
  only when it is cancelled. These theorems take a reconciliation as one sequence of calls. How
  reconciliations interleave is the matter of \<open>ControlPlane\<close>: a reconciliation during which nothing
  changes that it watches is one step, and changes of other kinds come before or after it; one that
  is disturbed may write anything the other clients may write, and any result, but its loop has been
  told and will run again. In every such interleaving a component at rest has done its job in the
  cluster of that moment, and with all at rest every Deployment has exactly its Pods, they are
  assigned, run on their nodes and are reported Running, and are forwarded to. The assumptions are on
  the others only: for other clients, names fit into URLs and no Pod has two ReplicaSets as owners;
  what happens in a runtime otherwise keeps its consistency, a container that stops on its own
  included. The kubelets of \<open>ControlPlane\<close> have no manifest directory, as on a worker node:
  the mirror Pods of static Pods have a theorem of their own (\<open>static_pods_mirrored\<close>).
  \<open>version_used_once\<close> and the step relation of \<open>StoreInvariant\<close> are about
  single requests, in any order. The runtime keeps its containers and sandboxes consistent under any
  sequence of requests, announces every change, and never gives one address to two Pods; its end
  stops every container and no sandbox. The watch on the manifests loses no change. The
  supervisor leaves no process unsignalled. Arguments, requests and resources survive their encoding.

  \<^bold>\<open>Bounds and fuel.\<close> There is no fuel: recursion is on lists, or with a measure (the search for a
  free Pod name passes used names only). Loops that wait for the world take its answers as a list,
  and a result \<open>None\<close> is a loop that is not over (\<open>registerNode\<close>), or they are step relations
  (\<open>ReconcileLoop\<close>, \<open>ControlLoops\<close>, \<open>Supervisor\<close>, \<open>ManifestWatch\<close>).

  \<^bold>\<open>Outside code\<close>, all of it arguments: the etcd server, whose calls may fail with or without
  their effect; the HTTP transport, which in \<open>ClientStack\<close> brings a request to the handler and its
  answer back; commands and system calls, the file system, the YAML decoder, the link between
  kubelet and runtime, which may fail.

  \<^bold>\<open>Not modelled.\<close> Log output, except that of the reconcile loop; the scheduling of goroutines below
  the steps above: the runtime's connections are handled one after the other except in
  \<open>container_race\<close>; data races; clone flags, inherited descriptors and the mounts of a container; the
  HTTP listener of the API server. Signals and timeouts are events or answers.
\<close>

end
